(* ===== verification/Go_Prelude.thy ===== *)
theory Go_Prelude
  imports Main "HOL-Library.Word" "HOL-Library.Multiset" "HOL-Library.Char_ord"
    "HOL-Library.List_Lexorder" "HOL-Library.Monad_Syntax" "HOL-Library.Sublist"
begin

text \<open>
  What every component of the model shares: the Go machine integers, \<open>time.Time\<close> and
  \<open>time.Duration\<close>, the byte-string functions of package \<open>strings\<close> that the program calls,
  the index swap of slices, and the lemma collections the component theories extend.

  A Go \<open>uint64\<close> is a \<open>64 word\<close>.  A Go \<open>int\<close> or \<open>int64\<close> is an \<open>int\<close> whose arithmetic is
  brought back into range by \<open>wrap64\<close> wherever the source multiplies or adds.  A
  \<open>time.Time\<close> is the \<open>int\<close> of nanoseconds since the Unix epoch (its own range, a 64-bit
  count of seconds, is far beyond what a \<open>Duration\<close> can reach from a real clock), and Go's
  zero \<open>Time\<close> is the first instant of year 1.  A Go string is a \<open>string\<close> of bytes.
  A function that can dereference a nil pointer returns an \<open>option\<close>: \<open>None\<close> is the panic.
\<close>

section \<open>Lemma collections\<close>

named_theorems rl_simps \<open>unfolding rules of the limiter's operations\<close>
named_theorems inv_intros \<open>preservation lemmas of the components' invariants\<close>

section \<open>Machine integers\<close>

type_synonym uint64 = "64 word"
type_synonym go_int = int

definition wrap64 :: "int \<Rightarrow> go_int" where
  "wrap64 x = (x + 2 ^ 63) mod 2 ^ 64 - 2 ^ 63"

definition in_int64 :: "int \<Rightarrow> bool" where
  "in_int64 x \<longleftrightarrow> - (2 ^ 63) \<le> x \<and> x < 2 ^ 63"

lemma wrap64_id [simp]: "in_int64 x \<Longrightarrow> wrap64 x = x"
  by (simp add: wrap64_def in_int64_def)

lemma wrap64_in_range [simp]: "in_int64 (wrap64 x)"
proof -
  have "0 \<le> (x + 2 ^ 63) mod 2 ^ 64" and "(x + 2 ^ 63) mod 2 ^ 64 < (2 :: int) ^ 64"
    by simp_all
  then show ?thesis by (simp add: wrap64_def in_int64_def)
qed

text \<open>Division of Go integers truncates towards zero.\<close>

definition go_quot :: "int \<Rightarrow> int \<Rightarrow> int" where
  "go_quot a b = sgn a * sgn b * (\<bar>a\<bar> div \<bar>b\<bar>)"

section \<open>Time\<close>

type_synonym go_time = int
type_synonym duration = int

definition zero_time :: go_time where
  "zero_time = -62135596800 * 10 ^ 9"

definition IsZero :: "go_time \<Rightarrow> bool" where
  "IsZero t \<longleftrightarrow> t = zero_time"

definition After :: "go_time \<Rightarrow> go_time \<Rightarrow> bool" where
  [simp]: "After t u \<longleftrightarrow> u < t"

definition Before :: "go_time \<Rightarrow> go_time \<Rightarrow> bool" where
  [simp]: "Before t u \<longleftrightarrow> t < u"

definition Add :: "go_time \<Rightarrow> duration \<Rightarrow> go_time" where
  [simp]: "Add t d = t + d"

text \<open>\<open>Time.Sub\<close> saturates at the ends of the \<open>Duration\<close> range.\<close>

definition Sub :: "go_time \<Rightarrow> go_time \<Rightarrow> duration" where
  "Sub t u = max (- (2 ^ 63)) (min (2 ^ 63 - 1) (t - u))"

definition UnixMilli :: "go_time \<Rightarrow> go_int" where
  "UnixMilli t = wrap64 (t div 10 ^ 6)"

definition Second :: duration where "Second = 10 ^ 9"
definition Millisecond :: duration where "Millisecond = 10 ^ 6"

text \<open>\<open>time.Duration(n) * unit\<close>: a 64-bit product.\<close>

definition dur :: "go_int \<Rightarrow> duration \<Rightarrow> duration" where
  "dur n unit = wrap64 (n * unit)"

lemma dur_seconds: "in_int64 (n * 10 ^ 9) \<Longrightarrow> dur n Second = n * 10 ^ 9"
  by (simp add: dur_def Second_def)

section \<open>Searching\<close>

lemma find_NoneD: "find P xs = None \<Longrightarrow> x \<in> set xs \<Longrightarrow> \<not> P x"
  by (auto simp: find_None_iff)

lemma find_SomeD: "find P xs = Some x \<Longrightarrow> x \<in> set xs \<and> P x"
  by (auto simp: find_Some_iff)

section \<open>Decimal numbers\<close>

text \<open>\<open>strconv.FormatUint(n, 10)\<close>, and \<open>%d\<close> of an integer.\<close>

definition digit :: "nat \<Rightarrow> char" where
  "digit d = char_of (48 + d)"

fun decimal :: "nat \<Rightarrow> string" where
  "decimal n = (if n < 10 then [digit n] else decimal (n div 10) @ [digit (n mod 10)])"

declare decimal.simps [simp del]

definition show_int :: "int \<Rightarrow> string" where
  "show_int i = (if i < 0 then CHR ''-'' # decimal (nat (- i)) else decimal (nat i))"

text \<open>Reading the digits back gives the number, so different numbers have different numerals.\<close>

definition numeral_value :: "string \<Rightarrow> nat" where
  "numeral_value s = foldl (\<lambda>n c. 10 * n + (of_char c - 48)) 0 s"

lemma of_char_digit: "d < 10 \<Longrightarrow> (of_char (digit d) :: nat) = 48 + d"
  by (simp add: digit_def)

lemma numeral_value_decimal [simp]: "numeral_value (decimal n) = n"
proof (induction n rule: decimal.induct)
  case (1 n)
  show ?case
  proof (cases "n < 10")
    case True
    then show ?thesis by (simp add: decimal.simps[of n] numeral_value_def of_char_digit)
  next
    case False
    then show ?thesis
      using 1 by (simp add: decimal.simps[of n] numeral_value_def of_char_digit)
  qed
qed

lemma decimal_inject [simp]: "decimal m = decimal n \<longleftrightarrow> m = n"
  by (metis numeral_value_decimal)

lemma digit_in_range: "d < 10 \<Longrightarrow> digit d \<in> digit ` {0..<10}"
  by simp

lemma decimal_digits: "set (decimal n) \<subseteq> digit ` {0..<10}"
proof (induction n rule: decimal.induct)
  case (1 n)
  then show ?case by (subst decimal.simps) (auto simp: digit_in_range)
qed

lemma decimal_nonempty [simp]: "decimal n \<noteq> []"
  by (subst decimal.simps) simp

lemma colon_not_digit: "CHR '':'' \<notin> digit ` {0..<10}"
  by (auto simp: digit_def dest!: arg_cong[where f = "of_char :: char \<Rightarrow> nat"])

lemma decimal_no_colon [simp]: "CHR '':'' \<notin> set (decimal n)"
  using decimal_digits[of n] colon_not_digit by blast

section \<open>Byte strings\<close>

text \<open>
  \<open>strings.TrimSpace\<close> removes leading and trailing Unicode white space.  The encodings of
  the white space characters are listed as bytes; none is a prefix or a suffix of another,
  so removing them one at a time from either end is what decoding rune by rune does.
\<close>

definition space_codes :: "string list" where
  "space_codes =
     [[CHR 0x09], [CHR 0x0A], [CHR 0x0B], [CHR 0x0C], [CHR 0x0D], [CHR 0x20],
      [CHR 0xC2, CHR 0x85], [CHR 0xC2, CHR 0xA0], [CHR 0xE1, CHR 0x9A, CHR 0x80],
      [CHR 0xE2, CHR 0x80, CHR 0x80], [CHR 0xE2, CHR 0x80, CHR 0x81], [CHR 0xE2, CHR 0x80, CHR 0x82],
      [CHR 0xE2, CHR 0x80, CHR 0x83], [CHR 0xE2, CHR 0x80, CHR 0x84], [CHR 0xE2, CHR 0x80, CHR 0x85],
      [CHR 0xE2, CHR 0x80, CHR 0x86], [CHR 0xE2, CHR 0x80, CHR 0x87], [CHR 0xE2, CHR 0x80, CHR 0x88],
      [CHR 0xE2, CHR 0x80, CHR 0x89], [CHR 0xE2, CHR 0x80, CHR 0x8A], [CHR 0xE2, CHR 0x80, CHR 0xA8],
      [CHR 0xE2, CHR 0x80, CHR 0xA9], [CHR 0xE2, CHR 0x80, CHR 0xAF], [CHR 0xE2, CHR 0x81, CHR 0x9F],
      [CHR 0xE3, CHR 0x80, CHR 0x80]]"

definition leading_space :: "string \<Rightarrow> nat" where
  "leading_space s = (case find (\<lambda>w. prefix w s) space_codes of None \<Rightarrow> 0 | Some w \<Rightarrow> length w)"

lemma space_codes_nonempty: "w \<in> set space_codes \<Longrightarrow> w \<noteq> []"
  by (auto simp: space_codes_def)

function trim_left :: "string \<Rightarrow> string" where
  "trim_left s =
     (if leading_space s = 0 \<or> s = [] then s else trim_left (drop (leading_space s) s))"
  by pat_completeness auto
termination by (relation "measure length") auto

declare trim_left.simps [simp del]

definition trailing_space :: "string \<Rightarrow> nat" where
  "trailing_space s = (case find (\<lambda>w. suffix w s) space_codes of None \<Rightarrow> 0 | Some w \<Rightarrow> length w)"

function trim_right :: "string \<Rightarrow> string" where
  "trim_right s =
     (if trailing_space s = 0 \<or> s = [] then s
      else trim_right (take (length s - trailing_space s) s))"
  by pat_completeness auto
termination by (relation "measure length") auto

declare trim_right.simps [simp del]

definition TrimSpace :: "string \<Rightarrow> string" where
  "TrimSpace s = trim_right (trim_left s)"

text \<open>
  \<open>strings.ToLower\<close> on ASCII bytes, and on the two other characters whose lower case is ASCII
  (the dotted capital I and the Kelvin sign).  Other multi-byte characters stay multi-byte in
  Go and are left as they are here: the program compares the result with ASCII words only, for
  which the model is exact.
\<close>

definition lower_byte :: "char \<Rightarrow> char" where
  "lower_byte c = (if CHR ''A'' \<le> c \<and> c \<le> CHR ''Z'' then char_of (of_char c + 32 :: nat) else c)"

function ToLower :: "string \<Rightarrow> string" where
  "ToLower s =
     (if prefix [CHR 0xC4, CHR 0xB0] s then CHR ''i'' # ToLower (drop 2 s)
      else if prefix [CHR 0xE2, CHR 0x84, CHR 0xAA] s then CHR ''k'' # ToLower (drop 3 s)
      else case s of [] \<Rightarrow> [] | c # cs \<Rightarrow> lower_byte c # ToLower cs)"
  by pat_completeness auto
termination by (relation "measure length") (auto simp: prefix_def)

declare ToLower.simps [simp del]

definition HasPrefix :: "string \<Rightarrow> string \<Rightarrow> bool" where
  [simp]: "HasPrefix s p \<longleftrightarrow> prefix p s"

definition TrimPrefix :: "string \<Rightarrow> string \<Rightarrow> string" where
  "TrimPrefix s p = (if prefix p s then drop (length p) s else s)"

lemma TrimSpace_Nil [simp]: "TrimSpace [] = []"
  by (simp add: TrimSpace_def trim_left.simps trim_right.simps)

text \<open>Trimming twice is trimming once.\<close>

lemma leading_space_0: "leading_space s = 0 \<longleftrightarrow> (\<forall>w \<in> set space_codes. \<not> prefix w s)"
proof (cases "find (\<lambda>w. prefix w s) space_codes")
  case None
  then show ?thesis using find_NoneD[OF None] by (auto simp: leading_space_def)
next
  case (Some w)
  then have w: "w \<in> set space_codes" "prefix w s" using find_SomeD[OF Some] by auto
  then have "length w \<noteq> 0" using space_codes_nonempty by simp
  with Some w show ?thesis unfolding leading_space_def by auto
qed

lemma trailing_space_0: "trailing_space s = 0 \<longleftrightarrow> (\<forall>w \<in> set space_codes. \<not> suffix w s)"
proof (cases "find (\<lambda>w. suffix w s) space_codes")
  case None
  then show ?thesis using find_NoneD[OF None] by (auto simp: trailing_space_def)
next
  case (Some w)
  then have w: "w \<in> set space_codes" "suffix w s" using find_SomeD[OF Some] by auto
  then have "length w \<noteq> 0" using space_codes_nonempty by simp
  with Some w show ?thesis unfolding trailing_space_def by auto
qed

lemma trim_left_done: "leading_space (trim_left s) = 0"
proof (induction s rule: trim_left.induct)
  case (1 s)
  have "leading_space [] = 0" by (auto simp: leading_space_0 space_codes_nonempty)
  with 1 show ?case by (cases "leading_space s = 0 \<or> s = []") (auto simp: trim_left.simps[of s])
qed

lemma trim_right_done: "trailing_space (trim_right s) = 0"
proof (induction s rule: trim_right.induct)
  case (1 s)
  have "trailing_space [] = 0" by (auto simp: trailing_space_0 space_codes_nonempty)
  with 1 show ?case by (cases "trailing_space s = 0 \<or> s = []") (auto simp: trim_right.simps[of s])
qed

lemma trim_right_prefix: "prefix (trim_right s) s"
proof (induction s rule: trim_right.induct)
  case (1 s)
  then show ?case
    by (cases "trailing_space s = 0 \<or> s = []")
       (auto simp: trim_right.simps[of s] intro: prefix_order.trans[OF _ take_is_prefix])
qed

lemma TrimSpace_idem [simp]: "TrimSpace (TrimSpace s) = TrimSpace s"
proof -
  have "leading_space (TrimSpace s) = 0"
    using trim_left_done[of s] prefix_order.trans[OF _ trim_right_prefix]
    unfolding leading_space_0 TrimSpace_def by blast
  then have "trim_left (TrimSpace s) = TrimSpace s" by (subst trim_left.simps) simp
  moreover have "trim_right (TrimSpace s) = TrimSpace s"
    using trim_right_done[of "trim_left s"] unfolding TrimSpace_def by (subst trim_right.simps) simp
  ultimately show ?thesis by (simp add: TrimSpace_def)
qed

section \<open>Slices\<close>

text \<open>\<open>s[i], s[j] = s[j], s[i]\<close>\<close>

definition swap_list :: "'a list \<Rightarrow> nat \<Rightarrow> nat \<Rightarrow> 'a list" where
  "swap_list xs i j = xs[i := xs ! j, j := xs ! i]"

lemma length_swap_list [simp]: "length (swap_list xs i j) = length xs"
  by (simp add: swap_list_def)

lemma swap_list_eq_Nil [simp]: "swap_list xs i j = [] \<longleftrightarrow> xs = []"
  by (simp add: swap_list_def)

lemma nth_swap_list:
  "i < length xs \<Longrightarrow> j < length xs \<Longrightarrow> k < length xs \<Longrightarrow>
   swap_list xs i j ! k = (if k = j then xs ! i else if k = i then xs ! j else xs ! k)"
  by (auto simp: swap_list_def nth_list_update)

lemma mset_swap_list [simp]:
  "i < length xs \<Longrightarrow> j < length xs \<Longrightarrow> mset (swap_list xs i j) = mset xs"
  by (simp add: swap_list_def mset_swap)

lemma set_swap_list [simp]:
  "i < length xs \<Longrightarrow> j < length xs \<Longrightarrow> set (swap_list xs i j) = set xs"
  by (metis mset_swap_list set_mset_mset)

lemma drop_swap_list: "i < n \<Longrightarrow> j < n \<Longrightarrow> drop n (swap_list xs i j) = drop n xs"
  by (simp add: swap_list_def)

lemma map_swap_list:
  "i < length xs \<Longrightarrow> j < length xs \<Longrightarrow> map f (swap_list xs i j) = swap_list (map f xs) i j"
  by (simp add: swap_list_def map_update)

section \<open>Sums of words\<close>

text \<open>A sum of words that stays below the word size is the sum of their values.\<close>

lemma unat_add_no_overflow:
  fixes a b :: "'a::len word"
  shows "unat a + unat b < 2 ^ LENGTH('a) \<Longrightarrow> unat (a + b) = unat a + unat b"
  by (simp add: unat_add_lem)

lemma unat_sub_le:
  fixes a b :: "'a::len word"
  shows "b \<le> a \<Longrightarrow> unat (a - b) = unat a - unat b"
  by (rule unat_sub)

section \<open>Loops over requests\<close>

text \<open>
  A loop that handles the items of a batch in turn on a state and collects the results; \<open>None\<close>
  is a panic.
\<close>

fun run_items :: "('b \<Rightarrow> 'q \<Rightarrow> ('b \<times> 'r) option) \<Rightarrow> 'b \<Rightarrow> 'q list \<Rightarrow> ('b \<times> 'r list) option" where
  "run_items f b [] = Some (b, [])"
| "run_items f b (x # xs) =
     do { (b1, r) \<leftarrow> f b x; (b2, rs) \<leftarrow> run_items f b1 xs; Some (b2, r # rs) }"

lemma run_items_total:
  assumes "\<And>b x. I b \<Longrightarrow> \<exists>b' r. f b x = Some (b', r) \<and> I b'"
  shows "I b \<Longrightarrow> \<exists>b' rs. run_items f b xs = Some (b', rs) \<and> I b' \<and> length rs = length xs"
proof (induction xs arbitrary: b)
  case (Cons x xs)
  obtain b1 r where "f b x = Some (b1, r)" "I b1" using assms[OF Cons.prems] by blast
  then show ?case using Cons.IH[of b1] by fastforce
qed simp

lemma run_items_sim:
  assumes step: "\<And>h x. P h \<Longrightarrow> f (g h) x = map_option (\<lambda>(h', y). (g h', res y)) (F h x)"
    and keep: "\<And>h x h' y. P h \<Longrightarrow> F h x = Some (h', y) \<Longrightarrow> P h'"
  shows "P h \<Longrightarrow> run_items f (g h) xs = map_option (\<lambda>(h', ys). (g h', map res ys)) (run_items F h xs)"
proof (induction xs arbitrary: h)
  case (Cons x xs)
  show ?case
  proof (cases "F h x")
    case None
    then show ?thesis using step[OF Cons.prems, of x] by simp
  next
    case (Some hy)
    obtain h1 y where hy: "hy = (h1, y)" by (cases hy)
    have "f (g h) x = Some (g h1, res y)" using step[OF Cons.prems, of x] Some hy by simp
    moreover have "run_items f (g h1) xs =
        map_option (\<lambda>(h', ys). (g h', map res ys)) (run_items F h1 xs)"
      using Cons.IH keep[OF Cons.prems] Some hy by blast
    ultimately show ?thesis using Some hy by (cases "run_items F h1 xs") auto
  qed
qed simp

lemma run_items_keep:
  assumes "\<And>h x h' y. P h \<Longrightarrow> F h x = Some (h', y) \<Longrightarrow> P h'"
  shows "P h \<Longrightarrow> run_items F h xs = Some (h', ys) \<Longrightarrow> P h'"
proof (induction xs arbitrary: h ys)
  case (Cons x xs)
  then obtain h1 y zs where "F h x = Some (h1, y)" "run_items F h1 xs = Some (h', zs)"
    by (auto split: Option.bind_splits prod.splits)
  with Cons assms show ?case by blast
qed simp

end
