(* ===== verification/RL_Types.thy ===== *)
theory RL_Types
  imports Go_Prelude
begin

text \<open>
  The public data of package \<open>pkg/ratelimiter\<close> (types.go, requests.go), the requirements an
  LLM call is turned into (requirements.go, requirement\_keys.go) and the limiter that allows
  everything (noop.go).  Kinds, policies and statuses are string types in the source, not
  closed enumerations: a persisted or posted value may be any string, so they are strings here.
\<close>

section \<open>Limits\<close>

type_synonym limit_key = string
type_synonym limit_kind = string
type_synonym overage_policy = string
type_synonym limit_status = string

definition KindRolling :: limit_kind where "KindRolling = ''rolling''"
definition KindConcurrency :: limit_kind where "KindConcurrency = ''concurrency''"
definition OverageDeny :: overage_policy where "OverageDeny = ''deny''"
definition OverageDebt :: overage_policy where "OverageDebt = ''debt''"
definition LimitStatusActive :: limit_status where "LimitStatusActive = ''active''"
definition LimitStatusDecreasing :: limit_status where "LimitStatusDecreasing = ''decreasing''"

lemma kinds_distinct [simp]:
  "KindRolling \<noteq> KindConcurrency" "KindConcurrency \<noteq> KindRolling"
  by (simp_all add: KindRolling_def KindConcurrency_def)

lemma statuses_distinct [simp]:
  "LimitStatusActive \<noteq> LimitStatusDecreasing" "LimitStatusDecreasing \<noteq> LimitStatusActive"
  by (simp_all add: LimitStatusActive_def LimitStatusDecreasing_def)

lemma overages_distinct [simp]:
  "OverageDeny \<noteq> OverageDebt" "OverageDebt \<noteq> OverageDeny"
  by (simp_all add: OverageDeny_def OverageDebt_def)

record limit_definition =
  Key :: limit_key
  Kind :: limit_kind
  Capacity :: uint64
  WindowSeconds :: go_int
  TimeoutSeconds :: go_int
  Unit :: string
  Description :: string
  Overage :: overage_policy

record limit_state =
  Definition :: limit_definition
  Status :: limit_status
  PendingDecreaseTo :: uint64

record requirement =
  RKey :: limit_key
  Amount :: uint64

record actual =
  AKey :: limit_key
  ActualAmount :: uint64

section \<open>Requests and responses\<close>

record reserve_request =
  LeaseID :: string
  JobID :: string
  Requirements :: "requirement list"

record reserve_response =
  Allowed :: bool
  RetryAfterMs :: go_int
  ReservedAtUnixMs :: go_int
  Error :: string

record complete_request =
  CLeaseID :: string
  CJobID :: string
  Actuals :: "actual list"

record complete_response =
  Ok :: bool
  CError :: string

type_synonym batch_reserve_request = "reserve_request list"

record batch_reserve_result =
  BAllowed :: bool
  BRetryAfterMs :: go_int
  BReservedAtUnix :: go_int
  BError :: string

type_synonym batch_reserve_response = "batch_reserve_result list"
type_synonym batch_complete_request = "complete_request list"

record batch_complete_result =
  BOk :: bool
  BCError :: string

type_synonym batch_complete_response = "batch_complete_result list"

text \<open>The zero values of the response structs.\<close>

definition reserve_response0 :: reserve_response where
  "reserve_response0 = \<lparr>Allowed = False, RetryAfterMs = 0, ReservedAtUnixMs = 0, Error = []\<rparr>"

definition complete_response0 :: complete_response where
  "complete_response0 = \<lparr>Ok = False, CError = []\<rparr>"

text \<open>
  The copy of a response into a batch result, and back, field by field: the first is written
  out in the handlers and the local client, the second in the batcher.
\<close>

definition to_batch_reserve :: "reserve_response \<Rightarrow> batch_reserve_result" where
  "to_batch_reserve r =
     \<lparr>BAllowed = Allowed r, BRetryAfterMs = RetryAfterMs r,
      BReservedAtUnix = ReservedAtUnixMs r, BError = Error r\<rparr>"

definition of_batch_reserve :: "batch_reserve_result \<Rightarrow> reserve_response" where
  "of_batch_reserve r =
     \<lparr>Allowed = BAllowed r, RetryAfterMs = BRetryAfterMs r,
      ReservedAtUnixMs = BReservedAtUnix r, Error = BError r\<rparr>"

definition to_batch_complete :: "complete_response \<Rightarrow> batch_complete_result" where
  "to_batch_complete r = \<lparr>BOk = Ok r, BCError = CError r\<rparr>"

definition of_batch_complete :: "batch_complete_result \<Rightarrow> complete_response" where
  "of_batch_complete r = \<lparr>Ok = BOk r, CError = BCError r\<rparr>"

lemma of_to_batch_reserve [simp]: "of_batch_reserve (to_batch_reserve r) = r"
  by (simp add: of_batch_reserve_def to_batch_reserve_def)

lemma of_to_batch_complete [simp]: "of_batch_complete (to_batch_complete r) = r"
  by (simp add: of_batch_complete_def to_batch_complete_def)

text \<open>Go's \<open>error\<close>: \<open>None\<close> is \<open>nil\<close>, \<open>Some\<close> carries the message.\<close>

type_synonym go_error = "string option"

section \<open>Requirements of an LLM call\<close>

record llm_reserve_input =
  ILeaseID :: string
  IJobID :: string
  ITenantID :: string
  IProvider :: string
  IModel :: string
  IPrompt :: string
  IMaxOutputTokens :: uint64
  IWantDailyBudget :: bool

definition buildRPMKey :: "string \<Rightarrow> string \<Rightarrow> string" where
  "buildRPMKey provider model = ''global:llm:'' @ provider @ '':'' @ model @ '':rpm''"

definition buildTPMKey :: "string \<Rightarrow> string \<Rightarrow> string" where
  "buildTPMKey provider model = ''global:llm:'' @ provider @ '':'' @ model @ '':tpm''"

definition buildConcurrencyKey :: "string \<Rightarrow> string \<Rightarrow> string" where
  "buildConcurrencyKey provider model = ''global:llm:'' @ provider @ '':'' @ model @ '':concurrency''"

definition buildDailyKey :: "string \<Rightarrow> string" where
  "buildDailyKey tenantID = ''tenant:'' @ tenantID @ '':llm:daily_tokens''"

definition EstimatePromptTokens :: "string \<Rightarrow> uint64" where
  "EstimatePromptTokens prompt = of_nat (length prompt)"

definition BuildLLMRequirements :: "llm_reserve_input \<Rightarrow> requirement list" where
  "BuildLLMRequirements inp =
     (let upper = EstimatePromptTokens (IPrompt inp) + IMaxOutputTokens inp;
          reqs =
            [\<lparr>RKey = buildRPMKey (IProvider inp) (IModel inp), Amount = 1\<rparr>,
             \<lparr>RKey = buildTPMKey (IProvider inp) (IModel inp), Amount = upper\<rparr>,
             \<lparr>RKey = buildConcurrencyKey (IProvider inp) (IModel inp), Amount = 1\<rparr>]
      in if IWantDailyBudget inp
         then reqs @ [\<lparr>RKey = buildDailyKey (ITenantID inp), Amount = upper\<rparr>]
         else reqs)"

text \<open>
  The four keys are pairwise different whatever the provider, the model and the tenant are, so
  an LLM call never asks twice for one limit.  The last byte tells the per-model keys apart,
  the first byte the tenant's.
\<close>

lemma llm_keys_distinct:
  "buildRPMKey p m \<noteq> buildTPMKey p m"
  "buildRPMKey p m \<noteq> buildConcurrencyKey p m"
  "buildTPMKey p m \<noteq> buildConcurrencyKey p m"
  "buildDailyKey t \<noteq> buildRPMKey p m"
  "buildDailyKey t \<noteq> buildTPMKey p m"
  "buildDailyKey t \<noteq> buildConcurrencyKey p m"
proof -
  have "last (buildConcurrencyKey p m) = CHR ''y''"
    by (simp add: buildConcurrencyKey_def)
  moreover have "last (buildRPMKey p m) = CHR ''m''" "last (buildTPMKey p m) = CHR ''m''"
    by (simp_all add: buildRPMKey_def buildTPMKey_def)
  ultimately show "buildRPMKey p m \<noteq> buildConcurrencyKey p m"
    and "buildTPMKey p m \<noteq> buildConcurrencyKey p m" by auto
qed (simp_all add: buildRPMKey_def buildTPMKey_def buildConcurrencyKey_def buildDailyKey_def)

lemma BuildLLMRequirements_distinct:
  "distinct (map RKey (BuildLLMRequirements inp))"
  by (auto simp: BuildLLMRequirements_def Let_def llm_keys_distinct llm_keys_distinct[symmetric])

lemma BuildLLMRequirements_nonempty [simp]: "BuildLLMRequirements inp \<noteq> []"
  by (simp add: BuildLLMRequirements_def Let_def)

section \<open>The limiter that allows everything\<close>

definition noop_Reserve :: "reserve_request \<Rightarrow> reserve_response \<times> go_error" where
  "noop_Reserve req = (reserve_response0\<lparr>Allowed := True\<rparr>, None)"

definition noop_Complete :: "complete_request \<Rightarrow> complete_response \<times> go_error" where
  "noop_Complete req = (complete_response0\<lparr>Ok := True\<rparr>, None)"

definition noop_BatchReserve :: "batch_reserve_request \<Rightarrow> batch_reserve_response \<times> go_error" where
  "noop_BatchReserve req = (map (\<lambda>_. to_batch_reserve (reserve_response0\<lparr>Allowed := True\<rparr>)) req, None)"

definition noop_BatchComplete :: "batch_complete_request \<Rightarrow> batch_complete_response \<times> go_error" where
  "noop_BatchComplete req = (map (\<lambda>_. to_batch_complete (complete_response0\<lparr>Ok := True\<rparr>)) req, None)"

end
