(* ===== verification/Registry.thy ===== *)
theory Registry
  imports RL_Types
begin

text \<open>
  The limit registry (internal/registry/registry.go, persistence.go): limit states by key,
  listed in key order, the state a new definition leads to, and the JSON file the states are
  saved to and loaded from.  Go's map iteration order is an argument of \<open>registry_List\<close>, and
  the result is shown not to depend on it.  The file system is a map from paths to contents;
  the outcome of each call (which the environment decides) is an argument of the operations,
  and \<open>registry_Save\<close> returns every state the file system goes through, so that a crash between
  two calls is covered.  JSON encoding and decoding are arguments too.
\<close>

section \<open>The registry\<close>

type_synonym registry = "limit_key \<rightharpoonup> limit_state"

definition registry_New :: registry where
  "registry_New = Map.empty"

definition registry_Get :: "registry \<Rightarrow> limit_key \<Rightarrow> limit_state option" where
  "registry_Get r k = r k"

definition registry_Put :: "registry \<Rightarrow> limit_state \<Rightarrow> registry" where
  "registry_Put r state = r(Key (Definition state) \<mapsto> state)"

definition state_key :: "limit_state \<Rightarrow> limit_key" where
  "state_key s = Key (Definition s)"

definition registry_List :: "limit_key list \<Rightarrow> registry \<Rightarrow> limit_state list" where
  "registry_List order r = sort_key state_key (List.map_filter r order)"

definition nextState :: "limit_state option \<Rightarrow> limit_definition \<Rightarrow> limit_state" where
  "nextState prev def =
     (case prev of
        None \<Rightarrow> \<lparr>Definition = def, Status = LimitStatusActive, PendingDecreaseTo = 0\<rparr>
      | Some p \<Rightarrow>
          if Capacity def \<ge> Capacity (Definition p) then
            \<lparr>Definition = def, Status = LimitStatusActive, PendingDecreaseTo = 0\<rparr>
          else
            \<lparr>Definition = Definition p, Status = LimitStatusDecreasing,
             PendingDecreaseTo = Capacity def\<rparr>)"

definition registry_NextState :: "registry \<Rightarrow> limit_definition \<Rightarrow> limit_state" where
  "registry_NextState r def = nextState (r (Key def)) def"

section \<open>Persistence\<close>

type_synonym disk = "string \<rightharpoonup> string"

text \<open>
  How the calls of one \<open>Save\<close> end: \<open>None\<close> is success, \<open>Some e\<close> the error.  A failed write has
  written a prefix of the payload, whose length is \<open>fsWritten\<close>; \<open>fsRemoved\<close> says whether the
  removal of the temporary file, whose error the code ignores, succeeded.
\<close>

record fs_outcome =
  fsMkdir :: go_error
  fsOpen :: go_error
  fsWrite :: go_error
  fsWritten :: nat
  fsSync :: go_error
  fsClose :: go_error
  fsRename :: go_error
  fsRemoved :: bool

definition tmp_path :: "string \<Rightarrow> string" where
  "tmp_path path = path @ ''.tmp''"

definition fs_remove :: "fs_outcome \<Rightarrow> disk \<Rightarrow> string \<Rightarrow> disk" where
  "fs_remove fs d p = (if fsRemoved fs then d(p := None) else d)"

text \<open>
  \<open>Save\<close> returns the states of the file system after its calls, the last one first, and the
  error.  The write, the sync and the close are all done before their errors are looked at.
\<close>

definition registry_Save ::
    "(limit_state list \<Rightarrow> string) \<Rightarrow> fs_outcome \<Rightarrow> limit_key list \<Rightarrow> registry \<Rightarrow> string \<Rightarrow> disk \<Rightarrow>
     disk list \<times> go_error" where
  "registry_Save enc fs order r path d =
     (if path = [] then ([d], Some ''registry path is required'')
      else
        let payload = enc (registry_List order r); tmp = tmp_path path in
        if fsMkdir fs \<noteq> None then ([d], fsMkdir fs)
        else if fsOpen fs \<noteq> None then ([d], fsOpen fs)
        else
          let d1 = d(tmp \<mapsto> []);
              d2 = d(tmp \<mapsto> (if fsWrite fs = None then payload else take (fsWritten fs) payload)) in
          if fsWrite fs \<noteq> None then ([fs_remove fs d2 tmp, d2, d1, d], fsWrite fs)
          else if fsSync fs \<noteq> None then ([fs_remove fs d2 tmp, d2, d1, d], fsSync fs)
          else if fsClose fs \<noteq> None then ([fs_remove fs d2 tmp, d2, d1, d], fsClose fs)
          else if fsRename fs \<noteq> None then ([fs_remove fs d2 tmp, d2, d1, d], fsRename fs)
          else ([d2(path \<mapsto> payload, tmp := None), d2, d1, d], None))"

definition registry_of_list :: "limit_state list \<Rightarrow> registry" where
  "registry_of_list states = fold (\<lambda>s r. registry_Put r s) states Map.empty"

text \<open>\<open>readErr\<close> is an error of \<open>os.ReadFile\<close> other than that the file does not exist.\<close>

definition registry_Load ::
    "(string \<Rightarrow> limit_state list + string) \<Rightarrow> go_error \<Rightarrow> registry \<Rightarrow> string \<Rightarrow> disk \<Rightarrow>
     registry \<times> go_error" where
  "registry_Load dec readErr r path d =
     (if path = [] then (r, Some ''registry path is required'')
      else case readErr of
        Some e \<Rightarrow> (r, Some e)
      | None \<Rightarrow>
         (case d path of
            None \<Rightarrow> (r, None)
          | Some data \<Rightarrow>
             (case dec data of
                Inr e \<Rightarrow> (r, Some e)
              | Inl states \<Rightarrow> (registry_of_list states, None))))"

section \<open>The registry interface\<close>

text \<open>
  What the handlers and the backend rely on: a state that was put is found under its key and
  nothing else changes.  The laws are proved once for the code's registry.
\<close>

locale registry_ops =
  fixes get :: "'r \<Rightarrow> limit_key \<Rightarrow> limit_state option"
    and put :: "'r \<Rightarrow> limit_state \<Rightarrow> 'r"
    and good :: "'r \<Rightarrow> bool"
  assumes get_put: "get (put r s) k = (if k = state_key s then Some s else get r k)"
    and put_good: "good r \<Longrightarrow> good (put r s)"
    and get_key: "good r \<Longrightarrow> get r k = Some s \<Longrightarrow> state_key s = k"
begin

lemma put_same: "get (put r s) (state_key s) = Some s"
  by (simp add: get_put)

lemma put_other: "k \<noteq> state_key s \<Longrightarrow> get (put r s) k = get r k"
  by (simp add: get_put)

lemma put_put: "state_key s = state_key s' \<Longrightarrow> get (put (put r s) s') k = get (put r s') k"
  by (simp add: get_put)

lemma put_get: "good r \<Longrightarrow> get r k = Some s \<Longrightarrow> get (put r s) k' = get r k'"
  by (auto simp: get_put dest: get_key)

end

definition wf_registry :: "registry \<Rightarrow> bool" where
  "wf_registry r \<longleftrightarrow> (\<forall>k s. r k = Some s \<longrightarrow> state_key s = k)"

interpretation reg: registry_ops registry_Get registry_Put wf_registry
  by unfold_locales
     (auto simp: registry_Get_def registry_Put_def state_key_def wf_registry_def split: if_splits)

lemma wf_registry_New [inv_intros]: "wf_registry registry_New"
  by (simp add: wf_registry_def registry_New_def)

lemma wf_registry_Put [inv_intros]: "wf_registry r \<Longrightarrow> wf_registry (registry_Put r s)"
  by (rule reg.put_good)

section \<open>Listing\<close>

text \<open>An iteration order of the map: every key once.\<close>

definition iterates :: "limit_key list \<Rightarrow> registry \<Rightarrow> bool" where
  "iterates order r \<longleftrightarrow> distinct order \<and> set order = dom r"

lemma map_filter_states:
  assumes "wf_registry r" "set order \<subseteq> dom r"
  shows "map state_key (List.map_filter r order) = order"
    "set (List.map_filter r order) = {s. \<exists>k \<in> set order. r k = Some s}"
  using assms(2)
  by (induction order) (use assms(1) in \<open>auto simp: List.map_filter_simps wf_registry_def\<close>)

lemma registry_List_props:
  assumes "wf_registry r" "iterates order r"
  shows "sorted (map state_key (registry_List order r))"
    "distinct (map state_key (registry_List order r))"
    "set (registry_List order r) = ran r"
proof -
  note F = map_filter_states[OF assms(1), of order]
  show "sorted (map state_key (registry_List order r))"
    by (simp add: registry_List_def)
  have "mset (map state_key (registry_List order r)) = mset (map state_key (List.map_filter r order))"
    by (simp add: registry_List_def)
  also have "\<dots> = mset order" using F(1) assms(2) by (simp add: iterates_def)
  finally have "mset (map state_key (registry_List order r)) = mset order" .
  then show "distinct (map state_key (registry_List order r))"
    using assms(2) mset_eq_imp_distinct_iff unfolding iterates_def by blast
  show "set (registry_List order r) = ran r"
    using F(2) assms(2) by (auto simp: registry_List_def iterates_def ran_def)
qed

lemma inj_on_state_key: "wf_registry r \<Longrightarrow> inj_on state_key (ran r)"
  by (auto simp: inj_on_def wf_registry_def ran_def)

lemma registry_List_unique:
  assumes "wf_registry r" "iterates order r" "iterates order' r"
  shows "registry_List order r = registry_List order' r"
proof (rule map_sorted_distinct_set_unique[of state_key])
  show "inj_on state_key (set (registry_List order r) \<union> set (registry_List order' r))"
    using registry_List_props(3)[OF assms(1)] assms inj_on_state_key[OF assms(1)] by simp
qed (use registry_List_props[OF assms(1)] assms(2,3) in auto)

section \<open>Loading what was saved\<close>

lemma registry_of_list_apply:
  "distinct (map state_key states) \<Longrightarrow>
   fold (\<lambda>s r. registry_Put r s) states r0 k =
     (case find (\<lambda>s. state_key s = k) states of Some s \<Rightarrow> Some s | None \<Rightarrow> r0 k)"
proof (induction states arbitrary: r0)
  case (Cons s ss)
  have "find (\<lambda>s. state_key s = k) ss = None" if "state_key s = k"
    using Cons.prems that by (auto simp: find_None_iff) (metis imageI)
  moreover have "registry_Put r0 s k = (if state_key s = k then Some s else r0 k)"
    by (simp add: registry_Put_def state_key_def)
  ultimately show ?case
    using Cons.IH[of "registry_Put r0 s"] Cons.prems by (simp split: option.splits)
qed simp

lemma registry_of_list_List:
  assumes "wf_registry r" "iterates order r"
  shows "registry_of_list (registry_List order r) = r"
proof
  fix k
  note P = registry_List_props[OF assms]
  show "registry_of_list (registry_List order r) k = r k"
  proof (cases "find (\<lambda>s. state_key s = k) (registry_List order r)")
    case None
    then have "k \<notin> state_key ` ran r" using P(3) by (auto simp: find_None_iff)
    then have "r k = None"
      using assms(1) by (auto simp: wf_registry_def ran_def image_iff) (metis not_None_eq)
    with None P(2) show ?thesis by (simp add: registry_of_list_def registry_of_list_apply)
  next
    case (Some s)
    then have "s \<in> ran r" "state_key s = k" using P(3) find_SomeD[OF Some] by auto
    then have "r k = Some s" using assms(1) by (auto simp: wf_registry_def ran_def)
    with Some P(2) show ?thesis by (simp add: registry_of_list_def registry_of_list_apply)
  qed
qed

end
