(* ===== verification/Go_Heap.thy ===== *)
theory Go_Heap
  imports Go_Prelude
begin

text \<open>
  Package \<open>container/heap\<close> of Go's standard library, which both limiters of the in-memory
  backend keep their expiry queues with.  The package works through \<open>heap.Interface\<close>: its
  functions are written over the five methods of the heap type, so that a heap type may do
  more in \<open>Swap\<close>, \<open>Push\<close> and \<open>Pop\<close> than move elements (the backend's keep each element's
  index).  \<open>heap_iface\<close> is the record of the methods, \<open>heap_impl\<close> the contract the two heap
  types fulfil, and the lemmas proved inside it say that \<open>heap.Push\<close> and \<open>heap.Pop\<close> keep the
  heap order and add or remove the element they should.
\<close>

section \<open>The interface and the algorithms\<close>

record ('h, 'x) heap_iface =
  hLen :: "'h \<Rightarrow> nat"
  hLess :: "'h \<Rightarrow> nat \<Rightarrow> nat \<Rightarrow> bool"
  hSwap :: "'h \<Rightarrow> nat \<Rightarrow> nat \<Rightarrow> 'h"
  hPush :: "'h \<Rightarrow> 'x \<Rightarrow> 'h"
  hPop :: "'h \<Rightarrow> 'h \<times> 'x"

function heap_up :: "('h, 'x) heap_iface \<Rightarrow> 'h \<Rightarrow> nat \<Rightarrow> 'h" where
  "heap_up ops h j =
     (let i = (j - 1) div 2
      in if i = j \<or> \<not> hLess ops h j i then h else heap_up ops (hSwap ops h i j) i)"
  by pat_completeness auto
termination by (relation "measure (\<lambda>(ops, h, j). j)") auto

function heap_down :: "('h, 'x) heap_iface \<Rightarrow> 'h \<Rightarrow> nat \<Rightarrow> nat \<Rightarrow> 'h" where
  "heap_down ops h i n =
     (let j1 = 2 * i + 1
      in if j1 \<ge> n then h
         else let j = (if j1 + 1 < n \<and> hLess ops h (j1 + 1) j1 then j1 + 1 else j1)
              in if \<not> hLess ops h j i then h else heap_down ops (hSwap ops h i j) j n)"
  by pat_completeness auto
termination by (relation "measure (\<lambda>(ops, h, i, n). n - i)") (auto simp: Let_def split: if_splits)

declare heap_up.simps [simp del] heap_down.simps [simp del]

definition heap_Push :: "('h, 'x) heap_iface \<Rightarrow> 'h \<Rightarrow> 'x \<Rightarrow> 'h" where
  "heap_Push ops h x = (let h1 = hPush ops h x in heap_up ops h1 (hLen ops h1 - 1))"

definition heap_Pop :: "('h, 'x) heap_iface \<Rightarrow> 'h \<Rightarrow> 'h \<times> 'x" where
  "heap_Pop ops h =
     (let n = hLen ops h - 1; h1 = hSwap ops h 0 n; h2 = heap_down ops h1 0 n in hPop ops h2)"

section \<open>Heap order on lists\<close>

text \<open>Every element but the first is no smaller than its parent, in the first \<open>n\<close> elements.\<close>

definition heap_upto :: "('e \<Rightarrow> 'k::linorder) \<Rightarrow> 'e list \<Rightarrow> nat \<Rightarrow> bool" where
  "heap_upto key xs n \<longleftrightarrow> (\<forall>i. 0 < i \<and> i < n \<longrightarrow> key (xs ! ((i - 1) div 2)) \<le> key (xs ! i))"

abbreviation heap_ordered :: "('e \<Rightarrow> 'k::linorder) \<Rightarrow> 'e list \<Rightarrow> bool" where
  "heap_ordered key xs \<equiv> heap_upto key xs (length xs)"

lemma heap_upto_cong:
  assumes "\<And>i. i < n \<Longrightarrow> key (xs ! i) = key' (xs ! i)"
  shows "heap_upto key xs n = heap_upto key' xs n"
proof -
  have "(i - 1) div 2 < n" if "0 < i" "i < n" for i using that by auto
  then show ?thesis using assms by (auto simp: heap_upto_def)
qed

text \<open>
  The loop invariants.  While an element moves up from \<open>j\<close>, only its own order with its parent
  may be wrong, and its children are in order with its parent; while it moves down from \<open>i\<close>,
  only its order with its children.
\<close>

definition up_inv :: "('e \<Rightarrow> 'k::linorder) \<Rightarrow> 'e list \<Rightarrow> nat \<Rightarrow> bool" where
  "up_inv key xs j \<longleftrightarrow>
     (\<forall>i. 0 < i \<and> i < length xs \<and> i \<noteq> j \<longrightarrow> key (xs ! ((i - 1) div 2)) \<le> key (xs ! i)) \<and>
     (\<forall>i. 0 < i \<and> i < length xs \<and> 0 < j \<and> (i - 1) div 2 = j \<longrightarrow>
        key (xs ! ((j - 1) div 2)) \<le> key (xs ! i))"

definition down_inv :: "('e \<Rightarrow> 'k::linorder) \<Rightarrow> 'e list \<Rightarrow> nat \<Rightarrow> nat \<Rightarrow> bool" where
  "down_inv key xs j n \<longleftrightarrow>
     (\<forall>i. 0 < i \<and> i < n \<and> (i - 1) div 2 \<noteq> j \<longrightarrow> key (xs ! ((i - 1) div 2)) \<le> key (xs ! i)) \<and>
     (\<forall>i. 0 < i \<and> i < n \<and> 0 < j \<and> (i - 1) div 2 = j \<longrightarrow>
        key (xs ! ((j - 1) div 2)) \<le> key (xs ! i))"

lemma heap_ordered_min:
  assumes "heap_upto key xs n" "i < n"
  shows "key (xs ! 0) \<le> key (xs ! i)"
  using assms(2)
proof (induction i rule: less_induct)
  case (less i)
  show ?case
  proof (cases "i = 0")
    case False
    then have "(i - 1) div 2 < i" by auto
    then have "key (xs ! 0) \<le> key (xs ! ((i - 1) div 2))"
      using less.IH less.prems by auto
    moreover have "key (xs ! ((i - 1) div 2)) \<le> key (xs ! i)"
      using assms(1) less.prems False by (auto simp: heap_upto_def)
    ultimately show ?thesis by (rule order_trans)
  qed simp
qed

lemma heap_ordered_hd:
  "heap_ordered key xs \<Longrightarrow> x \<in> set xs \<Longrightarrow> key (hd xs) \<le> key x"
  by (metis heap_ordered_min hd_conv_nth in_set_conv_nth list.size(3) not_less_zero)

lemma up_inv_swap:
  assumes inv: "up_inv key xs j" and j: "j < length xs" and i: "i = (j - 1) div 2" "i \<noteq> j"
    and less: "key (xs ! j) < key (xs ! i)"
  shows "up_inv key (swap_list xs i j) i"
proof -
  let ?ys = "swap_list xs i j"
  have ij: "i < j" and il: "i < length xs" using i j by auto
  have ys: "\<And>k. k < length xs \<Longrightarrow> ?ys ! k = (if k = j then xs ! i else if k = i then xs ! j else xs ! k)"
    using il j by (rule nth_swap_list)
  have p: "\<And>k. 0 < k \<Longrightarrow> k < length xs \<Longrightarrow> k \<noteq> j \<Longrightarrow> key (xs ! ((k - 1) div 2)) \<le> key (xs ! k)"
    and g: "\<And>k. 0 < k \<Longrightarrow> k < length xs \<Longrightarrow> (k - 1) div 2 = j \<Longrightarrow> key (xs ! i) \<le> key (xs ! k)"
    using inv i ij by (auto simp: up_inv_def)
  have A: "key (?ys ! ((k - 1) div 2)) \<le> key (?ys ! k)"
    if "0 < k" "k < length ?ys" "k \<noteq> i" for k
  proof -
    have k: "k < length xs" "(k - 1) div 2 < length xs" "(k - 1) div 2 < k" using that by auto
    show ?thesis
    proof (cases "k = j")
      case True
      then show ?thesis using ys k less i ij by simp
    next
      case False
      then show ?thesis
        using ys k that less p[OF that(1)] g[OF that(1)] ij by (fastforce dest: less_imp_le order_trans)
    qed
  qed
  have B: "key (?ys ! ((i - 1) div 2)) \<le> key (?ys ! k)"
    if "0 < k" "k < length ?ys" "0 < i" "(k - 1) div 2 = i" for k
  proof -
    have q: "(i - 1) div 2 < i" "(i - 1) div 2 < length xs" using that il by auto
    have pi: "key (xs ! ((i - 1) div 2)) \<le> key (xs ! i)" using p[of i] that il ij by auto
    show ?thesis
    proof (cases "k = j")
      case True
      then show ?thesis using ys q pi j ij by simp
    next
      case False
      then have "key (xs ! i) \<le> key (xs ! k)" using p[of k] that by simp
      then show ?thesis using ys q pi that False ij by (auto intro: order_trans)
    qed
  qed
  show ?thesis using A B by (simp add: up_inv_def)
qed

lemma up_inv_done:
  "up_inv key xs j \<Longrightarrow> j < length xs \<Longrightarrow> (j - 1) div 2 = j \<or> \<not> key (xs ! j) < key (xs ! ((j - 1) div 2))
   \<Longrightarrow> heap_ordered key xs"
  by (auto simp: up_inv_def heap_upto_def not_less)

lemma up_inv_snoc:
  assumes "heap_ordered key xs"
  shows "up_inv key (xs @ [x]) (length xs)"
proof -
  have "(i - 1) div 2 < length xs" if "0 < i" "i < Suc (length xs)" for i using that by auto
  then show ?thesis
    using assms by (auto simp: up_inv_def heap_upto_def nth_append)
qed

lemma down_inv_swap:
  assumes inv: "down_inv key xs i n" and n: "n \<le> length xs"
    and c: "(c - 1) div 2 = i" "0 < c" "c < n"
    and least: "\<And>k. 0 < k \<Longrightarrow> k < n \<Longrightarrow> (k - 1) div 2 = i \<Longrightarrow> key (xs ! c) \<le> key (xs ! k)"
    and less: "key (xs ! c) < key (xs ! i)"
  shows "down_inv key (swap_list xs i c) c n"
proof -
  let ?ys = "swap_list xs i c"
  have ic: "i < c" using c by auto
  have ys: "\<And>k. k < n \<Longrightarrow> ?ys ! k = (if k = c then xs ! i else if k = i then xs ! c else xs ! k)"
    using ic c n by (intro nth_swap_list) auto
  have p: "\<And>k. 0 < k \<Longrightarrow> k < n \<Longrightarrow> (k - 1) div 2 \<noteq> i \<Longrightarrow> key (xs ! ((k - 1) div 2)) \<le> key (xs ! k)"
    and g: "\<And>k. 0 < k \<Longrightarrow> k < n \<Longrightarrow> 0 < i \<Longrightarrow> (k - 1) div 2 = i \<Longrightarrow> key (xs ! ((i - 1) div 2)) \<le> key (xs ! k)"
    using inv by (auto simp: down_inv_def)
  have A: "key (?ys ! ((k - 1) div 2)) \<le> key (?ys ! k)"
    if k: "0 < k" "k < n" "(k - 1) div 2 \<noteq> c" for k
  proof -
    have q: "(k - 1) div 2 < n" "(k - 1) div 2 < k" using k by auto
    consider (child) "(k - 1) div 2 = i" | (self) "k = i" | (other) "(k - 1) div 2 \<noteq> i" "k \<noteq> i"
      by blast
    then show ?thesis
    proof cases
      case child
      have "k \<noteq> i" using child k by auto
      then show ?thesis using ys q k child least[OF k(1,2) child] less ic by auto
    next
      case self
      have "(i - 1) div 2 \<noteq> i" "(i - 1) div 2 \<noteq> c" using self k ic by auto
      then show ?thesis using ys q k self g[of c] c ic by auto
    next
      case other
      then have "k \<noteq> c" using c by auto
      then show ?thesis using ys q k other p[OF k(1,2) other(1)] by auto
    qed
  qed
  have B: "key (?ys ! ((c - 1) div 2)) \<le> key (?ys ! k)"
    if k: "0 < k" "k < n" "(k - 1) div 2 = c" for k
  proof -
    have "k \<noteq> c" "k \<noteq> i" using k c ic by auto
    moreover have "key (xs ! c) \<le> key (xs ! k)" using p[of k] k ic by auto
    ultimately show ?thesis using ys k c ic by auto
  qed
  show ?thesis using A B by (simp add: down_inv_def)
qed

lemma down_inv_done:
  "down_inv key xs i n \<Longrightarrow> (\<And>k. 0 < k \<Longrightarrow> k < n \<Longrightarrow> (k - 1) div 2 = i \<Longrightarrow> key (xs ! i) \<le> key (xs ! k))
   \<Longrightarrow> heap_upto key xs n"
  by (auto simp: down_inv_def heap_upto_def)

lemma down_inv_start:
  assumes "heap_ordered key xs" "xs \<noteq> []"
  shows "down_inv key (swap_list xs 0 (length xs - 1)) 0 (length xs - 1)"
proof -
  have "swap_list xs 0 (length xs - 1) ! k = xs ! k" if "0 < k" "k < length xs - 1" for k
    using that assms(2) by (subst nth_swap_list) auto
  moreover have "(k - 1) div 2 < length xs - 1" if "k < length xs - 1" for k
    using that by auto
  ultimately show ?thesis
    using assms by (auto simp: down_inv_def heap_upto_def)
qed

lemma heap_upto_butlast: "heap_upto key xs (length xs - 1) \<Longrightarrow> heap_ordered key (butlast xs)"
  unfolding heap_upto_def
proof (intro allI impI, goal_cases)
  case (1 i)
  then have "(i - 1) div 2 < length (butlast xs)" by auto
  with 1 show ?case by (auto simp: nth_butlast)
qed

section \<open>The contract of a heap type and what follows from it\<close>

text \<open>
  \<open>elems h\<close> is the content of the heap type's slice as far as the order matters, \<open>good h\<close> its
  well-formedness, \<open>elem x\<close> what a pushed or popped \<open>x\<close> is in that content.
\<close>

locale heap_impl =
  fixes ops :: "('h, 'x) heap_iface"
    and elems :: "'h \<Rightarrow> 'e list"
    and key :: "'e \<Rightarrow> 'k::linorder"
    and good :: "'h \<Rightarrow> bool"
    and pushable :: "'h \<Rightarrow> 'x \<Rightarrow> bool"
    and elem :: "'x \<Rightarrow> 'e"
  assumes len: "good h \<Longrightarrow> hLen ops h = length (elems h)"
    and less_key: "good h \<Longrightarrow> i < length (elems h) \<Longrightarrow> j < length (elems h) \<Longrightarrow>
      hLess ops h i j = (key (elems h ! i) < key (elems h ! j))"
    and swap: "good h \<Longrightarrow> i < length (elems h) \<Longrightarrow> j < length (elems h) \<Longrightarrow>
      elems (hSwap ops h i j) = swap_list (elems h) i j \<and> good (hSwap ops h i j)"
    and push: "good h \<Longrightarrow> pushable h x \<Longrightarrow>
      elems (hPush ops h x) = elems h @ [elem x] \<and> good (hPush ops h x)"
    and pop: "good h \<Longrightarrow> elems h \<noteq> [] \<Longrightarrow>
      elems (fst (hPop ops h)) = butlast (elems h) \<and> good (fst (hPop ops h)) \<and>
      elem (snd (hPop ops h)) = last (elems h)"
begin

lemma up_correct:
  "good h \<Longrightarrow> j < length (elems h) \<Longrightarrow> up_inv key (elems h) j \<Longrightarrow>
   good (heap_up ops h j) \<and> heap_ordered key (elems (heap_up ops h j)) \<and>
   mset (elems (heap_up ops h j)) = mset (elems h)"
proof (induction j arbitrary: h rule: less_induct)
  case (less j)
  let ?i = "(j - 1) div 2"
  show ?case
  proof (cases "?i = j \<or> \<not> hLess ops h j ?i")
    case True
    then have "heap_up ops h j = h" by (simp add: heap_up.simps[of ops h j] Let_def)
    moreover have "?i < length (elems h)" using less.prems(2) by auto
    then have "heap_ordered key (elems h)"
      using True less.prems less_key[of h j ?i] by (intro up_inv_done[of key _ j]) auto
    ultimately show ?thesis using less.prems by simp
  next
    case False
    then have up: "heap_up ops h j = heap_up ops (hSwap ops h ?i j) ?i"
      by (simp add: heap_up.simps[of ops h j] Let_def)
    have i: "?i < j" "?i < length (elems h)" using False less.prems(2) by auto
    have s: "elems (hSwap ops h ?i j) = swap_list (elems h) ?i j" "good (hSwap ops h ?i j)"
      using swap[of h ?i j] less.prems i by auto
    have "up_inv key (swap_list (elems h) ?i j) ?i"
      using up_inv_swap[OF less.prems(3,2)] False less_key[of h j ?i] less.prems i by auto
    then show ?thesis using less.IH[OF i(1) s(2)] s(1) i(2) less.prems(2) up by simp
  qed
qed

lemma down_correct:
  "good h \<Longrightarrow> n \<le> length (elems h) \<Longrightarrow> down_inv key (elems h) i n \<Longrightarrow> i < length (elems h) \<Longrightarrow>
   good (heap_down ops h i n) \<and> heap_upto key (elems (heap_down ops h i n)) n \<and>
   mset (elems (heap_down ops h i n)) = mset (elems h) \<and>
   drop n (elems (heap_down ops h i n)) = drop n (elems h)"
proof (induction "n - i" arbitrary: h i rule: less_induct)
  case less
  let ?j1 = "2 * i + 1"
  define c where "c = (if ?j1 + 1 < n \<and> hLess ops h (?j1 + 1) ?j1 then ?j1 + 1 else ?j1)"
  have unf: "heap_down ops h i n = (if ?j1 \<ge> n then h
      else if \<not> hLess ops h c i then h else heap_down ops (hSwap ops h i c) c n)"
    by (subst heap_down.simps) (simp only: Let_def c_def)
  show ?case
  proof (cases "?j1 \<ge> n")
    case True
    then have "heap_down ops h i n = h" using unf by presburger
    moreover have "heap_upto key (elems h) n"
      using less.prems True by (intro down_inv_done[of key _ i]) auto
    ultimately show ?thesis using less.prems by simp
  next
    case j1: False
    have j: "c < n" "0 < c" "(c - 1) div 2 = i" "i < c" using j1 by (auto simp: c_def)
    then have jl: "c < length (elems h)" using less.prems(2) by linarith
    have least: "key (elems h ! c) \<le> key (elems h ! k)"
      if "0 < k" "k < n" "(k - 1) div 2 = i" for k
    proof -
      have "k = ?j1 \<or> k = ?j1 + 1" using that by presburger
      then show ?thesis
        using that less.prems j1 less_key[of h "?j1 + 1" ?j1] by (auto simp: c_def intro: less_imp_le)
    qed
    show ?thesis
    proof (cases "hLess ops h c i")
      case False
      then have "heap_down ops h i n = h" using j1 unf by presburger
      moreover have "key (elems h ! i) \<le> key (elems h ! c)"
        using False less_key[OF less.prems(1) jl less.prems(4)] by simp
      then have "heap_upto key (elems h) n"
        using less.prems(3) least by (blast intro: down_inv_done order_trans)
      ultimately show ?thesis using less.prems by simp
    next
      case True
      let ?h = "hSwap ops h i c"
      have down: "heap_down ops h i n = heap_down ops ?h c n"
        using j1 True unf by presburger
      have s: "elems ?h = swap_list (elems h) i c" "good ?h"
        using swap[OF less.prems(1,4) jl] by auto
      have lt: "key (elems h ! c) < key (elems h ! i)"
        using True less_key[OF less.prems(1) jl less.prems(4)] by simp
      have d: "down_inv key (elems ?h) c n"
        unfolding s(1) by (rule down_inv_swap[OF less.prems(3,2) j(3,2,1) least lt])
      have "n - c < n - i" using j by linarith
      from less.hyps[OF this s(2) _ d] show ?thesis
        unfolding down using s(1) jl less.prems(2,4) j(1,4)
        by (simp add: drop_swap_list)
    qed
  qed
qed

lemma Push_correct:
  assumes "good h" "pushable h x" "heap_ordered key (elems h)"
  shows "good (heap_Push ops h x)" "heap_ordered key (elems (heap_Push ops h x))"
    "mset (elems (heap_Push ops h x)) = add_mset (elem x) (mset (elems h))"
proof -
  have p: "elems (hPush ops h x) = elems h @ [elem x]" "good (hPush ops h x)"
    using push[OF assms(1,2)] by auto
  have "up_inv key (elems h @ [elem x]) (length (elems h))"
    using up_inv_snoc[OF assms(3)] .
  then have "good (heap_Push ops h x) \<and> heap_ordered key (elems (heap_Push ops h x)) \<and>
      mset (elems (heap_Push ops h x)) = add_mset (elem x) (mset (elems h))"
    using up_correct[OF p(2), of "length (elems h)"] p len[OF p(2)]
    by (simp add: heap_Push_def Let_def)
  then show "good (heap_Push ops h x)" "heap_ordered key (elems (heap_Push ops h x))"
    "mset (elems (heap_Push ops h x)) = add_mset (elem x) (mset (elems h))" by auto
qed

lemma Pop_correct:
  assumes "good h" "elems h \<noteq> []" "heap_ordered key (elems h)"
  shows "good (fst (heap_Pop ops h))" "heap_ordered key (elems (fst (heap_Pop ops h)))"
    "mset (elems h) = add_mset (hd (elems h)) (mset (elems (fst (heap_Pop ops h))))"
    "elem (snd (heap_Pop ops h)) = hd (elems h)"
proof -
  let ?n = "length (elems h) - 1"
  let ?h1 = "hSwap ops h 0 ?n"
  let ?h2 = "heap_down ops ?h1 0 ?n"
  have n: "0 < length (elems h)" "?n < length (elems h)" using assms(2) by auto
  have s: "elems ?h1 = swap_list (elems h) 0 ?n" "good ?h1" using swap[OF assms(1) n] by auto
  have d: "good ?h2" "heap_upto key (elems ?h2) ?n" "mset (elems ?h2) = mset (elems h)"
    "drop ?n (elems ?h2) = drop ?n (elems ?h1)"
    using down_correct[OF s(2), of ?n 0] down_inv_start[OF assms(3,2)] s(1) n by auto
  have l: "length (elems ?h2) = length (elems h)" using d(3) by (metis size_mset)
  then have ne: "elems ?h2 \<noteq> []" using n by auto
  have "drop ?n (elems ?h1) = [elems ?h1 ! ?n]"
    using n s(1) Cons_nth_drop_Suc[of ?n "elems ?h1"] by simp
  then have "drop ?n (elems ?h1) = [hd (elems h)]"
    using n s(1) assms(2) nth_swap_list[OF n n(2)] by (simp add: hd_conv_nth)
  then have last: "last (elems ?h2) = hd (elems h)"
    using d(4) l n by (metis last_drop last_ConsL)
  have m: "mset (elems h) = add_mset (hd (elems h)) (mset (butlast (elems ?h2)))"
  proof -
    have "mset (elems ?h2) = mset (butlast (elems ?h2) @ [last (elems ?h2)])"
      using append_butlast_last_id[OF ne] by simp
    then show ?thesis using d(3) last by simp
  qed
  have P: "heap_Pop ops h = hPop ops ?h2"
    by (simp add: heap_Pop_def Let_def len[OF assms(1)])
  have q: "elems (fst (heap_Pop ops h)) = butlast (elems ?h2)" "good (fst (heap_Pop ops h))"
    "elem (snd (heap_Pop ops h)) = last (elems ?h2)"
    using pop[OF d(1) ne] P by auto
  show "good (fst (heap_Pop ops h))" "heap_ordered key (elems (fst (heap_Pop ops h)))"
    "mset (elems h) = add_mset (hd (elems h)) (mset (elems (fst (heap_Pop ops h))))"
    "elem (snd (heap_Pop ops h)) = hd (elems h)"
    using q d m last l heap_upto_butlast[of key "elems ?h2"] by simp_all
qed

lemma hd_min:
  "heap_ordered key (elems h) \<Longrightarrow> e \<in> set (elems h) \<Longrightarrow> key (hd (elems h)) \<le> key e"
  by (rule heap_ordered_hd)

end

end
