(* ===== verification/Mem_Rolling.thy ===== *)
theory Mem_Rolling
  imports RL_Types Go_Heap
begin

text \<open>
  Rolling-window limits of the in-memory backend (internal/backend/memory/rolling.go): a
  capacity, the amount in use, a heap of reservations by expiry and an index by lease.  The
  heap and the index share the reservation objects (\<open>reduceRollingReservation\<close> changes the
  amount of an object the heap holds), so objects live in a store and the heap and the index
  hold references to them.  The abstract view is the multiset of (lease, amount, expiry)
  entries of the heap; each operation is shown to do on it what its name says.
\<close>

section \<open>Data\<close>

type_synonym ref = nat

record reservation =
  resId :: string
  resAmount :: uint64
  resExpiresAt :: go_time
  resHeapIndex :: go_int

record reservation_heap =
  resMem :: "reservation list"
  resSlots :: "ref list"

record rolling_limit =
  rlCap :: uint64
  rlUsed :: uint64
  rlHeap :: reservation_heap
  rlById :: "string \<rightharpoonup> ref"

section \<open>The heap type\<close>

definition set_heapIndex :: "reservation list \<Rightarrow> ref \<Rightarrow> go_int \<Rightarrow> reservation list" where
  "set_heapIndex mem p k = mem[p := (mem ! p)\<lparr>resHeapIndex := k\<rparr>]"

definition res_Len :: "reservation_heap \<Rightarrow> nat" where
  "res_Len h = length (resSlots h)"

definition res_Less :: "reservation_heap \<Rightarrow> nat \<Rightarrow> nat \<Rightarrow> bool" where
  "res_Less h i j = Before (resExpiresAt (resMem h ! (resSlots h ! i)))
                           (resExpiresAt (resMem h ! (resSlots h ! j)))"

definition res_Swap :: "reservation_heap \<Rightarrow> nat \<Rightarrow> nat \<Rightarrow> reservation_heap" where
  "res_Swap h i j =
     (let slots = swap_list (resSlots h) i j;
          mem1 = set_heapIndex (resMem h) (slots ! i) (int i);
          mem2 = set_heapIndex mem1 (slots ! j) (int j)
      in h\<lparr>resMem := mem2, resSlots := slots\<rparr>)"

definition res_Push :: "reservation_heap \<Rightarrow> ref \<Rightarrow> reservation_heap" where
  "res_Push h p =
     h\<lparr>resMem := set_heapIndex (resMem h) p (int (length (resSlots h))),
       resSlots := resSlots h @ [p]\<rparr>"

definition res_Pop :: "reservation_heap \<Rightarrow> reservation_heap \<times> ref" where
  "res_Pop h =
     (let p = last (resSlots h)
      in (h\<lparr>resMem := set_heapIndex (resMem h) p (-1), resSlots := butlast (resSlots h)\<rparr>, p))"

definition reservationHeap :: "(reservation_heap, ref) heap_iface" where
  "reservationHeap =
     \<lparr>hLen = res_Len, hLess = res_Less, hSwap = res_Swap, hPush = res_Push, hPop = res_Pop\<rparr>"

lemma reservationHeap_sel [simp]:
  "hLen reservationHeap = res_Len" "hLess reservationHeap = res_Less"
  "hSwap reservationHeap = res_Swap" "hPush reservationHeap = res_Push"
  "hPop reservationHeap = res_Pop"
  by (simp_all add: reservationHeap_def)

section \<open>Operations\<close>

definition newRollingLimit :: "uint64 \<Rightarrow> rolling_limit" where
  "newRollingLimit capacity =
     \<lparr>rlCap = capacity, rlUsed = 0, rlHeap = \<lparr>resMem = [], resSlots = []\<rparr>, rlById = Map.empty\<rparr>"

lemma res_Swap_slots [simp]: "length (resSlots (res_Swap h i j)) = length (resSlots h)"
  by (simp add: res_Swap_def Let_def)

lemma heap_down_slots [simp]:
  "length (resSlots (heap_down reservationHeap h i n)) = length (resSlots h)"
  by (induction reservationHeap h i n rule: heap_down.induct)
     (subst heap_down.simps, simp add: Let_def)

lemma heap_Pop_slots [simp]:
  "length (resSlots (fst (heap_Pop reservationHeap h))) = length (resSlots h) - 1"
  by (simp add: heap_Pop_def Let_def res_Pop_def)

text \<open>Remove what has expired, giving its amount back.\<close>

function cleanupRolling :: "rolling_limit \<Rightarrow> go_time \<Rightarrow> rolling_limit" where
  "cleanupRolling limit now =
     (if res_Len (rlHeap limit) > 0 then
        let p = resSlots (rlHeap limit) ! 0; res = resMem (rlHeap limit) ! p
        in if After (resExpiresAt res) now then limit
           else
             let h = fst (heap_Pop reservationHeap (rlHeap limit));
                 used = (if rlUsed limit \<ge> resAmount res then rlUsed limit - resAmount res else 0)
             in cleanupRolling
                  (limit\<lparr>rlHeap := h, rlById := (rlById limit)(resId res := None), rlUsed := used\<rparr>)
                  now
      else limit)"
  by pat_completeness auto
termination
  by (relation "measure (\<lambda>(limit, now). res_Len (rlHeap limit))") (auto simp: res_Len_def)

declare cleanupRolling.simps [simp del]

definition addRollingReservation ::
    "rolling_limit \<Rightarrow> string \<Rightarrow> uint64 \<Rightarrow> go_time \<Rightarrow> rolling_limit" where
  "addRollingReservation limit leaseID amount expiresAt =
     (let res = \<lparr>resId = leaseID, resAmount = amount, resExpiresAt = expiresAt, resHeapIndex = 0\<rparr>;
          p = length (resMem (rlHeap limit));
          h = (rlHeap limit)\<lparr>resMem := resMem (rlHeap limit) @ [res]\<rparr>
      in limit\<lparr>rlById := (rlById limit)(leaseID \<mapsto> p),
               rlUsed := rlUsed limit + amount,
               rlHeap := heap_Push reservationHeap h p\<rparr>)"

definition reduceRollingReservation ::
    "rolling_limit \<Rightarrow> string \<Rightarrow> uint64 \<Rightarrow> rolling_limit" where
  "reduceRollingReservation limit leaseID newAmount =
     (case rlById limit leaseID of
        None \<Rightarrow> limit
      | Some p \<Rightarrow>
          let res = resMem (rlHeap limit) ! p
          in if newAmount \<ge> resAmount res then limit
             else
               let diff = resAmount res - newAmount;
                   used = (if rlUsed limit \<ge> diff then rlUsed limit - diff else 0);
                   mem = (resMem (rlHeap limit))[p := res\<lparr>resAmount := newAmount\<rparr>]
               in limit\<lparr>rlUsed := used, rlHeap := (rlHeap limit)\<lparr>resMem := mem\<rparr>\<rparr>)"

section \<open>The heap type fulfils the heap contract\<close>

type_synonym entry = "string \<times> uint64 \<times> go_time"

definition entry_of :: "reservation \<Rightarrow> entry" where
  "entry_of r = (resId r, resAmount r, resExpiresAt r)"

definition expiry :: "entry \<Rightarrow> go_time" where
  [simp]: "expiry e = snd (snd e)"

definition amount_of :: "entry \<Rightarrow> nat" where
  [simp]: "amount_of e = unat (fst (snd e))"

text \<open>A well-formed heap over the objects \<open>P\<close>: the heap operations change no object but its index.\<close>

definition res_good :: "entry list \<Rightarrow> reservation_heap \<Rightarrow> bool" where
  "res_good P h \<longleftrightarrow> map entry_of (resMem h) = P \<and> set (resSlots h) \<subseteq> {..<length P}"

lemma map_entry_set_heapIndex [simp]:
  "map entry_of (set_heapIndex mem p k) = map entry_of mem"
  by (cases "p < length mem")
     (auto simp: set_heapIndex_def map_update entry_of_def list_update_same_conv list_update_beyond)

interpretation res: heap_impl reservationHeap resSlots "\<lambda>p. expiry (P ! p)" "res_good P"
  "\<lambda>h p. p < length P" "\<lambda>p. p"
  for P
proof (unfold_locales, goal_cases)
  case (2 h i j)
  then have "resSlots h ! i < length (resMem h)" "resSlots h ! j < length (resMem h)"
    by (auto simp: res_good_def dest!: nth_mem)
  with 2 show ?case by (auto simp: res_good_def res_Less_def entry_of_def)
qed (auto simp: res_good_def res_Len_def res_Swap_def res_Push_def res_Pop_def Let_def
       dest: in_set_butlastD)

section \<open>The abstract view and the invariant\<close>

definition rl_objs :: "rolling_limit \<Rightarrow> entry list" where
  "rl_objs l = map entry_of (resMem (rlHeap l))"

definition rl_slots :: "rolling_limit \<Rightarrow> ref list" where
  "rl_slots l = resSlots (rlHeap l)"

definition rl_entries :: "rolling_limit \<Rightarrow> entry multiset" where
  "rl_entries l = image_mset (\<lambda>p. rl_objs l ! p) (mset (rl_slots l))"

text \<open>
  References are in range and held once, the heap is in expiry order, and the index points to
  an entry of the heap with the lease it is filed under.
\<close>

definition wf_rolling :: "rolling_limit \<Rightarrow> bool" where
  "wf_rolling l \<longleftrightarrow>
     set (rl_slots l) \<subseteq> {..<length (rl_objs l)} \<and> distinct (rl_slots l) \<and>
     heap_ordered (\<lambda>p. expiry (rl_objs l ! p)) (rl_slots l) \<and>
     (\<forall>id p. rlById l id = Some p \<longrightarrow> p \<in> set (rl_slots l) \<and> fst (rl_objs l ! p) = id)"

text \<open>The amount in use is the sum of the entries' amounts.\<close>

definition used_ok :: "rolling_limit \<Rightarrow> bool" where
  "used_ok l \<longleftrightarrow> unat (rlUsed l) = (\<Sum>e \<in># rl_entries l. amount_of e)"

lemma rl_good: "set (rl_slots l) \<subseteq> {..<length (rl_objs l)} \<Longrightarrow> res_good (rl_objs l) (rlHeap l)"
  by (simp add: res_good_def rl_objs_def rl_slots_def)

lemma wf_rolling_new [inv_intros]:
  "wf_rolling (newRollingLimit c)" "used_ok (newRollingLimit c)"
  "rl_entries (newRollingLimit c) = {#}" "rlCap (newRollingLimit c) = c"
  by (simp_all add: wf_rolling_def used_ok_def newRollingLimit_def rl_entries_def rl_slots_def
      rl_objs_def heap_upto_def)

lemma wf_rolling_cap [simp]:
  "wf_rolling (l\<lparr>rlCap := c\<rparr>) = wf_rolling l" "used_ok (l\<lparr>rlCap := c\<rparr>) = used_ok l"
  "rl_entries (l\<lparr>rlCap := c\<rparr>) = rl_entries l"
  by (simp_all add: wf_rolling_def used_ok_def rl_entries_def rl_slots_def rl_objs_def)

section \<open>Popping the earliest reservation\<close>

definition pop_step :: "rolling_limit \<Rightarrow> rolling_limit" where
  "pop_step l =
     (let res = resMem (rlHeap l) ! (resSlots (rlHeap l) ! 0)
      in l\<lparr>rlHeap := fst (heap_Pop reservationHeap (rlHeap l)),
           rlById := (rlById l)(resId res := None),
           rlUsed := (if rlUsed l \<ge> resAmount res then rlUsed l - resAmount res else 0)\<rparr>)"

lemma cleanupRolling_unfold:
  "cleanupRolling l now =
     (if rl_slots l = [] \<or> now < expiry (rl_objs l ! hd (rl_slots l)) then l
      else cleanupRolling (pop_step l) now)" if "wf_rolling l"
proof (cases "rl_slots l")
  case (Cons p ps)
  then have "p < length (resMem (rlHeap l))"
    using that by (simp add: wf_rolling_def rl_objs_def)
  with Cons show ?thesis
    by (subst cleanupRolling.simps)
       (simp add: rl_slots_def rl_objs_def res_Len_def pop_step_def Let_def entry_of_def)
qed (subst cleanupRolling.simps, simp add: rl_slots_def res_Len_def)

lemma pop_step_slots:
  assumes "wf_rolling l" "rl_slots l \<noteq> []"
  shows "rl_objs (pop_step l) = rl_objs l"
    "mset (rl_slots l) = add_mset (hd (rl_slots l)) (mset (rl_slots (pop_step l)))"
    "heap_ordered (\<lambda>p. expiry (rl_objs l ! p)) (rl_slots (pop_step l))"
proof -
  have g: "res_good (rl_objs l) (rlHeap l)" "resSlots (rlHeap l) \<noteq> []"
    "heap_ordered (\<lambda>p. expiry (rl_objs l ! p)) (resSlots (rlHeap l))"
    using assms rl_good[of l] by (auto simp: wf_rolling_def rl_slots_def)
  note P = res.Pop_correct[OF g]
  show "rl_objs (pop_step l) = rl_objs l"
    using P(1) by (simp add: res_good_def rl_objs_def pop_step_def Let_def)
  show "mset (rl_slots l) = add_mset (hd (rl_slots l)) (mset (rl_slots (pop_step l)))"
    "heap_ordered (\<lambda>p. expiry (rl_objs l ! p)) (rl_slots (pop_step l))"
    using P(2,3) by (simp_all add: rl_slots_def pop_step_def Let_def)
qed

lemma pop_step_correct:
  assumes "wf_rolling l" "rl_slots l \<noteq> []"
  shows "wf_rolling (pop_step l)"
    "rl_entries l = add_mset (rl_objs l ! hd (rl_slots l)) (rl_entries (pop_step l))"
    "used_ok l \<Longrightarrow> used_ok (pop_step l)" "rlCap (pop_step l) = rlCap l"
proof -
  note S = pop_step_slots[OF assms]
  let ?p = "hd (rl_slots l)"
  have "?p \<in> set (rl_slots l)" using assms(2) by simp
  then have p1: "?p < length (resMem (rlHeap l))"
    using assms(1) by (auto simp: wf_rolling_def rl_objs_def)
  have p: "resSlots (rlHeap l) ! 0 = ?p"
    using assms(2) by (simp add: rl_slots_def hd_conv_nth)
  have res: "entry_of (resMem (rlHeap l) ! ?p) = rl_objs l ! ?p"
    using p1 by (simp add: rl_objs_def)
  have d: "distinct (?p # rl_slots (pop_step l))"
    using mset_eq_imp_distinct_iff[of "rl_slots l" "?p # rl_slots (pop_step l)"] S(2) assms(1)
    by (simp add: wf_rolling_def)
  have set: "set (rl_slots l) = insert ?p (set (rl_slots (pop_step l)))"
    using S(2) by (metis set_mset_add_mset_insert set_mset_mset)
  have byid: "rlById (pop_step l) = (rlById l)(fst (rl_objs l ! ?p) := None)"
    using p res by (auto simp: pop_step_def Let_def entry_of_def prod_eq_iff)
  show "wf_rolling (pop_step l)"
    using assms(1) S(1,3) d set byid by (auto simp: wf_rolling_def)
  show E: "rl_entries l = add_mset (rl_objs l ! ?p) (rl_entries (pop_step l))"
    using S(1,2) by (simp add: rl_entries_def)
  show "used_ok (pop_step l)" if "used_ok l"
  proof -
    let ?a = "resAmount (resMem (rlHeap l) ! ?p)"
    have a: "amount_of (rl_objs l ! ?p) = unat ?a"
      using res by (simp add: entry_of_def prod_eq_iff)
    have u: "unat (rlUsed l) = unat ?a + (\<Sum>e \<in># rl_entries (pop_step l). amount_of e)"
      using that E a by (simp add: used_ok_def)
    then have "?a \<le> rlUsed l" by (simp add: word_le_nat_alt)
    with u p show ?thesis
      by (simp add: used_ok_def pop_step_def Let_def unat_sub)
  qed
  show "rlCap (pop_step l) = rlCap l" by (simp add: pop_step_def Let_def)
qed

section \<open>Correctness of the operations\<close>

theorem cleanupRolling_correct:
  "wf_rolling l \<Longrightarrow>
     wf_rolling (cleanupRolling l now) \<and>
     rl_entries (cleanupRolling l now) = filter_mset (\<lambda>e. now < expiry e) (rl_entries l) \<and>
     (used_ok l \<longrightarrow> used_ok (cleanupRolling l now)) \<and> rlCap (cleanupRolling l now) = rlCap l"
proof (induction "length (rl_slots l)" arbitrary: l rule: less_induct)
  case less
  show ?case
  proof (cases "rl_slots l = [] \<or> now < expiry (rl_objs l ! hd (rl_slots l))")
    case True
    have "now < expiry e" if e: "e \<in># rl_entries l" for e
    proof -
      obtain p where p: "p \<in> set (rl_slots l)" "e = rl_objs l ! p"
        using e by (auto simp: rl_entries_def)
      then have "expiry (rl_objs l ! hd (rl_slots l)) \<le> expiry e"
        using heap_ordered_hd[of "\<lambda>p. expiry (rl_objs l ! p)"] less.prems
        by (simp add: wf_rolling_def)
      with True p show ?thesis by auto
    qed
    then have "filter_mset (\<lambda>e. now < expiry e) (rl_entries l) = rl_entries l"
      by (simp add: filter_mset_eq_conv)
    with True show ?thesis using less.prems cleanupRolling_unfold[OF less.prems, of now] by simp
  next
    case False
    note P = pop_step_correct[OF less.prems] and S = pop_step_slots[OF less.prems]
    have "length (rl_slots (pop_step l)) < length (rl_slots l)"
      using S(2) False by (metis lessI size_add_mset size_mset)
    from less.hyps[OF this P(1)] show ?thesis
      using False P S cleanupRolling_unfold[OF less.prems, of now] by simp
  qed
qed

lemma addRollingReservation_correct:
  assumes "wf_rolling l"
  shows "wf_rolling (addRollingReservation l leaseID amount e)"
    "rl_entries (addRollingReservation l leaseID amount e) =
       add_mset (leaseID, amount, e) (rl_entries l)"
    "rlUsed (addRollingReservation l leaseID amount e) = rlUsed l + amount"
    "rlCap (addRollingReservation l leaseID amount e) = rlCap l"
    "\<exists>p. rlById (addRollingReservation l leaseID amount e) leaseID = Some p \<and>
         rl_objs (addRollingReservation l leaseID amount e) ! p = (leaseID, amount, e)"
proof -
  let ?res = "\<lparr>resId = leaseID, resAmount = amount, resExpiresAt = e, resHeapIndex = 0\<rparr>"
  let ?p = "length (resMem (rlHeap l))"
  let ?h = "(rlHeap l)\<lparr>resMem := resMem (rlHeap l) @ [?res]\<rparr>"
  let ?P = "rl_objs l @ [(leaseID, amount, e)]"
  let ?l = "addRollingReservation l leaseID amount e"
  have len: "length (rl_objs l) = ?p" by (simp add: rl_objs_def)
  have old: "?P ! q = rl_objs l ! q" if "q \<in> set (rl_slots l)" for q
    using that assms by (auto simp: wf_rolling_def nth_append)
  have good: "res_good ?P ?h"
    using assms by (auto simp: res_good_def rl_objs_def entry_of_def wf_rolling_def rl_slots_def)
  have key: "expiry (?P ! (rl_slots l ! i)) = expiry (rl_objs l ! (rl_slots l ! i))"
    if "i < length (rl_slots l)" for i
    using old that by (simp del: expiry_def)
  then have ord: "heap_ordered (\<lambda>p. expiry (?P ! p)) (resSlots ?h)"
    using assms heap_upto_cong[of "length (rl_slots l)" "\<lambda>p. expiry (?P ! p)" "rl_slots l"
        "\<lambda>p. expiry (rl_objs l ! p)"]
    by (simp add: wf_rolling_def rl_slots_def del: expiry_def)
  note H = res.Push_correct[OF good _ ord, of ?p]
  have slots: "mset (rl_slots ?l) = add_mset ?p (mset (rl_slots l))"
    and objs: "rl_objs ?l = ?P"
    and hord: "heap_ordered (\<lambda>p. expiry (?P ! p)) (rl_slots ?l)"
    using H len by (simp_all add: addRollingReservation_def Let_def rl_slots_def rl_objs_def res_good_def)
  have set: "set (rl_slots ?l) = insert ?p (set (rl_slots l))"
    using slots by (metis set_mset_add_mset_insert set_mset_mset)
  have "?p \<notin> set (rl_slots l)" using assms len by (auto simp: wf_rolling_def)
  then have dist: "distinct (rl_slots ?l)"
    using mset_eq_imp_distinct_iff[of "rl_slots ?l" "?p # rl_slots l"] slots assms
    by (simp add: wf_rolling_def)
  have byid: "rlById ?l = (rlById l)(leaseID \<mapsto> ?p)"
    by (simp add: addRollingReservation_def Let_def)
  show "wf_rolling ?l"
    using assms objs set dist hord byid old len
    by (auto simp: wf_rolling_def nth_append less_Suc_eq)
  show "rl_entries ?l = add_mset (leaseID, amount, e) (rl_entries l)"
    using slots objs old len by (auto simp: rl_entries_def nth_append intro!: image_mset_cong)
  show "rlUsed ?l = rlUsed l + amount" "rlCap ?l = rlCap l"
    by (simp_all add: addRollingReservation_def Let_def)
  show "\<exists>p. rlById ?l leaseID = Some p \<and> rl_objs ?l ! p = (leaseID, amount, e)"
    using byid objs len by (simp add: nth_append)
qed

lemma addRollingReservation_used:
  "wf_rolling l \<Longrightarrow> used_ok l \<Longrightarrow> unat (rlUsed l) + unat amount < 2 ^ 64 \<Longrightarrow>
   used_ok (addRollingReservation l leaseID amount e)"
  by (simp add: used_ok_def addRollingReservation_correct unat_add_no_overflow)

text \<open>
  \<open>reduceRollingReservation\<close> replaces the entry the index points to by one with the smaller
  amount and lowers the amount in use by the difference; with no indexed entry, or no smaller
  amount, nothing changes.
\<close>

lemma reduceRollingReservation_none:
  "rlById l leaseID = None \<Longrightarrow> reduceRollingReservation l leaseID n = l"
  by (simp add: reduceRollingReservation_def)

lemma reduceRollingReservation_objs:
  assumes "wf_rolling l" "rlById l leaseID = Some p" "n < fst (snd (rl_objs l ! p))"
  shows "p < length (rl_objs l)"
    "rl_objs (reduceRollingReservation l leaseID n) =
       (rl_objs l)[p := (leaseID, n, expiry (rl_objs l ! p))]"
    "rl_slots (reduceRollingReservation l leaseID n) = rl_slots l"
    "rlById (reduceRollingReservation l leaseID n) = rlById l"
    "rlCap (reduceRollingReservation l leaseID n) = rlCap l"
    "rlUsed (reduceRollingReservation l leaseID n) =
       (let diff = fst (snd (rl_objs l ! p)) - n in if rlUsed l \<ge> diff then rlUsed l - diff else 0)"
proof -
  show p: "p < length (rl_objs l)" using assms by (auto simp: wf_rolling_def)
  have "fst (rl_objs l ! p) = leaseID" using assms(1,2) by (auto simp: wf_rolling_def)
  moreover have "rl_objs l ! p = entry_of (resMem (rlHeap l) ! p)"
    using p by (simp add: rl_objs_def)
  ultimately have e: "rl_objs l ! p = entry_of (resMem (rlHeap l) ! p)"
    "fst (rl_objs l ! p) = leaseID" by auto
  with assms show "rl_objs (reduceRollingReservation l leaseID n) =
       (rl_objs l)[p := (leaseID, n, expiry (rl_objs l ! p))]"
    by (simp add: reduceRollingReservation_def Let_def entry_of_def rl_objs_def map_update
        not_le[symmetric])
  show "rl_slots (reduceRollingReservation l leaseID n) = rl_slots l"
    "rlById (reduceRollingReservation l leaseID n) = rlById l"
    "rlCap (reduceRollingReservation l leaseID n) = rlCap l"
    using assms(2) by (simp_all add: reduceRollingReservation_def Let_def rl_slots_def)
  show "rlUsed (reduceRollingReservation l leaseID n) =
       (let diff = fst (snd (rl_objs l ! p)) - n in if rlUsed l \<ge> diff then rlUsed l - diff else 0)"
    using assms(2,3) e
    by (simp add: reduceRollingReservation_def Let_def entry_of_def not_le[symmetric])
qed

lemma reduceRollingReservation_large:
  assumes "wf_rolling l" "rlById l leaseID = Some p" "\<not> n < fst (snd (rl_objs l ! p))"
  shows "reduceRollingReservation l leaseID n = l"
proof -
  have "p < length (rl_objs l)" using assms by (auto simp: wf_rolling_def)
  then show ?thesis
    using assms by (simp add: reduceRollingReservation_def entry_of_def rl_objs_def Let_def)
qed

lemma reduceRollingReservation_correct:
  assumes "wf_rolling l" "rlById l leaseID = Some p" "n < fst (snd (rl_objs l ! p))"
  shows "wf_rolling (reduceRollingReservation l leaseID n)"
    "\<exists>M. rl_entries l = add_mset (rl_objs l ! p) M \<and>
         rl_entries (reduceRollingReservation l leaseID n) =
           add_mset (leaseID, n, expiry (rl_objs l ! p)) M"
    "used_ok l \<Longrightarrow> used_ok (reduceRollingReservation l leaseID n)"
proof -
  note R = reduceRollingReservation_objs[OF assms]
  let ?l = "reduceRollingReservation l leaseID n" and ?e = "(leaseID, n, expiry (rl_objs l ! p))"
  have same: "expiry (rl_objs ?l ! q) = expiry (rl_objs l ! q)"
             "fst (rl_objs ?l ! q) = fst (rl_objs l ! q)" for q
    using R(1,2) assms(1,2) by (auto simp: nth_list_update wf_rolling_def)
  have inv: "heap_ordered (\<lambda>q. expiry (rl_objs ?l ! q)) (rl_slots l)"
    using assms(1) by (simp only: same wf_rolling_def)
  have idx: "\<forall>id q. rlById l id = Some q \<longrightarrow> q \<in> set (rl_slots l) \<and> fst (rl_objs ?l ! q) = id"
    using assms(1) unfolding same wf_rolling_def by blast
  have "length (rl_objs ?l) = length (rl_objs l)" using R(2) by simp
  then show "wf_rolling ?l"
    unfolding wf_rolling_def R(3,4) using assms(1) inv idx by (simp only: wf_rolling_def)
  have p: "p \<in># mset (rl_slots l)" "distinct (rl_slots l)"
    using assms(1,2) by (auto simp: wf_rolling_def)
  then obtain N where N: "mset (rl_slots l) = add_mset p N" by (meson mset_add)
  have "p \<notin># N" using p N by (metis count_add_mset distinct_count_atmost_1 count_greater_zero_iff
        nat.inject not_gr_zero One_nat_def set_mset_mset)
  then have "image_mset (\<lambda>q. rl_objs ?l ! q) N = image_mset (\<lambda>q. rl_objs l ! q) N"
    unfolding R(2) by (intro image_mset_cong) (metis nth_list_update_neq)
  then have E: "rl_entries l = add_mset (rl_objs l ! p) (image_mset (\<lambda>q. rl_objs l ! q) N)"
    "rl_entries ?l = add_mset ?e (image_mset (\<lambda>q. rl_objs l ! q) N)"
    using N R(1-3) by (simp_all add: rl_entries_def)
  then show "\<exists>M. rl_entries l = add_mset (rl_objs l ! p) M \<and> rl_entries ?l = add_mset ?e M"
    by blast
  show "used_ok ?l" if "used_ok l"
  proof -
    let ?a = "fst (snd (rl_objs l ! p))"
    have d: "unat (?a - n) = unat ?a - unat n" "unat n < unat ?a"
      using assms(3) by (simp_all add: unat_sub less_imp_le word_less_nat_alt)
    have u: "unat (rlUsed l) = unat ?a + (\<Sum>q \<in># N. amount_of (rl_objs l ! q))"
      using that E(1) by (simp add: used_ok_def multiset.map_comp comp_def)
    then have "?a - n \<le> rlUsed l" using d by (simp add: word_le_nat_alt)
    with u d R(6) E(2) show ?thesis
      by (simp add: used_ok_def Let_def unat_sub multiset.map_comp comp_def)
  qed
qed

end
