(* ===== verification/Mem_Concurrency.thy ===== *)
theory Mem_Concurrency
  imports RL_Types Go_Heap "HOL-Library.AList"
begin

text \<open>
  Concurrency limits of the in-memory backend (internal/backend/memory/concurrency.go): a
  capacity, the holds by lease and a heap of holds by expiry.  A hold that is released leaves
  its heap entry behind until the entry expires; nothing but \<open>Swap\<close> changes a hold object, so
  the heap holds them by value.  The map of holds is an association list without duplicates,
  since its size matters; \<open>holds_of\<close> is the map it stands for.
\<close>

section \<open>Data and the heap type\<close>

record conc_hold =
  holdId :: string
  holdExpiresAt :: go_time
  holdHeapIndex :: go_int

type_synonym conc_heap = "conc_hold list"

record conc_limit =
  clCap :: uint64
  clHolds :: "(string \<times> go_time) list"
  clHeap :: conc_heap

definition holds_of :: "conc_limit \<Rightarrow> string \<rightharpoonup> go_time" where
  "holds_of limit = map_of (clHolds limit)"

definition conc_Less :: "conc_heap \<Rightarrow> nat \<Rightarrow> nat \<Rightarrow> bool" where
  "conc_Less h i j = Before (holdExpiresAt (h ! i)) (holdExpiresAt (h ! j))"

definition conc_Swap :: "conc_heap \<Rightarrow> nat \<Rightarrow> nat \<Rightarrow> conc_heap" where
  "conc_Swap h i j =
     (let h1 = swap_list h i j;
          h2 = h1[i := (h1 ! i)\<lparr>holdHeapIndex := int i\<rparr>]
      in h2[j := (h2 ! j)\<lparr>holdHeapIndex := int j\<rparr>])"

definition conc_Push :: "conc_heap \<Rightarrow> conc_hold \<Rightarrow> conc_heap" where
  "conc_Push h hold = h @ [hold\<lparr>holdHeapIndex := int (length h)\<rparr>]"

definition conc_Pop :: "conc_heap \<Rightarrow> conc_heap \<times> conc_hold" where
  "conc_Pop h = (butlast h, (last h)\<lparr>holdHeapIndex := -1\<rparr>)"

definition concHeap :: "(conc_heap, conc_hold) heap_iface" where
  "concHeap =
     \<lparr>hLen = length, hLess = conc_Less, hSwap = conc_Swap, hPush = conc_Push, hPop = conc_Pop\<rparr>"

lemma concHeap_sel [simp]:
  "hLen concHeap = length" "hLess concHeap = conc_Less" "hSwap concHeap = conc_Swap"
  "hPush concHeap = conc_Push" "hPop concHeap = conc_Pop"
  by (simp_all add: concHeap_def)

section \<open>Operations\<close>

definition newConcLimit :: "uint64 \<Rightarrow> conc_limit" where
  "newConcLimit capacity = \<lparr>clCap = capacity, clHolds = [], clHeap = []\<rparr>"

lemma conc_Swap_length [simp]: "length (conc_Swap h i j) = length h"
  by (simp add: conc_Swap_def Let_def)

lemma conc_down_length [simp]: "length (heap_down concHeap h i n) = length h"
  by (induction concHeap h i n rule: heap_down.induct)
     (subst heap_down.simps, simp add: Let_def)

lemma conc_heap_Pop_length [simp]: "length (fst (heap_Pop concHeap h)) = length h - 1"
  by (simp add: heap_Pop_def Let_def conc_Pop_def)

function cleanupConcurrency :: "conc_limit \<Rightarrow> go_time \<Rightarrow> conc_limit" where
  "cleanupConcurrency limit now =
     (if length (clHeap limit) > 0 then
        let hold = clHeap limit ! 0
        in if After (holdExpiresAt hold) now then limit
           else
             let limit1 = limit\<lparr>clHeap := fst (heap_Pop concHeap (clHeap limit))\<rparr>
             in if holds_of limit1 (holdId hold) = None then cleanupConcurrency limit1 now
                else cleanupConcurrency
                       (limit1\<lparr>clHolds := AList.delete (holdId hold) (clHolds limit1)\<rparr>) now
      else limit)"
  by pat_completeness auto
termination
  by (relation "measure (\<lambda>(limit, now). length (clHeap limit))") auto

declare cleanupConcurrency.simps [simp del]

definition addConcurrencyHold :: "conc_limit \<Rightarrow> string \<Rightarrow> go_time \<Rightarrow> conc_limit" where
  "addConcurrencyHold limit leaseID expiresAt =
     limit\<lparr>clHolds := AList.update leaseID expiresAt (clHolds limit),
           clHeap := heap_Push concHeap (clHeap limit)
                       \<lparr>holdId = leaseID, holdExpiresAt = expiresAt, holdHeapIndex = 0\<rparr>\<rparr>"

text \<open>\<open>delete(limit.holds, req.LeaseID)\<close> of \<open>Complete\<close>, and \<open>uint64(len(limit.holds))\<close>.\<close>

definition release_hold :: "conc_limit \<Rightarrow> string \<Rightarrow> conc_limit" where
  "release_hold limit leaseID = limit\<lparr>clHolds := AList.delete leaseID (clHolds limit)\<rparr>"

definition held :: "conc_limit \<Rightarrow> nat" where
  "held limit = length (clHolds limit)"

section \<open>The heap type fulfils the heap contract\<close>

definition hold_entry :: "conc_hold \<Rightarrow> string \<times> go_time" where
  "hold_entry c = (holdId c, holdExpiresAt c)"

lemma map_hold_entry_Swap [simp]:
  assumes "i < length h" "j < length h"
  shows "map hold_entry (conc_Swap h i j) = swap_list (map hold_entry h) i j"
proof -
  have upd: "map hold_entry (xs[k := (xs ! k)\<lparr>holdHeapIndex := n\<rparr>]) = map hold_entry xs"
    if "k < length xs" for xs k n
    using that by (simp add: map_update hold_entry_def list_update_same_conv)
  show ?thesis
    using assms by (simp add: conc_Swap_def Let_def upd map_swap_list)
qed

interpretation conc: heap_impl concHeap "map hold_entry" snd "\<lambda>_. True" "\<lambda>_ _. True" hold_entry
  by unfold_locales
     (auto simp: conc_Less_def conc_Push_def conc_Pop_def hold_entry_def map_butlast last_map)

section \<open>The invariant\<close>

definition cl_entries :: "conc_limit \<Rightarrow> (string \<times> go_time) multiset" where
  "cl_entries l = mset (map hold_entry (clHeap l))"

text \<open>The heap is in expiry order, a lease has one hold and every hold has an entry with its expiry in the heap.\<close>

definition wf_conc :: "conc_limit \<Rightarrow> bool" where
  "wf_conc l \<longleftrightarrow>
     heap_ordered snd (map hold_entry (clHeap l)) \<and> distinct (map fst (clHolds l)) \<and>
     (\<forall>id t. holds_of l id = Some t \<longrightarrow> (id, t) \<in># cl_entries l)"

text \<open>
  No stale entry: an entry whose lease is held carries the expiry of that hold.  It fails only
  when a lease id is used again while an entry of its earlier use is still in the heap.
\<close>

definition no_stale :: "conc_limit \<Rightarrow> bool" where
  "no_stale l \<longleftrightarrow> (\<forall>id t t'. (id, t) \<in># cl_entries l \<and> holds_of l id = Some t' \<longrightarrow> t' = t)"

lemma held_card: "wf_conc l \<Longrightarrow> held l = card (dom (holds_of l))"
  by (simp add: held_def holds_of_def wf_conc_def dom_map_of_conv_image_fst
      distinct_card flip: set_map)

lemma wf_conc_finite: "finite (dom (holds_of l))"
  by (simp add: holds_of_def finite_dom_map_of)

lemma wf_conc_new [inv_intros]:
  "wf_conc (newConcLimit c)" "no_stale (newConcLimit c)" "held (newConcLimit c) = 0"
  "cl_entries (newConcLimit c) = {#}" "clCap (newConcLimit c) = c"
  by (simp_all add: wf_conc_def no_stale_def held_def cl_entries_def newConcLimit_def heap_upto_def
      holds_of_def)

lemma wf_conc_cap [simp]:
  "wf_conc (l\<lparr>clCap := c\<rparr>) = wf_conc l" "no_stale (l\<lparr>clCap := c\<rparr>) = no_stale l"
  "held (l\<lparr>clCap := c\<rparr>) = held l" "cl_entries (l\<lparr>clCap := c\<rparr>) = cl_entries l"
  by (simp_all add: wf_conc_def no_stale_def held_def cl_entries_def holds_of_def)

section \<open>Correctness of the operations\<close>

definition drop_hold :: "conc_limit \<Rightarrow> conc_limit" where
  "drop_hold l =
     l\<lparr>clHeap := fst (heap_Pop concHeap (clHeap l)),
       clHolds := AList.delete (holdId (clHeap l ! 0)) (clHolds l)\<rparr>"

lemma cleanupConcurrency_unfold:
  "cleanupConcurrency l now =
     (if clHeap l = [] \<or> now < holdExpiresAt (clHeap l ! 0) then l
      else cleanupConcurrency (drop_hold l) now)"
proof -
  have "holds_of l k = None \<Longrightarrow> AList.delete k (clHolds l) = clHolds l" for k
    by (simp add: holds_of_def map_of_eq_None_iff delete_id)
  then show ?thesis
    by (subst cleanupConcurrency.simps) (auto simp: drop_hold_def Let_def holds_of_def)
qed

lemma holds_of_updates [simp]:
  "holds_of (l\<lparr>clHeap := h\<rparr>) = holds_of l" "holds_of (l\<lparr>clCap := c\<rparr>) = holds_of l"
  "holds_of (l\<lparr>clHolds := AList.delete k (clHolds l)\<rparr>) = (holds_of l)(k := None)"
  "holds_of (l\<lparr>clHolds := AList.update k t (clHolds l)\<rparr>) = (holds_of l)(k \<mapsto> t)"
  "holds_of (l\<lparr>clHolds := AList.update k t (clHolds l), clHeap := h\<rparr>) = (holds_of l)(k \<mapsto> t)"
  "holds_of (l\<lparr>clHeap := h, clHolds := AList.delete k (clHolds l)\<rparr>) = (holds_of l)(k := None)"
  by (simp_all add: holds_of_def delete_conv' update_conv')

lemma drop_hold_correct:
  assumes "wf_conc l" "clHeap l \<noteq> []"
  shows "wf_conc (drop_hold l)"
    "cl_entries l = add_mset (hold_entry (clHeap l ! 0)) (cl_entries (drop_hold l))"
    "no_stale l \<Longrightarrow> no_stale (drop_hold l)" "clCap (drop_hold l) = clCap l"
    "length (clHeap (drop_hold l)) < length (clHeap l)"
proof -
  have o: "heap_ordered snd (map hold_entry (clHeap l))" "map hold_entry (clHeap l) \<noteq> []"
    using assms by (auto simp: wf_conc_def)
  note P = conc.Pop_correct[OF TrueI o(2,1)]
  show E: "cl_entries l = add_mset (hold_entry (clHeap l ! 0)) (cl_entries (drop_hold l))"
    using P(3) assms(2) by (simp add: cl_entries_def drop_hold_def hd_map hd_conv_nth)
  show "wf_conc (drop_hold l)"
    using assms(1) P(2) E by (auto simp: wf_conc_def drop_hold_def hold_entry_def distinct_delete)
  show "no_stale (drop_hold l)" if "no_stale l"
    using that E by (auto simp: no_stale_def drop_hold_def split: if_splits)
  show "clCap (drop_hold l) = clCap l" "length (clHeap (drop_hold l)) < length (clHeap l)"
    using assms(2) by (simp_all add: drop_hold_def)
qed

text \<open>
  Cleaning up removes the expired entries and, with them, the holds of their leases.
\<close>

lemma cleanupConcurrency_correct:
  "wf_conc l \<Longrightarrow>
     wf_conc (cleanupConcurrency l now) \<and>
     cl_entries (cleanupConcurrency l now) = filter_mset (\<lambda>e. now < snd e) (cl_entries l) \<and>
     holds_of (cleanupConcurrency l now) =
       (\<lambda>id. if \<exists>t. (id, t) \<in># cl_entries l \<and> t \<le> now then None else holds_of l id) \<and>
     (no_stale l \<longrightarrow> no_stale (cleanupConcurrency l now)) \<and>
     clCap (cleanupConcurrency l now) = clCap l"
proof (induction "length (clHeap l)" arbitrary: l rule: less_induct)
  case less
  show ?case
  proof (cases "clHeap l = [] \<or> now < holdExpiresAt (clHeap l ! 0)")
    case True
    have live: "now < snd e" if "e \<in># cl_entries l" for e
    proof -
      have "e \<in> set (map hold_entry (clHeap l))" using that by (simp add: cl_entries_def)
      moreover have "heap_ordered snd (map hold_entry (clHeap l))"
        using less.prems by (simp add: wf_conc_def)
      ultimately have "snd (hd (map hold_entry (clHeap l))) \<le> snd e"
        by (intro heap_ordered_hd)
      moreover have "clHeap l \<noteq> []" using that by (auto simp: cl_entries_def)
      ultimately show ?thesis using True by (simp add: hd_map hd_conv_nth hold_entry_def)
    qed
    then have "filter_mset (\<lambda>e. now < snd e) (cl_entries l) = cl_entries l"
      by (simp add: filter_mset_eq_conv)
    moreover have "\<not> (\<exists>t. (id, t) \<in># cl_entries l \<and> t \<le> now)" for id
      using live by fastforce
    ultimately show ?thesis
      using True less.prems cleanupConcurrency_unfold[of l now] by (auto simp: fun_eq_iff)
  next
    case False
    note D = drop_hold_correct[OF less.prems]
    have e: "hold_entry (clHeap l ! 0) = (holdId (clHeap l ! 0), holdExpiresAt (clHeap l ! 0))"
      by (simp add: hold_entry_def)
    have "holds_of (drop_hold l) = (holds_of l)(holdId (clHeap l ! 0) := None)"
      by (simp add: drop_hold_def)
    with less.hyps[OF D(5) D(1)] show ?thesis
      using False D e cleanupConcurrency_unfold[of l now] by (auto simp: fun_eq_iff)
  qed
qed

text \<open>Without stale entries exactly the expired holds go.\<close>

lemma cleanupConcurrency_holds:
  assumes "wf_conc l" "no_stale l"
  shows "holds_of (cleanupConcurrency l now) k = Some t \<longleftrightarrow> holds_of l k = Some t \<and> now < t"
proof -
  have C: "holds_of (cleanupConcurrency l now) k =
      (if \<exists>t. (k, t) \<in># cl_entries l \<and> t \<le> now then None else holds_of l k)"
    using cleanupConcurrency_correct[OF assms(1), of now] by simp
  have E: "(k, t) \<in># cl_entries l" if "holds_of l k = Some t"
    using assms(1) that by (simp add: wf_conc_def)
  have U: "t' = t" if "holds_of l k = Some t" "(k, t') \<in># cl_entries l" for t'
    using assms(2) that unfolding no_stale_def by blast
  show ?thesis using C E U by (auto simp: not_le[symmetric])
qed

lemma addConcurrencyHold_correct:
  assumes "wf_conc l"
  shows "wf_conc (addConcurrencyHold l leaseID e)"
    "cl_entries (addConcurrencyHold l leaseID e) = add_mset (leaseID, e) (cl_entries l)"
    "holds_of (addConcurrencyHold l leaseID e) = (holds_of l)(leaseID \<mapsto> e)"
    "clCap (addConcurrencyHold l leaseID e) = clCap l"
proof -
  let ?c = "\<lparr>holdId = leaseID, holdExpiresAt = e, holdHeapIndex = 0\<rparr>"
  have o: "heap_ordered snd (map hold_entry (clHeap l))" using assms by (simp add: wf_conc_def)
  note P = conc.Push_correct(2,3)[OF TrueI TrueI o, of ?c]
  show E: "cl_entries (addConcurrencyHold l leaseID e) = add_mset (leaseID, e) (cl_entries l)"
    using P(2) by (simp add: cl_entries_def addConcurrencyHold_def hold_entry_def)
  show "holds_of (addConcurrencyHold l leaseID e) = (holds_of l)(leaseID \<mapsto> e)"
    "clCap (addConcurrencyHold l leaseID e) = clCap l"
    by (simp_all add: addConcurrencyHold_def)
  show "wf_conc (addConcurrencyHold l leaseID e)"
    using assms P(1) E by (auto simp: wf_conc_def addConcurrencyHold_def distinct_update)
qed

lemma addConcurrencyHold_no_stale:
  assumes "wf_conc l" "no_stale l" "\<And>t. (leaseID, t) \<in># cl_entries l \<Longrightarrow> t = e"
  shows "no_stale (addConcurrencyHold l leaseID e)"
  using assms by (auto simp: no_stale_def addConcurrencyHold_correct)

lemma addConcurrencyHold_held:
  assumes "wf_conc l"
  shows "held (addConcurrencyHold l leaseID e) =
     (if holds_of l leaseID = None then Suc (held l) else held l)"
  using held_card[OF assms] held_card[OF addConcurrencyHold_correct(1)[OF assms]]
  by (auto simp: addConcurrencyHold_correct[OF assms] wf_conc_finite card_insert_if)

lemma release_hold_correct:
  "wf_conc l \<Longrightarrow> wf_conc (release_hold l leaseID)"
  "cl_entries (release_hold l leaseID) = cl_entries l"
  "no_stale l \<Longrightarrow> no_stale (release_hold l leaseID)"
  "holds_of (release_hold l leaseID) = (holds_of l)(leaseID := None)"
  "clCap (release_hold l leaseID) = clCap l"
  by (auto simp: wf_conc_def no_stale_def release_hold_def cl_entries_def distinct_delete
      split: if_splits)

lemma release_hold_held:
  assumes "wf_conc l"
  shows "held (release_hold l leaseID) =
     (if holds_of l leaseID = None then held l else held l - 1)"
  using held_card[OF assms] held_card[OF release_hold_correct(1)[OF assms]]
  by (auto simp: release_hold_correct wf_conc_finite card_Diff_singleton_if domIff)

end
