(* ===== verification/Mem_Backend.thy ===== *)
theory Mem_Backend
  imports Registry Mem_Rolling Mem_Concurrency
begin

text \<open>
  The in-memory backend (internal/backend/memory: backend.go, apply.go, reserve.go,
  complete.go, leases.go, retry.go, helpers.go, debt.go, registry.go).  Every exported method
  runs under the backend's one mutex, so a method is one step on the state.  The reading of
  the backend's clock is the argument \<open>clk\<close>.  A method that may dereference a nil limit returns
  an \<open>option\<close>, with \<open>None\<close> for the panic; the invariant \<open>wf_backend\<close> rules it out.
\<close>

section \<open>State\<close>

record lease_state =
  lsLeaseID :: string
  lsReservedAtUnix :: go_int
  lsRequirements :: "requirement list"
  lsReservedAmounts :: "limit_key \<rightharpoonup> uint64"

record memory_backend =
  mbRegistry :: bool
  mbRegistryPath :: string
  mbDefs :: "limit_key \<rightharpoonup> limit_definition"
  mbStates :: "limit_key \<rightharpoonup> limit_state"
  mbRoll :: "limit_key \<rightharpoonup> rolling_limit"
  mbConc :: "limit_key \<rightharpoonup> conc_limit"
  mbDebt :: "limit_key \<rightharpoonup> uint64"
  mbLeases :: "string \<rightharpoonup> lease_state"

definition mem_New :: memory_backend where
  "mem_New =
     \<lparr>mbRegistry = False, mbRegistryPath = [], mbDefs = Map.empty, mbStates = Map.empty,
      mbRoll = Map.empty, mbConc = Map.empty, mbDebt = Map.empty, mbLeases = Map.empty\<rparr>"

text \<open>The registry is shared with the API handler; \<open>attached\<close> says whether the pointer is not nil.\<close>

definition mem_AttachRegistry :: "memory_backend \<Rightarrow> bool \<Rightarrow> string \<Rightarrow> memory_backend" where
  "mem_AttachRegistry m attached path = m\<lparr>mbRegistry := attached, mbRegistryPath := path\<rparr>"

section \<open>Definitions\<close>

definition ensureLimitStores :: "memory_backend \<Rightarrow> limit_definition \<Rightarrow> memory_backend" where
  "ensureLimitStores m def =
     (if Kind def = KindRolling then
        (case mbRoll m (Key def) of
           None \<Rightarrow> m\<lparr>mbRoll := (mbRoll m)(Key def \<mapsto> newRollingLimit (Capacity def))\<rparr>
         | Some _ \<Rightarrow> m)
      else if Kind def = KindConcurrency then
        (case mbConc m (Key def) of
           None \<Rightarrow> m\<lparr>mbConc := (mbConc m)(Key def \<mapsto> newConcLimit (Capacity def))\<rparr>
         | Some _ \<Rightarrow> m)
      else m)"

definition updateCapacity :: "memory_backend \<Rightarrow> limit_definition \<Rightarrow> memory_backend" where
  "updateCapacity m def =
     (if Kind def = KindRolling then
        (case mbRoll m (Key def) of
           Some l \<Rightarrow> m\<lparr>mbRoll := (mbRoll m)(Key def \<mapsto> l\<lparr>rlCap := Capacity def\<rparr>)\<rparr>
         | None \<Rightarrow> m)
      else if Kind def = KindConcurrency then
        (case mbConc m (Key def) of
           Some l \<Rightarrow> m\<lparr>mbConc := (mbConc m)(Key def \<mapsto> l\<lparr>clCap := Capacity def\<rparr>)\<rparr>
         | None \<Rightarrow> m)
      else m)"

text \<open>The four statements that make a definition current, shared by three branches.\<close>

definition install :: "memory_backend \<Rightarrow> limit_state \<Rightarrow> memory_backend" where
  "install m state =
     (let def = Definition state;
          m1 = m\<lparr>mbDefs := (mbDefs m)(Key def \<mapsto> def), mbStates := (mbStates m)(Key def \<mapsto> state)\<rparr>
      in updateCapacity (ensureLimitStores m1 def) def)"

definition mem_ApplyDefinition :: "memory_backend \<Rightarrow> limit_definition \<Rightarrow> memory_backend" where
  "mem_ApplyDefinition m def =
     (case mbDefs m (Key def) of
        None \<Rightarrow>
          install m \<lparr>Definition = def, Status = LimitStatusActive, PendingDecreaseTo = 0\<rparr>
      | Some prev \<Rightarrow>
          if Capacity def \<ge> Capacity prev then
            install m \<lparr>Definition = def, Status = LimitStatusActive, PendingDecreaseTo = 0\<rparr>
          else
            m\<lparr>mbStates := (mbStates m)(Key def \<mapsto>
                \<lparr>Definition = prev, Status = LimitStatusDecreasing,
                 PendingDecreaseTo = Capacity def\<rparr>)\<rparr>)"

definition mem_ApplyState :: "memory_backend \<Rightarrow> limit_state \<Rightarrow> memory_backend" where
  "mem_ApplyState m state = install m state"

text \<open>
  \<open>applyStates\<close> of the daemon and the loop of \<open>NewMemoryLimiterFromStates\<close>: every state in turn.
\<close>

definition applyStates :: "memory_backend \<Rightarrow> limit_state list \<Rightarrow> memory_backend" where
  "applyStates m states = fold (\<lambda>s m. mem_ApplyState m s) states m"

section \<open>Decreases\<close>

definition cleanupLocked :: "go_time \<Rightarrow> memory_backend \<Rightarrow> limit_key \<Rightarrow> memory_backend" where
  "cleanupLocked clk m key =
     (case mbDefs m key of
        None \<Rightarrow> m
      | Some def \<Rightarrow>
          if Kind def = KindRolling then
            (case mbRoll m key of
               Some l \<Rightarrow> m\<lparr>mbRoll := (mbRoll m)(key \<mapsto> cleanupRolling l clk)\<rparr>
             | None \<Rightarrow> m)
          else if Kind def = KindConcurrency then
            (case mbConc m key of
               Some l \<Rightarrow> m\<lparr>mbConc := (mbConc m)(key \<mapsto> cleanupConcurrency l clk)\<rparr>
             | None \<Rightarrow> m)
          else m)"

definition availableCapacity :: "memory_backend \<Rightarrow> limit_key \<Rightarrow> limit_definition \<Rightarrow> uint64" where
  "availableCapacity m key def =
     (if Kind def = KindRolling then
        (case mbRoll m key of
           Some l \<Rightarrow> if rlUsed l \<ge> rlCap l then 0 else rlCap l - rlUsed l
         | None \<Rightarrow> 0)
      else if Kind def = KindConcurrency then
        (case mbConc m key of
           Some l \<Rightarrow> let used = of_nat (held l) in if used \<ge> clCap l then 0 else clCap l - used
         | None \<Rightarrow> 0)
      else 0)"

text \<open>
  \<open>TryApplyDecrease\<close> returns the backend, the registry and the path the registry is saved to,
  if it is.
\<close>

definition mem_TryApplyDecrease ::
    "go_time \<Rightarrow> memory_backend \<Rightarrow> registry \<Rightarrow> limit_key \<Rightarrow>
     memory_backend \<times> registry \<times> string option" where
  "mem_TryApplyDecrease clk m reg key =
     (case mbStates m key of
        None \<Rightarrow> (m, reg, None)
      | Some state \<Rightarrow>
          if Status state \<noteq> LimitStatusDecreasing then (m, reg, None)
          else
            let current = Capacity (Definition state); target = PendingDecreaseTo state in
            if target = 0 \<or> target \<ge> current then (m, reg, None)
            else
              let m1 = cleanupLocked clk m key;
                  available = availableCapacity m1 key (Definition state) in
              if available < current - target then (m1, reg, None)
              else
                let def' = (Definition state)\<lparr>Capacity := target\<rparr>;
                    state' = \<lparr>Definition = def', Status = LimitStatusActive, PendingDecreaseTo = 0\<rparr>;
                    m2 = m1\<lparr>mbStates := (mbStates m1)(key \<mapsto> state'),
                            mbDefs := (mbDefs m1)(key \<mapsto> def')\<rparr>;
                    m3 = updateCapacity m2 def' in
                if mbRegistry m then
                  (m3, registry_Put reg state',
                   if mbRegistryPath m \<noteq> [] then Some (mbRegistryPath m) else None)
                else (m3, reg, None))"

section \<open>Retry hints\<close>

definition decreaseRetryMs :: go_int where "decreaseRetryMs = 10000"
definition defaultRollingRetryMs :: go_int where "defaultRollingRetryMs = 100"
definition defaultConcurrencyMs :: go_int where "defaultConcurrencyMs = 50"
definition maxRollingRetryMs :: go_int where "maxRollingRetryMs = 5000"
definition maxConcurrencyRetryMs :: go_int where "maxConcurrencyRetryMs = 2000"

text \<open>
  The rolling hint is \<open>int(float64(WindowSeconds*1000) * 0.1)\<close> clamped to [100, 5000].  The
  double nearest to 0.1 exceeds it by one part in \<open>2 ^ 54\<close>, so for a product below \<open>2 ^ 53\<close>
  the rounded result truncates to the quotient by ten, and a larger one is clamped either way.
\<close>

definition retryAfter :: "limit_definition \<Rightarrow> go_int" where
  "retryAfter def =
     (if Kind def = KindConcurrency then
        let timeoutMs = wrap64 (TimeoutSeconds def * 1000);
            capMs = (if TimeoutSeconds def > 0 \<and> timeoutMs < maxConcurrencyRetryMs
                     then timeoutMs else maxConcurrencyRetryMs)
        in if capMs < defaultConcurrencyMs then capMs else defaultConcurrencyMs
      else if Kind def = KindRolling then
        let base = go_quot (wrap64 (WindowSeconds def * 1000)) 10;
            base = (if base < defaultRollingRetryMs then defaultRollingRetryMs else base)
        in if base > maxRollingRetryMs then maxRollingRetryMs else base
      else defaultRollingRetryMs)"

section \<open>Leases\<close>

definition indexByKey :: "requirement list \<Rightarrow> limit_key \<rightharpoonup> uint64" where
  "indexByKey reqs = foldl (\<lambda>out r. out(RKey r \<mapsto> Amount r)) Map.empty reqs"

definition requirementsEqual :: "requirement list \<Rightarrow> requirement list \<Rightarrow> bool" where
  "requirementsEqual a b \<longleftrightarrow>
     length a = length b \<and> (\<forall>r \<in> set b. indexByKey a (RKey r) = Some (Amount r))"

section \<open>Reserve\<close>

definition invalidRequestError :: string where "invalidRequestError = ''invalid_request''"

definition zero_definition :: limit_definition where
  "zero_definition =
     \<lparr>Key = [], Kind = [], Capacity = 0, WindowSeconds = 0, TimeoutSeconds = 0, Unit = [],
      Description = [], Overage = []\<rparr>"

text \<open>\<open>m.defs[key]\<close>\<close>

definition def_of :: "memory_backend \<Rightarrow> limit_key \<Rightarrow> limit_definition" where
  "def_of m key = (case mbDefs m key of Some d \<Rightarrow> d | None \<Rightarrow> zero_definition)"

text \<open>\<open>m.now(at)\<close>\<close>

definition backend_now :: "go_time \<Rightarrow> go_time \<Rightarrow> go_time" where
  "backend_now clk at = (if \<not> IsZero at then at else clk)"

definition is_decreasing :: "memory_backend \<Rightarrow> limit_key \<Rightarrow> bool" where
  "is_decreasing m key =
     (case mbStates m key of None \<Rightarrow> False | Some s \<Rightarrow> Status s = LimitStatusDecreasing)"

definition maxInt :: "go_int \<Rightarrow> go_int \<Rightarrow> go_int" where
  "maxInt a b = (if a > b then a else b)"

text \<open>The loops over the requirements: cleanup, feasibility, reservation.\<close>

fun cleanup_all :: "memory_backend \<Rightarrow> go_time \<Rightarrow> requirement list \<Rightarrow> memory_backend option" where
  "cleanup_all m now [] = Some m"
| "cleanup_all m now (r # rs) =
     (let def = def_of m (RKey r) in
      if Kind def = KindRolling then
        (case mbRoll m (RKey r) of
           None \<Rightarrow> None
         | Some l \<Rightarrow>
             cleanup_all (m\<lparr>mbRoll := (mbRoll m)(RKey r \<mapsto> cleanupRolling l now)\<rparr>) now rs)
      else if Kind def = KindConcurrency then
        (case mbConc m (RKey r) of
           None \<Rightarrow> None
         | Some l \<Rightarrow>
             cleanup_all (m\<lparr>mbConc := (mbConc m)(RKey r \<mapsto> cleanupConcurrency l now)\<rparr>) now rs)
      else cleanup_all m now rs)"

fun max_retry :: "memory_backend \<Rightarrow> requirement list \<Rightarrow> go_int \<Rightarrow> go_int option" where
  "max_retry m [] maxRetry = Some maxRetry"
| "max_retry m (r # rs) maxRetry =
     (let def = def_of m (RKey r) in
      if Kind def = KindRolling then
        (case mbRoll m (RKey r) of
           None \<Rightarrow> None
         | Some l \<Rightarrow>
             max_retry m rs
               (if rlUsed l + Amount r > rlCap l then maxInt maxRetry (retryAfter def) else maxRetry))
      else if Kind def = KindConcurrency then
        (case mbConc m (RKey r) of
           None \<Rightarrow> None
         | Some l \<Rightarrow>
             max_retry m rs
               (if of_nat (held l + 1) > clCap l then maxInt maxRetry (retryAfter def) else maxRetry))
      else max_retry m rs maxRetry)"

fun reserve_all ::
    "memory_backend \<Rightarrow> string \<Rightarrow> go_time \<Rightarrow> requirement list \<Rightarrow> memory_backend option" where
  "reserve_all m leaseID now [] = Some m"
| "reserve_all m leaseID now (r # rs) =
     (let def = def_of m (RKey r) in
      if Kind def = KindRolling then
        (case mbRoll m (RKey r) of
           None \<Rightarrow> None
         | Some l \<Rightarrow>
             reserve_all (m\<lparr>mbRoll := (mbRoll m)(RKey r \<mapsto>
                 addRollingReservation l leaseID (Amount r)
                   (Add now (dur (WindowSeconds def) Second)))\<rparr>) leaseID now rs)
      else if Kind def = KindConcurrency then
        (case mbConc m (RKey r) of
           None \<Rightarrow> None
         | Some l \<Rightarrow>
             reserve_all (m\<lparr>mbConc := (mbConc m)(RKey r \<mapsto>
                 addConcurrencyHold l leaseID
                   (Add now (dur (TimeoutSeconds def) Second)))\<rparr>) leaseID now rs)
      else reserve_all m leaseID now rs)"

definition mem_Reserve ::
    "go_time \<Rightarrow> memory_backend \<Rightarrow> reserve_request \<Rightarrow> go_time \<Rightarrow>
     (memory_backend \<times> reserve_response) option" where
  "mem_Reserve clk m req at =
     (if LeaseID req = [] \<or> Requirements req = [] then
        Some (m, reserve_response0\<lparr>Error := invalidRequestError\<rparr>)
      else case mbLeases m (LeaseID req) of
        Some state \<Rightarrow>
          if requirementsEqual (lsRequirements state) (Requirements req) then
            Some (m, reserve_response0\<lparr>Allowed := True, ReservedAtUnixMs := lsReservedAtUnix state\<rparr>)
          else Some (m, reserve_response0\<lparr>Error := invalidRequestError\<rparr>)
      | None \<Rightarrow>
        (case find (\<lambda>r. is_decreasing m (RKey r)) (Requirements req) of
           Some r \<Rightarrow>
             Some (m, reserve_response0\<lparr>RetryAfterMs := decreaseRetryMs,
                                       Error := ''limit_decreasing:'' @ RKey r\<rparr>)
         | None \<Rightarrow>
           (case find (\<lambda>r. mbDefs m (RKey r) = None) (Requirements req) of
              Some r \<Rightarrow> Some (m, reserve_response0\<lparr>Error := ''unknown_limit_key:'' @ RKey r\<rparr>)
            | None \<Rightarrow>
                let now = backend_now clk at in
                do {
                  m1 \<leftarrow> cleanup_all m now (Requirements req);
                  maxRetry \<leftarrow> max_retry m1 (Requirements req) 0;
                  if maxRetry > 0 then Some (m1, reserve_response0\<lparr>RetryAfterMs := maxRetry\<rparr>)
                  else do {
                    m2 \<leftarrow> reserve_all m1 (LeaseID req) now (Requirements req);
                    Some (m2\<lparr>mbLeases := (mbLeases m2)(LeaseID req \<mapsto>
                            \<lparr>lsLeaseID = LeaseID req, lsReservedAtUnix = UnixMilli now,
                             lsRequirements = Requirements req,
                             lsReservedAmounts = indexByKey (Requirements req)\<rparr>)\<rparr>,
                          reserve_response0\<lparr>Allowed := True, ReservedAtUnixMs := UnixMilli now\<rparr>)
                  }
                })))"

section \<open>Complete\<close>

definition debt_of :: "memory_backend \<Rightarrow> limit_key \<Rightarrow> uint64" where
  "debt_of m key = (case mbDebt m key of Some d \<Rightarrow> d | None \<Rightarrow> 0)"

definition mem_DebtForKey :: "memory_backend \<Rightarrow> limit_key \<Rightarrow> uint64" where
  "mem_DebtForKey m key = debt_of m key"

fun release_all :: "memory_backend \<Rightarrow> string \<Rightarrow> requirement list \<Rightarrow> memory_backend" where
  "release_all m leaseID [] = m"
| "release_all m leaseID (r # rs) =
     (case mbDefs m (RKey r) of
        None \<Rightarrow> release_all m leaseID rs
      | Some def \<Rightarrow>
          if Kind def = KindConcurrency then
            (case mbConc m (RKey r) of
               Some l \<Rightarrow>
                 release_all (m\<lparr>mbConc := (mbConc m)(RKey r \<mapsto> release_hold l leaseID)\<rparr>) leaseID rs
             | None \<Rightarrow> release_all m leaseID rs)
          else release_all m leaseID rs)"

text \<open>\<open>state.ReservedAmounts[key]\<close>\<close>

definition reserved_amount :: "lease_state \<Rightarrow> limit_key \<Rightarrow> uint64" where
  "reserved_amount state key = (case lsReservedAmounts state key of Some a \<Rightarrow> a | None \<Rightarrow> 0)"

fun reconcile_all ::
    "memory_backend \<Rightarrow> string \<Rightarrow> lease_state \<Rightarrow> actual list \<Rightarrow> memory_backend option" where
  "reconcile_all m leaseID state [] = Some m"
| "reconcile_all m leaseID state (a # as) =
     (case mbDefs m (AKey a) of
        None \<Rightarrow> reconcile_all m leaseID state as
      | Some def \<Rightarrow>
          if Kind def \<noteq> KindRolling then reconcile_all m leaseID state as
          else
            let reserved = reserved_amount state (AKey a) in
            if ActualAmount a < reserved then
              (case mbRoll m (AKey a) of
                 None \<Rightarrow> None
               | Some l \<Rightarrow>
                   reconcile_all (m\<lparr>mbRoll := (mbRoll m)(AKey a \<mapsto>
                       reduceRollingReservation l leaseID (ActualAmount a))\<rparr>) leaseID state as)
            else if ActualAmount a > reserved \<and> Overage def = OverageDebt then
              reconcile_all (m\<lparr>mbDebt := (mbDebt m)(AKey a \<mapsto>
                  debt_of m (AKey a) + (ActualAmount a - reserved))\<rparr>) leaseID state as
            else reconcile_all m leaseID state as)"

definition mem_Complete ::
    "memory_backend \<Rightarrow> complete_request \<Rightarrow> (memory_backend \<times> complete_response) option" where
  "mem_Complete m req =
     (case mbLeases m (CLeaseID req) of
        None \<Rightarrow> Some (m, complete_response0\<lparr>Ok := True\<rparr>)
      | Some state \<Rightarrow>
          do {
            m2 \<leftarrow> reconcile_all (release_all m (CLeaseID req) (lsRequirements state))
                    (CLeaseID req) state (Actuals req);
            Some (m2\<lparr>mbLeases := (mbLeases m2)(CLeaseID req := None)\<rparr>,
                  complete_response0\<lparr>Ok := True\<rparr>)
          })"

end
