(* ===== verification/Mem_Invariant.thy ===== *)
theory Mem_Invariant
  imports Mem_Backend
begin

text \<open>
  The invariant of the in-memory backend and its preservation by every operation, and the
  consequence that no operation panics.  The invariant says that every limit store is well
  formed, that a current definition has a store of its kind with its capacity, that stores
  belong to defined keys, and that the definition and the state of a key agree.
\<close>

section \<open>The invariant\<close>

definition roll_ok :: "limit_definition \<Rightarrow> rolling_limit option \<Rightarrow> bool" where
  "roll_ok d x \<longleftrightarrow>
     (case x of None \<Rightarrow> Kind d \<noteq> KindRolling
      | Some l \<Rightarrow> wf_rolling l \<and> (Kind d = KindRolling \<longrightarrow> rlCap l = Capacity d))"

definition conc_ok :: "limit_definition \<Rightarrow> conc_limit option \<Rightarrow> bool" where
  "conc_ok d x \<longleftrightarrow>
     (case x of None \<Rightarrow> Kind d \<noteq> KindConcurrency
      | Some l \<Rightarrow> wf_conc l \<and> (Kind d = KindConcurrency \<longrightarrow> clCap l = Capacity d))"

fun key_ok ::
    "limit_key \<Rightarrow> limit_definition option \<Rightarrow> limit_state option \<Rightarrow> rolling_limit option \<Rightarrow>
     conc_limit option \<Rightarrow> bool" where
  "key_ok k None st x y \<longleftrightarrow> st = None \<and> x = None \<and> y = None"
| "key_ok k (Some d) st x y \<longleftrightarrow>
     Key d = k \<and> map_option Definition st = Some d \<and> roll_ok d x \<and> conc_ok d y"

definition wf_backend :: "memory_backend \<Rightarrow> bool" where
  "wf_backend m \<longleftrightarrow> (\<forall>k. key_ok k (mbDefs m k) (mbStates m k) (mbRoll m k) (mbConc m k))"

text \<open>The amounts in use are the sums of the reservations.\<close>

definition accounted :: "memory_backend \<Rightarrow> bool" where
  "accounted m \<longleftrightarrow> (\<forall>k l. mbRoll m k = Some l \<longrightarrow> used_ok l)"

text \<open>What an operation on stores leaves alone.\<close>

definition same_tables :: "memory_backend \<Rightarrow> memory_backend \<Rightarrow> bool" where
  "same_tables m m' \<longleftrightarrow>
     mbRegistry m' = mbRegistry m \<and> mbRegistryPath m' = mbRegistryPath m \<and>
     mbDefs m' = mbDefs m \<and> mbStates m' = mbStates m \<and> mbDebt m' = mbDebt m \<and>
     mbLeases m' = mbLeases m"

lemma same_tables_refl [simp]: "same_tables m m"
  by (simp add: same_tables_def)

lemma same_tables_trans: "same_tables m m1 \<Longrightarrow> same_tables m1 m2 \<Longrightarrow> same_tables m m2"
  by (simp add: same_tables_def)

lemma same_tables_store [simp]:
  "same_tables m (m\<lparr>mbRoll := f\<rparr>)" "same_tables m (m\<lparr>mbConc := g\<rparr>)"
  by (simp_all add: same_tables_def)

lemma same_tables_def_of: "same_tables m m' \<Longrightarrow> def_of m' k = def_of m k"
  by (simp add: same_tables_def def_of_def)

section \<open>Consequences and updates\<close>

lemma wf_key_ok: "wf_backend m \<Longrightarrow> key_ok k (mbDefs m k) (mbStates m k) (mbRoll m k) (mbConc m k)"
  by (simp add: wf_backend_def)

lemma wf_rollD: "wf_backend m \<Longrightarrow> mbRoll m k = Some l \<Longrightarrow> wf_rolling l \<and> mbDefs m k \<noteq> None"
  by (drule wf_key_ok[of _ k]) (cases "mbDefs m k", auto simp: roll_ok_def)

lemma wf_concD: "wf_backend m \<Longrightarrow> mbConc m k = Some l \<Longrightarrow> wf_conc l \<and> mbDefs m k \<noteq> None"
  by (drule wf_key_ok[of _ k]) (cases "mbDefs m k", auto simp: conc_ok_def)

lemma wf_keyD: "wf_backend m \<Longrightarrow> mbDefs m k = Some d \<Longrightarrow> Key d = k"
  by (drule wf_key_ok[of _ k]) simp

lemma wf_statesD: "wf_backend m \<Longrightarrow> mbDefs m k = map_option Definition (mbStates m k)"
  by (drule wf_key_ok[of _ k]) (cases "mbDefs m k", auto)

lemma wf_roll_store:
  "wf_backend m \<Longrightarrow> mbDefs m k = Some d \<Longrightarrow> Kind d = KindRolling \<Longrightarrow>
   \<exists>l. mbRoll m k = Some l \<and> rlCap l = Capacity d"
  by (drule wf_key_ok[of _ k]) (auto simp: roll_ok_def split: option.splits)

lemma wf_conc_store:
  "wf_backend m \<Longrightarrow> mbDefs m k = Some d \<Longrightarrow> Kind d = KindConcurrency \<Longrightarrow>
   \<exists>l. mbConc m k = Some l \<and> clCap l = Capacity d"
  by (drule wf_key_ok[of _ k]) (auto simp: conc_ok_def split: option.splits)

lemma def_of_kind:
  "Kind (def_of m k) = KindRolling \<Longrightarrow> mbDefs m k = Some (def_of m k)"
  "Kind (def_of m k) = KindConcurrency \<Longrightarrow> mbDefs m k = Some (def_of m k)"
  by (auto simp: def_of_def zero_definition_def KindRolling_def KindConcurrency_def
      split: option.splits)

lemma wf_def_roll:
  "wf_backend m \<Longrightarrow> Kind (def_of m k) = KindRolling \<Longrightarrow>
   \<exists>l. mbRoll m k = Some l \<and> rlCap l = Capacity (def_of m k)"
  using wf_roll_store def_of_kind(1) by metis

lemma wf_def_conc:
  "wf_backend m \<Longrightarrow> Kind (def_of m k) = KindConcurrency \<Longrightarrow>
   \<exists>l. mbConc m k = Some l \<and> clCap l = Capacity (def_of m k)"
  using wf_conc_store def_of_kind(2) by metis

lemma wf_update_roll:
  assumes "wf_backend m" "mbRoll m k = Some l" "wf_rolling l'" "rlCap l' = rlCap l"
  shows "wf_backend (m\<lparr>mbRoll := (mbRoll m)(k \<mapsto> l')\<rparr>)"
  unfolding wf_backend_def
proof
  fix k'
  show "key_ok k' (mbDefs (m\<lparr>mbRoll := (mbRoll m)(k \<mapsto> l')\<rparr>) k')
      (mbStates (m\<lparr>mbRoll := (mbRoll m)(k \<mapsto> l')\<rparr>) k') (mbRoll (m\<lparr>mbRoll := (mbRoll m)(k \<mapsto> l')\<rparr>) k')
      (mbConc (m\<lparr>mbRoll := (mbRoll m)(k \<mapsto> l')\<rparr>) k')"
    using wf_key_ok[OF assms(1), of k'] assms(2-4) by (cases "mbDefs m k'") (auto simp: roll_ok_def)
qed

lemma wf_update_conc:
  assumes "wf_backend m" "mbConc m k = Some l" "wf_conc l'" "clCap l' = clCap l"
  shows "wf_backend (m\<lparr>mbConc := (mbConc m)(k \<mapsto> l')\<rparr>)"
  unfolding wf_backend_def
proof
  fix k'
  show "key_ok k' (mbDefs (m\<lparr>mbConc := (mbConc m)(k \<mapsto> l')\<rparr>) k')
      (mbStates (m\<lparr>mbConc := (mbConc m)(k \<mapsto> l')\<rparr>) k') (mbRoll (m\<lparr>mbConc := (mbConc m)(k \<mapsto> l')\<rparr>) k')
      (mbConc (m\<lparr>mbConc := (mbConc m)(k \<mapsto> l')\<rparr>) k')"
    using wf_key_ok[OF assms(1), of k'] assms(2-4) by (cases "mbDefs m k'") (auto simp: conc_ok_def)
qed

lemma wf_update_tables [simp]:
  "wf_backend (m\<lparr>mbLeases := x\<rparr>) = wf_backend m" "wf_backend (m\<lparr>mbDebt := y\<rparr>) = wf_backend m"
  "wf_backend (m\<lparr>mbRegistry := b, mbRegistryPath := p\<rparr>) = wf_backend m"
  by (simp_all add: wf_backend_def)

lemma accounted_update [simp]:
  "accounted (m\<lparr>mbLeases := x\<rparr>) = accounted m" "accounted (m\<lparr>mbDebt := y\<rparr>) = accounted m"
  "accounted (m\<lparr>mbConc := z\<rparr>) = accounted m"
  by (simp_all add: accounted_def)

lemma accounted_update_roll:
  "accounted m \<Longrightarrow> used_ok l' \<Longrightarrow> accounted (m\<lparr>mbRoll := (mbRoll m)(k \<mapsto> l')\<rparr>)"
  by (auto simp: accounted_def)

lemmas store_updates = wf_update_roll wf_update_conc accounted_update_roll

section \<open>Definitions\<close>

lemma wf_mem_New: "wf_backend mem_New" "accounted mem_New"
  by (simp_all add: wf_backend_def accounted_def mem_New_def)

lemma install_stores:
  "mbRoll (install m s) =
     (if Kind (Definition s) = KindRolling then
        (mbRoll m)(state_key s \<mapsto>
           (case mbRoll m (state_key s) of
              None \<Rightarrow> newRollingLimit (Capacity (Definition s)) | Some l \<Rightarrow> l)
             \<lparr>rlCap := Capacity (Definition s)\<rparr>)
      else mbRoll m)"
  "mbConc (install m s) =
     (if Kind (Definition s) = KindConcurrency then
        (mbConc m)(state_key s \<mapsto>
           (case mbConc m (state_key s) of
              None \<Rightarrow> newConcLimit (Capacity (Definition s)) | Some l \<Rightarrow> l)
             \<lparr>clCap := Capacity (Definition s)\<rparr>)
      else mbConc m)"
  by (auto simp: install_def Let_def ensureLimitStores_def updateCapacity_def state_key_def
      split: option.splits)

lemma install_tables:
  "mbDefs (install m s) = (mbDefs m)(state_key s \<mapsto> Definition s)"
  "mbStates (install m s) = (mbStates m)(state_key s \<mapsto> s)"
  "mbDebt (install m s) = mbDebt m" "mbLeases (install m s) = mbLeases m"
  "mbRegistry (install m s) = mbRegistry m" "mbRegistryPath (install m s) = mbRegistryPath m"
  by (auto simp: install_def Let_def ensureLimitStores_def updateCapacity_def state_key_def
      split: option.splits)

lemma wf_install [inv_intros]:
  assumes "wf_backend m"
  shows "wf_backend (install m s)"
  unfolding wf_backend_def
proof
  fix k
  show "key_ok k (mbDefs (install m s) k) (mbStates (install m s) k) (mbRoll (install m s) k)
      (mbConc (install m s) k)"
    using wf_key_ok[OF assms, of k] wf_rolling_new(1) wf_conc_new(1)
    by (cases "mbDefs m k")
       (auto simp: install_tables install_stores state_key_def roll_ok_def conc_ok_def
         split: option.splits)
qed

lemma accounted_install [inv_intros]: "accounted m \<Longrightarrow> accounted (install m s)"
  using wf_rolling_new by (auto simp: accounted_def install_stores split: option.splits)

lemma wf_ApplyDefinition [inv_intros]:
  assumes "wf_backend m"
  shows "wf_backend (mem_ApplyDefinition m d)"
proof (cases "\<exists>prev. mbDefs m (Key d) = Some prev \<and> Capacity d < Capacity prev")
  case True
  then obtain prev where prev: "mbDefs m (Key d) = Some prev" "Capacity d < Capacity prev" by blast
  show ?thesis
    unfolding wf_backend_def
  proof
    fix k
    show "key_ok k (mbDefs (mem_ApplyDefinition m d) k) (mbStates (mem_ApplyDefinition m d) k)
        (mbRoll (mem_ApplyDefinition m d) k) (mbConc (mem_ApplyDefinition m d) k)"
      using wf_key_ok[OF assms, of k] prev by (cases "mbDefs m k") (auto simp: mem_ApplyDefinition_def not_less[symmetric])
  qed
next
  case False
  then show ?thesis
    using wf_install[OF assms] by (auto simp: mem_ApplyDefinition_def not_less split: option.splits)
qed

lemma accounted_ApplyDefinition [inv_intros]:
  "accounted m \<Longrightarrow> accounted (mem_ApplyDefinition m d)"
  by (auto simp: mem_ApplyDefinition_def accounted_install split: option.splits)
     (auto simp: accounted_def)

lemma wf_ApplyState [inv_intros]:
  "wf_backend m \<Longrightarrow> wf_backend (mem_ApplyState m s)"
  "accounted m \<Longrightarrow> accounted (mem_ApplyState m s)"
  by (simp_all add: mem_ApplyState_def wf_install accounted_install)

section \<open>Cleanup\<close>

lemma cleanupLocked_props:
  assumes "wf_backend m"
  shows "wf_backend (cleanupLocked clk m k)" "same_tables m (cleanupLocked clk m k)"
    "accounted m \<Longrightarrow> accounted (cleanupLocked clk m k)"
proof -
  have R: "wf_rolling (cleanupRolling l clk)" "rlCap (cleanupRolling l clk) = rlCap l"
    "used_ok l \<Longrightarrow> used_ok (cleanupRolling l clk)" if "mbRoll m k = Some l" for l
    using cleanupRolling_correct[of l clk] wf_rollD[OF assms that] by auto
  have C: "wf_conc (cleanupConcurrency l clk)" "clCap (cleanupConcurrency l clk) = clCap l"
    if "mbConc m k = Some l" for l
    using cleanupConcurrency_correct[of l clk] wf_concD[OF assms that] by auto
  show "wf_backend (cleanupLocked clk m k)"
    using assms R C
    by (auto simp: cleanupLocked_def split: option.splits intro!: wf_update_roll wf_update_conc)
  show "same_tables m (cleanupLocked clk m k)"
    by (auto simp: cleanupLocked_def split: option.splits)
  show "accounted (cleanupLocked clk m k)" if "accounted m"
    using that R(3)
    by (auto simp: cleanupLocked_def accounted_def split: option.splits)
qed

lemma cleanup_all_total:
  "wf_backend m \<Longrightarrow> \<exists>m1. cleanup_all m now rs = Some m1 \<and> wf_backend m1 \<and> same_tables m m1 \<and>
     (accounted m \<longrightarrow> accounted m1)"
proof (induction rs arbitrary: m)
  case (Cons r rs)
  let ?d = "def_of m (RKey r)"
  consider (roll) "Kind ?d = KindRolling" | (conc) "Kind ?d = KindConcurrency"
    | (other) "Kind ?d \<noteq> KindRolling" "Kind ?d \<noteq> KindConcurrency" by blast
  then show ?case
  proof cases
    case roll
    then obtain l where l: "mbRoll m (RKey r) = Some l" using wf_def_roll[OF Cons.prems] by blast
    let ?m = "m\<lparr>mbRoll := (mbRoll m)(RKey r \<mapsto> cleanupRolling l now)\<rparr>"
    have C: "wf_rolling (cleanupRolling l now)" "rlCap (cleanupRolling l now) = rlCap l"
      "used_ok l \<Longrightarrow> used_ok (cleanupRolling l now)"
      using cleanupRolling_correct[of l now] wf_rollD[OF Cons.prems l] by auto
    have "wf_backend ?m" using wf_update_roll[OF Cons.prems l C(1,2)] .
    moreover have "accounted m \<Longrightarrow> accounted ?m"
      using C(3) l by (intro accounted_update_roll) (auto simp: accounted_def)
    ultimately show ?thesis
      using Cons.IH[of ?m] roll l same_tables_trans[of m ?m] by (auto simp: Let_def)
  next
    case conc
    then obtain l where l: "mbConc m (RKey r) = Some l" using wf_def_conc[OF Cons.prems] by blast
    let ?m = "m\<lparr>mbConc := (mbConc m)(RKey r \<mapsto> cleanupConcurrency l now)\<rparr>"
    have "wf_backend ?m"
      using wf_update_conc[OF Cons.prems l] cleanupConcurrency_correct[of l now] wf_concD[OF Cons.prems l]
      by auto
    then show ?thesis
      using Cons.IH[of ?m] conc l same_tables_trans[of m ?m] by (auto simp: Let_def)
  next
    case other
    then show ?thesis using Cons by (simp add: Let_def)
  qed
qed simp

section \<open>Feasibility\<close>

lemma maxInt_ge [simp]: "a \<le> maxInt a b" "b \<le> maxInt a b"
  by (simp_all add: maxInt_def)

lemma max_retry_total:
  "wf_backend m \<Longrightarrow> \<exists>x. max_retry m rs a = Some x \<and> a \<le> x"
proof (induction rs arbitrary: a)
  case (Cons r rs)
  then show ?case
    using wf_def_roll[of m "RKey r"] wf_def_conc[of m "RKey r"]
    by (fastforce simp: Let_def intro: order_trans[OF maxInt_ge(1)])
qed simp

text \<open>What a requirement needs to fit, as the feasibility loop tests it.\<close>

definition fits :: "memory_backend \<Rightarrow> requirement \<Rightarrow> bool" where
  "fits m r \<longleftrightarrow>
     (Kind (def_of m (RKey r)) = KindRolling \<longrightarrow>
        (\<forall>l. mbRoll m (RKey r) = Some l \<longrightarrow> rlUsed l + Amount r \<le> rlCap l)) \<and>
     (Kind (def_of m (RKey r)) = KindConcurrency \<longrightarrow>
        (\<forall>l. mbConc m (RKey r) = Some l \<longrightarrow> of_nat (held l + 1) \<le> clCap l))"

lemma max_retry_fits:
  assumes "max_retry m rs a = Some x" "x \<le> 0" "0 \<le> a"
    and "\<And>r. r \<in> set rs \<Longrightarrow> 0 < retryAfter (def_of m (RKey r))"
  shows "\<forall>r \<in> set rs. fits m r"
  using assms
proof (induction rs arbitrary: a)
  case (Cons r rs)
  have mono: "b \<le> x" if "max_retry m rs b = Some x" for b
    using that
  proof (induction rs arbitrary: b)
    case (Cons r' rs')
    then show ?case
      by (auto simp: Let_def split: if_splits option.splits dest!: Cons.IH intro: order_trans[OF maxInt_ge(1)])
  qed simp
  have big: "0 < maxInt a (retryAfter (def_of m (RKey r)))"
    using Cons.prems(3) Cons.prems(4)[of r] by (simp add: maxInt_def)
  then have no: "max_retry m rs (maxInt a (retryAfter (def_of m (RKey r)))) \<noteq> Some x"
    using mono Cons.prems(2) by fastforce
  have "fits m r" "max_retry m rs a = Some x"
    using Cons.prems(1) no
    by (auto simp: fits_def Let_def not_less split: if_splits option.splits)
  then show ?case using Cons.IH[of a] Cons.prems by auto
qed simp

text \<open>The hint is positive, which the loop relies on, for a sane timeout.\<close>

definition sane_timeout :: "limit_definition \<Rightarrow> bool" where
  "sane_timeout d \<longleftrightarrow> TimeoutSeconds d * 1000 < 2 ^ 63"

lemma retryAfter_pos: "sane_timeout d \<Longrightarrow> 0 < retryAfter d"
proof -
  assume "sane_timeout d"
  then have "TimeoutSeconds d > 0 \<Longrightarrow> in_int64 (TimeoutSeconds d * 1000)"
    by (simp add: sane_timeout_def in_int64_def)
  then show ?thesis
    by (auto simp: retryAfter_def Let_def maxConcurrencyRetryMs_def defaultConcurrencyMs_def
        defaultRollingRetryMs_def maxRollingRetryMs_def)
qed

section \<open>Reservation\<close>

definition roll_expiry :: "go_time \<Rightarrow> limit_definition \<Rightarrow> go_time" where
  "roll_expiry now d = Add now (dur (WindowSeconds d) Second)"

definition conc_expiry :: "go_time \<Rightarrow> limit_definition \<Rightarrow> go_time" where
  "conc_expiry now d = Add now (dur (TimeoutSeconds d) Second)"

text \<open>One round of the reservation loop, and of the cleanup loop, on the stores.\<close>

definition reserve_step :: "memory_backend \<Rightarrow> string \<Rightarrow> go_time \<Rightarrow> requirement \<Rightarrow> memory_backend option" where
  "reserve_step m leaseID now r = reserve_all m leaseID now [r]"

lemma reserve_all_Cons:
  "reserve_all m leaseID now (r # rs) =
     do { m1 \<leftarrow> reserve_step m leaseID now r; reserve_all m1 leaseID now rs }"
  by (simp add: reserve_step_def Let_def split: option.splits)

definition cleanup_step :: "memory_backend \<Rightarrow> go_time \<Rightarrow> requirement \<Rightarrow> memory_backend option" where
  "cleanup_step m now r = cleanup_all m now [r]"

lemma cleanup_all_Cons:
  "cleanup_all m now (r # rs) = do { m1 \<leftarrow> cleanup_step m now r; cleanup_all m1 now rs }"
  by (simp add: cleanup_step_def Let_def split: option.splits)

text \<open>The stores of one key after a round for it.\<close>

definition reserved_roll :: "memory_backend \<Rightarrow> string \<Rightarrow> go_time \<Rightarrow> requirement \<Rightarrow> rolling_limit option" where
  "reserved_roll m leaseID now r =
     (let d = def_of m (RKey r) in
      if Kind d = KindRolling
      then map_option (\<lambda>l. addRollingReservation l leaseID (Amount r) (roll_expiry now d))
             (mbRoll m (RKey r))
      else mbRoll m (RKey r))"

definition reserved_conc :: "memory_backend \<Rightarrow> string \<Rightarrow> go_time \<Rightarrow> requirement \<Rightarrow> conc_limit option" where
  "reserved_conc m leaseID now r =
     (let d = def_of m (RKey r) in
      if Kind d = KindConcurrency
      then map_option (\<lambda>l. addConcurrencyHold l leaseID (conc_expiry now d)) (mbConc m (RKey r))
      else mbConc m (RKey r))"

definition cleaned_roll :: "memory_backend \<Rightarrow> go_time \<Rightarrow> limit_key \<Rightarrow> rolling_limit option" where
  "cleaned_roll m now k =
     (if Kind (def_of m k) = KindRolling then map_option (\<lambda>l. cleanupRolling l now) (mbRoll m k)
      else mbRoll m k)"

definition cleaned_conc :: "memory_backend \<Rightarrow> go_time \<Rightarrow> limit_key \<Rightarrow> conc_limit option" where
  "cleaned_conc m now k =
     (if Kind (def_of m k) = KindConcurrency then map_option (\<lambda>l. cleanupConcurrency l now) (mbConc m k)
      else mbConc m k)"

lemma reserve_step_total:
  assumes "wf_backend m"
  shows "\<exists>m1. reserve_step m leaseID now r = Some m1 \<and> wf_backend m1 \<and> same_tables m m1 \<and>
     mbRoll m1 = (mbRoll m)(RKey r := reserved_roll m leaseID now r) \<and>
     mbConc m1 = (mbConc m)(RKey r := reserved_conc m leaseID now r)"
proof -
  let ?d = "def_of m (RKey r)"
  consider (roll) "Kind ?d = KindRolling" | (conc) "Kind ?d = KindConcurrency"
    | (other) "Kind ?d \<noteq> KindRolling" "Kind ?d \<noteq> KindConcurrency" by blast
  then show ?thesis
  proof cases
    case roll
    then obtain l where l: "mbRoll m (RKey r) = Some l" using wf_def_roll[OF assms] by blast
    have "wf_rolling l" using wf_rollD[OF assms l] by simp
    from wf_update_roll[OF assms l addRollingReservation_correct(1,4)[OF this]]
    show ?thesis using roll l
      by (auto simp: reserve_step_def Let_def reserved_roll_def reserved_conc_def roll_expiry_def)
  next
    case conc
    then obtain l where l: "mbConc m (RKey r) = Some l" using wf_def_conc[OF assms] by blast
    have "wf_conc l" using wf_concD[OF assms l] by simp
    from wf_update_conc[OF assms l addConcurrencyHold_correct(1,4)[OF this]]
    show ?thesis using conc l
      by (auto simp: reserve_step_def Let_def reserved_roll_def reserved_conc_def conc_expiry_def)
  next
    case other
    then show ?thesis using assms
      by (simp add: reserve_step_def Let_def reserved_roll_def reserved_conc_def)
  qed
qed

lemma cleanup_step_total:
  assumes "wf_backend m"
  shows "\<exists>m1. cleanup_step m now r = Some m1 \<and>
     mbRoll m1 = (mbRoll m)(RKey r := cleaned_roll m now (RKey r)) \<and>
     mbConc m1 = (mbConc m)(RKey r := cleaned_conc m now (RKey r))"
  using wf_def_roll[OF assms, of "RKey r"] wf_def_conc[OF assms, of "RKey r"]
  by (auto simp: cleanup_step_def Let_def cleaned_roll_def cleaned_conc_def fun_upd_idem)

lemma cleanup_all_stores:
  "wf_backend m \<Longrightarrow> distinct (map RKey rs) \<Longrightarrow> cleanup_all m now rs = Some m1 \<Longrightarrow>
   mbRoll m1 k = (if k \<in> RKey ` set rs then cleaned_roll m now k else mbRoll m k) \<and>
   mbConc m1 k = (if k \<in> RKey ` set rs then cleaned_conc m now k else mbConc m k)"
proof (induction rs arbitrary: m)
  case (Cons r rs)
  obtain m0 where m0: "cleanup_step m now r = Some m0"
    "mbRoll m0 = (mbRoll m)(RKey r := cleaned_roll m now (RKey r))"
    "mbConc m0 = (mbConc m)(RKey r := cleaned_conc m now (RKey r))"
    using cleanup_step_total[OF Cons.prems(1)] by blast
  have w: "wf_backend m0" "same_tables m m0"
    using cleanup_all_total[OF Cons.prems(1), of now "[r]"] m0(1) by (auto simp: cleanup_step_def)
  have "cleanup_all m0 now rs = Some m1" using Cons.prems(3) m0(1) by (simp add: cleanup_all_Cons del: cleanup_all.simps)
  from Cons.IH[OF w(1) _ this] show ?case
    using Cons.prems(2) m0(2,3)
    by (auto simp: cleaned_roll_def cleaned_conc_def same_tables_def_of[OF w(2)] image_iff)
qed simp

lemma reserve_all_total:
  "wf_backend m \<Longrightarrow> \<exists>m2. reserve_all m leaseID now rs = Some m2 \<and> wf_backend m2 \<and> same_tables m m2"
proof (induction rs arbitrary: m)
  case (Cons r rs)
  obtain m1 where "reserve_step m leaseID now r = Some m1" "wf_backend m1" "same_tables m m1"
    using reserve_step_total[OF Cons.prems] by blast
  then show ?case
    using Cons.IH[of m1] same_tables_trans[of m m1] by (fastforce simp: reserve_all_Cons simp del: reserve_all.simps)
qed simp

lemma reserve_all_stores:
  "wf_backend m \<Longrightarrow> distinct (map RKey rs) \<Longrightarrow> reserve_all m leaseID now rs = Some m2 \<Longrightarrow>
   (\<forall>r \<in> set rs. mbRoll m2 (RKey r) = reserved_roll m leaseID now r \<and>
                 mbConc m2 (RKey r) = reserved_conc m leaseID now r) \<and>
   (\<forall>k. k \<notin> RKey ` set rs \<longrightarrow> mbRoll m2 k = mbRoll m k \<and> mbConc m2 k = mbConc m k)"
proof (induction rs arbitrary: m)
  case (Cons r rs)
  obtain m1 where m1: "reserve_step m leaseID now r = Some m1" "wf_backend m1" "same_tables m m1"
     "mbRoll m1 = (mbRoll m)(RKey r := reserved_roll m leaseID now r)"
     "mbConc m1 = (mbConc m)(RKey r := reserved_conc m leaseID now r)"
    using reserve_step_total[OF Cons.prems(1)] by blast
  have rest: "reserve_all m1 leaseID now rs = Some m2"
    using Cons.prems(3) m1(1) by (simp add: reserve_all_Cons del: reserve_all.simps)
  have other: "reserved_roll m1 leaseID now r' = reserved_roll m leaseID now r'"
    "reserved_conc m1 leaseID now r' = reserved_conc m leaseID now r'" if "r' \<in> set rs" for r'
  proof -
    have "RKey r' \<noteq> RKey r" using Cons.prems(2) that by (auto simp: image_iff)
    then show "reserved_roll m1 leaseID now r' = reserved_roll m leaseID now r'"
      "reserved_conc m1 leaseID now r' = reserved_conc m leaseID now r'"
      using m1(4,5)
      by (simp_all add: Let_def reserved_roll_def reserved_conc_def same_tables_def_of[OF m1(3)])
  qed
  show ?case
    using Cons.IH[OF m1(2) _ rest] Cons.prems(2) m1(4,5) other by (auto simp: image_iff)
qed simp

section \<open>Reserve\<close>

text \<open>The outcomes of \<open>Reserve\<close>: refused at the door, known lease, denied, or admitted.\<close>

lemma mem_Reserve_run:
  assumes "wf_backend m" "LeaseID req \<noteq> []" "Requirements req \<noteq> []" "mbLeases m (LeaseID req) = None"
    and "\<forall>r \<in> set (Requirements req). \<not> is_decreasing m (RKey r) \<and> mbDefs m (RKey r) \<noteq> None"
  obtains m1 x m2 where
    "cleanup_all m (backend_now clk at) (Requirements req) = Some m1" "wf_backend m1" "same_tables m m1"
    "accounted m \<Longrightarrow> accounted m1"
    "max_retry m1 (Requirements req) 0 = Some x" "0 \<le> x"
    "reserve_all m1 (LeaseID req) (backend_now clk at) (Requirements req) = Some m2"
    "wf_backend m2" "same_tables m1 m2"
    "mem_Reserve clk m req at =
       (if x > 0 then Some (m1, reserve_response0\<lparr>RetryAfterMs := x\<rparr>)
        else Some (m2\<lparr>mbLeases := (mbLeases m)(LeaseID req \<mapsto>
               \<lparr>lsLeaseID = LeaseID req, lsReservedAtUnix = UnixMilli (backend_now clk at),
                lsRequirements = Requirements req,
                lsReservedAmounts = indexByKey (Requirements req)\<rparr>)\<rparr>,
             reserve_response0\<lparr>Allowed := True, ReservedAtUnixMs := UnixMilli (backend_now clk at)\<rparr>))"
proof -
  let ?now = "backend_now clk at" and ?rs = "Requirements req"
  obtain m1 where m1: "cleanup_all m ?now ?rs = Some m1" "wf_backend m1" "same_tables m m1"
    "accounted m \<longrightarrow> accounted m1"
    using cleanup_all_total[OF assms(1)] by blast
  obtain x where x: "max_retry m1 ?rs 0 = Some x" "0 \<le> x" using max_retry_total[OF m1(2)] by blast
  obtain m2 where m2: "reserve_all m1 (LeaseID req) ?now ?rs = Some m2" "wf_backend m2" "same_tables m1 m2"
    using reserve_all_total[OF m1(2)] by blast
  have f: "find (\<lambda>r. is_decreasing m (RKey r)) ?rs = None" "find (\<lambda>r. mbDefs m (RKey r) = None) ?rs = None"
    using assms(5) by (auto simp: find_None_iff)
  have "mbLeases m2 = mbLeases m" using m1(3) m2(3) by (simp add: same_tables_def)
  then have "mem_Reserve clk m req at =
       (if x > 0 then Some (m1, reserve_response0\<lparr>RetryAfterMs := x\<rparr>)
        else Some (m2\<lparr>mbLeases := (mbLeases m)(LeaseID req \<mapsto>
               \<lparr>lsLeaseID = LeaseID req, lsReservedAtUnix = UnixMilli ?now,
                lsRequirements = ?rs, lsReservedAmounts = indexByKey ?rs\<rparr>)\<rparr>,
             reserve_response0\<lparr>Allowed := True, ReservedAtUnixMs := UnixMilli ?now\<rparr>))"
    using assms(2-4) f m1(1) x(1) m2(1) by (simp add: mem_Reserve_def Let_def)
  then show thesis using that m1 x m2 by blast
qed

lemma mem_Reserve_cases:
  assumes "wf_backend m"
  shows "\<exists>resp. mem_Reserve clk m req at = Some (m, resp) \<or>
    (LeaseID req \<noteq> [] \<and> Requirements req \<noteq> [] \<and> mbLeases m (LeaseID req) = None \<and>
     (\<forall>r \<in> set (Requirements req). \<not> is_decreasing m (RKey r) \<and> mbDefs m (RKey r) \<noteq> None))"
proof (cases "LeaseID req = [] \<or> Requirements req = [] \<or> mbLeases m (LeaseID req) \<noteq> None")
  case True
  then show ?thesis by (auto simp: mem_Reserve_def split: option.splits)
next
  case False
  show ?thesis
  proof (cases "find (\<lambda>r. is_decreasing m (RKey r)) (Requirements req)")
    case (Some r)
    with False show ?thesis by (auto simp: mem_Reserve_def)
  next
    case dec: None
    show ?thesis
    proof (cases "find (\<lambda>r. mbDefs m (RKey r) = None) (Requirements req)")
      case (Some r)
      with False dec show ?thesis by (auto simp: mem_Reserve_def)
    next
      case None
      with False dec show ?thesis by (auto simp: find_None_iff)
    qed
  qed
qed

end
