(* ===== verification/Mem_Safety.thy ===== *)
theory Mem_Safety
  imports Mem_Invariant
begin

text \<open>
  The safety of the in-memory backend: no operation panics, and whatever operations are run on
  it, no limit is ever used beyond its capacity.  The operations are the steps of a relation;
  its rules state what the theorem needs of the callers (a request names a limit once and its
  amounts do not overflow 64 bits, and a limit keeps its kind).
\<close>

section \<open>Completion\<close>

lemma release_all_props:
  "wf_backend m \<Longrightarrow> wf_backend (release_all m leaseID rs) \<and> same_tables m (release_all m leaseID rs) \<and>
     mbRoll (release_all m leaseID rs) = mbRoll m \<and>
     (\<forall>k. mbConc (release_all m leaseID rs) k =
        (if k \<in> RKey ` set rs \<and> Kind (def_of m k) = KindConcurrency
         then map_option (\<lambda>l. release_hold l leaseID) (mbConc m k) else mbConc m k))"
proof (induction rs arbitrary: m)
  case (Cons r rs)
  have twice: "release_hold (release_hold l leaseID) leaseID = release_hold l leaseID" for l
    by (simp add: release_hold_def delete_idem)
  show ?case
  proof (cases "Kind (def_of m (RKey r)) = KindConcurrency")
    case True
    then obtain l where l: "mbConc m (RKey r) = Some l" "mbDefs m (RKey r) = Some (def_of m (RKey r))"
      using wf_def_conc[OF Cons.prems] def_of_kind(2) by blast
    let ?m = "m\<lparr>mbConc := (mbConc m)(RKey r \<mapsto> release_hold l leaseID)\<rparr>"
    have "wf_backend ?m"
      using wf_update_conc[OF Cons.prems l(1)] release_hold_correct(1,5) wf_concD[OF Cons.prems l(1)]
      by blast
    moreover have "release_all m leaseID (r # rs) = release_all ?m leaseID rs"
      using l True by simp
    moreover have "def_of ?m k = def_of m k" for k by (simp add: def_of_def)
    ultimately show ?thesis
      using Cons.IH[of ?m] True l same_tables_trans[of m ?m] twice by auto
  next
    case False
    then have "release_all m leaseID (r # rs) = release_all m leaseID rs"
      by (auto simp: def_of_def split: option.splits)
    with False Cons.IH[OF Cons.prems] show ?thesis by auto
  qed
qed simp

text \<open>What reconciliation may change: the rolling stores and the debts.\<close>

definition reconciles :: "memory_backend \<Rightarrow> memory_backend \<Rightarrow> bool" where
  "reconciles m m' \<longleftrightarrow>
     mbRegistry m' = mbRegistry m \<and> mbRegistryPath m' = mbRegistryPath m \<and> mbDefs m' = mbDefs m \<and>
     mbStates m' = mbStates m \<and> mbConc m' = mbConc m \<and> mbLeases m' = mbLeases m \<and>
     (\<forall>k. rel_option (\<lambda>l l'. rlCap l' = rlCap l \<and> rlUsed l' \<le> rlUsed l) (mbRoll m k) (mbRoll m' k))"

lemma reconciles_refl [simp]: "reconciles m m"
  by (simp add: reconciles_def option.rel_refl)

lemma reconciles_trans:
  assumes "reconciles m m1" "reconciles m1 m2"
  shows "reconciles m m2"
proof -
  have "rel_option (\<lambda>l l'. rlCap l' = rlCap l \<and> rlUsed l' \<le> rlUsed l) (mbRoll m k) (mbRoll m2 k)" for k
  proof -
    have 1: "rel_option (\<lambda>l l'. rlCap l' = rlCap l \<and> rlUsed l' \<le> rlUsed l) (mbRoll m k) (mbRoll m1 k)"
      and 2: "rel_option (\<lambda>l l'. rlCap l' = rlCap l \<and> rlUsed l' \<le> rlUsed l) (mbRoll m1 k) (mbRoll m2 k)"
      using assms by (simp_all add: reconciles_def)
    show ?thesis
      using 1 2 by (cases "mbRoll m k"; cases "mbRoll m1 k"; cases "mbRoll m2 k") auto
  qed
  with assms show ?thesis by (simp add: reconciles_def)
qed

lemma reduce_props:
  assumes "wf_rolling l"
  shows "wf_rolling (reduceRollingReservation l leaseID n)"
    "rlCap (reduceRollingReservation l leaseID n) = rlCap l"
    "rlUsed (reduceRollingReservation l leaseID n) \<le> rlUsed l"
    "used_ok l \<Longrightarrow> used_ok (reduceRollingReservation l leaseID n)"
proof -
  have "wf_rolling (reduceRollingReservation l leaseID n) \<and>
    rlCap (reduceRollingReservation l leaseID n) = rlCap l \<and>
    rlUsed (reduceRollingReservation l leaseID n) \<le> rlUsed l \<and>
    (used_ok l \<longrightarrow> used_ok (reduceRollingReservation l leaseID n))"
  proof (cases "rlById l leaseID")
    case None
    with assms show ?thesis by (simp add: reduceRollingReservation_none)
  next
    case (Some p)
    show ?thesis
    proof (cases "n < fst (snd (rl_objs l ! p))")
      case False
      with assms Some show ?thesis by (simp add: reduceRollingReservation_large)
    next
      case True
      note R = reduceRollingReservation_objs[OF assms Some True]
        and C = reduceRollingReservation_correct[OF assms Some True]
      have "rlUsed (reduceRollingReservation l leaseID n) \<le> rlUsed l"
        unfolding R(6) Let_def by (simp add: word_sub_le)
      with R(5) C(1,3) show ?thesis by simp
    qed
  qed
  then show "wf_rolling (reduceRollingReservation l leaseID n)"
    "rlCap (reduceRollingReservation l leaseID n) = rlCap l"
    "rlUsed (reduceRollingReservation l leaseID n) \<le> rlUsed l"
    "used_ok l \<Longrightarrow> used_ok (reduceRollingReservation l leaseID n)" by auto
qed

lemma reconcile_all_total:
  "wf_backend m \<Longrightarrow> \<exists>m'. reconcile_all m leaseID st as = Some m' \<and> wf_backend m' \<and> reconciles m m' \<and>
     (accounted m \<longrightarrow> accounted m')"
proof (induction as arbitrary: m)
  case (Cons a as)
  show ?case
  proof (cases "mbDefs m (AKey a)")
    case None
    with Cons show ?thesis by simp
  next
    case d: (Some d)
    let ?res = "reserved_amount st (AKey a)"
    let ?debt = "m\<lparr>mbDebt := (mbDebt m)(AKey a \<mapsto> debt_of m (AKey a) + (ActualAmount a - ?res))\<rparr>"
    consider (other) "Kind d \<noteq> KindRolling" | (under) "Kind d = KindRolling" "ActualAmount a < ?res"
      | (over) "Kind d = KindRolling" "\<not> ActualAmount a < ?res" by blast
    then show ?thesis
    proof cases
      case other
      with Cons d show ?thesis by simp
    next
      case under
      obtain l where l: "mbRoll m (AKey a) = Some l" using wf_roll_store[OF Cons.prems d under(1)] by blast
      let ?l = "reduceRollingReservation l leaseID (ActualAmount a)"
      let ?m = "m\<lparr>mbRoll := (mbRoll m)(AKey a \<mapsto> ?l)\<rparr>"
      have P: "wf_rolling ?l" "rlCap ?l = rlCap l" "rlUsed ?l \<le> rlUsed l" "used_ok l \<Longrightarrow> used_ok ?l"
        using reduce_props[of l] wf_rollD[OF Cons.prems l] by auto
      have w: "wf_backend ?m" by (rule wf_update_roll[OF Cons.prems l P(1,2)])
      have r: "reconciles m ?m" using P(2,3) l by (simp add: reconciles_def option.rel_refl)
      have "accounted m \<Longrightarrow> accounted ?m"
        using P(4) l by (intro accounted_update_roll) (auto simp: accounted_def)
      moreover have "reconcile_all m leaseID st (a # as) = reconcile_all ?m leaseID st as"
        using d under l by simp
      ultimately show ?thesis using Cons.IH[OF w] reconciles_trans[OF r] by metis
    next
      case over
      have r: "reconciles m ?debt" by (simp add: reconciles_def option.rel_refl)
      have w: "wf_backend ?debt" "accounted m \<Longrightarrow> accounted ?debt" using Cons.prems by simp_all
      show ?thesis
      proof (cases "ActualAmount a > ?res \<and> Overage d = OverageDebt")
        case True
        then have "reconcile_all m leaseID st (a # as) = reconcile_all ?debt leaseID st as"
          using d over by simp
        then show ?thesis using Cons.IH[OF w(1)] w(2) reconciles_trans[OF r] by metis
      next
        case False
        then have "reconcile_all m leaseID st (a # as) = reconcile_all m leaseID st as"
          using d over by auto
        then show ?thesis using Cons.IH[OF Cons.prems] by simp
      qed
    qed
  qed
qed simp

lemma mem_Complete_run:
  assumes "wf_backend m" "mbLeases m (CLeaseID req) = Some st"
  obtains m2 where
    "reconcile_all (release_all m (CLeaseID req) (lsRequirements st)) (CLeaseID req) st (Actuals req) = Some m2"
    "wf_backend m2" "reconciles (release_all m (CLeaseID req) (lsRequirements st)) m2"
    "accounted m \<Longrightarrow> accounted m2"
    "mem_Complete m req =
       Some (m2\<lparr>mbLeases := (mbLeases m)(CLeaseID req := None)\<rparr>, complete_response0\<lparr>Ok := True\<rparr>)"
proof -
  let ?m1 = "release_all m (CLeaseID req) (lsRequirements st)"
  have m1: "wf_backend ?m1" "mbLeases ?m1 = mbLeases m" "accounted m \<Longrightarrow> accounted ?m1"
    using release_all_props[OF assms(1)] by (simp_all add: same_tables_def accounted_def)
  obtain m2 where m2: "reconcile_all ?m1 (CLeaseID req) st (Actuals req) = Some m2" "wf_backend m2"
    "reconciles ?m1 m2" "accounted ?m1 \<longrightarrow> accounted m2"
    using reconcile_all_total[OF m1(1)] by blast
  have "mem_Complete m req =
      Some (m2\<lparr>mbLeases := (mbLeases m)(CLeaseID req := None)\<rparr>, complete_response0\<lparr>Ok := True\<rparr>)"
    using m1(2) m2 assms(2) by (simp add: mem_Complete_def reconciles_def)
  with that m2 m1 show thesis by blast
qed

section \<open>No panic\<close>

lemma mem_Reserve_total:
  assumes "wf_backend m"
  shows "\<exists>m' resp. mem_Reserve clk m req at = Some (m', resp) \<and> wf_backend m'"
proof -
  obtain resp where "mem_Reserve clk m req at = Some (m, resp) \<or>
    (LeaseID req \<noteq> [] \<and> Requirements req \<noteq> [] \<and> mbLeases m (LeaseID req) = None \<and>
     (\<forall>r \<in> set (Requirements req). \<not> is_decreasing m (RKey r) \<and> mbDefs m (RKey r) \<noteq> None))"
    using mem_Reserve_cases[OF assms] by blast
  then show ?thesis
  proof
    assume a: "LeaseID req \<noteq> [] \<and> Requirements req \<noteq> [] \<and> mbLeases m (LeaseID req) = None \<and>
     (\<forall>r \<in> set (Requirements req). \<not> is_decreasing m (RKey r) \<and> mbDefs m (RKey r) \<noteq> None)"
    show ?thesis
      by (rule mem_Reserve_run[OF assms, of req clk at]) (use a in auto)
  qed (use assms in auto)
qed

lemma mem_Complete_total:
  assumes "wf_backend m"
  shows "\<exists>m' resp. mem_Complete m req = Some (m', resp) \<and> wf_backend m' \<and> Ok resp"
proof (cases "mbLeases m (CLeaseID req)")
  case None
  with assms show ?thesis by (simp add: mem_Complete_def)
next
  case (Some st)
  show ?thesis by (rule mem_Complete_run[OF assms Some]) auto
qed

section \<open>Usage within capacity\<close>

definition roll_within :: "limit_definition \<Rightarrow> rolling_limit option \<Rightarrow> bool" where
  "roll_within d x \<longleftrightarrow>
     (Kind d = KindRolling \<longrightarrow> (case x of None \<Rightarrow> True | Some l \<Rightarrow> rlUsed l \<le> rlCap l))"

definition conc_within :: "limit_definition \<Rightarrow> conc_limit option \<Rightarrow> bool" where
  "conc_within d y \<longleftrightarrow>
     (Kind d = KindConcurrency \<longrightarrow> (case y of None \<Rightarrow> True | Some l \<Rightarrow> held l \<le> unat (clCap l)))"

definition within :: "memory_backend \<Rightarrow> bool" where
  "within m \<longleftrightarrow>
     (\<forall>k. roll_within (def_of m k) (mbRoll m k) \<and> conc_within (def_of m k) (mbConc m k))"

text \<open>A definition whose retry hint is positive and whose capacity is not the largest word.\<close>

definition sane_definition :: "limit_definition \<Rightarrow> bool" where
  "sane_definition d \<longleftrightarrow> sane_timeout d \<and> unat (Capacity d) + 1 < 2 ^ 64"

definition sane :: "memory_backend \<Rightarrow> bool" where
  "sane m \<longleftrightarrow> (\<forall>k d. mbDefs m k = Some d \<longrightarrow> sane_definition d)"

definition safe :: "memory_backend \<Rightarrow> bool" where
  "safe m \<longleftrightarrow> wf_backend m \<and> accounted m \<and> within m \<and> sane m"

lemma sane_def_of: "sane m \<Longrightarrow> sane_definition (def_of m k)"
  by (auto simp: sane_def def_of_def zero_definition_def sane_timeout_def sane_definition_def split: option.splits)

lemma sane_same: "same_tables m m' \<Longrightarrow> sane m' = sane m"
  by (simp add: same_tables_def sane_def)

text \<open>Cleaning up lowers what is in use.\<close>

lemma cleanupRolling_used:
  assumes "wf_rolling l" "used_ok l"
  shows "rlUsed (cleanupRolling l now) \<le> rlUsed l"
proof -
  let ?live = "\<lambda>e. now < expiry e"
  have "rl_entries l = filter_mset ?live (rl_entries l) + filter_mset (\<lambda>e. \<not> ?live e) (rl_entries l)"
    by (rule multiset_partition)
  then have "(\<Sum>e \<in># rl_entries l. amount_of e) =
      (\<Sum>e \<in># filter_mset ?live (rl_entries l). amount_of e) +
      (\<Sum>e \<in># filter_mset (\<lambda>e. \<not> ?live e) (rl_entries l). amount_of e)"
    by (metis image_mset_union sum_mset.union)
  then have "(\<Sum>e \<in># filter_mset ?live (rl_entries l). amount_of e)
      \<le> (\<Sum>e \<in># rl_entries l. amount_of e)" by linarith
  with cleanupRolling_correct[OF assms(1), of now] assms(2) show ?thesis
    by (simp add: used_ok_def word_le_nat_alt)
qed

lemma cleanupConcurrency_held:
  assumes "wf_conc l"
  shows "held (cleanupConcurrency l now) \<le> held l"
proof -
  note C = cleanupConcurrency_correct[OF assms, of now]
  then have "dom (holds_of (cleanupConcurrency l now)) \<subseteq> dom (holds_of l)"
    by (auto split: if_splits)
  then show ?thesis
    using C assms by (simp add: held_card card_mono wf_conc_finite)
qed

lemma cleanup_step_within:
  assumes "wf_backend m" "accounted m" "within m" "cleanup_step m now r = Some m1"
  shows "within m1"
proof -
  obtain m1' where s: "cleanup_step m now r = Some m1'"
    "mbRoll m1' = (mbRoll m)(RKey r := cleaned_roll m now (RKey r))"
    "mbConc m1' = (mbConc m)(RKey r := cleaned_conc m now (RKey r))"
    using cleanup_step_total[OF assms(1)] by blast
  have t: "same_tables m m1" using cleanup_all_total[OF assms(1), of now "[r]"] assms(4)
    by (auto simp: cleanup_step_def)
  have "roll_within (def_of m k) (cleaned_roll m now k)" for k
  proof (cases "mbRoll m k")
    case (Some l)
    then have "rlUsed (cleanupRolling l now) \<le> rlUsed l" "rlCap (cleanupRolling l now) = rlCap l"
      using cleanupRolling_used[of l now] cleanupRolling_correct[of l now] wf_rollD[OF assms(1) Some] assms(2)
      by (auto simp: accounted_def)
    moreover have "roll_within (def_of m k) (mbRoll m k)" using assms(3) by (simp add: within_def)
    ultimately show ?thesis using Some by (auto simp: cleaned_roll_def roll_within_def)
  qed (simp add: cleaned_roll_def roll_within_def)
  moreover have "conc_within (def_of m k) (cleaned_conc m now k)" for k
  proof (cases "mbConc m k")
    case (Some l)
    then have "held (cleanupConcurrency l now) \<le> held l" "clCap (cleanupConcurrency l now) = clCap l"
      using cleanupConcurrency_held[of l now] cleanupConcurrency_correct[of l now] wf_concD[OF assms(1) Some]
      by auto
    moreover have "conc_within (def_of m k) (mbConc m k)" using assms(3) by (simp add: within_def)
    ultimately show ?thesis using Some by (auto simp: cleaned_conc_def conc_within_def)
  qed (simp add: cleaned_conc_def conc_within_def)
  ultimately show ?thesis
    using assms(3,4) s same_tables_def_of[OF t] by (simp add: within_def)
qed

lemma cleanup_all_within:
  "wf_backend m \<Longrightarrow> accounted m \<Longrightarrow> within m \<Longrightarrow> cleanup_all m now rs = Some m1 \<Longrightarrow> within m1"
proof (induction rs arbitrary: m)
  case (Cons r rs)
  obtain m0 where m0: "cleanup_step m now r = Some m0" "wf_backend m0" "accounted m0"
    using cleanup_all_total[OF Cons.prems(1), of now "[r]"] Cons.prems(2) by (auto simp: cleanup_step_def)
  then have "cleanup_all m0 now rs = Some m1"
    using Cons.prems(4) by (simp add: cleanup_all_Cons del: cleanup_all.simps)
  then show ?case using Cons.IH m0 cleanup_step_within[OF Cons.prems(1-3)] by blast
qed simp

lemma cleanupLocked_within:
  assumes "safe m"
  shows "within (cleanupLocked clk m k)"
proof (cases "mbDefs m k")
  case None
  with assms show ?thesis by (simp add: cleanupLocked_def safe_def)
next
  case (Some d)
  have m: "wf_backend m" "accounted m" "within m" using assms by (simp_all add: safe_def)
  let ?r = "\<lparr>RKey = k, Amount = 0\<rparr>"
  have "cleanup_step m clk ?r = Some (cleanupLocked clk m k)"
    using Some wf_roll_store[OF m(1) Some] wf_conc_store[OF m(1) Some]
    by (auto simp: cleanup_step_def cleanupLocked_def def_of_def Let_def)
  with m show ?thesis by (rule cleanup_step_within)
qed

section \<open>The steps\<close>

text \<open>A limit keeps its kind; a request names a limit once and its amounts do not overflow.\<close>

definition keeps_kind :: "memory_backend \<Rightarrow> limit_definition \<Rightarrow> bool" where
  "keeps_kind m d \<longleftrightarrow> (\<forall>prev. mbDefs m (Key d) = Some prev \<longrightarrow> Kind d = Kind prev)"

definition proper_request :: "memory_backend \<Rightarrow> reserve_request \<Rightarrow> bool" where
  "proper_request m req \<longleftrightarrow>
     distinct (map RKey (Requirements req)) \<and>
     (\<forall>r \<in> set (Requirements req). unat (Capacity (def_of m (RKey r))) + unat (Amount r) < 2 ^ 64)"

inductive mem_step :: "memory_backend \<Rightarrow> memory_backend \<Rightarrow> bool" where
  step_apply: "keeps_kind m d \<Longrightarrow> sane_definition d \<Longrightarrow> mem_step m (mem_ApplyDefinition m d)"
| step_decrease: "mem_TryApplyDecrease clk m reg key = (m', reg', saved) \<Longrightarrow> mem_step m m'"
| step_reserve: "proper_request m req \<Longrightarrow> mem_Reserve clk m req at = Some (m', resp) \<Longrightarrow> mem_step m m'"
| step_complete: "mem_Complete m req = Some (m', resp) \<Longrightarrow> mem_step m m'"

inductive mem_reachable :: "memory_backend \<Rightarrow> bool" where
  reach_start: "\<forall>s \<in> set states. sane_definition (Definition s) \<Longrightarrow>
     mem_reachable (applyStates (mem_AttachRegistry mem_New attached path) states)"
| reach_step: "mem_reachable m \<Longrightarrow> mem_step m m' \<Longrightarrow> mem_reachable m'"

inductive_cases mem_stepE: "mem_step m m'"

section \<open>Every step is safe\<close>

text \<open>At the start nothing is in use, whatever states are loaded.\<close>

definition idle :: "memory_backend \<Rightarrow> bool" where
  "idle m \<longleftrightarrow>
     wf_backend m \<and> accounted m \<and> sane m \<and> (\<forall>k l. mbRoll m k = Some l \<longrightarrow> rlUsed l = 0) \<and>
     (\<forall>k l. mbConc m k = Some l \<longrightarrow> held l = 0)"

lemma idle_safe: "idle m \<Longrightarrow> safe m"
  by (auto simp: idle_def safe_def within_def roll_within_def conc_within_def split: option.splits)

lemma idle_new: "idle (mem_AttachRegistry mem_New attached path)"
  by (simp add: idle_def mem_AttachRegistry_def accounted_def sane_def mem_New_def wf_backend_def)

lemma idle_ApplyState:
  assumes "idle m" "sane_definition (Definition s)"
  shows "idle (mem_ApplyState m s)"
proof -
  have "rlUsed l = 0" if "mbRoll (mem_ApplyState m s) k = Some l" for k l
    using that assms(1)
    by (auto simp: idle_def mem_ApplyState_def install_stores newRollingLimit_def
        split: if_splits option.splits)
  moreover have "held l = 0" if "mbConc (mem_ApplyState m s) k = Some l" for k l
    using that assms(1)
    by (auto simp: idle_def mem_ApplyState_def install_stores newConcLimit_def held_def
        split: if_splits option.splits)
  ultimately show ?thesis
    using assms wf_ApplyState[of m s]
    by (auto simp: idle_def sane_def mem_ApplyState_def install_tables split: if_splits)
qed

lemma idle_applyStates:
  "idle m \<Longrightarrow> \<forall>s \<in> set states. sane_definition (Definition s) \<Longrightarrow> idle (applyStates m states)"
  by (induction states arbitrary: m) (simp_all add: applyStates_def idle_ApplyState)

lemma safe_start:
  "\<forall>s \<in> set states. sane_definition (Definition s) \<Longrightarrow>
   safe (applyStates (mem_AttachRegistry mem_New attached path) states)"
  using idle_safe idle_applyStates idle_new by blast

lemma safe_apply:
  assumes "safe m" "keeps_kind m d" "sane_definition d"
  shows "safe (mem_ApplyDefinition m d)"
proof -
  let ?m = "mem_ApplyDefinition m d"
  have m: "wf_backend m" "accounted m" "within m" "sane m" using assms by (simp_all add: safe_def)
  have "within ?m \<and> sane ?m"
  proof (cases "\<exists>prev. mbDefs m (Key d) = Some prev \<and> Capacity d < Capacity prev")
    case True
    then have "mbDefs ?m = mbDefs m" "mbRoll ?m = mbRoll m" "mbConc ?m = mbConc m"
      by (auto simp: mem_ApplyDefinition_def not_less[symmetric])
    with m show ?thesis by (simp add: within_def sane_def def_of_def)
  next
    case False
    let ?s = "\<lparr>Definition = d, Status = LimitStatusActive, PendingDecreaseTo = 0\<rparr>"
    have I: "?m = install m ?s"
      using False by (auto simp: mem_ApplyDefinition_def not_less split: option.splits)
    have old: "roll_within (def_of m (Key d)) (mbRoll m (Key d))"
      "conc_within (def_of m (Key d)) (mbConc m (Key d))" using m(3) by (simp_all add: within_def)
    have cap: "rlCap l \<le> Capacity d" if "Kind d = KindRolling" "mbRoll m (Key d) = Some l" for l
      using that False assms(2) wf_rollD[OF m(1) that(2)] wf_roll_store[OF m(1)]
      by (fastforce simp: keeps_kind_def not_less)
    have ccap: "clCap l \<le> Capacity d" if "Kind d = KindConcurrency" "mbConc m (Key d) = Some l" for l
      using that False assms(2) wf_concD[OF m(1) that(2)] wf_conc_store[OF m(1)]
      by (fastforce simp: keeps_kind_def not_less)
    have kind: "Kind (def_of m (Key d)) = Kind d" if "mbDefs m (Key d) \<noteq> None"
      using that assms(2) by (auto simp: keeps_kind_def def_of_def)
    have "roll_within d (mbRoll ?m (Key d))"
      using old(1) cap kind wf_rollD[OF m(1)]
      by (auto simp: I install_stores state_key_def roll_within_def newRollingLimit_def
          split: option.splits intro: order_trans)
    moreover have "conc_within d (mbConc ?m (Key d))"
      using old(2) ccap kind wf_concD[OF m(1)]
      by (auto simp: I install_stores state_key_def conc_within_def wf_conc_new
          split: option.splits intro: order_trans simp: word_le_nat_alt)
    moreover have "roll_within (def_of m k) (mbRoll ?m k) \<and> conc_within (def_of m k) (mbConc ?m k)"
      if "k \<noteq> Key d" for k
      using m(3) that by (simp add: I install_stores state_key_def within_def)
    moreover have "def_of ?m k = (if k = Key d then d else def_of m k)" for k
      by (simp add: I def_of_def install_tables state_key_def)
    ultimately have "within ?m" by (simp add: within_def)
    moreover have "sane ?m" using m(4) assms(3) by (simp add: I install_tables sane_def state_key_def)
    ultimately show ?thesis by simp
  qed
  with m show ?thesis by (simp add: safe_def wf_ApplyDefinition accounted_ApplyDefinition)
qed

end
