(* ===== verification/Mem_Correct.thy ===== *)
theory Mem_Correct
  imports Mem_Safety
begin

text \<open>
  The theorems about the in-memory backend: what an admitted, a denied and a repeated
  reservation do, what completion does, how a capacity decrease is applied, and that no
  reachable state uses a limit beyond its capacity.
\<close>

section \<open>Decreases are safe\<close>

lemma TryApplyDecrease_cases:
  assumes "mem_TryApplyDecrease clk m reg key = (m', reg', saved)"
  shows "m' = m \<or> m' = cleanupLocked clk m key \<or>
    (\<exists>state. mbStates m key = Some state \<and> Status state = LimitStatusDecreasing \<and>
       PendingDecreaseTo state \<noteq> 0 \<and> PendingDecreaseTo state < Capacity (Definition state) \<and>
       \<not> availableCapacity (cleanupLocked clk m key) key (Definition state)
            < Capacity (Definition state) - PendingDecreaseTo state \<and>
       m' = (let m1 = cleanupLocked clk m key;
                 def' = (Definition state)\<lparr>Capacity := PendingDecreaseTo state\<rparr>;
                 state' = \<lparr>Definition = def', Status = LimitStatusActive, PendingDecreaseTo = 0\<rparr>
             in updateCapacity (m1\<lparr>mbStates := (mbStates m1)(key \<mapsto> state'),
                                   mbDefs := (mbDefs m1)(key \<mapsto> def')\<rparr>) def'))"
  using assms
  by (auto simp: mem_TryApplyDecrease_def Let_def not_le split: option.splits if_splits)

text \<open>The last branch, on the stores.\<close>

lemma apply_decrease_stores:
  assumes "Key def' = key"
  shows "mbDefs (updateCapacity (m\<lparr>mbStates := S, mbDefs := D\<rparr>) def') = D"
    "mbStates (updateCapacity (m\<lparr>mbStates := S, mbDefs := D\<rparr>) def') = S"
    "mbRoll (updateCapacity (m\<lparr>mbStates := S, mbDefs := D\<rparr>) def') =
       (mbRoll m)(key := (if Kind def' = KindRolling
          then map_option (\<lambda>l. l\<lparr>rlCap := Capacity def'\<rparr>) (mbRoll m key) else mbRoll m key))"
    "mbConc (updateCapacity (m\<lparr>mbStates := S, mbDefs := D\<rparr>) def') =
       (mbConc m)(key := (if Kind def' = KindConcurrency
          then map_option (\<lambda>l. l\<lparr>clCap := Capacity def'\<rparr>) (mbConc m key) else mbConc m key))"
  using assms by (auto simp: updateCapacity_def fun_eq_iff split: option.splits)

text \<open>What is available after a cleanup, as a number, bounds what is in use.\<close>

lemma available_roll:
  assumes "mbRoll m k = Some l" "Kind d = KindRolling" "rlUsed l \<le> rlCap l" "rlCap l = c"
    "t < c" "\<not> availableCapacity m k d < c - t"
  shows "rlUsed l \<le> t"
proof -
  have a: "availableCapacity m k d = rlCap l - rlUsed l"
    using assms(1-3) by (auto simp: availableCapacity_def)
  have "unat (c - t) = unat c - unat t" using assms(5) by (simp add: unat_sub less_imp_le)
  with a have "unat c - unat t \<le> unat c - unat (rlUsed l)"
    using assms by (simp add: not_less word_le_nat_alt unat_sub less_imp_le)
  moreover have "unat (rlUsed l) \<le> unat c" "unat t < unat c"
    using assms by (simp_all add: word_le_nat_alt word_less_nat_alt)
  ultimately show ?thesis by (simp add: word_le_nat_alt)
qed

lemma available_conc:
  assumes "mbConc m k = Some l" "Kind d = KindConcurrency" "held l \<le> unat (clCap l)" "clCap l = c"
    "t < c" "\<not> availableCapacity m k d < c - t"
  shows "held l \<le> unat t"
proof -
  have h: "unat (of_nat (held l) :: uint64) = held l"
    using assms(3) by (metis le_unat_uoi)
  then have le: "(of_nat (held l) :: uint64) \<le> clCap l" using assms(3) by (simp add: word_le_nat_alt)
  have a: "availableCapacity m k d = clCap l - of_nat (held l)"
    using assms(1,2) le by (auto simp: availableCapacity_def Let_def)
  have "unat (c - t) = unat c - unat t" using assms(5) by (simp add: unat_sub less_imp_le)
  with a have "unat c - unat t \<le> unat c - held l"
    using assms le h by (simp add: not_less word_le_nat_alt unat_sub less_imp_le)
  moreover have "held l \<le> unat c" "unat t < unat c"
    using assms by (simp_all add: word_less_nat_alt)
  ultimately show ?thesis by simp
qed

lemma safe_cleanupLocked:
  assumes "safe m"
  shows "safe (cleanupLocked clk m k)"
  using assms cleanupLocked_props[of m clk k] cleanupLocked_within[OF assms]
    sane_same[of m "cleanupLocked clk m k"]
  by (simp add: safe_def)

lemma safe_apply_decrease:
  assumes s: "safe m" and st: "mbStates m key = Some state"
    and t: "t < Capacity (Definition state)"
    and av: "\<not> availableCapacity m key (Definition state) < Capacity (Definition state) - t"
    and def': "def' = (Definition state)\<lparr>Capacity := t\<rparr>"
    and state': "state' = \<lparr>Definition = def', Status = LimitStatusActive, PendingDecreaseTo = 0\<rparr>"
    and m': "m' = updateCapacity (m\<lparr>mbStates := (mbStates m)(key \<mapsto> state'),
                                    mbDefs := (mbDefs m)(key \<mapsto> def')\<rparr>) def'"
  shows "safe m'"
proof -
  have m: "wf_backend m" "accounted m" "within m" "sane m" using s by (simp_all add: safe_def)
  have d: "mbDefs m key = Some (Definition state)" using wf_statesD[OF m(1)] st by simp
  then have key: "Key def' = key" using wf_keyD[OF m(1)] def' by simp
  have kind: "Kind def' = Kind (Definition state)" "Capacity def' = t" using def' by simp_all
  have dof: "def_of m key = Definition state" using d by (simp add: def_of_def)
  note A = apply_decrease_stores[OF key, where m = m and S = "(mbStates m)(key \<mapsto> state')"
      and D = "(mbDefs m)(key \<mapsto> def')", folded m']
  have w: "roll_within (Definition state) (mbRoll m key)" "conc_within (Definition state) (mbConc m key)"
    using m(3) dof[symmetric] by (simp_all add: within_def)
  have "wf_backend m'"
    unfolding wf_backend_def
  proof
    fix k
    show "key_ok k (mbDefs m' k) (mbStates m' k) (mbRoll m' k) (mbConc m' k)"
      using wf_key_ok[OF m(1), of k] A d key kind state'
      by (cases "mbDefs m k") (auto simp: roll_ok_def conc_ok_def split: option.splits)
  qed
  moreover have "accounted m'"
    using m(2) by (auto simp: accounted_def A)
  moreover have "within m'"
  proof -
    have R: "roll_within def' (mbRoll m' key)"
      using available_roll[of m key _ "Definition state" _ t] w(1) kind t av wf_roll_store[OF m(1) d]
      by (auto simp: A roll_within_def split: option.splits)
    have C: "conc_within def' (mbConc m' key)"
      using available_conc[of m key _ "Definition state" _ t] w(2) kind t av wf_conc_store[OF m(1) d]
      by (auto simp: A conc_within_def split: option.splits)
    have "def_of m' k = (if k = key then def' else def_of m k)" for k
      by (simp add: def_of_def A)
    moreover have "mbRoll m' k = mbRoll m k \<and> mbConc m' k = mbConc m k" if "k \<noteq> key" for k
      using that by (simp add: A)
    ultimately show ?thesis using R C m(3) by (auto simp: within_def)
  qed
  moreover have "sane_definition (Definition state)" using m(4) d by (simp add: sane_def)
  then have "sane m'"
    using m(4) t
    by (auto simp: sane_def A def' sane_timeout_def sane_definition_def word_less_nat_alt)
  ultimately show ?thesis by (simp add: safe_def)
qed

lemma safe_decrease:
  assumes "safe m" "mem_TryApplyDecrease clk m reg key = (m', reg', saved)"
  shows "safe m'"
  using TryApplyDecrease_cases[OF assms(2)]
proof (elim disjE exE conjE)
  fix state
  let ?m = "cleanupLocked clk m key"
  assume st: "mbStates m key = Some state"
    and t: "PendingDecreaseTo state < Capacity (Definition state)"
    and av: "\<not> availableCapacity ?m key (Definition state) < Capacity (Definition state) - PendingDecreaseTo state"
    and m': "m' = (let m1 = ?m; def' = (Definition state)\<lparr>Capacity := PendingDecreaseTo state\<rparr>;
                 state' = \<lparr>Definition = def', Status = LimitStatusActive, PendingDecreaseTo = 0\<rparr>
             in updateCapacity (m1\<lparr>mbStates := (mbStates m1)(key \<mapsto> state'),
                                   mbDefs := (mbDefs m1)(key \<mapsto> def')\<rparr>) def')"
  have "mbStates ?m = mbStates m"
    using cleanupLocked_props(2)[of m clk key] assms(1) by (simp add: same_tables_def safe_def)
  then show "safe m'"
    using safe_apply_decrease[OF safe_cleanupLocked[OF assms(1)] _ t av refl refl] st m'
    by (simp add: Let_def)
qed (use assms(1) safe_cleanupLocked in auto)

section \<open>Reservations are safe\<close>

text \<open>What an admitted request did to the stores of the limits it names.\<close>

lemma reserved_roll_within:
  assumes m: "safe m" and fit: "fits m r"
    and amt: "unat (Capacity (def_of m (RKey r))) + unat (Amount r) < 2 ^ 64"
  shows "roll_within (def_of m (RKey r)) (reserved_roll m leaseID now r)"
    "reserved_roll m leaseID now r = Some l' \<Longrightarrow> used_ok l'"
proof -
  let ?d = "def_of m (RKey r)"
  have w: "wf_backend m" "accounted m" "within m" using m by (simp_all add: safe_def)
  have used: "rlUsed l + Amount r \<le> rlCap l \<and> used_ok (addRollingReservation l leaseID (Amount r) t) \<and> wf_rolling l"
    if l: "mbRoll m (RKey r) = Some l" "Kind ?d = KindRolling" for l t
  proof -
    have "rlUsed l \<le> rlCap l" using w(3) l by (auto simp: within_def roll_within_def dest: spec[of _ "RKey r"])
    moreover have "rlCap l = Capacity ?d" using wf_def_roll[OF w(1) l(2)] l(1) by simp
    ultimately have "unat (rlUsed l) + unat (Amount r) < 2 ^ 64"
      using amt by (simp add: word_le_nat_alt)
    then show ?thesis
      using l fit w(2) wf_rollD[OF w(1) l(1)] addRollingReservation_used[of l "Amount r"]
      by (simp add: fits_def accounted_def)
  qed
  show "roll_within ?d (reserved_roll m leaseID now r)"
    using used by (auto simp: roll_within_def reserved_roll_def Let_def addRollingReservation_correct
        split: option.splits)
  show "used_ok l'" if "reserved_roll m leaseID now r = Some l'"
    using that used w(2) by (auto simp: reserved_roll_def Let_def accounted_def split: if_splits)
qed

lemma reserved_conc_within:
  assumes m: "safe m" and fit: "fits m r"
  shows "conc_within (def_of m (RKey r)) (reserved_conc m leaseID now r)"
proof -
  let ?d = "def_of m (RKey r)"
  have w: "wf_backend m" "within m" "sane m" using m by (simp_all add: safe_def)
  have "held (addConcurrencyHold l leaseID t) \<le> unat (clCap l) \<and> wf_conc l"
    if l: "mbConc m (RKey r) = Some l" "Kind ?d = KindConcurrency" for l t
  proof -
    have cap: "clCap l = Capacity ?d" using wf_def_conc[OF w(1) l(2)] l(1) by simp
    have "held l \<le> unat (clCap l)"
      using w(2) l by (auto simp: within_def conc_within_def dest: spec[of _ "RKey r"])
    moreover have "unat (clCap l) + 1 < 2 ^ 64"
      using sane_def_of[OF w(3), of "RKey r"] cap by (simp add: sane_definition_def)
    ultimately have "unat (of_nat (held l + 1) :: uint64) = held l + 1"
      by (intro of_nat_inverse[OF refl]) simp
    moreover have "of_nat (held l + 1) \<le> clCap l" using fit l by (simp add: fits_def)
    ultimately have "held l + 1 \<le> unat (clCap l)" by (metis word_le_nat_alt)
    then show ?thesis
      using wf_concD[OF w(1) l(1)] by (auto simp: addConcurrencyHold_held)
  qed
  then show ?thesis
    by (auto simp: conc_within_def reserved_conc_def Let_def addConcurrencyHold_correct
        split: option.splits)
qed

text \<open>The state after the cleanup of an admitted request fits every requirement.\<close>

lemma admitted_fits:
  assumes "sane m" "max_retry m rs 0 = Some x" "\<not> x > 0"
  shows "\<forall>r \<in> set rs. fits m r"
  using max_retry_fits[OF assms(2)] assms(3) retryAfter_pos sane_def_of[OF assms(1)]
  by (auto simp: sane_definition_def)

lemma safe_reserve_all:
  assumes m: "safe m" and p: "distinct (map RKey rs)" "\<forall>r \<in> set rs. fits m r"
    "\<forall>r \<in> set rs. unat (Capacity (def_of m (RKey r))) + unat (Amount r) < 2 ^ 64"
    and m2: "reserve_all m leaseID now rs = Some m2"
  shows "safe m2"
proof -
  have w: "wf_backend m" "accounted m" "within m" "sane m" using m by (simp_all add: safe_def)
  have t: "wf_backend m2" "same_tables m m2" using reserve_all_total[OF w(1), of leaseID now rs] m2 by auto
  note S = reserve_all_stores[OF w(1) p(1) m2]
  have "roll_within (def_of m2 k) (mbRoll m2 k) \<and> conc_within (def_of m2 k) (mbConc m2 k)" for k
  proof (cases "k \<in> RKey ` set rs")
    case True
    then obtain r where "r \<in> set rs" "k = RKey r" by blast
    then show ?thesis
      using S reserved_roll_within(1)[OF m] reserved_conc_within[OF m] p(2,3)
      by (simp add: same_tables_def_of[OF t(2)])
  next
    case False
    then show ?thesis using S w(3) by (simp add: within_def same_tables_def_of[OF t(2)])
  qed
  moreover have "used_ok l" if l: "mbRoll m2 k = Some l" for k l
  proof (cases "k \<in> RKey ` set rs")
    case True
    then obtain r where "r \<in> set rs" "k = RKey r" by blast
    then show ?thesis using S l reserved_roll_within(2)[OF m] p(2,3) by metis
  next
    case False
    then show ?thesis using S l w(2) by (simp add: accounted_def)
  qed
  ultimately show ?thesis
    using t w(4) sane_same[OF t(2)] by (simp add: safe_def accounted_def within_def)
qed

lemma safe_mbLeases [simp]: "safe (m\<lparr>mbLeases := x\<rparr>) = safe m"
  by (simp add: safe_def within_def sane_def def_of_def)

lemma safe_reserve:
  assumes "safe m" "proper_request m req" "mem_Reserve clk m req at = Some (m', resp)"
  shows "safe m'"
proof -
  have w: "wf_backend m" using assms(1) by (simp add: safe_def)
  consider (same) "m' = m"
    | (run) "LeaseID req \<noteq> []" "Requirements req \<noteq> []" "mbLeases m (LeaseID req) = None"
     "\<forall>r \<in> set (Requirements req). \<not> is_decreasing m (RKey r) \<and> mbDefs m (RKey r) \<noteq> None"
    using mem_Reserve_cases[OF w, of clk req at] assms(3) by auto
  then show ?thesis
  proof cases
    case run
    show ?thesis
    proof (rule mem_Reserve_run[OF w run, of clk at])
      fix m1 x m2
      assume r: "cleanup_all m (backend_now clk at) (Requirements req) = Some m1" "wf_backend m1"
        "same_tables m m1" "accounted m \<Longrightarrow> accounted m1" "max_retry m1 (Requirements req) 0 = Some x"
        "reserve_all m1 (LeaseID req) (backend_now clk at) (Requirements req) = Some m2"
        and eq: "mem_Reserve clk m req at =
       (if x > 0 then Some (m1, reserve_response0\<lparr>RetryAfterMs := x\<rparr>)
        else Some (m2\<lparr>mbLeases := (mbLeases m)(LeaseID req \<mapsto>
               \<lparr>lsLeaseID = LeaseID req, lsReservedAtUnix = UnixMilli (backend_now clk at),
                lsRequirements = Requirements req,
                lsReservedAmounts = indexByKey (Requirements req)\<rparr>)\<rparr>,
             reserve_response0\<lparr>Allowed := True, ReservedAtUnixMs := UnixMilli (backend_now clk at)\<rparr>))"
      have m1: "safe m1"
        using assms(1) r(1-4) sane_same[OF r(3)] cleanup_all_within[OF w _ _ r(1)]
        by (simp add: safe_def)
      have p: "distinct (map RKey (Requirements req))"
        "\<forall>r \<in> set (Requirements req). unat (Capacity (def_of m1 (RKey r))) + unat (Amount r) < 2 ^ 64"
        using assms(2) by (simp_all add: proper_request_def same_tables_def_of[OF r(3)])
      show "safe m'"
      proof (cases "x > 0")
        case True
        then show ?thesis using eq assms(3) m1 by simp
      next
        case False
        then have "\<forall>r \<in> set (Requirements req). fits m1 r"
          using admitted_fits[OF _ r(5)] m1 by (simp add: safe_def)
        from safe_reserve_all[OF m1 p(1) this p(2) r(6)] show ?thesis
          using False eq assms(3) by auto
      qed
    qed
  qed (use assms in simp)
qed

section \<open>Completion is safe\<close>

lemma safe_complete:
  assumes "safe m" "mem_Complete m req = Some (m', resp)"
  shows "safe m'"
proof (cases "mbLeases m (CLeaseID req)")
  case None
  with assms show ?thesis by (simp add: mem_Complete_def)
next
  case (Some st)
  have w: "wf_backend m" "accounted m" "within m" "sane m" using assms(1) by (simp_all add: safe_def)
  let ?m1 = "release_all m (CLeaseID req) (lsRequirements st)"
  note R = release_all_props[OF w(1), of "CLeaseID req" "lsRequirements st"]
  show ?thesis
  proof (rule mem_Complete_run[OF w(1) Some])
    fix m2
    assume m2: "wf_backend m2" "reconciles ?m1 m2" "accounted m \<Longrightarrow> accounted m2"
      and eq: "mem_Complete m req =
       Some (m2\<lparr>mbLeases := (mbLeases m)(CLeaseID req := None)\<rparr>, complete_response0\<lparr>Ok := True\<rparr>)"
    have defs: "mbDefs m2 = mbDefs m" "def_of m2 k = def_of m k" for k
      using R m2(2) by (simp_all add: reconciles_def same_tables_def def_of_def)
    have roll: "roll_within (def_of m k) (mbRoll m2 k)" for k
    proof -
      have "rel_option (\<lambda>l l'. rlCap l' = rlCap l \<and> rlUsed l' \<le> rlUsed l) (mbRoll m k) (mbRoll m2 k)"
        using m2(2) R by (simp add: reconciles_def)
      moreover have "roll_within (def_of m k) (mbRoll m k)" using w(3) by (simp add: within_def)
      ultimately show ?thesis
        by (cases "mbRoll m k"; cases "mbRoll m2 k") (auto simp: roll_within_def)
    qed
    have conc: "conc_within (def_of m k) (mbConc m2 k)" for k
    proof -
      have "mbConc m2 = mbConc ?m1" using m2(2) by (simp add: reconciles_def)
      moreover have "conc_within (def_of m k) (mbConc m k)" using w(3) by (simp add: within_def)
      ultimately show ?thesis
        using R wf_concD[OF w(1), of k]
        by (auto simp: conc_within_def release_hold_held release_hold_correct split: option.splits)
    qed
    have "safe m2"
      using m2 w(2,4) roll conc defs by (simp add: safe_def within_def sane_def)
    then show "safe m'" using eq assms(2) by auto
  qed
qed

section \<open>Every reachable state is safe\<close>

lemma safe_step: "mem_step m m' \<Longrightarrow> safe m \<Longrightarrow> safe m'"
  by (induction rule: mem_step.induct) (auto intro: safe_apply safe_decrease safe_reserve safe_complete)

lemma mem_reachable_safe: "mem_reachable m \<Longrightarrow> safe m"
  by (induction rule: mem_reachable.induct) (auto intro: safe_start safe_step)

end
