(* ===== verification/Mem_Spec.thy ===== *)
theory Mem_Spec
  imports Mem_Correct
begin

text \<open>
  The abstract specification of the in-memory backend: what is live in a limit at a time, when a
  request has room, and what an admitted request, a refused one and a completion do to each
  limit, in terms of the multiset of reservations and the map of holds only.
\<close>

section \<open>What is live, and room for a requirement\<close>

definition live_usage :: "rolling_limit \<Rightarrow> go_time \<Rightarrow> nat" where
  "live_usage l now = (\<Sum>e \<in># filter_mset (\<lambda>e. now < expiry e) (rl_entries l). amount_of e)"

definition live_holds :: "conc_limit \<Rightarrow> go_time \<Rightarrow> string set" where
  "live_holds l now = {k. holds_of l k \<noteq> None \<and> (\<forall>t. (k, t) \<in># cl_entries l \<longrightarrow> now < t)}"

lemma live_holds_code [code]:
  "live_holds l now =
     {k \<in> fst ` set (clHolds l). \<forall>e \<in># cl_entries l. fst e = k \<longrightarrow> now < snd e}"
  by (auto simp: live_holds_def holds_of_def map_of_eq_None_iff)

definition has_room :: "memory_backend \<Rightarrow> go_time \<Rightarrow> requirement \<Rightarrow> bool" where
  "has_room m now r \<longleftrightarrow>
     (let d = def_of m (RKey r) in
      (Kind d = KindRolling \<longrightarrow>
         (\<forall>l. mbRoll m (RKey r) = Some l \<longrightarrow> live_usage l now + unat (Amount r) \<le> unat (Capacity d))) \<and>
      (Kind d = KindConcurrency \<longrightarrow>
         (\<forall>l. mbConc m (RKey r) = Some l \<longrightarrow> card (live_holds l now) + 1 \<le> unat (Capacity d))))"

lemma live_usage_cleanup:
  "wf_rolling l \<Longrightarrow> used_ok l \<Longrightarrow> unat (rlUsed (cleanupRolling l now)) = live_usage l now"
  using cleanupRolling_correct[of l now] by (simp add: used_ok_def live_usage_def)

lemma live_holds_cleanup:
  "wf_conc l \<Longrightarrow> held (cleanupConcurrency l now) = card (live_holds l now)"
proof -
  assume w: "wf_conc l"
  note C = cleanupConcurrency_correct[OF w, of now]
  have "dom (holds_of (cleanupConcurrency l now)) = live_holds l now"
    using C by (auto simp: live_holds_def not_le[symmetric] split: if_splits)
  then show ?thesis using C held_card by metis
qed

lemma live_usage_le:
  assumes "wf_rolling l" "used_ok l"
  shows "live_usage l now \<le> unat (rlUsed l)"
  using cleanupRolling_used[OF assms, of now] live_usage_cleanup[OF assms, of now]
  by (simp add: word_le_nat_alt)

lemma live_holds_le: "wf_conc l \<Longrightarrow> card (live_holds l now) \<le> held l"
  using cleanupConcurrency_held[of l now] live_holds_cleanup[of l now] by simp

text \<open>The feasibility loop takes the largest hint of the requirements that do not fit.\<close>

lemma max_retry_foldl:
  "wf_backend m \<Longrightarrow>
   max_retry m rs a =
     Some (foldl maxInt a (map (\<lambda>r. retryAfter (def_of m (RKey r))) (filter (\<lambda>r. \<not> fits m r) rs)))"
proof (induction rs arbitrary: a)
  case (Cons r rs)
  let ?d = "def_of m (RKey r)"
  consider (roll) "Kind ?d = KindRolling" | (conc) "Kind ?d = KindConcurrency"
    | (other) "Kind ?d \<noteq> KindRolling" "Kind ?d \<noteq> KindConcurrency" by blast
  then show ?case
  proof cases
    case roll
    then obtain l where "mbRoll m (RKey r) = Some l" using wf_def_roll[OF Cons.prems] by blast
    with roll Cons show ?thesis by (simp add: Let_def fits_def not_less[symmetric])
  next
    case conc
    then obtain l where "mbConc m (RKey r) = Some l" using wf_def_conc[OF Cons.prems] by blast
    with conc Cons show ?thesis by (simp add: Let_def fits_def not_less[symmetric])
  next
    case other
    with Cons show ?thesis by (simp add: Let_def fits_def)
  qed
qed simp

lemma foldl_maxInt_Max:
  "foldl maxInt a xs = (if xs = [] then a else max a (Max (set xs)))"
proof (induction xs arbitrary: a)
  case (Cons x xs)
  have "maxInt a x = max a x" by (simp add: maxInt_def max_def)
  then show ?case using Cons by (cases xs) (auto simp: max.assoc)
qed simp

text \<open>Fitting after the cleanup is having room before it.\<close>

lemma fits_has_room:
  assumes m: "safe m" and t: "same_tables m m1"
    and r: "mbRoll m1 (RKey r) = cleaned_roll m now (RKey r)"
    and c: "mbConc m1 (RKey r) = cleaned_conc m now (RKey r)"
    and amt: "unat (Capacity (def_of m (RKey r))) + unat (Amount r) < 2 ^ 64"
  shows "fits m1 r \<longleftrightarrow> has_room m now r"
proof -
  let ?d = "def_of m (RKey r)"
  have w: "wf_backend m" "accounted m" "within m" "sane m" using m by (simp_all add: safe_def)
  have roll: "rlUsed (cleanupRolling l now) + Amount r \<le> rlCap l \<longleftrightarrow>
      live_usage l now + unat (Amount r) \<le> unat (Capacity ?d)"
    if l: "mbRoll m (RKey r) = Some l" "Kind ?d = KindRolling" for l
  proof -
    have wl: "wf_rolling l" "used_ok l" "rlCap l = Capacity ?d"
      using wf_rollD[OF w(1) l(1)] w(2) l wf_def_roll[OF w(1) l(2)] by (auto simp: accounted_def)
    have "rlUsed l \<le> rlCap l" using w(3) l by (auto simp: within_def roll_within_def dest: spec[of _ "RKey r"])
    then have "unat (rlUsed (cleanupRolling l now)) \<le> unat (Capacity ?d)"
      using cleanupRolling_used[OF wl(1,2), of now] wl(3) by (simp add: word_le_nat_alt)
    then have "unat (rlUsed (cleanupRolling l now) + Amount r) =
        live_usage l now + unat (Amount r)"
      using amt live_usage_cleanup[OF wl(1,2), of now] by (subst unat_add_no_overflow) simp_all
    then show ?thesis using wl(3) by (simp add: word_le_nat_alt)
  qed
  have conc: "of_nat (held (cleanupConcurrency l now) + 1) \<le> clCap l \<longleftrightarrow>
      card (live_holds l now) + 1 \<le> unat (Capacity ?d)"
    if l: "mbConc m (RKey r) = Some l" "Kind ?d = KindConcurrency" for l
  proof -
    have wl: "wf_conc l" "clCap l = Capacity ?d"
      using wf_concD[OF w(1) l(1)] l wf_def_conc[OF w(1) l(2)] by auto
    have "held l \<le> unat (clCap l)"
      using w(3) l by (auto simp: within_def conc_within_def dest: spec[of _ "RKey r"])
    then have "held (cleanupConcurrency l now) + 1 < 2 ^ 64"
      using cleanupConcurrency_held[OF wl(1), of now] sane_def_of[OF w(4), of "RKey r"] wl(2)
      by (simp add: sane_definition_def)
    then have "unat (of_nat (held (cleanupConcurrency l now) + 1) :: uint64) =
        card (live_holds l now) + 1"
      using live_holds_cleanup[OF wl(1), of now] by (subst of_nat_inverse[OF refl]) simp_all
    then show ?thesis using wl(2) by (metis word_le_nat_alt)
  qed
  have k: "KindRolling \<noteq> KindConcurrency" by (simp add: KindRolling_def KindConcurrency_def)
  have d1: "def_of m1 (RKey r) = ?d" by (rule same_tables_def_of[OF t])
  consider (roll) "Kind ?d = KindRolling" | (conc) "Kind ?d = KindConcurrency"
    | (other) "Kind ?d \<noteq> KindRolling" "Kind ?d \<noteq> KindConcurrency" by blast
  then show ?thesis
  proof cases
    case k1: roll
    then obtain l where l: "mbRoll m (RKey r) = Some l" using wf_def_roll[OF w(1)] by blast
    have "rlCap (cleanupRolling l now) = rlCap l"
      using cleanupRolling_correct wf_rollD[OF w(1) l] by blast
    moreover have "mbRoll m1 (RKey r) = Some (cleanupRolling l now)"
      using r l k1 by (simp add: cleaned_roll_def)
    ultimately show ?thesis
      using roll[OF l k1] l k1 k d1 by (simp add: fits_def has_room_def Let_def)
  next
    case k1: conc
    then obtain l where l: "mbConc m (RKey r) = Some l" using wf_def_conc[OF w(1)] by blast
    have "clCap (cleanupConcurrency l now) = clCap l"
      using cleanupConcurrency_correct wf_concD[OF w(1) l] by blast
    moreover have "mbConc m1 (RKey r) = Some (cleanupConcurrency l now)"
      using c l k1 by (simp add: cleaned_conc_def)
    ultimately show ?thesis
      using conc[OF l k1] l k1 k d1 by (simp add: fits_def has_room_def Let_def)
  next
    case other
    then show ?thesis using d1 by (simp add: fits_def has_room_def Let_def)
  qed
qed

section \<open>What a new request does\<close>

text \<open>A request the feasibility check decides on: a new lease over known limits, none decreasing.\<close>

definition decidable_request :: "memory_backend \<Rightarrow> reserve_request \<Rightarrow> bool" where
  "decidable_request m req \<longleftrightarrow>
     proper_request m req \<and> LeaseID req \<noteq> [] \<and> Requirements req \<noteq> [] \<and>
     mbLeases m (LeaseID req) = None \<and>
     (\<forall>r \<in> set (Requirements req). \<not> is_decreasing m (RKey r) \<and> mbDefs m (RKey r) \<noteq> None)"

text \<open>The live part of a limit and, in it, the new reservation.\<close>

definition live_roll :: "go_time \<Rightarrow> rolling_limit \<Rightarrow> rolling_limit \<Rightarrow> bool" where
  "live_roll now l l' \<longleftrightarrow>
     rlCap l' = rlCap l \<and> rl_entries l' = filter_mset (\<lambda>e. now < expiry e) (rl_entries l)"

definition live_conc :: "go_time \<Rightarrow> conc_limit \<Rightarrow> conc_limit \<Rightarrow> bool" where
  "live_conc now l l' \<longleftrightarrow> clCap l' = clCap l \<and> holds_of l' = holds_of l |` live_holds l now"

text \<open>The reservation a lease is filed under in the limit's index.\<close>

definition indexed :: "rolling_limit \<Rightarrow> string \<Rightarrow> entry \<Rightarrow> bool" where
  "indexed l lease e \<longleftrightarrow> (\<exists>p. rlById l lease = Some p \<and> rl_objs l ! p = e)"

definition charged_roll ::
    "string \<Rightarrow> go_time \<Rightarrow> limit_definition \<Rightarrow> uint64 \<Rightarrow> rolling_limit \<Rightarrow> rolling_limit \<Rightarrow> bool" where
  "charged_roll lease now d amount l l' \<longleftrightarrow>
     rlCap l' = rlCap l \<and> indexed l' lease (lease, amount, roll_expiry now d) \<and>
     rl_entries l' = add_mset (lease, amount, roll_expiry now d)
                       (filter_mset (\<lambda>e. now < expiry e) (rl_entries l))"

definition charged_conc ::
    "string \<Rightarrow> go_time \<Rightarrow> limit_definition \<Rightarrow> conc_limit \<Rightarrow> conc_limit \<Rightarrow> bool" where
  "charged_conc lease now d l l' \<longleftrightarrow>
     clCap l' = clCap l \<and> holds_of l' = (holds_of l |` live_holds l now)(lease \<mapsto> conc_expiry now d)"

text \<open>A relation between the stores of a limit, by the limit's kind.\<close>

definition limit_rel ::
    "memory_backend \<Rightarrow> memory_backend \<Rightarrow> limit_key \<Rightarrow>
     (limit_definition \<Rightarrow> rolling_limit \<Rightarrow> rolling_limit \<Rightarrow> bool) \<Rightarrow>
     (limit_definition \<Rightarrow> conc_limit \<Rightarrow> conc_limit \<Rightarrow> bool) \<Rightarrow> bool" where
  "limit_rel m m' k R C \<longleftrightarrow>
     (let d = def_of m k in
      (if Kind d = KindRolling then rel_option (R d) (mbRoll m k) (mbRoll m' k)
       else mbRoll m' k = mbRoll m k) \<and>
      (if Kind d = KindConcurrency then rel_option (C d) (mbConc m k) (mbConc m' k)
       else mbConc m' k = mbConc m k))"

lemma live_rollI: "wf_rolling l \<Longrightarrow> live_roll now l (cleanupRolling l now)"
  using cleanupRolling_correct[of l now] by (simp add: live_roll_def)

lemma live_concI: "wf_conc l \<Longrightarrow> live_conc now l (cleanupConcurrency l now)"
  using cleanupConcurrency_correct[of l now]
  by (auto simp: live_conc_def live_holds_def restrict_map_def fun_eq_iff not_le[symmetric])

lemma charged_rollI:
  "wf_rolling l \<Longrightarrow>
   charged_roll lease now d a l (addRollingReservation (cleanupRolling l now) lease a (roll_expiry now d))"
  using cleanupRolling_correct[of l now]
  by (simp add: charged_roll_def addRollingReservation_correct indexed_def)

lemma charged_concI:
  assumes "wf_conc l"
  shows "charged_conc lease now d l
    (addConcurrencyHold (cleanupConcurrency l now) lease (conc_expiry now d))"
  using cleanupConcurrency_correct[OF assms, of now] live_concI[OF assms, of now]
  by (simp add: charged_conc_def live_conc_def addConcurrencyHold_correct)

lemma decided_run:
  fixes clk at
  assumes m: "safe m" and q: "decidable_request m req"
  defines "now \<equiv> backend_now clk at"
  defines "ok \<equiv> \<forall>r \<in> set (Requirements req). has_room m now r"
  shows "\<exists>m' x.
    mem_Reserve clk m req at =
      Some (m', if ok then reserve_response0\<lparr>Allowed := True, ReservedAtUnixMs := UnixMilli now\<rparr>
                else reserve_response0\<lparr>RetryAfterMs := x\<rparr>) \<and>
    (\<not> ok \<longrightarrow> x > 0 \<and>
       x = Max ((\<lambda>r. retryAfter (def_of m (RKey r))) ` {r \<in> set (Requirements req). \<not> has_room m now r})) \<and>
    mbDefs m' = mbDefs m \<and> mbStates m' = mbStates m \<and> mbDebt m' = mbDebt m \<and>
    mbLeases m' = (if ok then (mbLeases m)(LeaseID req \<mapsto>
        \<lparr>lsLeaseID = LeaseID req, lsReservedAtUnix = UnixMilli now, lsRequirements = Requirements req,
         lsReservedAmounts = indexByKey (Requirements req)\<rparr>) else mbLeases m) \<and>
    (\<forall>r \<in> set (Requirements req). limit_rel m m' (RKey r)
        (\<lambda>d. if ok then charged_roll (LeaseID req) now d (Amount r) else live_roll now)
        (\<lambda>d. if ok then charged_conc (LeaseID req) now d else live_conc now)) \<and>
    (\<forall>k. k \<notin> RKey ` set (Requirements req) \<longrightarrow> mbRoll m' k = mbRoll m k \<and> mbConc m' k = mbConc m k)"
proof -
  have w: "wf_backend m" "accounted m" "within m" "sane m" using m by (simp_all add: safe_def)
  have q': "LeaseID req \<noteq> []" "Requirements req \<noteq> []" "mbLeases m (LeaseID req) = None"
    "\<forall>r \<in> set (Requirements req). \<not> is_decreasing m (RKey r) \<and> mbDefs m (RKey r) \<noteq> None"
    and p: "distinct (map RKey (Requirements req))"
    "\<forall>r \<in> set (Requirements req). unat (Capacity (def_of m (RKey r))) + unat (Amount r) < 2 ^ 64"
    using q by (simp_all add: decidable_request_def proper_request_def)
  show ?thesis
  proof (rule mem_Reserve_run[OF w(1) q', of clk at], fold now_def)
    fix m1 x m2
    assume m1: "cleanup_all m now (Requirements req) = Some m1" "wf_backend m1" "same_tables m m1"
      and x: "max_retry m1 (Requirements req) 0 = Some x" "0 \<le> x"
      and m2: "reserve_all m1 (LeaseID req) now (Requirements req) = Some m2" "wf_backend m2"
        "same_tables m1 m2"
      and eq: "mem_Reserve clk m req at =
       (if x > 0 then Some (m1, reserve_response0\<lparr>RetryAfterMs := x\<rparr>)
        else Some (m2\<lparr>mbLeases := (mbLeases m)(LeaseID req \<mapsto>
               \<lparr>lsLeaseID = LeaseID req, lsReservedAtUnix = UnixMilli now,
                lsRequirements = Requirements req,
                lsReservedAmounts = indexByKey (Requirements req)\<rparr>)\<rparr>,
             reserve_response0\<lparr>Allowed := True, ReservedAtUnixMs := UnixMilli now\<rparr>))"
    note S1 = cleanup_all_stores[OF w(1) p(1) m1(1)]
    note S2 = reserve_all_stores[OF m1(2) p(1) m2(1)]
    have room: "fits m1 r \<longleftrightarrow> has_room m now r" if "r \<in> set (Requirements req)" for r
      using S1[of "RKey r"] that p(2) by (intro fits_has_room[OF m m1(3)]) simp_all
    let ?no = "{r \<in> set (Requirements req). \<not> has_room m now r}"
    let ?hint = "\<lambda>r. retryAfter (def_of m (RKey r))"
    have x': "x = (if ok then 0 else max 0 (Max (?hint ` ?no)))"
    proof -
      have e: "map (\<lambda>r. retryAfter (def_of m1 (RKey r))) (filter (\<lambda>r. \<not> fits m1 r) (Requirements req)) =
          map ?hint (filter (\<lambda>r. \<not> has_room m now r) (Requirements req))"
        using room by (simp add: same_tables_def_of[OF m1(3)] cong: filter_cong)
      have "x = foldl maxInt 0 (map ?hint (filter (\<lambda>r. \<not> has_room m now r) (Requirements req)))"
        using x(1) by (simp add: max_retry_foldl[OF m1(2)] e)
      then show ?thesis
        by (auto simp: foldl_maxInt_Max ok_def filter_empty_conv)
    qed
    have pos: "0 < Max (?hint ` ?no)" if "\<not> ok"
    proof -
      obtain r where r: "r \<in> ?no" using \<open>\<not> ok\<close> by (auto simp: ok_def)
      have "0 < ?hint r" using sane_def_of[OF w(4), of "RKey r"] by (simp add: retryAfter_pos sane_definition_def)
      also have "?hint r \<le> Max (?hint ` ?no)" using r by (intro Max_ge) auto
      finally show ?thesis .
    qed
    have cleaned: "limit_rel m m1 (RKey r) (\<lambda>d. live_roll now) (\<lambda>d. live_conc now)"
      if "r \<in> set (Requirements req)" for r
      using S1[of "RKey r"] that wf_rollD[OF w(1), of "RKey r"] wf_concD[OF w(1), of "RKey r"]
      by (cases "mbRoll m (RKey r)"; cases "mbConc m (RKey r)")
         (auto simp: limit_rel_def Let_def cleaned_roll_def cleaned_conc_def live_rollI live_concI)
    have charged: "limit_rel m m2 (RKey r)
        (\<lambda>d. charged_roll (LeaseID req) now d (Amount r)) (\<lambda>d. charged_conc (LeaseID req) now d)"
      if "r \<in> set (Requirements req)" for r
      using S1[of "RKey r"] S2 that wf_rollD[OF w(1), of "RKey r"] wf_concD[OF w(1), of "RKey r"]
      by (cases "mbRoll m (RKey r)"; cases "mbConc m (RKey r)")
         (auto simp: limit_rel_def Let_def cleaned_roll_def cleaned_conc_def charged_rollI charged_concI
           reserved_roll_def reserved_conc_def same_tables_def_of[OF m1(3)])
    show ?thesis
    proof (cases ok)
      case True
      then have eq: "mem_Reserve clk m req at =
        Some (m2\<lparr>mbLeases := (mbLeases m)(LeaseID req \<mapsto>
               \<lparr>lsLeaseID = LeaseID req, lsReservedAtUnix = UnixMilli now,
                lsRequirements = Requirements req,
                lsReservedAmounts = indexByKey (Requirements req)\<rparr>)\<rparr>,
             reserve_response0\<lparr>Allowed := True, ReservedAtUnixMs := UnixMilli now\<rparr>)"
        using eq x' by simp
      have rel: "limit_rel m (m2\<lparr>mbLeases := z\<rparr>) k R C = limit_rel m m2 k R C" for z k R C
        by (simp add: limit_rel_def)
      show ?thesis
        unfolding eq using True charged m1(3) m2(3) S1 S2 by (simp add: same_tables_def rel)
    next
      case False
      then have "mem_Reserve clk m req at = Some (m1, reserve_response0\<lparr>RetryAfterMs := x\<rparr>)"
        using eq x' pos by simp
      then show ?thesis
        using False cleaned m1(3) S1 x' pos by (auto simp: same_tables_def)
    qed
  qed
qed

section \<open>What a completion does\<close>

definition reconciled_limit ::
    "memory_backend \<Rightarrow> memory_backend \<Rightarrow> string \<Rightarrow> lease_state \<Rightarrow> actual \<Rightarrow> bool" where
  "reconciled_limit m m' lease st a \<longleftrightarrow>
      mbRoll m' (AKey a) =
        (if Kind (def_of m (AKey a)) = KindRolling \<and> ActualAmount a < reserved_amount st (AKey a)
         then map_option (\<lambda>l. reduceRollingReservation l lease (ActualAmount a)) (mbRoll m (AKey a))
         else mbRoll m (AKey a)) \<and>
      debt_of m' (AKey a) =
        (if Kind (def_of m (AKey a)) = KindRolling \<and> ActualAmount a > reserved_amount st (AKey a) \<and>
            Overage (def_of m (AKey a)) = OverageDebt
         then debt_of m (AKey a) + (ActualAmount a - reserved_amount st (AKey a))
         else debt_of m (AKey a))"

lemma reconcile_all_stores:
  "wf_backend m \<Longrightarrow> distinct (map AKey as) \<Longrightarrow> reconcile_all m lease st as = Some m' \<Longrightarrow>
   (\<forall>a \<in> set as. reconciled_limit m m' lease st a) \<and>
   (\<forall>k. k \<notin> AKey ` set as \<longrightarrow> mbRoll m' k = mbRoll m k \<and> debt_of m' k = debt_of m k)"
proof (induction as arbitrary: m)
  case (Cons a as)
  let ?k = "AKey a" and ?n = "ActualAmount a"
  let ?res = "reserved_amount st (AKey a)"
  let ?d = "def_of m ?k"
  have zero: "Kind zero_definition \<noteq> KindRolling"
    by (simp add: zero_definition_def KindRolling_def)
  consider (same) "Kind ?d \<noteq> KindRolling \<or> ?n = ?res \<or> (?n > ?res \<and> Overage ?d \<noteq> OverageDebt)"
    | (under) "Kind ?d = KindRolling" "?n < ?res"
    | (over) "Kind ?d = KindRolling" "?n > ?res" "Overage ?d = OverageDebt"
    by fastforce
  then show ?case
  proof cases
    case same
    then have "reconcile_all m lease st as = Some m'"
      using Cons.prems(3) by (auto simp: def_of_def Let_def split: option.splits if_splits)
    from Cons.IH[OF Cons.prems(1) _ this] show ?thesis
      using Cons.prems(2) same by (auto simp: reconciled_limit_def)
  next
    case under
    obtain l where l: "mbRoll m ?k = Some l" "mbDefs m ?k = Some ?d"
      using wf_def_roll[OF Cons.prems(1) under(1)] def_of_kind(1)[OF under(1)] by blast
    let ?m = "m\<lparr>mbRoll := (mbRoll m)(?k \<mapsto> reduceRollingReservation l lease ?n)\<rparr>"
    have "wf_backend ?m"
      using wf_update_roll[OF Cons.prems(1) l(1)] reduce_props(1,2) wf_rollD[OF Cons.prems(1) l(1)] by blast
    moreover have "reconcile_all ?m lease st as = Some m'"
      using Cons.prems(3) under l by simp
    moreover have "def_of ?m k = def_of m k" "debt_of ?m k = debt_of m k" for k
      by (simp_all add: def_of_def debt_of_def)
    ultimately show ?thesis
      using Cons.IH[of ?m] Cons.prems(2) under l by (auto simp: image_iff reconciled_limit_def)
  next
    case over
    have d: "mbDefs m ?k = Some ?d" by (rule def_of_kind(1)[OF over(1)])
    let ?m = "m\<lparr>mbDebt := (mbDebt m)(?k \<mapsto> debt_of m ?k + (?n - ?res))\<rparr>"
    have "wf_backend ?m" using Cons.prems(1) by simp
    moreover have "reconcile_all ?m lease st as = Some m'"
      using Cons.prems(3) over d less_not_sym[OF over(2)] by (simp add: Let_def)
    ultimately have IH: "(\<forall>a \<in> set as. reconciled_limit ?m m' lease st a) \<and> (\<forall>k. k \<notin> AKey ` set as \<longrightarrow> mbRoll m' k = mbRoll ?m k \<and> debt_of m' k = debt_of ?m k)"
      using Cons.IH[of ?m] Cons.prems(2) by simp
    have D: "def_of ?m k = def_of m k" "mbRoll ?m = mbRoll m"
      "debt_of ?m ?k = debt_of m ?k + (?n - ?res)" "k \<noteq> ?k \<Longrightarrow> debt_of ?m k = debt_of m k" for k
      by (simp_all add: def_of_def debt_of_def)
    have "reconciled_limit m m' lease st a'" if "a' \<in> set as" for a'
    proof -
      have "AKey a' \<noteq> ?k" using that Cons.prems(2) by (auto simp: image_iff)
      moreover have "reconciled_limit ?m m' lease st a'" using IH that by blast
      ultimately show ?thesis using D(1,2,4) by (simp add: reconciled_limit_def)
    qed
    moreover have "reconciled_limit m m' lease st a"
    proof -
      have "mbRoll m' ?k = mbRoll ?m ?k \<and> debt_of m' ?k = debt_of ?m ?k" using IH Cons.prems(2) by simp
      then show ?thesis using over less_not_sym[OF over(2)] by (simp add: D reconciled_limit_def)
    qed
    moreover have "mbRoll m' k = mbRoll m k \<and> debt_of m' k = debt_of m k" if "k \<notin> AKey ` set (a # as)" for k
      using IH that by (simp add: D)
    ultimately show ?thesis by (simp only: list.set ball_simps) blast
  qed
qed simp

text \<open>The completion of a lease on one limit.\<close>

definition settled_roll :: "string \<Rightarrow> uint64 \<Rightarrow> rolling_limit \<Rightarrow> rolling_limit \<Rightarrow> bool" where
  "settled_roll lease n l l' \<longleftrightarrow>
     rlCap l' = rlCap l \<and>
     (rlById l lease = None \<longrightarrow> rl_entries l' = rl_entries l) \<and>
     (\<forall>a t. indexed l lease (lease, a, t) \<longrightarrow>
        (\<exists>M. rl_entries l = add_mset (lease, a, t) M \<and>
             rl_entries l' = add_mset (lease, min a n, t) M))"

lemma settled_rollI:
  assumes w: "wf_rolling l"
  shows "settled_roll lease n l (reduceRollingReservation l lease n)"
proof (cases "rlById l lease")
  case None
  then show ?thesis by (simp add: settled_roll_def reduceRollingReservation_none indexed_def)
next
  case (Some p)
  let ?l = "reduceRollingReservation l lease n"
  have p: "p \<in> set (rl_slots l)" using w Some by (auto simp: wf_rolling_def)
  have cap: "rlCap ?l = rlCap l" using reduce_props(2)[OF w] .
  have "\<exists>M. rl_entries l = add_mset (lease, a, t) M \<and> rl_entries ?l = add_mset (lease, min a n, t) M"
    if e: "rl_objs l ! p = (lease, a, t)" for a t
  proof (cases "n < a")
    case True
    then have "min a n = n" by (rule min.absorb4)
    then show ?thesis
      using reduceRollingReservation_correct(2)[OF w Some, of n] e True by simp
  next
    case False
    have "min a n = a" using False by (simp add: min.absorb1 not_less)
    moreover have "rl_objs l ! p \<in># rl_entries l" using p by (auto simp: rl_entries_def)
    then obtain M where "rl_entries l = add_mset (rl_objs l ! p) M" by (meson mset_add)
    ultimately show ?thesis
      using reduceRollingReservation_large[OF w Some, of n] e False by simp
  qed
  then show ?thesis using Some cap by (simp add: settled_roll_def indexed_def)
qed

definition settled_limit ::
    "memory_backend \<Rightarrow> memory_backend \<Rightarrow> string \<Rightarrow> lease_state \<Rightarrow> actual \<Rightarrow> bool" where
  "settled_limit m m' lease st a \<longleftrightarrow>
     (let d = def_of m (AKey a); reserved = reserved_amount st (AKey a); actual = ActualAmount a in
      (if Kind d = KindRolling \<and> actual < reserved
       then rel_option (settled_roll lease actual) (mbRoll m (AKey a)) (mbRoll m' (AKey a))
       else mbRoll m' (AKey a) = mbRoll m (AKey a)) \<and>
      debt_of m' (AKey a) =
        (if Kind d = KindRolling \<and> actual > reserved \<and> Overage d = OverageDebt
         then debt_of m (AKey a) + (actual - reserved) else debt_of m (AKey a)))"

definition released_limit ::
    "memory_backend \<Rightarrow> memory_backend \<Rightarrow> string \<Rightarrow> requirement list \<Rightarrow> limit_key \<Rightarrow> bool" where
  "released_limit m m' lease rs k \<longleftrightarrow>
     rel_option (\<lambda>l l'. clCap l' = clCap l \<and>
         holds_of l' = (if k \<in> RKey ` set rs \<and> Kind (def_of m k) = KindConcurrency
                        then (holds_of l)(lease := None) else holds_of l))
       (mbConc m k) (mbConc m' k)"

lemma reconciled_settled:
  assumes "wf_backend m" "reconciled_limit m m' lease st a"
  shows "settled_limit m m' lease st a"
proof -
  have "rel_option (settled_roll lease n) (mbRoll m k)
          (map_option (\<lambda>l. reduceRollingReservation l lease n) (mbRoll m k))" for k n
    using wf_rollD[OF assms(1), of k] settled_rollI by (cases "mbRoll m k") auto
  with assms(2) show ?thesis
    by (simp add: reconciled_limit_def settled_limit_def Let_def split: if_splits)
qed

lemma completed_run:
  assumes w: "wf_backend m" and st: "mbLeases m (CLeaseID req) = Some st"
    and d: "distinct (map AKey (Actuals req))"
  shows "\<exists>m'. mem_Complete m req = Some (m', complete_response0\<lparr>Ok := True\<rparr>) \<and>
    mbDefs m' = mbDefs m \<and> mbStates m' = mbStates m \<and>
    mbLeases m' = (mbLeases m)(CLeaseID req := None) \<and>
    (\<forall>k. released_limit m m' (CLeaseID req) (lsRequirements st) k) \<and>
    (\<forall>a \<in> set (Actuals req). settled_limit m m' (CLeaseID req) st a) \<and>
    (\<forall>k. k \<notin> AKey ` set (Actuals req) \<longrightarrow> mbRoll m' k = mbRoll m k \<and> debt_of m' k = debt_of m k)"
proof -
  let ?m1 = "release_all m (CLeaseID req) (lsRequirements st)"
  note R = release_all_props[OF w, of "CLeaseID req" "lsRequirements st"]
  show ?thesis
  proof (rule mem_Complete_run[OF w st])
    fix m2
    assume m2: "reconcile_all ?m1 (CLeaseID req) st (Actuals req) = Some m2" "wf_backend m2" "reconciles ?m1 m2"
      and eq: "mem_Complete m req =
        Some (m2\<lparr>mbLeases := (mbLeases m)(CLeaseID req := None)\<rparr>, complete_response0\<lparr>Ok := True\<rparr>)"
    let ?m' = "m2\<lparr>mbLeases := (mbLeases m)(CLeaseID req := None)\<rparr>"
    have w1: "wf_backend ?m1" and t: "same_tables m ?m1" and r: "mbRoll ?m1 = mbRoll m" using R by auto
    have dd: "def_of ?m1 k = def_of m k" "debt_of ?m1 k = debt_of m k" for k
      using t by (simp_all add: same_tables_def def_of_def debt_of_def)
    note S = reconcile_all_stores[OF w1 d m2(1)]
    have same: "debt_of ?m' k = debt_of m2 k" for k by (simp add: debt_of_def)
    have "reconciled_limit m ?m' (CLeaseID req) st a" if "a \<in> set (Actuals req)" for a
      using conjunct1[OF S] that unfolding reconciled_limit_def dd r same by simp
    then have settled: "\<forall>a \<in> set (Actuals req). settled_limit m ?m' (CLeaseID req) st a"
      using reconciled_settled[OF w] by blast
    have c: "mbConc m2 k =
        (if k \<in> RKey ` set (lsRequirements st) \<and> Kind (def_of m k) = KindConcurrency
         then map_option (\<lambda>l. release_hold l (CLeaseID req)) (mbConc m k) else mbConc m k)" for k
      using R m2(3) by (simp add: reconciles_def)
    have conc: "\<forall>k. released_limit m ?m' (CLeaseID req) (lsRequirements st) k"
    proof
      fix k
      show "released_limit m ?m' (CLeaseID req) (lsRequirements st) k"
        using c[of k] by (cases "mbConc m k") (simp_all add: released_limit_def release_hold_correct)
    qed
    have other: "\<forall>k. k \<notin> AKey ` set (Actuals req) \<longrightarrow> mbRoll ?m' k = mbRoll m k \<and> debt_of ?m' k = debt_of m k"
      using conjunct2[OF S] r unfolding dd same by simp
    have tabs: "mbDefs ?m' = mbDefs m" "mbStates ?m' = mbStates m"
      using m2(3) t by (simp_all add: reconciles_def same_tables_def)
    show ?thesis using eq settled conc other tabs by (intro exI[of _ ?m'] conjI) simp_all
  qed
qed

text \<open>A rolling limit after a charge and the completion that follows it.\<close>

lemma settled_after_charge:
  assumes c: "charged_roll lease now d amount l l1" and l1: "mbRoll m1 k = Some l1"
    and kind: "Kind (def_of m1 k) = KindRolling" and res: "reserved_amount st k = amount"
    and a: "\<And>a. a \<in> set acts \<Longrightarrow> settled_limit m1 m2 lease st a"
    and other: "k \<notin> AKey ` set acts \<Longrightarrow> mbRoll m2 k = mbRoll m1 k"
  shows "\<exists>l2. mbRoll m2 k = Some l2 \<and>
    rl_entries l2 = add_mset
      (lease, (case find (\<lambda>a. AKey a = k) acts of None \<Rightarrow> amount | Some a \<Rightarrow> min amount (ActualAmount a)),
       roll_expiry now d) (filter_mset (\<lambda>e. now < expiry e) (rl_entries l))"
proof (cases "find (\<lambda>a. AKey a = k) acts")
  case None
  then have "k \<notin> AKey ` set acts" by (auto simp: find_None_iff)
  with None other l1 c show ?thesis by (simp add: charged_roll_def)
next
  case (Some x)
  then have x: "x \<in> set acts" "AKey x = k" by (auto dest: find_SomeD)
  have s: "settled_limit m1 m2 lease st x" by (rule a[OF x(1)])
  show ?thesis
  proof (cases "ActualAmount x < amount")
    case True
    then obtain l2 where l2: "mbRoll m2 k = Some l2" "settled_roll lease (ActualAmount x) l1 l2"
      using s l1 kind res x(2) by (auto simp: settled_limit_def Let_def option_rel_Some1)
    obtain M where M: "rl_entries l1 = add_mset (lease, amount, roll_expiry now d) M"
      "rl_entries l2 = add_mset (lease, min amount (ActualAmount x), roll_expiry now d) M"
      using l2(2) c unfolding settled_roll_def charged_roll_def by blast
    then have "M = filter_mset (\<lambda>e. now < expiry e) (rl_entries l)"
      using c by (simp add: charged_roll_def)
    with M Some l2(1) show ?thesis by simp
  next
    case False
    have "mbRoll m2 k = Some l1"
      using s l1 res x(2) False by (simp add: settled_limit_def Let_def)
    moreover have "min amount (ActualAmount x) = amount"
      using False by (simp add: min.absorb1 not_less)
    ultimately show ?thesis using Some c by (simp add: charged_roll_def)
  qed
qed

section \<open>Equal requirements\<close>

lemma requirement_eta [simp]: "\<lparr>RKey = RKey r, Amount = Amount r\<rparr> = r"
  by (cases r) simp

lemma indexByKey_mem:
  "distinct (map RKey rs) \<Longrightarrow> indexByKey rs k = Some a \<longleftrightarrow> \<lparr>RKey = k, Amount = a\<rparr> \<in> set rs"
proof (induction rs rule: rev_induct)
  case (snoc r rs)
  have "indexByKey (rs @ [r]) = (indexByKey rs)(RKey r \<mapsto> Amount r)" by (simp add: indexByKey_def)
  with snoc show ?case by (cases r) (auto simp: image_iff simp del: requirement_eta)
qed (simp add: indexByKey_def)

lemma indexByKey_amount:
  "distinct (map RKey rs) \<Longrightarrow> r \<in> set rs \<Longrightarrow> indexByKey rs (RKey r) = Some (Amount r)"
  by (simp add: indexByKey_mem)

text \<open>The comparison of a retried request is equality up to order.\<close>

lemma requirementsEqual_mset:
  assumes "distinct (map RKey a)" "distinct (map RKey b)"
  shows "requirementsEqual a b \<longleftrightarrow> mset a = mset b"
proof
  assume eq: "requirementsEqual a b"
  have sub: "set b \<subseteq> set a"
    using eq by (auto simp: requirementsEqual_def indexByKey_mem[OF assms(1)])
  have d: "distinct a" "distinct b" using assms by (simp_all add: distinct_map)
  then have "card (set b) = card (set a)"
    using eq by (simp add: distinct_card requirementsEqual_def)
  then have "set b = set a" using sub by (intro card_subset_eq) auto
  then show "mset a = mset b" using d by (simp add: set_eq_iff_mset_eq_distinct)
next
  assume "mset a = mset b"
  then have "length a = length b" "set a = set b"
    by (metis size_mset, metis set_mset_mset)
  then show "requirementsEqual a b"
    by (auto simp: requirementsEqual_def indexByKey_mem[OF assms(1)])
qed

lemma reserve_complete_run:
  assumes "safe m" "decidable_request m req"
    and "mem_Reserve clk m req at = Some (m1, resp)" "Allowed resp"
    and "CLeaseID creq = LeaseID req" "distinct (map AKey (Actuals creq))"
  defines "now \<equiv> backend_now clk at"
  shows "\<exists>m2. mem_Complete m1 creq = Some (m2, complete_response0\<lparr>Ok := True\<rparr>) \<and>
    mbLeases m2 = mbLeases m \<and>
    (\<forall>r \<in> set (Requirements req). \<forall>l. mbRoll m (RKey r) = Some l \<longrightarrow>
       Kind (def_of m (RKey r)) = KindRolling \<longrightarrow>
       (\<exists>l2. mbRoll m2 (RKey r) = Some l2 \<and>
          rl_entries l2 = add_mset
            (LeaseID req,
             (case find (\<lambda>a. AKey a = RKey r) (Actuals creq) of
                None \<Rightarrow> Amount r | Some a \<Rightarrow> min (Amount r) (ActualAmount a)),
             roll_expiry now (def_of m (RKey r)))
            (filter_mset (\<lambda>e. now < expiry e) (rl_entries l)))) \<and>
    (\<forall>r \<in> set (Requirements req). \<forall>l. mbConc m (RKey r) = Some l \<longrightarrow>
       Kind (def_of m (RKey r)) = KindConcurrency \<longrightarrow>
       (\<exists>l2. mbConc m2 (RKey r) = Some l2 \<and>
          holds_of l2 = (holds_of l |` live_holds l now)(LeaseID req := None)))"
proof -
  have dist: "distinct (map RKey (Requirements req))" and none: "mbLeases m (LeaseID req) = None"
    using assms(2) by (simp_all add: decidable_request_def proper_request_def)
  define st where "st = \<lparr>lsLeaseID = LeaseID req, lsReservedAtUnix = UnixMilli now,
    lsRequirements = Requirements req, lsReservedAmounts = indexByKey (Requirements req)\<rparr>"
  have L: "mbLeases m1 = (mbLeases m)(LeaseID req \<mapsto> st)" "mbDefs m1 = mbDefs m"
    and C: "\<And>r. r \<in> set (Requirements req) \<Longrightarrow> limit_rel m m1 (RKey r)
        (\<lambda>d. charged_roll (LeaseID req) now d (Amount r)) (\<lambda>d. charged_conc (LeaseID req) now d)"
    using decided_run[OF assms(1,2), of clk at, folded now_def] assms(3,4)
    by (auto simp: reserve_response0_def st_def split: if_splits)
  have d: "def_of m1 k = def_of m k" for k using L(2) by (simp add: def_of_def)
  have "wf_backend m1"
    using mem_Reserve_total[of m clk req at] assms(1,3)
    by (auto simp: safe_def)
  from completed_run[OF this _ assms(6), of st] obtain m2 where
    m2: "mem_Complete m1 creq = Some (m2, complete_response0\<lparr>Ok := True\<rparr>)"
      "mbLeases m2 = (mbLeases m1)(LeaseID req := None)"
      "\<And>k. released_limit m1 m2 (LeaseID req) (lsRequirements st) k"
      "\<And>a. a \<in> set (Actuals creq) \<Longrightarrow> settled_limit m1 m2 (LeaseID req) st a"
      "\<And>k. k \<notin> AKey ` set (Actuals creq) \<Longrightarrow> mbRoll m2 k = mbRoll m1 k"
    using L(1) assms(5) by auto
  have roll: "\<exists>l2. mbRoll m2 (RKey r) = Some l2 \<and>
          rl_entries l2 = add_mset
            (LeaseID req,
             (case find (\<lambda>a. AKey a = RKey r) (Actuals creq) of
                None \<Rightarrow> Amount r | Some a \<Rightarrow> min (Amount r) (ActualAmount a)),
             roll_expiry now (def_of m (RKey r)))
            (filter_mset (\<lambda>e. now < expiry e) (rl_entries l))"
    if r: "r \<in> set (Requirements req)" and l: "mbRoll m (RKey r) = Some l"
      and k: "Kind (def_of m (RKey r)) = KindRolling" for r l
  proof -
    obtain l1 where l1: "mbRoll m1 (RKey r) = Some l1"
      "charged_roll (LeaseID req) now (def_of m (RKey r)) (Amount r) l l1"
      using C[OF r] l k by (auto simp: limit_rel_def Let_def option_rel_Some1)
    show ?thesis
      using settled_after_charge[OF l1(2,1), of st "Actuals creq" m2] m2(4,5) k
        indexByKey_amount[OF dist r]
      by (auto simp: d st_def reserved_amount_def)
  qed
  have conc: "\<exists>l2. mbConc m2 (RKey r) = Some l2 \<and>
          holds_of l2 = (holds_of l |` live_holds l now)(LeaseID req := None)"
    if r: "r \<in> set (Requirements req)" and l: "mbConc m (RKey r) = Some l"
      and k: "Kind (def_of m (RKey r)) = KindConcurrency" for r l
  proof -
    obtain l1 where l1: "mbConc m1 (RKey r) = Some l1"
      "charged_conc (LeaseID req) now (def_of m (RKey r)) l l1"
      using C[OF r] l k by (auto simp: limit_rel_def Let_def option_rel_Some1)
    then show ?thesis
      using m2(3)[of "RKey r"] r k
      by (auto simp: released_limit_def st_def d charged_conc_def option_rel_Some1)
  qed
  show ?thesis using m2(1,2) L(1) none roll conc by (intro exI[of _ m2]) auto
qed

section \<open>What a pending decrease needs\<close>

text \<open>What is in use of a limit at a time, as a number.\<close>

definition live_use :: "memory_backend \<Rightarrow> go_time \<Rightarrow> limit_key \<Rightarrow> limit_definition \<Rightarrow> nat" where
  "live_use m now k d =
     (if Kind d = KindRolling
      then (case mbRoll m k of None \<Rightarrow> 0 | Some l \<Rightarrow> live_usage l now)
      else (case mbConc m k of None \<Rightarrow> 0 | Some l \<Rightarrow> card (live_holds l now)))"

lemma avail_le_iff:
  fixes used t c :: uint64
  assumes "t < c" "used \<le> c"
  shows "(if used \<ge> c then 0 else c - used) < c - t \<longleftrightarrow> \<not> unat used \<le> unat t"
proof -
  have n: "unat (c - used) = unat c - unat used" "unat (c - t) = unat c - unat t"
    using assms by (simp_all add: unat_sub less_imp_le)
  have "unat used \<le> unat c" "unat t < unat c"
    using assms by (simp_all add: word_le_nat_alt word_less_nat_alt)
  then show ?thesis
    by (auto simp: word_less_nat_alt word_le_nat_alt n)
qed

lemma available_live_use:
  assumes m: "safe m" and st: "mbStates m k = Some s"
    and kind: "Kind (Definition s) = KindRolling \<or> Kind (Definition s) = KindConcurrency"
    and t: "t < Capacity (Definition s)"
  shows "availableCapacity (cleanupLocked clk m k) k (Definition s) < Capacity (Definition s) - t
    \<longleftrightarrow> \<not> live_use m clk k (Definition s) \<le> unat t"
proof -
  let ?d = "Definition s"
  have w: "wf_backend m" "accounted m" "within m" using m by (simp_all add: safe_def)
  have d: "mbDefs m k = Some ?d" using wf_statesD[OF w(1)] st by simp
  then have dof: "def_of m k = ?d" by (simp add: def_of_def)
  have ne: "KindConcurrency \<noteq> KindRolling" by (simp add: KindRolling_def KindConcurrency_def)
  from kind show ?thesis
  proof
    assume r: "Kind ?d = KindRolling"
    obtain l where l: "mbRoll m k = Some l" "rlCap l = Capacity ?d" using wf_roll_store[OF w(1) d r] by blast
    have wl: "wf_rolling l" "used_ok l" using wf_rollD[OF w(1) l(1)] w(2) l(1) by (auto simp: accounted_def)
    have "rlUsed l \<le> rlCap l" using w(3) l dof r by (auto simp: within_def roll_within_def dest: spec[of _ k])
    then have u: "rlUsed (cleanupRolling l clk) \<le> Capacity ?d"
      using cleanupRolling_used[OF wl, of clk] l(2) by simp
    have "availableCapacity (cleanupLocked clk m k) k ?d =
        (if rlUsed (cleanupRolling l clk) \<ge> Capacity ?d then 0
         else Capacity ?d - rlUsed (cleanupRolling l clk))"
      using l d r cleanupRolling_correct[OF wl(1), of clk]
      by (simp add: availableCapacity_def cleanupLocked_def)
    then show ?thesis
      using avail_le_iff[OF t u] live_usage_cleanup[OF wl, of clk] l(1) r by (simp add: live_use_def)
  next
    assume c: "Kind ?d = KindConcurrency"
    obtain l where l: "mbConc m k = Some l" "clCap l = Capacity ?d" using wf_conc_store[OF w(1) d c] by blast
    have wl: "wf_conc l" using wf_concD[OF w(1) l(1)] by simp
    let ?h = "of_nat (held (cleanupConcurrency l clk)) :: uint64"
    have "held l \<le> unat (clCap l)"
      using w(3) l dof c by (auto simp: within_def conc_within_def dest: spec[of _ k])
    then have le: "held (cleanupConcurrency l clk) \<le> unat (Capacity ?d)"
      using cleanupConcurrency_held[OF wl, of clk] l(2) by simp
    then have h: "unat ?h = card (live_holds l clk)"
      using live_holds_cleanup[OF wl, of clk] by (metis le_unat_uoi)
    then have u: "?h \<le> Capacity ?d"
      using le live_holds_cleanup[OF wl, of clk] by (simp add: word_le_nat_alt)
    have "availableCapacity (cleanupLocked clk m k) k ?d =
        (if ?h \<ge> Capacity ?d then 0 else Capacity ?d - ?h)"
      using l d c ne cleanupConcurrency_correct[OF wl, of clk]
      by (simp add: availableCapacity_def cleanupLocked_def Let_def)
    then show ?thesis
      using avail_le_iff[OF t u] h l(1) c ne by (simp add: live_use_def)
  qed
qed

section \<open>The operations the server runs\<close>

text \<open>
  The daemon (cmd/ratelimiterd) reaches the backend through the API handlers only: definitions,
  reservations and completions.  \<open>settles k d\<close> says that a definition ends a decrease of \<open>k\<close>.
\<close>

inductive server_step :: "memory_backend \<Rightarrow> memory_backend \<Rightarrow> bool" where
  server_apply: "server_step m (mem_ApplyDefinition m d)"
| server_reserve: "mem_Reserve clk m req at = Some (m', resp) \<Longrightarrow> server_step m m'"
| server_complete: "mem_Complete m req = Some (m', resp) \<Longrightarrow> server_step m m'"

definition raises :: "memory_backend \<Rightarrow> limit_key \<Rightarrow> memory_backend \<Rightarrow> bool" where
  "raises m k m' \<longleftrightarrow>
     (\<exists>d prev. m' = mem_ApplyDefinition m d \<and> Key d = k \<and>
        mbDefs m k = Some prev \<and> Capacity d \<ge> Capacity prev)"

text \<open>A run in which nobody raises the limit \<open>k\<close> again.\<close>

inductive server_run :: "limit_key \<Rightarrow> memory_backend \<Rightarrow> memory_backend \<Rightarrow> bool" for k where
  server_refl: "server_run k m m"
| server_next: "server_run k m m1 \<Longrightarrow> server_step m1 m2 \<Longrightarrow> \<not> raises m1 k m2 \<Longrightarrow> server_run k m m2"

lemma reserve_tables:
  assumes "wf_backend m" "mem_Reserve clk m req at = Some (m', resp)"
  shows "wf_backend m' \<and> mbStates m' = mbStates m \<and> mbDefs m' = mbDefs m"
proof -
  have w: "wf_backend m'" using mem_Reserve_total[OF assms(1), of clk req at] assms(2) by auto
  consider (same) "m' = m"
    | (run) "LeaseID req \<noteq> []" "Requirements req \<noteq> []" "mbLeases m (LeaseID req) = None"
     "\<forall>r \<in> set (Requirements req). \<not> is_decreasing m (RKey r) \<and> mbDefs m (RKey r) \<noteq> None"
    using mem_Reserve_cases[OF assms(1), of clk req at] assms(2) by auto
  then show ?thesis
  proof cases
    case run
    show ?thesis
      by (rule mem_Reserve_run[OF assms(1) run, of clk at])
         (use assms(2) w in \<open>auto simp: same_tables_def split: if_splits\<close>)
  qed (use w in simp)
qed

lemma complete_tables:
  assumes "wf_backend m" "mem_Complete m req = Some (m', resp)"
  shows "wf_backend m' \<and> mbStates m' = mbStates m \<and> mbDefs m' = mbDefs m"
proof (cases "mbLeases m (CLeaseID req)")
  case None
  with assms show ?thesis by (simp add: mem_Complete_def)
next
  case (Some st)
  note R = release_all_props[OF assms(1), of "CLeaseID req" "lsRequirements st"]
  show ?thesis
    by (rule mem_Complete_run[OF assms(1) Some])
       (use assms(2) R in \<open>auto simp: reconciles_def same_tables_def\<close>)
qed

lemma server_step_wf: "server_step m m' \<Longrightarrow> wf_backend m \<Longrightarrow> wf_backend m'"
  by (induction rule: server_step.induct)
     (use wf_ApplyDefinition reserve_tables complete_tables in blast)+

lemma server_step_decreasing:
  assumes "server_step m m'" "wf_backend m" "is_decreasing m k" "\<not> raises m k m'"
  shows "is_decreasing m' k"
  using assms
proof (cases rule: server_step.cases)
  case (server_apply d)
  obtain prev where prev: "mbDefs m k = Some prev"
    using assms(2,3) wf_statesD[OF assms(2), of k] by (auto simp: is_decreasing_def split: option.splits)
  show ?thesis
  proof (cases "Key d = k")
    case True
    then have "\<not> Capacity prev \<le> Capacity d"
      using assms(4) prev server_apply by (auto simp: raises_def)
    then show ?thesis
      using True prev server_apply by (simp add: mem_ApplyDefinition_def is_decreasing_def)
  next
    case False
    then show ?thesis
      using server_apply assms(3)
      by (auto simp: mem_ApplyDefinition_def is_decreasing_def install_tables state_key_def
          split: option.splits)
  qed
next
  case (server_reserve clk req at resp)
  with reserve_tables[OF assms(2) server_reserve] assms(3) show ?thesis
    by (simp add: is_decreasing_def)
next
  case (server_complete req resp)
  with complete_tables[OF assms(2) server_complete] assms(3) show ?thesis
    by (simp add: is_decreasing_def)
qed

lemma server_run_decreasing:
  assumes "server_run k m m'" "wf_backend m" "is_decreasing m k"
  shows "wf_backend m' \<and> is_decreasing m' k"
  using assms by (induction rule: server_run.induct) (auto intro: server_step_wf server_step_decreasing)

end
