(* ===== verification/Mem_Examples.thy ===== *)
theory Mem_Examples
  imports Mem_Spec
begin

text \<open>
  A small in-memory backend the witnesses run on: a rolling limit of capacity 10 per minute and
  a concurrency limit of capacity 1, the states it reaches by a reservation, a refusal and a
  lowered definition, each shown reachable.
\<close>

section \<open>A small backend\<close>

definition ex_roll :: limit_definition where
  "ex_roll = \<lparr>Key = ''k'', Kind = KindRolling, Capacity = 10, WindowSeconds = 60,
     TimeoutSeconds = 0, Unit = [], Description = [], Overage = OverageDebt\<rparr>"

definition ex_conc :: limit_definition where
  "ex_conc = \<lparr>Key = ''c'', Kind = KindConcurrency, Capacity = 1, WindowSeconds = 0,
     TimeoutSeconds = 60, Unit = [], Description = [], Overage = OverageDebt\<rparr>"

definition ex_backend :: memory_backend where
  "ex_backend =
     mem_ApplyDefinition (mem_ApplyDefinition (mem_AttachRegistry mem_New True ''limits.json'') ex_roll)
       ex_conc"

definition ex_request :: "string \<Rightarrow> (limit_key \<times> uint64) list \<Rightarrow> reserve_request" where
  "ex_request lease rs =
     \<lparr>LeaseID = lease, JobID = ''job'', Requirements = map (\<lambda>(k, a). \<lparr>RKey = k, Amount = a\<rparr>) rs\<rparr>"

definition ex_complete :: "string \<Rightarrow> (limit_key \<times> uint64) list \<Rightarrow> complete_request" where
  "ex_complete lease as =
     \<lparr>CLeaseID = lease, CJobID = ''job'', Actuals = map (\<lambda>(k, a). \<lparr>AKey = k, ActualAmount = a\<rparr>) as\<rparr>"

text \<open>The backend after a reservation of 4 and one slot at time 1.\<close>

definition ex_reserve :: "memory_backend \<times> reserve_response" where
  "ex_reserve = the (mem_Reserve 0 ex_backend (ex_request ''a'' [(''k'', 4), (''c'', 1)]) 1)"

definition ex_reserved :: memory_backend where
  "ex_reserved = fst ex_reserve"

lemma ex_sane: "sane_definition ex_roll" "sane_definition ex_conc"
  by (simp_all add: sane_definition_def sane_timeout_def ex_roll_def ex_conc_def)

lemma ex_backend_reachable: "mem_reachable ex_backend"
proof -
  let ?m = "mem_AttachRegistry mem_New True ''limits.json''"
  have k: "keeps_kind ?m ex_roll" "keeps_kind (mem_ApplyDefinition ?m ex_roll) ex_conc"
    by (simp_all add: keeps_kind_def mem_AttachRegistry_def mem_New_def mem_ApplyDefinition_def
        install_tables state_key_def ex_roll_def ex_conc_def)
  have start: "mem_reachable ?m"
    using reach_start[of "[]"] by (simp add: applyStates_def)
  show ?thesis
    unfolding ex_backend_def
    by (rule reach_step[OF reach_step[OF start step_apply[OF k(1) ex_sane(1)]]
          step_apply[OF k(2) ex_sane(2)]])
qed

lemma ex_reserve_ran:
  "mem_Reserve 0 ex_backend (ex_request ''a'' [(''k'', 4), (''c'', 1)]) 1 =
     Some (ex_reserved, reserve_response0\<lparr>Allowed := True\<rparr>)"
proof -
  have "mem_Reserve 0 ex_backend (ex_request ''a'' [(''k'', 4), (''c'', 1)]) 1 \<noteq> None"
    using mem_Reserve_total[of ex_backend] mem_reachable_safe[OF ex_backend_reachable]
    by (fastforce simp: safe_def)
  moreover have "snd (the (mem_Reserve 0 ex_backend (ex_request ''a'' [(''k'', 4), (''c'', 1)]) 1)) =
      reserve_response0\<lparr>Allowed := True\<rparr>"
    by code_simp
  ultimately show ?thesis
    by (auto simp: ex_reserved_def ex_reserve_def)
qed

lemma ex_proper: "proper_request ex_backend (ex_request l [(''k'', 4), (''c'', 1)])"
  by (simp add: proper_request_def ex_request_def def_of_def ex_backend_def mem_ApplyDefinition_def
      install_tables state_key_def mem_AttachRegistry_def mem_New_def ex_roll_def ex_conc_def)

lemma ex_reserved_reachable: "mem_reachable ex_reserved"
  by (rule reach_step[OF ex_backend_reachable step_reserve[OF ex_proper ex_reserve_ran]])

section \<open>Requests the feasibility check decides on\<close>

lemma ex_decidable: "decidable_request ex_backend (ex_request ''a'' [(''k'', 4), (''c'', 1)])"
proof -
  have "is_decreasing ex_backend ''k'' = False" "is_decreasing ex_backend ''c'' = False"
    "mbDefs ex_backend ''k'' = Some ex_roll" "mbDefs ex_backend ''c'' = Some ex_conc"
    "mbLeases ex_backend ''a'' = None" by code_simp+
  then show ?thesis
    using ex_proper[of "''a''"] by (simp add: decidable_request_def ex_request_def)
qed

lemma ex_decidable_b: "decidable_request ex_reserved (ex_request ''b'' [(''k'', 7)])"
proof -
  have "is_decreasing ex_reserved ''k'' = False" "mbDefs ex_reserved ''k'' = Some ex_roll"
    "mbLeases ex_reserved ''b'' = None" by code_simp+
  then show ?thesis
    by (simp add: decidable_request_def proper_request_def ex_request_def def_of_def ex_roll_def)
qed

definition ex_refused :: memory_backend where
  "ex_refused = fst (the (mem_Reserve 0 ex_reserved (ex_request ''b'' [(''k'', 7)]) 2))"

lemma ex_refuse_ran:
  "mem_Reserve 0 ex_reserved (ex_request ''b'' [(''k'', 7)]) 2 =
     Some (ex_refused, reserve_response0\<lparr>RetryAfterMs := 5000\<rparr>)"
proof -
  have "mem_Reserve 0 ex_reserved (ex_request ''b'' [(''k'', 7)]) 2 \<noteq> None"
    using mem_Reserve_total[of ex_reserved] mem_reachable_safe[OF ex_reserved_reachable]
    by (fastforce simp: safe_def)
  moreover have "snd (the (mem_Reserve 0 ex_reserved (ex_request ''b'' [(''k'', 7)]) 2)) =
      reserve_response0\<lparr>RetryAfterMs := 5000\<rparr>"
    by code_simp
  ultimately show ?thesis by (auto simp: ex_refused_def)
qed

lemma ex_lease:
  "mbLeases ex_reserved ''a'' = Some \<lparr>lsLeaseID = ''a'', lsReservedAtUnix = 0,
     lsRequirements = [\<lparr>RKey = ''k'', Amount = 4\<rparr>, \<lparr>RKey = ''c'', Amount = 1\<rparr>],
     lsReservedAmounts = indexByKey [\<lparr>RKey = ''k'', Amount = 4\<rparr>, \<lparr>RKey = ''c'', Amount = 1\<rparr>]\<rparr>"
  using decided_run[OF mem_reachable_safe[OF ex_backend_reachable] ex_decidable, of 0 1] ex_reserve_ran
  by (auto simp: ex_request_def backend_now_def IsZero_def zero_time_def UnixMilli_def Millisecond_def
      reserve_response0_def split: if_splits)

section \<open>A pending decrease\<close>

definition ex_lowered :: memory_backend where
  "ex_lowered = mem_ApplyDefinition ex_reserved (ex_roll\<lparr>Capacity := 5\<rparr>)"

lemma ex_lowered_reachable: "mem_reachable ex_lowered"
proof -
  have "mbDefs ex_reserved ''k'' = Some ex_roll" by code_simp
  then have "keeps_kind ex_reserved (ex_roll\<lparr>Capacity := 5\<rparr>)"
    by (simp add: keeps_kind_def ex_roll_def)
  then show ?thesis
    unfolding ex_lowered_def
    by (intro reach_step[OF ex_reserved_reachable] step_apply)
       (simp_all add: sane_definition_def sane_timeout_def ex_roll_def)
qed

lemma ex_lowered_state:
  "mbStates ex_lowered ''k'' =
     Some \<lparr>Definition = ex_roll, Status = LimitStatusDecreasing, PendingDecreaseTo = 5\<rparr>"
  by code_simp

end
