(* ===== verification/Mem_Theorems.thy ===== *)
theory Mem_Theorems
  imports Mem_Examples
begin

text \<open>
  The properties of the in-memory backend, each over the whole operation as the server and the
  local client call it, with their witnesses on the backend of \<open>Mem_Examples\<close>.
\<close>

section \<open>Capacity is never exceeded\<close>



section \<open>Admission\<close>





text \<open>C4. A refused request is told to retry after the largest hint of the limits without room, a
  positive number of milliseconds, and leaves no trace: no lease is recorded, no limit, state or
  debt changes, and every limit keeps its live reservations and holds.\<close>

theorem mem_Reserve_refuses:
  assumes "mem_reachable m" "decidable_request m req"
    and "mem_Reserve clk m req at = Some (m', resp)" "\<not> Allowed resp"
  defines "now \<equiv> backend_now clk at"
  shows "RetryAfterMs resp > 0 \<and> Error resp = [] \<and>
    RetryAfterMs resp =
      Max ((\<lambda>r. retryAfter (def_of m (RKey r))) ` {r \<in> set (Requirements req). \<not> has_room m now r}) \<and>
    (\<forall>r \<in> set (Requirements req).
        limit_rel m m' (RKey r) (\<lambda>d. live_roll now) (\<lambda>d. live_conc now)) \<and>
    (\<forall>k. k \<notin> RKey ` set (Requirements req) \<longrightarrow> mbRoll m' k = mbRoll m k \<and> mbConc m' k = mbConc m k) \<and>
    mbLeases m' = mbLeases m \<and> mbDefs m' = mbDefs m \<and> mbStates m' = mbStates m \<and>
    mbDebt m' = mbDebt m"
  using decided_run[OF mem_reachable_safe[OF assms(1)] assms(2), of clk at, folded now_def] assms(3,4)
  by (auto simp: reserve_response0_def split: if_splits)

theorem mem_Reserve_refuses_witness:
  "mbLeases ex_refused = mbLeases ex_reserved \<and>
   limit_rel ex_reserved ex_refused ''k'' (\<lambda>d. live_roll 2) (\<lambda>d. live_conc 2)"
  using mem_Reserve_refuses[OF ex_reserved_reachable ex_decidable_b ex_refuse_ran]
  by (simp add: ex_request_def backend_now_def IsZero_def zero_time_def reserve_response0_def)

section \<open>Leases\<close>



text \<open>C6. Completing a lease the backend knows succeeds, forgets the lease, frees the lease's hold on
  every concurrency limit it had reserved and touches no other hold; on each rolling limit the
  completion names (once) a reported amount below the reserved one lowers the lease's reservation
  to it, an amount above it is added to the limit's debt when the limit's overage policy is debt,
  and no other limit changes.\<close>

theorem mem_Complete_settles:
  assumes "mem_reachable m" "mbLeases m (CLeaseID req) = Some st" "distinct (map AKey (Actuals req))"
  shows "\<exists>m'. mem_Complete m req = Some (m', complete_response0\<lparr>Ok := True\<rparr>) \<and>
    mbLeases m' = (mbLeases m)(CLeaseID req := None) \<and>
    (\<forall>k. released_limit m m' (CLeaseID req) (lsRequirements st) k) \<and>
    (\<forall>a \<in> set (Actuals req). settled_limit m m' (CLeaseID req) st a) \<and>
    (\<forall>k. k \<notin> AKey ` set (Actuals req) \<longrightarrow> mbRoll m' k = mbRoll m k \<and> debt_of m' k = debt_of m k) \<and>
    mbDefs m' = mbDefs m \<and> mbStates m' = mbStates m"
  using completed_run[of m req st] mem_reachable_safe[OF assms(1)] assms(2,3)
  by (auto simp: safe_def)

theorem mem_Complete_settles_witness:
  "\<exists>m'. mem_Complete ex_reserved (ex_complete ''a'' [(''k'', 3)]) =
       Some (m', complete_response0\<lparr>Ok := True\<rparr>) \<and> mbLeases m' ''a'' = None"
  using mem_Complete_settles[OF ex_reserved_reachable, of "ex_complete ''a'' [(''k'', 3)]"] ex_lease
  by (auto simp: ex_complete_def)

text \<open>C7. Reserving and then completing a lease gives everything back but what was used: the lease
  is forgotten, each concurrency limit is left with the holds that were live before the request
  (but none under the lease's name), and each rolling limit with the live reservations and, until
  the window ends, one of the reported amount (at most the reserved one; all of it when the
  completion does not report the limit).\<close>

theorem mem_reserve_complete_roundtrip:
  assumes "mem_reachable m" "decidable_request m req"
    and "mem_Reserve clk m req at = Some (m1, resp)" "Allowed resp"
    and "CLeaseID creq = LeaseID req" "distinct (map AKey (Actuals creq))"
  defines "now \<equiv> backend_now clk at"
  shows "\<exists>m2. mem_Complete m1 creq = Some (m2, complete_response0\<lparr>Ok := True\<rparr>) \<and>
    mbLeases m2 = mbLeases m \<and>
    (\<forall>r \<in> set (Requirements req). \<forall>l. mbRoll m (RKey r) = Some l \<longrightarrow>
       Kind (def_of m (RKey r)) = KindRolling \<longrightarrow>
       (\<exists>l2. mbRoll m2 (RKey r) = Some l2 \<and>
          rl_entries l2 = add_mset
            (LeaseID req,
             (case find (\<lambda>a. AKey a = RKey r) (Actuals creq) of
                None \<Rightarrow> Amount r | Some a \<Rightarrow> min (Amount r) (ActualAmount a)),
             roll_expiry now (def_of m (RKey r)))
            (filter_mset (\<lambda>e. now < expiry e) (rl_entries l)))) \<and>
    (\<forall>r \<in> set (Requirements req). \<forall>l. mbConc m (RKey r) = Some l \<longrightarrow>
       Kind (def_of m (RKey r)) = KindConcurrency \<longrightarrow>
       (\<exists>l2. mbConc m2 (RKey r) = Some l2 \<and>
          holds_of l2 = (holds_of l |` live_holds l now)(LeaseID req := None)))"
  using reserve_complete_run[OF mem_reachable_safe[OF assms(1)] assms(2-6)] unfolding now_def .

theorem mem_reserve_complete_roundtrip_witness:
  "\<exists>m2. mem_Complete ex_reserved (ex_complete ''a'' [(''k'', 3)]) =
      Some (m2, complete_response0\<lparr>Ok := True\<rparr>) \<and> mbLeases m2 = mbLeases ex_backend"
  using mem_reserve_complete_roundtrip[OF ex_backend_reachable ex_decidable ex_reserve_ran,
      of "ex_complete ''a'' [(''k'', 3)]"]
  by (auto simp: ex_complete_def ex_request_def reserve_response0_def)

section \<open>Pending decreases\<close>

text \<open>C8. A pending decrease to a non-zero target takes effect exactly when what is live in the limit
  fits the target.  Then the limit's definition gets the target as its capacity, its state is
  active again, and an attached registry holds that same state and is saved to its path; otherwise
  definitions, states and registry stay as they were.  Leases and debts never change.\<close>

theorem mem_TryApplyDecrease_applies_iff:
  assumes "mem_reachable m" "mbStates m k = Some s" "Status s = LimitStatusDecreasing"
    and "Kind (Definition s) = KindRolling \<or> Kind (Definition s) = KindConcurrency"
    and "PendingDecreaseTo s \<noteq> 0" "PendingDecreaseTo s < Capacity (Definition s)"
    and "mem_TryApplyDecrease clk m reg k = (m', reg', saved)"
  defines "d' \<equiv> (Definition s)\<lparr>Capacity := PendingDecreaseTo s\<rparr>"
  defines "s' \<equiv> \<lparr>Definition = d', Status = LimitStatusActive, PendingDecreaseTo = 0\<rparr>"
  shows "(if live_use m clk k (Definition s) \<le> unat (PendingDecreaseTo s)
          then mbStates m' = (mbStates m)(k \<mapsto> s') \<and> mbDefs m' = (mbDefs m)(k \<mapsto> d') \<and>
               reg' = (if mbRegistry m then registry_Put reg s' else reg) \<and>
               saved = (if mbRegistry m \<and> mbRegistryPath m \<noteq> [] then Some (mbRegistryPath m) else None)
          else mbStates m' = mbStates m \<and> mbDefs m' = mbDefs m \<and> reg' = reg \<and> saved = None) \<and>
         mbLeases m' = mbLeases m \<and> mbDebt m' = mbDebt m"
proof -
  have m: "safe m" "wf_backend m" using mem_reachable_safe[OF assms(1)] by (simp_all add: safe_def)
  have t: "same_tables m (cleanupLocked clk m k)" using cleanupLocked_props(2)[OF m(2)] .
  have "Key d' = k" using wf_keyD[OF m(2)] wf_statesD[OF m(2), of k] assms(2) by (simp add: d'_def)
  note A = apply_decrease_stores(1,2)[OF this]
  have keep: "mbLeases (updateCapacity x d') = mbLeases x" "mbDebt (updateCapacity x d') = mbDebt x" for x
    by (auto simp: updateCapacity_def split: option.splits)
  show ?thesis
    using assms(2-7) available_live_use[OF m(1) assms(2,4,6), of clk] t
    unfolding mem_TryApplyDecrease_def
    by (auto simp: Let_def A keep same_tables_def d'_def[symmetric] s'_def[symmetric]
        split: if_splits)
qed

theorem mem_TryApplyDecrease_applies_iff_witness:
  "fst (snd (mem_TryApplyDecrease 0 ex_lowered registry_New ''k'')) =
     registry_Put registry_New
       \<lparr>Definition = ex_roll\<lparr>Capacity := 5\<rparr>, Status = LimitStatusActive, PendingDecreaseTo = 0\<rparr>"
proof -
  have "mbRegistry ex_lowered" "live_use ex_lowered 0 ''k'' ex_roll = 4" by code_simp+
  then show ?thesis
    using mem_TryApplyDecrease_applies_iff[OF ex_lowered_reachable ex_lowered_state, of 0 registry_New
        "fst (mem_TryApplyDecrease 0 ex_lowered registry_New ''k'')"
        "fst (snd (mem_TryApplyDecrease 0 ex_lowered registry_New ''k''))"
        "snd (snd (mem_TryApplyDecrease 0 ex_lowered registry_New ''k''))"]
    by (simp add: ex_roll_def)
qed



text \<open>Refusals at the door: on any backend, in this order, a request without a lease id or
  without requirements is invalid, a new lease that names a limit nobody defined gets
  \<open>unknown_limit_key\<close> with the first such key, and a completion of an unknown lease succeeds;
  none of them changes the backend.\<close>

theorem mem_door_errors:
  "(LeaseID req = [] \<or> Requirements req = [] \<longrightarrow>
      mem_Reserve clk m req at = Some (m, reserve_response0\<lparr>Error := ''invalid_request''\<rparr>)) \<and>
   (LeaseID req \<noteq> [] \<and> mbLeases m (LeaseID req) = None \<and> Requirements req = known @ r # rest \<and>
    (\<forall>q \<in> set (known @ r # rest). \<not> is_decreasing m (RKey q)) \<and>
    (\<forall>q \<in> set known. mbDefs m (RKey q) \<noteq> None) \<and> mbDefs m (RKey r) = None \<longrightarrow>
      mem_Reserve clk m req at =
        Some (m, reserve_response0\<lparr>Error := ''unknown_limit_key:'' @ RKey r\<rparr>)) \<and>
   (mbLeases m (CLeaseID creq) = None \<longrightarrow>
      mem_Complete m creq = Some (m, complete_response0\<lparr>Ok := True\<rparr>))"
proof -
  have "mem_Reserve clk m req at = Some (m, reserve_response0\<lparr>Error := ''unknown_limit_key:'' @ RKey r\<rparr>)"
    if q: "LeaseID req \<noteq> []" "mbLeases m (LeaseID req) = None" "Requirements req = known @ r # rest"
      "\<forall>q \<in> set (known @ r # rest). \<not> is_decreasing m (RKey q)"
      "\<forall>q \<in> set known. mbDefs m (RKey q) \<noteq> None" "mbDefs m (RKey r) = None"
  proof -
    have "find (\<lambda>q. mbDefs m (RKey q) = None) (Requirements req) = Some r"
      unfolding q(3) using q(5,6) by (induction known) auto
    moreover have "find (\<lambda>q. is_decreasing m (RKey q)) (Requirements req) = None"
      unfolding q(3) using q(4) by (simp only: find_None_iff bex_simps) blast
    moreover have "Requirements req \<noteq> []" using q(3) by simp
    ultimately show ?thesis using q(1,2) by (simp add: mem_Reserve_def)
  qed
  moreover have "LeaseID req = [] \<or> Requirements req = [] \<Longrightarrow>
      mem_Reserve clk m req at = Some (m, reserve_response0\<lparr>Error := ''invalid_request''\<rparr>)"
    unfolding mem_Reserve_def invalidRequestError_def by (simp only: if_True)
  moreover have "mbLeases m (CLeaseID creq) = None \<Longrightarrow>
      mem_Complete m creq = Some (m, complete_response0\<lparr>Ok := True\<rparr>)"
    by (simp add: mem_Complete_def)
  ultimately show ?thesis by blast
qed

theorem mem_door_errors_witness:
  "mem_Reserve 0 ex_backend (ex_request ''a'' [(''k'', 1), (''nope'', 1)]) 1 =
     Some (ex_backend, reserve_response0\<lparr>Error := ''unknown_limit_key:nope''\<rparr>)"
proof -
  let ?r = "ex_request ''a'' [(''k'', 1), (''nope'', 1)]"
  have "is_decreasing ex_backend ''k'' = False" "is_decreasing ex_backend ''nope'' = False"
    "mbDefs ex_backend ''k'' = Some ex_roll" "mbDefs ex_backend ''nope'' = None"
    "mbLeases ex_backend ''a'' = None" by code_simp+
  moreover have "Requirements ?r = [\<lparr>RKey = ''k'', Amount = 1\<rparr>] @ \<lparr>RKey = ''nope'', Amount = 1\<rparr> # []"
    "LeaseID ?r = ''a''" by (simp_all add: ex_request_def)
  ultimately show ?thesis
    using conjunct1[OF conjunct2[OF mem_door_errors[of ?r 0 ex_backend 1 "[\<lparr>RKey = ''k'', Amount = 1\<rparr>]"
       "\<lparr>RKey = ''nope'', Amount = 1\<rparr>" "[]"]]]
    by simp
qed

section \<open>Where the checks fall short\<close>

text \<open>
  The premises of the capacity theorem are needed.  A request that names a limit twice is checked
  once per mention against the same usage, and an amount large enough makes the 64-bit sum wrap:
  both are admitted, and the limit of 10 ends with 12 in use, or with a reservation of
  \<open>2 ^ 64 - 1\<close> that leaves 3 in use.
\<close>

theorem duplicate_key_overcommits:
  "\<exists>m' resp l. mem_Reserve 0 ex_backend (ex_request ''a'' [(''k'', 6), (''k'', 6)]) 1 = Some (m', resp) \<and>
     Allowed resp \<and> mbRoll m' ''k'' = Some l \<and> rlUsed l = 12 \<and> rlCap l = 10"
proof -
  let ?r = "mem_Reserve 0 ex_backend (ex_request ''a'' [(''k'', 6), (''k'', 6)]) 1"
  have "(case ?r of None \<Rightarrow> False | Some (m', resp) \<Rightarrow> Allowed resp \<and>
     (case mbRoll m' ''k'' of None \<Rightarrow> False | Some l \<Rightarrow> rlUsed l = 12 \<and> rlCap l = 10))"
    by code_simp
  then show ?thesis by (auto split: option.splits)
qed

theorem amount_overflow_overcommits:
  "\<exists>m' resp l. mem_Reserve 0 ex_reserved (ex_request ''b'' [(''k'', 2 ^ 64 - 1)]) 2 = Some (m', resp) \<and>
     Allowed resp \<and> mbRoll m' ''k'' = Some l \<and> rlUsed l = 3"
proof -
  let ?r = "mem_Reserve 0 ex_reserved (ex_request ''b'' [(''k'', 2 ^ 64 - 1)]) 2"
  have "(case ?r of None \<Rightarrow> False | Some (m', resp) \<Rightarrow> Allowed resp \<and>
     (case mbRoll m' ''k'' of None \<Rightarrow> False | Some l \<Rightarrow> rlUsed l = 3))"
    by code_simp
  then show ?thesis by (auto split: option.splits)
qed

end
