(* ===== verification/Registry_Theorems.thy ===== *)
theory Registry_Theorems
  imports Registry Mem_Spec
begin

text \<open>
  The properties of the limit registry: the list is a function of the map alone, a save is
  atomic, a load returns what was saved, and the in-memory backend and the registry compute the
  same states, from the start of the daemon on.
\<close>

section \<open>Listing\<close>

text \<open>The list of the registry does not depend on the order in which Go iterates over the map:
  it is the states of the registry, each once, in strictly increasing order of their keys.\<close>

theorem registry_List_deterministic:
  assumes "wf_registry r" "iterates order r" "iterates order' r"
  shows "registry_List order r = registry_List order' r \<and>
    sorted_wrt (<) (map state_key (registry_List order r)) \<and> set (registry_List order r) = ran r"
  using registry_List_unique[OF assms] registry_List_props[OF assms(1,2)]
  by (simp add: strict_sorted_iff)

definition ex_state :: "string \<Rightarrow> limit_state" where
  "ex_state k =
     \<lparr>Definition = \<lparr>Key = k, Kind = KindRolling, Capacity = 10, WindowSeconds = 60,
        TimeoutSeconds = 0, Unit = [], Description = [], Overage = OverageDebt\<rparr>,
      Status = LimitStatusActive, PendingDecreaseTo = 0\<rparr>"

definition ex_registry :: registry where
  "ex_registry = registry_Put (registry_Put registry_New (ex_state ''b'')) (ex_state ''a'')"

lemma ex_registry: "wf_registry ex_registry" "dom ex_registry = {''a'', ''b''}"
    "iterates [''a'', ''b''] ex_registry" "iterates [''b'', ''a''] ex_registry"
proof -
  show "wf_registry ex_registry"
    unfolding ex_registry_def by (intro wf_registry_Put wf_registry_New)
  show d: "dom ex_registry = {''a'', ''b''}"
    by (auto simp: ex_registry_def registry_Put_def registry_New_def ex_state_def)
  show "iterates [''a'', ''b''] ex_registry" "iterates [''b'', ''a''] ex_registry"
    by (auto simp: iterates_def d)
qed

theorem registry_List_deterministic_witness:
  "registry_List [''a'', ''b''] ex_registry = registry_List [''b'', ''a''] ex_registry"
  using registry_List_deterministic[OF ex_registry(1,3,4)] by simp

section \<open>Saving\<close>



text \<open>C13. What a successful save wrote, a later load reads back: for an encoder and a decoder that
  agree on the saved list, a load of the file into any registry gives exactly the registry that
  was saved, with no error.\<close>

theorem registry_save_load:
  assumes "wf_registry r" "iterates order r"
    and "dec (enc (registry_List order r)) = Inl (registry_List order r)"
    and "registry_Save enc fs order r path d = (ds, None)"
  shows "registry_Load dec None r' path (hd ds) = (r, None)"
proof -
  have "path \<noteq> []" "hd ds path = Some (enc (registry_List order r))"
    using assms(4)
    by (auto simp: registry_Save_def Let_def fs_remove_def tmp_path_def split: if_splits)
  then show ?thesis
    using assms(3) registry_of_list_List[OF assms(1,2)] by (simp add: registry_Load_def)
qed

theorem registry_save_load_witness:
  "registry_Load (\<lambda>_. Inl (registry_List [''a'', ''b''] ex_registry)) None registry_New ''f''
     (hd (fst (registry_Save (\<lambda>_. ''[a,b]'') \<lparr>fsMkdir = None, fsOpen = None, fsWrite = None,
        fsWritten = 0, fsSync = None, fsClose = None, fsRename = None, fsRemoved = False\<rparr>
        [''a'', ''b''] ex_registry ''f'' Map.empty))) = (ex_registry, None)"
  by (rule registry_save_load[OF ex_registry(1,3), where enc = "\<lambda>_. ''[a,b]''"
        and path = "''f''" and d = Map.empty and fs = "\<lparr>fsMkdir = None, fsOpen = None, fsWrite = None,
        fsWritten = 0, fsSync = None, fsClose = None, fsRename = None, fsRemoved = False\<rparr>"])
     (simp_all add: registry_Save_def Let_def)

section \<open>The registry and the backend agree\<close>

lemma applyStates_props:
  "wf_backend m \<Longrightarrow> wf_backend (applyStates m ss) \<and>
   mbStates (applyStates m ss) = fold (\<lambda>s r. registry_Put r s) ss (mbStates m)"
proof (induction ss arbitrary: m)
  case (Cons s ss)
  have "mbStates (mem_ApplyState m s) = registry_Put (mbStates m) s"
    by (simp add: mem_ApplyState_def install_tables registry_Put_def state_key_def)
  then show ?case
    using Cons.IH[OF wf_ApplyState(1)[OF Cons.prems, of s]] by (simp add: applyStates_def)
qed (simp add: applyStates_def)

lemma ApplyDefinition_NextState:
  assumes "wf_backend m"
  shows "mbStates (mem_ApplyDefinition m d) =
    (mbStates m)(Key d \<mapsto> registry_NextState (mbStates m) d)"
  using wf_statesD[OF assms, of "Key d"]
  by (auto simp: mem_ApplyDefinition_def registry_NextState_def nextState_def install_tables state_key_def
      split: option.splits)

lemma NextState_key: "wf_registry r \<Longrightarrow> state_key (registry_NextState r d) = Key d"
  by (auto simp: registry_NextState_def nextState_def state_key_def wf_registry_def split: option.splits)

lemma wf_backend_registry:
  assumes "wf_backend m"
  shows "wf_registry (mbStates m)"
proof -
  have "Key (Definition s) = k" if "mbStates m k = Some s" for k s
    using wf_keyD[OF assms, of k] wf_statesD[OF assms, of k] that by simp
  then show ?thesis by (simp add: wf_registry_def state_key_def)
qed

text \<open>C14. The registry and the in-memory backend, which each compute the state a definition leads to,
  agree: a backend started from the registry's list has exactly the registry's states, and from
  then on every definition (the handler puts the registry's next state), applied decrease
  (which puts the backend's), reservation and completion keeps them the same.\<close>

theorem backend_registry_agree:
  fixes path :: string
  assumes "wf_registry r" "iterates order r"
  defines "m \<equiv> applyStates (mem_AttachRegistry mem_New True path) (registry_List order r)"
  shows "wf_backend m \<and> mbStates m = r \<and>
    (\<forall>m' d. wf_backend m' \<longrightarrow>
       mbStates (mem_ApplyDefinition m' d) =
         registry_Put (mbStates m') (registry_NextState (mbStates m') d)) \<and>
    (\<forall>m' m'' reg' saved clk k. wf_backend m' \<longrightarrow> mbRegistry m' \<longrightarrow>
       mem_TryApplyDecrease clk m' (mbStates m') k = (m'', reg', saved) \<longrightarrow> mbStates m'' = reg') \<and>
    (\<forall>m' m'' clk req at resp. wf_backend m' \<longrightarrow>
       mem_Reserve clk m' req at = Some (m'', resp) \<longrightarrow> mbStates m'' = mbStates m') \<and>
    (\<forall>m' m'' req resp. wf_backend m' \<longrightarrow>
       mem_Complete m' req = Some (m'', resp) \<longrightarrow> mbStates m'' = mbStates m')"
proof -
  let ?m0 = "mem_AttachRegistry mem_New True path"
  have "wf_backend ?m0" "mbStates ?m0 = Map.empty"
    using idle_new[of True path] by (simp_all add: idle_def mem_AttachRegistry_def mem_New_def)
  then have start: "wf_backend m" "mbStates m = r"
    using applyStates_props[of ?m0 "registry_List order r"] registry_of_list_List[OF assms(1,2)]
    by (simp_all add: m_def registry_of_list_def)
  have applied: "mbStates (mem_ApplyDefinition m' d) =
      registry_Put (mbStates m') (registry_NextState (mbStates m') d)" if "wf_backend m'" for m' d
    using ApplyDefinition_NextState[OF that] NextState_key[OF wf_backend_registry[OF that]]
    by (simp add: registry_Put_def state_key_def)
  have decrease: "mbStates m'' = reg'"
    if w: "wf_backend m'" "mbRegistry m'"
      "mem_TryApplyDecrease clk m' (mbStates m') k = (m'', reg', saved)" for m' m'' reg' saved clk k
  proof -
    have t: "same_tables m' (cleanupLocked clk m' k)" using cleanupLocked_props(2)[OF w(1)] .
    have key: "Key (Definition s) = k" if "mbStates m' k = Some s" for s
      using wf_backend_registry[OF w(1)] that by (simp add: wf_registry_def state_key_def)
    show ?thesis
      using w(2,3) t key
      by (auto simp: mem_TryApplyDecrease_def Let_def same_tables_def apply_decrease_stores(2)
          registry_Put_def split: option.splits if_splits)
  qed
  have reserve: "mbStates m'' = mbStates m'"
    if "wf_backend m'" "mem_Reserve clk m' req at = Some (m'', resp)" for m' m'' clk req at resp
    using reserve_tables[OF that] by simp
  have complete: "mbStates m'' = mbStates m'"
    if "wf_backend m'" "mem_Complete m' req = Some (m'', resp)" for m' m'' req resp
    using complete_tables[OF that] by simp
  show ?thesis
    by (intro conjI allI impI start; (rule applied decrease reserve complete; assumption))
qed

theorem backend_registry_agree_witness:
  "mbStates (applyStates (mem_AttachRegistry mem_New True ''f'')
     (registry_List [''b'', ''a''] ex_registry)) = ex_registry"
  using backend_registry_agree[OF ex_registry(1,4), of "''f''"] by blast

end
