(* ===== verification/Api.thy ===== *)
theory Api
  imports Registry Mem_Spec
begin

text \<open>
  The HTTP API of the daemon (internal/api): validation of definitions and requests, the
  handlers of reservations, completions, their batches and the administration of limits.  The
  backend is a record of operations (internal/backend/backend.go); a body arrives as the result
  of its JSON decoding, \<open>None\<close> when that fails, and a response is a status and the value that
  is encoded as its body.  A handler's result is \<open>None\<close> where the code panics.
\<close>

section \<open>Responses and the handler\<close>

datatype http_body =
    NoBody
  | ErrorBody string
  | LimitBody limit_state
  | LimitsBody "limit_state list"
  | AdminPutBody bool string
  | ReserveBody reserve_response
  | CompleteBody complete_response
  | BatchReserveBody batch_reserve_response
  | BatchCompleteBody batch_complete_response

type_synonym http_response = "int \<times> http_body"

definition StatusOK :: int where "StatusOK = 200"
definition StatusBadRequest :: int where "StatusBadRequest = 400"
definition StatusNotFound :: int where "StatusNotFound = 404"
definition StatusMethodNotAllowed :: int where "StatusMethodNotAllowed = 405"
definition StatusInternalServerError :: int where "StatusInternalServerError = 500"

definition writeError :: "int \<Rightarrow> string \<Rightarrow> http_response" where
  "writeError status code = (status, ErrorBody code)"

text \<open>The \<open>Backend\<close> interface; \<open>None\<close> is a panic, \<open>Inr\<close> an error.\<close>

record 'b backend_ops =
  opApply :: "'b \<Rightarrow> limit_definition \<Rightarrow> 'b \<times> go_error"
  opReserve :: "'b \<Rightarrow> reserve_request \<Rightarrow> go_time \<Rightarrow> ('b \<times> (reserve_response + string)) option"
  opComplete :: "'b \<Rightarrow> complete_request \<Rightarrow> ('b \<times> (complete_response + string)) option"

record 'b api_handler =
  ahRegistry :: "registry option"
  ahBackend :: "'b option"
  ahRegistryPath :: string

definition NewHandler :: "registry option \<Rightarrow> 'b option \<Rightarrow> string \<Rightarrow> 'b api_handler" where
  "NewHandler r b path = \<lparr>ahRegistry = r, ahBackend = b, ahRegistryPath = path\<rparr>"

section \<open>Validation\<close>

definition maxRequirementsPerReserve :: nat where "maxRequirementsPerReserve = 32"
definition maxBatchRequests :: nat where "maxBatchRequests = 256"

definition validateLimitDefinition :: "limit_definition \<Rightarrow> go_error" where
  "validateLimitDefinition def =
     (let invalid = Some ''invalid limit definition'' in
      if TrimSpace (Key def) = [] then invalid
      else if Capacity def = 0 then invalid
      else if Kind def = KindRolling \<and> (WindowSeconds def \<le> 0 \<or> TimeoutSeconds def \<noteq> 0) then invalid
      else if Kind def = KindConcurrency \<and> (TimeoutSeconds def \<le> 0 \<or> WindowSeconds def \<noteq> 0) then invalid
      else if Kind def \<noteq> KindRolling \<and> Kind def \<noteq> KindConcurrency then invalid
      else if Overage def = OverageDeny \<or> Overage def = OverageDebt then None
      else invalid)"

text \<open>The definition after JSON decoding is normalised, then validated.\<close>

definition normalizeLimitDefinition :: "limit_definition \<Rightarrow> limit_definition" where
  "normalizeLimitDefinition def =
     (let overage = TrimSpace (ToLower (Overage def)) in
      def\<lparr>Key := TrimSpace (Key def), Unit := TrimSpace (Unit def),
          Description := TrimSpace (Description def), Kind := TrimSpace (ToLower (Kind def)),
          Overage := (if overage = [] then OverageDebt else overage)\<rparr>)"

definition decodeLimitDefinition :: "limit_definition option \<Rightarrow> limit_definition option" where
  "decodeLimitDefinition body =
     (case body of
        None \<Rightarrow> None
      | Some def \<Rightarrow>
          let def' = normalizeLimitDefinition def in
          if validateLimitDefinition def' \<noteq> None then None else Some def')"

datatype validation =
    ValidationInvalid
  | ValidationDenied reserve_response
  | ValidationOK

text \<open>The loop over the requirements; the registry pointer is only followed inside it.\<close>

fun validateRequirements :: "registry option \<Rightarrow> requirement list \<Rightarrow> validation option" where
  "validateRequirements reg [] = Some ValidationOK"
| "validateRequirements reg (r # rs) =
     (if RKey r = [] \<or> Amount r = 0 then Some ValidationInvalid
      else case reg of
        None \<Rightarrow> None
      | Some states \<Rightarrow>
         (case registry_Get states (RKey r) of
            None \<Rightarrow> Some (ValidationDenied
                      (reserve_response0\<lparr>Error := ''unknown_limit_key:'' @ RKey r\<rparr>))
          | Some state \<Rightarrow>
              if Status state = LimitStatusDecreasing then
                Some (ValidationDenied
                  (reserve_response0\<lparr>RetryAfterMs := decreaseRetryMs,
                                    Error := ''limit_decreasing:'' @ RKey r\<rparr>))
              else validateRequirements reg rs))"

definition validateReserve :: "registry option \<Rightarrow> reserve_request \<Rightarrow> validation option" where
  "validateReserve reg req =
     (if LeaseID req = [] then Some ValidationInvalid
      else if Requirements req = [] \<or> length (Requirements req) > maxRequirementsPerReserve
      then Some ValidationInvalid
      else validateRequirements reg (Requirements req))"

section \<open>Reservations and completions\<close>

definition handleReserve ::
    "'b backend_ops \<Rightarrow> go_time \<Rightarrow> 'b api_handler \<Rightarrow> string \<Rightarrow> reserve_request option \<Rightarrow>
     ('b api_handler \<times> http_response) option" where
  "handleReserve ops now h method body =
     (if method \<noteq> ''POST'' then Some (h, StatusMethodNotAllowed, NoBody)
      else case ahBackend h of
        None \<Rightarrow> Some (h, writeError StatusInternalServerError ''backend_error'')
      | Some b \<Rightarrow>
         (case body of
            None \<Rightarrow> Some (h, writeError StatusBadRequest ''invalid_request'')
          | Some req \<Rightarrow>
             (case validateReserve (ahRegistry h) req of
                None \<Rightarrow> None
              | Some ValidationInvalid \<Rightarrow> Some (h, writeError StatusBadRequest ''invalid_request'')
              | Some (ValidationDenied resp) \<Rightarrow> Some (h, StatusOK, ReserveBody resp)
              | Some ValidationOK \<Rightarrow>
                 (case opReserve ops b req now of
                    None \<Rightarrow> None
                  | Some (b', Inl res) \<Rightarrow> Some (h\<lparr>ahBackend := Some b'\<rparr>, StatusOK, ReserveBody res)
                  | Some (b', Inr _) \<Rightarrow>
                      Some (h\<lparr>ahBackend := Some b'\<rparr>, StatusOK,
                            ReserveBody (reserve_response0\<lparr>Error := ''backend_error''\<rparr>))))))"

text \<open>One item of a batch; the loop over them is \<open>run_items\<close>.\<close>

definition reserveItem ::
    "'b backend_ops \<Rightarrow> registry option \<Rightarrow> go_time \<Rightarrow> 'b \<Rightarrow> reserve_request \<Rightarrow>
     ('b \<times> batch_reserve_result) option" where
  "reserveItem ops reg now b item =
     (case validateReserve reg item of
        None \<Rightarrow> None
      | Some ValidationInvalid \<Rightarrow>
          Some (b, to_batch_reserve (reserve_response0\<lparr>Error := invalidRequestError\<rparr>))
      | Some (ValidationDenied resp) \<Rightarrow> Some (b, to_batch_reserve resp)
      | Some ValidationOK \<Rightarrow>
         (case opReserve ops b item now of
            None \<Rightarrow> None
          | Some (b', Inl res) \<Rightarrow> Some (b', to_batch_reserve res)
          | Some (b', Inr _) \<Rightarrow>
              Some (b', to_batch_reserve (reserve_response0\<lparr>Error := ''backend_error''\<rparr>))))"

definition handleBatchReserve ::
    "'b backend_ops \<Rightarrow> go_time \<Rightarrow> 'b api_handler \<Rightarrow> string \<Rightarrow> batch_reserve_request option \<Rightarrow>
     ('b api_handler \<times> http_response) option" where
  "handleBatchReserve ops now h method body =
     (if method \<noteq> ''POST'' then Some (h, StatusMethodNotAllowed, NoBody)
      else case ahBackend h of
        None \<Rightarrow> Some (h, writeError StatusInternalServerError ''backend_error'')
      | Some b \<Rightarrow>
         (case body of
            None \<Rightarrow> Some (h, writeError StatusBadRequest ''invalid_request'')
          | Some reqs \<Rightarrow>
              if reqs = [] \<or> length reqs > maxBatchRequests
              then Some (h, writeError StatusBadRequest ''invalid_request'')
              else do {
                (b', results) \<leftarrow> run_items (reserveItem ops (ahRegistry h) now) b reqs;
                Some (h\<lparr>ahBackend := Some b'\<rparr>, StatusOK, BatchReserveBody results)
              }))"

definition handleComplete ::
    "'b backend_ops \<Rightarrow> 'b api_handler \<Rightarrow> string \<Rightarrow> complete_request option \<Rightarrow>
     ('b api_handler \<times> http_response) option" where
  "handleComplete ops h method body =
     (if method \<noteq> ''POST'' then Some (h, StatusMethodNotAllowed, NoBody)
      else case ahBackend h of
        None \<Rightarrow> Some (h, writeError StatusInternalServerError ''backend_error'')
      | Some b \<Rightarrow>
         (case body of
            None \<Rightarrow> Some (h, writeError StatusBadRequest ''invalid_request'')
          | Some req \<Rightarrow>
              if CLeaseID req = [] then Some (h, writeError StatusBadRequest ''invalid_request'')
              else (case opComplete ops b req of
                      None \<Rightarrow> None
                    | Some (b', Inl res) \<Rightarrow> Some (h\<lparr>ahBackend := Some b'\<rparr>, StatusOK, CompleteBody res)
                    | Some (b', Inr _) \<Rightarrow>
                        Some (h\<lparr>ahBackend := Some b'\<rparr>, StatusOK,
                              CompleteBody (complete_response0\<lparr>CError := ''backend_error''\<rparr>)))))"

definition completeItem ::
    "'b backend_ops \<Rightarrow> 'b \<Rightarrow> complete_request \<Rightarrow> ('b \<times> batch_complete_result) option" where
  "completeItem ops b item =
     (if CLeaseID item = [] then
        Some (b, to_batch_complete (complete_response0\<lparr>CError := invalidRequestError\<rparr>))
      else (case opComplete ops b item of
              None \<Rightarrow> None
            | Some (b', Inl res) \<Rightarrow> Some (b', to_batch_complete res)
            | Some (b', Inr _) \<Rightarrow>
                Some (b', to_batch_complete (complete_response0\<lparr>CError := ''backend_error''\<rparr>))))"

definition handleBatchComplete ::
    "'b backend_ops \<Rightarrow> 'b api_handler \<Rightarrow> string \<Rightarrow> batch_complete_request option \<Rightarrow>
     ('b api_handler \<times> http_response) option" where
  "handleBatchComplete ops h method body =
     (if method \<noteq> ''POST'' then Some (h, StatusMethodNotAllowed, NoBody)
      else case ahBackend h of
        None \<Rightarrow> Some (h, writeError StatusInternalServerError ''backend_error'')
      | Some b \<Rightarrow>
         (case body of
            None \<Rightarrow> Some (h, writeError StatusBadRequest ''invalid_request'')
          | Some reqs \<Rightarrow>
              if reqs = [] \<or> length reqs > maxBatchRequests
              then Some (h, writeError StatusBadRequest ''invalid_request'')
              else do {
                (b', results) \<leftarrow> run_items (completeItem ops) b reqs;
                Some (h\<lparr>ahBackend := Some b'\<rparr>, StatusOK, BatchCompleteBody results)
              }))"

section \<open>Administration\<close>

text \<open>
  A put reads the registry's next state, applies the definition to the backend and then puts
  the state and saves the registry.  Registry and backend have a lock each and none spans the
  three steps, so they are definitions of their own.  The file system's part is \<open>saved\<close>, the
  error of \<open>registry_Save\<close>.
\<close>

definition put_apply ::
    "'b backend_ops \<Rightarrow> 'b api_handler \<Rightarrow> limit_definition \<Rightarrow> 'b api_handler \<times> go_error" where
  "put_apply ops h def =
     (case ahBackend h of
        None \<Rightarrow> (h, None)
      | Some b \<Rightarrow> let (b', err) = opApply ops b def in (h\<lparr>ahBackend := Some b'\<rparr>, err))"

definition put_commit ::
    "(registry \<Rightarrow> string \<Rightarrow> go_error) \<Rightarrow> 'b api_handler \<Rightarrow> limit_state \<Rightarrow>
     'b api_handler \<times> http_response" where
  "put_commit saved h state =
     (let h' = h\<lparr>ahRegistry := map_option (\<lambda>r. registry_Put r state) (ahRegistry h)\<rparr> in
      if ahRegistryPath h \<noteq> [] \<and> saved (the (ahRegistry h')) (ahRegistryPath h) \<noteq> None
      then (h', writeError StatusInternalServerError ''backend_error'')
      else (h', StatusOK, AdminPutBody True (Status state)))"

definition handleAdminPutLimit ::
    "'b backend_ops \<Rightarrow> (registry \<Rightarrow> string \<Rightarrow> go_error) \<Rightarrow> 'b api_handler \<Rightarrow> registry \<Rightarrow>
     limit_definition option \<Rightarrow> 'b api_handler \<times> http_response" where
  "handleAdminPutLimit ops saved h r body =
     (case decodeLimitDefinition body of
        None \<Rightarrow> (h, writeError StatusBadRequest ''invalid_request'')
      | Some def \<Rightarrow>
          let state = registry_NextState r def in
          case put_apply ops h def of
            (h1, Some _) \<Rightarrow> (h1, writeError StatusInternalServerError ''backend_error'')
          | (h1, None) \<Rightarrow> put_commit saved h1 state)"

definition handleAdminLimits ::
    "'b backend_ops \<Rightarrow> (registry \<Rightarrow> string \<Rightarrow> go_error) \<Rightarrow> limit_key list \<Rightarrow> 'b api_handler \<Rightarrow>
     string \<Rightarrow> limit_definition option \<Rightarrow> 'b api_handler \<times> http_response" where
  "handleAdminLimits ops saved order h method body =
     (case ahRegistry h of
        None \<Rightarrow> (h, writeError StatusInternalServerError ''backend_error'')
      | Some r \<Rightarrow>
          if method = ''PUT'' then handleAdminPutLimit ops saved h r body
          else if method = ''GET'' then (h, StatusOK, LimitsBody (registry_List order r))
          else (h, StatusMethodNotAllowed, NoBody))"

definition handleAdminLimitByKey ::
    "'b api_handler \<Rightarrow> string \<Rightarrow> string \<Rightarrow> http_response" where
  "handleAdminLimitByKey h method path =
     (case ahRegistry h of
        None \<Rightarrow> writeError StatusInternalServerError ''backend_error''
      | Some r \<Rightarrow>
          if method \<noteq> ''GET'' then (StatusMethodNotAllowed, NoBody)
          else
            let key = TrimSpace (TrimPrefix path ''/v1/admin/limits/'') in
            if key = [] then writeError StatusNotFound ''not_found''
            else case registry_Get r key of
              None \<Rightarrow> writeError StatusNotFound ''not_found''
            | Some state \<Rightarrow> (StatusOK, LimitBody state))"

end
