(* ===== verification/Api_Contract.thy ===== *)
theory Api_Contract
  imports Api
begin

text \<open>
  The contract of the \<open>Backend\<close> interface (the locale \<open>limit_backend\<close>) and the handlers over any
  backend that keeps it: they answer every call, and keep the registry in step with the backend.
\<close>

section \<open>The contract of a backend\<close>

text \<open>
  A backend has an invariant and a view of its limit states.  Its operations answer, perhaps with
  an error, keep the invariant, and change the view as the registry changes: a definition leads to
  the registry's next state, or to none when it fails, reservations and completions leave it alone.
\<close>

locale limit_backend =
  fixes ops :: "'b backend_ops"
    and ok :: "'b \<Rightarrow> bool"
    and view :: "'b \<Rightarrow> registry"
  assumes apply_law: "ok b \<Longrightarrow> \<exists>b' err. opApply ops b d = (b', err) \<and> ok b' \<and>
      view b' = (if err = None then registry_Put (view b) (registry_NextState (view b) d) else view b)"
    and reserve_law: "ok b \<Longrightarrow>
      \<exists>b' res. opReserve ops b req now = Some (b', res) \<and> ok b' \<and> view b' = view b"
    and complete_law: "ok b \<Longrightarrow>
      \<exists>b' res. opComplete ops b creq = Some (b', res) \<and> ok b' \<and> view b' = view b"

definition synced :: "('b \<Rightarrow> bool) \<Rightarrow> ('b \<Rightarrow> registry) \<Rightarrow> 'b api_handler \<Rightarrow> bool" where
  "synced ok view h \<longleftrightarrow>
     (\<exists>b. ahBackend h = Some b \<and> ok b \<and> ahRegistry h = Some (view b))"

lemma validateRequirements_total: "validateRequirements (Some r) rs \<noteq> None"
  by (induction rs) (auto split: option.splits)

lemma validateReserve_total: "\<exists>v. validateReserve (Some r) req = Some v"
  using validateRequirements_total[of r] by (auto simp: validateReserve_def)

section \<open>Handlers over a backend that keeps the contract\<close>

text \<open>The requests the handler serves; the route selects the handler.\<close>

datatype api_call =
    AdminLimits string "limit_definition option" "limit_key list" go_error
  | AdminLimitByKey string string
  | Reserve string "reserve_request option" go_time
  | BatchReserve string "batch_reserve_request option" go_time
  | Complete string "complete_request option"
  | BatchComplete string "batch_complete_request option"

fun api_serve :: "'b backend_ops \<Rightarrow> 'b api_handler \<Rightarrow> api_call \<Rightarrow> ('b api_handler \<times> http_response) option" where
  "api_serve ops h (AdminLimits method body order saved) =
     Some (handleAdminLimits ops (\<lambda>_ _. saved) order h method body)"
| "api_serve ops h (AdminLimitByKey method path) = Some (h, handleAdminLimitByKey h method path)"
| "api_serve ops h (Reserve method body now) = handleReserve ops now h method body"
| "api_serve ops h (BatchReserve method body now) = handleBatchReserve ops now h method body"
| "api_serve ops h (Complete method body) = handleComplete ops h method body"
| "api_serve ops h (BatchComplete method body) = handleBatchComplete ops h method body"

context limit_backend
begin

lemma handleReserve_synced:
  assumes "synced ok view h"
  shows "\<exists>h' resp. handleReserve ops now h method body = Some (h', resp) \<and> synced ok view h'"
proof -
  obtain b where b: "ahBackend h = Some b" "ok b" "ahRegistry h = Some (view b)"
    using assms by (auto simp: synced_def)
  show ?thesis
  proof (cases body)
    case (Some req)
    obtain v where v: "validateReserve (Some (view b)) req = Some v" using validateReserve_total by blast
    obtain b' res where "opReserve ops b req now = Some (b', res)" "ok b'" "view b' = view b"
      using reserve_law[OF b(2)] by blast
    with b v Some assms show ?thesis by (cases v; cases res) (auto simp: handleReserve_def synced_def)
  qed (use b assms in \<open>simp add: handleReserve_def\<close>)
qed

lemma reserveItem_keeps:
  assumes "ok b \<and> view b = r"
  shows "\<exists>b' res. reserveItem ops (Some r) now b x = Some (b', res) \<and> ok b' \<and> view b' = r"
proof -
  obtain v where v: "validateReserve (Some r) x = Some v" using validateReserve_total by blast
  obtain b' res where "opReserve ops b x now = Some (b', res)" "ok b'" "view b' = view b"
    using reserve_law assms by blast
  with v assms show ?thesis by (cases v; cases res) (auto simp: reserveItem_def)
qed

lemma handleBatchReserve_synced:
  assumes "synced ok view h"
  shows "\<exists>h' resp. handleBatchReserve ops now h method body = Some (h', resp) \<and> synced ok view h'"
proof -
  obtain b where b: "ahBackend h = Some b" "ok b" "ahRegistry h = Some (view b)"
    using assms by (auto simp: synced_def)
  have "\<exists>b' rs. run_items (reserveItem ops (Some (view b)) now) b reqs = Some (b', rs) \<and>
      (ok b' \<and> view b' = view b) \<and> length rs = length reqs" for reqs
    by (rule run_items_total[of "\<lambda>b'. ok b' \<and> view b' = view b"])
      (use reserveItem_keeps[of _ "view b"] b(2) in blast)+
  note R = this
  show ?thesis
  proof (cases body)
    case (Some reqs)
    obtain b' rs where "run_items (reserveItem ops (Some (view b)) now) b reqs = Some (b', rs)"
      "ok b'" "view b' = view b" using R[of reqs] by blast
    with b Some assms show ?thesis by (auto simp: handleBatchReserve_def synced_def)
  qed (use b assms in \<open>simp add: handleBatchReserve_def\<close>)
qed

lemma handleComplete_synced:
  assumes "synced ok view h"
  shows "\<exists>h' resp. handleComplete ops h method body = Some (h', resp) \<and> synced ok view h'"
proof -
  obtain b where b: "ahBackend h = Some b" "ok b" "ahRegistry h = Some (view b)"
    using assms by (auto simp: synced_def)
  show ?thesis
  proof (cases body)
    case (Some req)
    obtain b' res where "opComplete ops b req = Some (b', res)" "ok b'" "view b' = view b"
      using complete_law[OF b(2)] by blast
    with b Some assms show ?thesis by (cases res) (auto simp: handleComplete_def synced_def)
  qed (use b assms in \<open>simp add: handleComplete_def\<close>)
qed

lemma completeItem_keeps:
  assumes "ok b \<and> view b = r"
  shows "\<exists>b' res. completeItem ops b x = Some (b', res) \<and> ok b' \<and> view b' = r"
proof -
  obtain b' res where "opComplete ops b x = Some (b', res)" "ok b'" "view b' = view b"
    using complete_law assms by blast
  with assms show ?thesis by (cases res) (auto simp: completeItem_def)
qed

lemma handleBatchComplete_synced:
  assumes "synced ok view h"
  shows "\<exists>h' resp. handleBatchComplete ops h method body = Some (h', resp) \<and> synced ok view h'"
proof -
  obtain b where b: "ahBackend h = Some b" "ok b" "ahRegistry h = Some (view b)"
    using assms by (auto simp: synced_def)
  have "\<exists>b' rs. run_items (completeItem ops) b reqs = Some (b', rs) \<and>
      (ok b' \<and> view b' = view b) \<and> length rs = length reqs" for reqs
    by (rule run_items_total[of "\<lambda>b'. ok b' \<and> view b' = view b"])
      (use completeItem_keeps[of _ "view b"] b(2) in blast)+
  note R = this
  show ?thesis
  proof (cases body)
    case (Some reqs)
    obtain b' rs where "run_items (completeItem ops) b reqs = Some (b', rs)"
      "ok b'" "view b' = view b" using R[of reqs] by blast
    with b Some assms show ?thesis by (auto simp: handleBatchComplete_def synced_def)
  qed (use b assms in \<open>simp add: handleBatchComplete_def\<close>)
qed

lemma handleAdminLimits_synced:
  assumes "synced ok view h"
  shows "synced ok view (fst (handleAdminLimits ops saved order h method body))"
proof -
  obtain b where b: "ahBackend h = Some b" "ok b" "ahRegistry h = Some (view b)"
    using assms by (auto simp: synced_def)
  have "synced ok view (fst (handleAdminPutLimit ops saved h (view b) body))"
  proof (cases "decodeLimitDefinition body")
    case None
    with assms show ?thesis by (simp add: handleAdminPutLimit_def)
  next
    case (Some d)
    obtain b' err where "opApply ops b d = (b', err)" "ok b'"
      "view b' = (if err = None then registry_Put (view b) (registry_NextState (view b) d) else view b)"
      using apply_law[OF b(2)] by blast
    with Some b show ?thesis
      by (cases err) (auto simp: handleAdminPutLimit_def put_apply_def put_commit_def Let_def synced_def)
  qed
  with assms b show ?thesis by (simp add: handleAdminLimits_def)
qed

lemma api_serve_synced:
  "synced ok view h \<Longrightarrow> \<exists>h' resp. api_serve ops h call = Some (h', resp) \<and> synced ok view h'"
  using handleAdminLimits_synced[of h] handleReserve_synced[of h] handleBatchReserve_synced[of h]
    handleComplete_synced[of h] handleBatchComplete_synced[of h]
  by (cases call) (auto simp: prod_eq_iff)

lemma api_run_synced:
  "synced ok view h \<Longrightarrow>
   \<exists>h' resps. run_items (api_serve ops) h calls = Some (h', resps) \<and> synced ok view h' \<and>
     length resps = length calls"
  by (rule run_items_total[of "synced ok view"]) (use api_serve_synced in auto)

end

end
