(* ===== verification/Api_Theorems.thy ===== *)
theory Api_Theorems
  imports Api_Contract Registry_Theorems Mem_Examples
begin

text \<open>
  The in-memory backend keeps the contract of the \<open>Backend\<close> interface; the properties of the API
  over it.
\<close>

section \<open>The in-memory backend keeps the contract\<close>

definition memory_ops :: "go_time \<Rightarrow> memory_backend backend_ops" where
  "memory_ops clk =
     \<lparr>opApply = \<lambda>m d. (mem_ApplyDefinition m d, None),
      opReserve = \<lambda>m req at. map_option (\<lambda>(m', resp). (m', Inl resp)) (mem_Reserve clk m req at),
      opComplete = \<lambda>m req. map_option (\<lambda>(m', resp). (m', Inl resp)) (mem_Complete m req)\<rparr>"

interpretation memory: limit_backend "memory_ops clk" wf_backend mbStates
  for clk
proof (unfold_locales, goal_cases)
  case (1 b d)
  then show ?case
    using wf_ApplyDefinition[OF 1, of d] ApplyDefinition_NextState[OF 1, of d]
      NextState_key[OF wf_backend_registry[OF 1], of d]
    by (simp add: memory_ops_def registry_Put_def state_key_def)
next
  case (2 b req now)
  obtain m' resp where "mem_Reserve clk b req now = Some (m', resp)"
    using mem_Reserve_total[OF 2] by blast
  then show ?case using reserve_tables[OF 2] by (simp add: memory_ops_def)
next
  case (3 b creq)
  obtain m' resp where "mem_Complete b creq = Some (m', resp)"
    using mem_Complete_total[OF 3] by blast
  then show ?case using complete_tables[OF 3] by (simp add: memory_ops_def)
qed

section \<open>The daemon\<close>

definition daemon_start :: "registry \<Rightarrow> limit_key list \<Rightarrow> string \<Rightarrow> memory_backend api_handler" where
  "daemon_start r order path =
     NewHandler (Some r)
       (Some (applyStates (mem_AttachRegistry mem_New True path) (registry_List order r))) path"

text \<open>C15. Started on any registry, the daemon answers every sequence of API calls, well-formed or
  not, without a panic, whether or not the registry can be saved; and after all of them the
  registry it serves is exactly the states its backend enforces.\<close>

theorem daemon_always_answers:
  assumes "wf_registry r" "iterates order r"
  shows "\<exists>h resps m.
    run_items (api_serve (memory_ops clk)) (daemon_start r order path) calls = Some (h, resps) \<and>
    length resps = length calls \<and>
    ahBackend h = Some m \<and> wf_backend m \<and> ahRegistry h = Some (mbStates m)"
proof -
  let ?m0 = "mem_AttachRegistry mem_New True path"
  have "wf_backend ?m0" "mbStates ?m0 = Map.empty"
    using idle_new[of True path] by (simp_all add: idle_def mem_AttachRegistry_def mem_New_def)
  then have "synced wf_backend mbStates (daemon_start r order path)"
    using applyStates_props[of ?m0 "registry_List order r"] registry_of_list_List[OF assms]
    by (simp add: synced_def daemon_start_def NewHandler_def registry_of_list_def)
  from memory.api_run_synced[OF this, of clk calls] show ?thesis
    by (auto simp: synced_def)
qed

theorem daemon_always_answers_witness:
  "\<exists>h resps m. run_items (api_serve (memory_ops 0)) (daemon_start ex_registry [''a'', ''b''] ''f'')
      [AdminLimits ''DELETE'' None [] None, Complete ''POST'' None] = Some (h, resps) \<and>
    ahBackend h = Some m \<and> ahRegistry h = Some (mbStates m)"
  using daemon_always_answers[OF ex_registry(1,3), of 0 "''f''"
      "[AdminLimits ''DELETE'' None [] None, Complete ''POST'' None]"] by blast

section \<open>Batches\<close>

text \<open>What a batch reports for the response a single request would have had.\<close>

fun reserve_result_of :: "http_response \<Rightarrow> batch_reserve_result" where
  "reserve_result_of (_, ReserveBody resp) = to_batch_reserve resp"
| "reserve_result_of (_, ErrorBody e) = to_batch_reserve (reserve_response0\<lparr>Error := e\<rparr>)"
| "reserve_result_of _ = to_batch_reserve reserve_response0"

fun complete_result_of :: "http_response \<Rightarrow> batch_complete_result" where
  "complete_result_of (_, CompleteBody resp) = to_batch_complete resp"
| "complete_result_of (_, ErrorBody e) = to_batch_complete (complete_response0\<lparr>CError := e\<rparr>)"
| "complete_result_of _ = to_batch_complete complete_response0"

text \<open>The handlers change nothing of the handler but the backend.\<close>

definition same_handler :: "'b api_handler \<Rightarrow> 'b api_handler \<Rightarrow> bool" where
  "same_handler h0 h \<longleftrightarrow> ahBackend h \<noteq> None \<and> h = h0\<lparr>ahBackend := ahBackend h\<rparr>"

lemma handleReserve_item:
  assumes "same_handler h0 h"
  shows "reserveItem ops (ahRegistry h0) now (the (ahBackend h)) req =
      map_option (\<lambda>(h', resp). (the (ahBackend h'), reserve_result_of resp))
        (handleReserve ops now h ''POST'' (Some req))"
    and "handleReserve ops now h ''POST'' (Some req) = Some (h', resp) \<Longrightarrow> same_handler h0 h'"
proof -
  obtain b where b: "ahBackend h = Some b" "h = h0\<lparr>ahBackend := Some b\<rparr>"
    using assms unfolding same_handler_def by (metis option.exhaust)
  have "ahRegistry h = ahRegistry h0" by (subst b(2)) simp
  then show "reserveItem ops (ahRegistry h0) now (the (ahBackend h)) req =
      map_option (\<lambda>(h', resp). (the (ahBackend h'), reserve_result_of resp))
        (handleReserve ops now h ''POST'' (Some req))"
    using b(1) by (auto simp: reserveItem_def handleReserve_def writeError_def invalidRequestError_def
        split: option.splits validation.splits sum.splits)
  show "same_handler h0 h'" if "handleReserve ops now h ''POST'' (Some req) = Some (h', resp)"
    using that assms b
    by (auto simp: handleReserve_def same_handler_def split: option.splits validation.splits sum.splits)
qed

lemma handleComplete_item:
  assumes "same_handler h0 h"
  shows "completeItem ops (the (ahBackend h)) req =
      map_option (\<lambda>(h', resp). (the (ahBackend h'), complete_result_of resp))
        (handleComplete ops h ''POST'' (Some req))"
    and "handleComplete ops h ''POST'' (Some req) = Some (h', resp) \<Longrightarrow> same_handler h0 h'"
proof -
  obtain b where b: "ahBackend h = Some b" "h = h0\<lparr>ahBackend := Some b\<rparr>"
    using assms unfolding same_handler_def by (metis option.exhaust)
  show "completeItem ops (the (ahBackend h)) req =
      map_option (\<lambda>(h', resp). (the (ahBackend h'), complete_result_of resp))
        (handleComplete ops h ''POST'' (Some req))"
    using b(1) by (auto simp: completeItem_def handleComplete_def writeError_def invalidRequestError_def
        split: option.splits sum.splits)
  show "same_handler h0 h'" if "handleComplete ops h ''POST'' (Some req) = Some (h', resp)"
    using that assms b
    by (auto simp: handleComplete_def same_handler_def split: option.splits sum.splits if_splits)
qed

text \<open>C16. A batch is the sequence of its items: over any backend, a batch of 1 to 256 reservations
  (or completions) leads to the state that sending them one by one at the same time would lead
  to, and reports, in order, what each would have been answered (a refusal with a status of 400
  as its error).\<close>

theorem batch_is_sequence:
  assumes "ahBackend h = Some b"
    and "reqs \<noteq> []" "length reqs \<le> 256" "creqs \<noteq> []" "length creqs \<le> 256"
  shows "handleBatchReserve ops now h ''POST'' (Some reqs) =
        map_option (\<lambda>(h', resps). (h', StatusOK, BatchReserveBody (map reserve_result_of resps)))
          (run_items (\<lambda>h req. handleReserve ops now h ''POST'' (Some req)) h reqs) \<and>
      handleBatchComplete ops h ''POST'' (Some creqs) =
        map_option (\<lambda>(h', resps). (h', StatusOK, BatchCompleteBody (map complete_result_of resps)))
          (run_items (\<lambda>h req. handleComplete ops h ''POST'' (Some req)) h creqs)"
proof -
  have h: "same_handler h h" using assms(1) by (simp add: same_handler_def)
  have upd: "h\<lparr>ahBackend := Some (the (ahBackend h'))\<rparr> = h'" if "same_handler h h'" for h'
    using that by (auto simp: same_handler_def)
  let ?F = "\<lambda>h req. handleReserve ops now h ''POST'' (Some req)"
  let ?G = "\<lambda>h req. handleComplete ops h ''POST'' (Some req)"
  have R: "run_items (reserveItem ops (ahRegistry h) now) b reqs =
      map_option (\<lambda>(h', ys). (the (ahBackend h'), map reserve_result_of ys)) (run_items ?F h reqs)"
    using run_items_sim[where P = "same_handler h" and f = "reserveItem ops (ahRegistry h) now"
        and g = "\<lambda>h. the (ahBackend h)" and F = ?F and res = reserve_result_of,
        OF handleReserve_item h] assms(1) by simp
  have C: "run_items (completeItem ops) b creqs =
      map_option (\<lambda>(h', ys). (the (ahBackend h'), map complete_result_of ys)) (run_items ?G h creqs)"
    using run_items_sim[where P = "same_handler h" and f = "completeItem ops"
        and g = "\<lambda>h. the (ahBackend h)" and F = ?G and res = complete_result_of,
        OF handleComplete_item h] assms(1) by simp
  have "same_handler h h'" if "run_items ?F h reqs = Some (h', ys)" for h' ys
    by (rule run_items_keep[where P = "same_handler h" and F = ?F, OF _ h that])
       (rule handleReserve_item(2))
  moreover have "same_handler h h'" if "run_items ?G h creqs = Some (h', ys)" for h' ys
    by (rule run_items_keep[where P = "same_handler h" and F = ?G, OF _ h that])
       (rule handleComplete_item(2))
  ultimately show ?thesis
    using assms upd R C
    by (cases "run_items ?F h reqs"; cases "run_items ?G h creqs")
       (auto simp: handleBatchReserve_def handleBatchComplete_def maxBatchRequests_def)
qed

definition ex_handler :: "memory_backend api_handler" where
  "ex_handler = NewHandler (Some (mbStates ex_backend)) (Some ex_backend) ''limits.json''"

lemma ex_handler_sel [simp]:
  "ahBackend ex_handler = Some ex_backend" "ahRegistry ex_handler = Some (mbStates ex_backend)"
  by (simp_all add: ex_handler_def NewHandler_def)

theorem batch_is_sequence_witness:
  "handleBatchReserve (memory_ops 0) 1 ex_handler ''POST''
      (Some [ex_request ''a'' [(''k'', 4), (''c'', 1)], ex_request [] []]) =
    map_option (\<lambda>(h', resps). (h', StatusOK, BatchReserveBody (map reserve_result_of resps)))
      (run_items (\<lambda>h req. handleReserve (memory_ops 0) 1 h ''POST'' (Some req)) ex_handler
         [ex_request ''a'' [(''k'', 4), (''c'', 1)], ex_request [] []])"
  using batch_is_sequence[OF ex_handler_sel(1), of "[ex_request ''a'' [(''k'', 4), (''c'', 1)], ex_request [] []]"
      "[ex_complete ''a'' []]" "memory_ops 0" 1] by simp

section \<open>Decisions of the API\<close>

text \<open>The validation of well-formed requirements against a registry.\<close>

lemma validateRequirements_ok:
  assumes "\<forall>r \<in> set rs. RKey r \<noteq> [] \<and> Amount r \<noteq> 0"
  shows "(if \<forall>r \<in> set rs. \<exists>s. reg (RKey r) = Some s \<and> Status s \<noteq> LimitStatusDecreasing
          then validateRequirements (Some reg) rs = Some ValidationOK
          else \<exists>resp. validateRequirements (Some reg) rs = Some (ValidationDenied resp) \<and> \<not> Allowed resp)"
  using assms
  by (induction rs) (auto simp: registry_Get_def reserve_response0_def split: option.splits if_splits)

text \<open>C17. A well-formed reservation of a new lease (1 to 32 requirements with a key and an amount,
  a key once and without overflow) posted to the daemon over a reachable in-memory backend is
  answered with status 200, and allowed exactly when every key it names is the key of a limit
  that is known, not decreasing, and has room for the amount at that time.\<close>

theorem api_reserve_decision:
  assumes "mem_reachable m" "ahBackend h = Some m" "ahRegistry h = Some (mbStates m)"
    and "LeaseID req \<noteq> []" "mbLeases m (LeaseID req) = None"
    and "Requirements req \<noteq> []" "length (Requirements req) \<le> 32"
    and "\<forall>r \<in> set (Requirements req). RKey r \<noteq> [] \<and> Amount r \<noteq> 0" "proper_request m req"
  shows "\<exists>h' resp. handleReserve (memory_ops clk) now h ''POST'' (Some req) =
      Some (h', StatusOK, ReserveBody resp) \<and>
    (Allowed resp \<longleftrightarrow>
       (\<forall>r \<in> set (Requirements req).
          (\<exists>s. mbStates m (RKey r) = Some s \<and> Status s \<noteq> LimitStatusDecreasing) \<and>
          has_room m (backend_now clk now) r))"
proof -
  have safe: "safe m" "wf_backend m" using mem_reachable_safe[OF assms(1)] by (simp_all add: safe_def)
  have v: "validateReserve (Some (mbStates m)) req = validateRequirements (Some (mbStates m)) (Requirements req)"
    using assms(4,6,7) by (simp add: validateReserve_def maxRequirementsPerReserve_def)
  let ?known = "\<forall>r \<in> set (Requirements req). \<exists>s. mbStates m (RKey r) = Some s \<and> Status s \<noteq> LimitStatusDecreasing"
  note V = validateRequirements_ok[OF assms(8), of "mbStates m"]
  show ?thesis
  proof (cases ?known)
    case True
    have dec: "\<not> is_decreasing m (RKey r) \<and> mbDefs m (RKey r) \<noteq> None" if "r \<in> set (Requirements req)" for r
      using True that wf_statesD[OF safe(2), of "RKey r"] by (auto simp: is_decreasing_def)
    then have "decidable_request m req"
      using assms(4-6,9) by (simp add: decidable_request_def)
    from decided_run[OF safe(1) this, of clk now] obtain m' resp where
      "mem_Reserve clk m req now = Some (m', resp)"
      "Allowed resp \<longleftrightarrow> (\<forall>r \<in> set (Requirements req). has_room m (backend_now clk now) r)"
      by (auto simp: reserve_response0_def)
    moreover have "validateReserve (Some (mbStates m)) req = Some ValidationOK" using V True v by simp
    ultimately show ?thesis
      using True assms(2,3) by (auto simp: handleReserve_def memory_ops_def)
  next
    case False
    then obtain resp where "validateReserve (Some (mbStates m)) req = Some (ValidationDenied resp)" "\<not> Allowed resp"
      using V v unfolding if_not_P[OF False] by auto
    with False show ?thesis using assms(2,3) by (auto simp: handleReserve_def)
  qed
qed

theorem api_reserve_decision_witness:
  "\<exists>h' resp. handleReserve (memory_ops 0) 1 ex_handler ''POST'' (Some (ex_request ''a'' [(''k'', 4), (''c'', 1)])) =
     Some (h', StatusOK, ReserveBody resp)"
  using api_reserve_decision[OF ex_backend_reachable ex_handler_sel, of "ex_request ''a'' [(''k'', 4), (''c'', 1)]"
      0 1] ex_decidable
  by (auto simp: decidable_request_def ex_request_def)

section \<open>Definitions\<close>

text \<open>A definition the API accepts is in normal form: its key is trimmed and not empty, its
  capacity positive, its kind and overage policy one of the known ones, a rolling limit has a
  window and no timeout and a concurrency limit a timeout and no window; and accepting it again
  changes nothing.\<close>

theorem accepted_definition_normal:
  assumes "decodeLimitDefinition (Some d) = Some d'"
  shows "Key d' \<noteq> [] \<and> TrimSpace (Key d') = Key d' \<and> Capacity d' > 0 \<and>
    (Kind d' = KindRolling \<and> WindowSeconds d' > 0 \<and> TimeoutSeconds d' = 0 \<or>
     Kind d' = KindConcurrency \<and> TimeoutSeconds d' > 0 \<and> WindowSeconds d' = 0) \<and>
    Overage d' \<in> {OverageDeny, OverageDebt} \<and>
    decodeLimitDefinition (Some d') = Some d'"
proof -
  have d': "d' = normalizeLimitDefinition d" "validateLimitDefinition d' = None"
    using assms by (auto simp: decodeLimitDefinition_def Let_def split: if_splits)
  have words: "TrimSpace (ToLower w) = w" if "w \<in> {KindRolling, KindConcurrency, OverageDeny, OverageDebt}" for w
  proof -
    have "TrimSpace (ToLower KindRolling) = KindRolling" "TrimSpace (ToLower KindConcurrency) = KindConcurrency"
      "TrimSpace (ToLower OverageDeny) = OverageDeny" "TrimSpace (ToLower OverageDebt) = OverageDebt"
      by code_simp+
    with that show ?thesis by auto
  qed
  have V: "TrimSpace (Key d') \<noteq> []" "Capacity d' \<noteq> 0" "Overage d' \<in> {OverageDeny, OverageDebt}"
    "Kind d' = KindRolling \<and> WindowSeconds d' > 0 \<and> TimeoutSeconds d' = 0 \<or>
     Kind d' = KindConcurrency \<and> TimeoutSeconds d' > 0 \<and> WindowSeconds d' = 0"
    using d'(2) by (auto simp: validateLimitDefinition_def Let_def KindRolling_def KindConcurrency_def
        split: if_splits)
  have ne: "Overage d' \<noteq> []" using V(3) by (auto simp: OverageDeny_def OverageDebt_def)
  have T: "TrimSpace (Key d') = Key d'" "TrimSpace (Unit d') = Unit d'" "TrimSpace (Description d') = Description d'"
    unfolding d'(1) by (simp_all add: normalizeLimitDefinition_def Let_def)
  have "normalizeLimitDefinition d' = d'"
    using T V(3,4) ne words[of "Kind d'"] words[of "Overage d'"]
    by (cases d') (auto simp: normalizeLimitDefinition_def Let_def)
  then have "decodeLimitDefinition (Some d') = Some d'"
    using d'(2) by (simp add: decodeLimitDefinition_def Let_def)
  with V T show ?thesis by (auto simp: word_neq_0_conv)
qed

theorem accepted_definition_normal_witness:
  "decodeLimitDefinition (Some (ex_roll\<lparr>Key := '' k '', Kind := ''Rolling '', Overage := []\<rparr>)) = Some ex_roll \<and>
   decodeLimitDefinition (Some ex_roll) = Some ex_roll"
proof -
  have "decodeLimitDefinition (Some (ex_roll\<lparr>Key := '' k '', Kind := ''Rolling '', Overage := []\<rparr>)) = Some ex_roll"
    by code_simp
  with accepted_definition_normal[OF this] show ?thesis by blast
qed

section \<open>Where the handlers fall short\<close>

text \<open>
  Two puts of one limit whose steps interleave: the backend gets 20 and then 30, the registry 30
  and then 20, and both answers say the limit is active.  From then on the registry lists a
  capacity of 20 while 30 is enforced.
\<close>

definition raced_put :: "memory_backend api_handler" where
  "raced_put =
     (let d20 = ex_roll\<lparr>Capacity := 20\<rparr>; d30 = ex_roll\<lparr>Capacity := 30\<rparr>;
          s20 = registry_NextState (the (ahRegistry ex_handler)) d20;
          h1 = fst (put_apply (memory_ops 0) ex_handler d20);
          s30 = registry_NextState (the (ahRegistry h1)) d30;
          h2 = fst (put_apply (memory_ops 0) h1 d30);
          h3 = fst (put_commit (\<lambda>_ _. None) h2 s30)
      in fst (put_commit (\<lambda>_ _. None) h3 s20))"

theorem concurrent_puts_diverge:
  "map_option (\<lambda>s. Capacity (Definition s)) (the (ahRegistry raced_put) ''k'') = Some 20 \<and>
   map_option Capacity (mbDefs (the (ahBackend raced_put)) ''k'') = Some 30"
  by code_simp

text \<open>
  A timeout whose milliseconds do not fit 64 bits passes the validation and makes the retry hint
  negative, so that the limit never refuses anything: three leases hold a limit of one.
\<close>

definition huge_timeout :: limit_definition where
  "huge_timeout = ex_conc\<lparr>TimeoutSeconds := 9223372036854776\<rparr>"

definition huge_backend :: memory_backend where
  "huge_backend = mem_ApplyDefinition mem_New huge_timeout"

theorem huge_timeout_never_refuses:
  "decodeLimitDefinition (Some huge_timeout) = Some huge_timeout \<and> retryAfter huge_timeout < 0 \<and>
   map_option (map BAllowed \<circ> snd)
     (run_items (reserveItem (memory_ops 0) (Some (mbStates huge_backend)) 1) huge_backend
       [ex_request ''a'' [(''c'', 1)], ex_request ''b'' [(''c'', 1)], ex_request ''d'' [(''c'', 1)]]) =
     Some [True, True, True]"
  by code_simp

end
