(* ===== verification/Scheduler.thy ===== *)
theory Scheduler
  imports RL_Types
begin

text \<open>
  The client-side scheduler of LLM calls (pkg/ratelimiter: scheduler_state.go,
  scheduler_worker.go, scheduler_config.go, scheduler_run.go): ready and blocked queues per
  provider and model, served round robin, and one attempt at a job (reserve, execute, complete,
  or requeue).  A job's \<open>Execute\<close> function is represented by whether it is there; its result, the
  fresh lease id, the jitter and the clock are arguments of an attempt.
\<close>

section \<open>Data\<close>

record job =
  JJobID :: string
  JLeaseID :: string
  JTenantID :: string
  JProvider :: string
  JModel :: string
  JPrompt :: string
  JMaxOutputTokens :: uint64
  JWantDailyBudget :: bool
  JExecute :: bool

record blocked_item =
  biJob :: job
  biNotBefore :: go_time

record work_queue =
  wqKey :: string
  wqReady :: "job list"
  wqBlocked :: "blocked_item list"

record scheduler_state =
  ssQueues :: "string \<rightharpoonup> work_queue"
  ssOrder :: "string list"
  ssRrIndex :: nat

definition newSchedulerState :: scheduler_state where
  "newSchedulerState = \<lparr>ssQueues = Map.empty, ssOrder = [], ssRrIndex = 0\<rparr>"

definition queueKey :: "job \<Rightarrow> string" where
  "queueKey j = JProvider j @ '':'' @ JModel j"

section \<open>Queues\<close>

text \<open>\<open>s.queue(key)\<close>: the state after the queue is there, and the queue.\<close>

definition sched_queue :: "scheduler_state \<Rightarrow> string \<Rightarrow> scheduler_state \<times> work_queue" where
  "sched_queue s key =
     (case ssQueues s key of
        Some q \<Rightarrow> (s, q)
      | None \<Rightarrow>
          let q = \<lparr>wqKey = key, wqReady = [], wqBlocked = []\<rparr>
          in (s\<lparr>ssQueues := (ssQueues s)(key \<mapsto> q), ssOrder := ssOrder s @ [key]\<rparr>, q))"

definition enqueueReady :: "scheduler_state \<Rightarrow> job \<Rightarrow> scheduler_state" where
  "enqueueReady s j =
     (let (s1, q) = sched_queue s (queueKey j)
      in s1\<lparr>ssQueues := (ssQueues s1)(queueKey j \<mapsto> q\<lparr>wqReady := wqReady q @ [j]\<rparr>)\<rparr>)"

text \<open>The loop over the items returns the first index whose time is not before the target.\<close>

fun searchIndex :: "blocked_item list \<Rightarrow> go_time \<Rightarrow> nat" where
  "searchIndex [] target = 0"
| "searchIndex (b # bs) target =
     (if \<not> Before (biNotBefore b) target then 0 else Suc (searchIndex bs target))"

definition blocked_push :: "blocked_item list \<Rightarrow> blocked_item \<Rightarrow> blocked_item list" where
  "blocked_push bs item =
     (let idx = searchIndex bs (biNotBefore item) in take idx bs @ item # drop idx bs)"

definition blocked_popReady ::
    "blocked_item list \<Rightarrow> go_time \<Rightarrow> (blocked_item list \<times> blocked_item) option" where
  "blocked_popReady bs now =
     (case bs of [] \<Rightarrow> None
      | b # bs' \<Rightarrow> if After (biNotBefore b) now then None else Some (bs', b))"

definition enqueueBlocked :: "scheduler_state \<Rightarrow> job \<Rightarrow> go_time \<Rightarrow> scheduler_state" where
  "enqueueBlocked s j notBefore =
     (let (s1, q) = sched_queue s (queueKey j);
          q' = q\<lparr>wqBlocked := blocked_push (wqBlocked q) \<lparr>biJob = j, biNotBefore = notBefore\<rparr>\<rparr>
      in s1\<lparr>ssQueues := (ssQueues s1)(queueKey j \<mapsto> q')\<rparr>)"

function queue_promoteReady :: "work_queue \<Rightarrow> go_time \<Rightarrow> work_queue" where
  "queue_promoteReady q now =
     (case blocked_popReady (wqBlocked q) now of
        None \<Rightarrow> q
      | Some (bs, item) \<Rightarrow>
          queue_promoteReady (q\<lparr>wqBlocked := bs, wqReady := wqReady q @ [biJob item]\<rparr>) now)"
  by pat_completeness auto
termination
  by (relation "measure (\<lambda>(q, now). length (wqBlocked q))")
     (auto simp: blocked_popReady_def split: list.splits if_splits)

declare queue_promoteReady.simps [simp del]

text \<open>The loop over the map promotes every queue, each on its own.\<close>

definition sched_promoteReady :: "scheduler_state \<Rightarrow> go_time \<Rightarrow> scheduler_state" where
  "sched_promoteReady s now =
     s\<lparr>ssQueues := (\<lambda>k. map_option (\<lambda>q. queue_promoteReady q now) (ssQueues s k))\<rparr>"

text \<open>The round-robin scan from \<open>rrIndex\<close>, at the offsets \<open>i\<close> of the list.\<close>

fun scan_ready :: "scheduler_state \<Rightarrow> nat list \<Rightarrow> (scheduler_state \<times> job) option" where
  "scan_ready s [] = None"
| "scan_ready s (i # is) =
     (let idx = (ssRrIndex s + i) mod length (ssOrder s); key = ssOrder s ! idx in
      case ssQueues s key of
        None \<Rightarrow> scan_ready s is
      | Some q \<Rightarrow>
         (case wqReady q of
            [] \<Rightarrow> scan_ready s is
          | j # rest \<Rightarrow>
              Some (s\<lparr>ssQueues := (ssQueues s)(key \<mapsto> q\<lparr>wqReady := rest\<rparr>),
                      ssRrIndex := (idx + 1) mod length (ssOrder s)\<rparr>, j)))"

definition nextReady :: "scheduler_state \<Rightarrow> (scheduler_state \<times> job) option" where
  "nextReady s =
     (if ssOrder s = [] then None else scan_ready s [0..<length (ssOrder s)])"

definition blocked_peekTime :: "blocked_item list \<Rightarrow> go_time option" where
  "blocked_peekTime bs = (case bs of [] \<Rightarrow> None | b # _ \<Rightarrow> Some (biNotBefore b))"

text \<open>The iteration order of the map is the argument \<open>keys\<close>.\<close>

fun nextBlockedTime_loop ::
    "scheduler_state \<Rightarrow> string list \<Rightarrow> go_time option \<Rightarrow> go_time option" where
  "nextBlockedTime_loop s [] earliest = earliest"
| "nextBlockedTime_loop s (k # ks) earliest =
     (case Option.bind (ssQueues s k) (\<lambda>q. blocked_peekTime (wqBlocked q)) of
        None \<Rightarrow> nextBlockedTime_loop s ks earliest
      | Some next \<Rightarrow>
          nextBlockedTime_loop s ks
            (case earliest of
               None \<Rightarrow> Some next
             | Some e \<Rightarrow> if Before next e then Some next else Some e))"

definition nextBlockedTime :: "string list \<Rightarrow> scheduler_state \<Rightarrow> go_time option" where
  "nextBlockedTime keys s = nextBlockedTime_loop s keys None"

text \<open>\<open>clock\<close> is the wall clock that \<open>time.Until\<close> reads.\<close>

definition nextWakeDelay :: "duration \<Rightarrow> go_time \<Rightarrow> string list \<Rightarrow> scheduler_state \<Rightarrow> duration" where
  "nextWakeDelay idleInterval clock keys s =
     (case nextBlockedTime keys s of
        None \<Rightarrow> idleInterval
      | Some next \<Rightarrow>
          let delay = Sub next clock in
          if delay < 0 then 0 else if delay < idleInterval then delay else delay)"

section \<open>One attempt at a job\<close>

definition defaultErrorRetryDelay :: duration where "defaultErrorRetryDelay = 100 * Millisecond"
definition defaultIdleInterval :: duration where "defaultIdleInterval = 5 * Millisecond"
definition defaultJitterMax :: duration where "defaultJitterMax = 25 * Millisecond"

text \<open>\<open>Jitter\<close>: \<open>int63n n\<close> is the random number drawn below \<open>n\<close>.\<close>

definition Jitter :: "(int \<Rightarrow> int) \<Rightarrow> duration \<Rightarrow> duration" where
  "Jitter int63n base =
     (let m = (if base > 0 \<and> base < defaultJitterMax then base else defaultJitterMax)
      in int63n (m + 1))"

definition ensureLeaseID :: "string \<Rightarrow> job \<Rightarrow> job" where
  "ensureLeaseID fresh j = (if JLeaseID j = [] then j\<lparr>JLeaseID := fresh\<rparr> else j)"

definition retryDelay :: "(duration \<Rightarrow> duration) \<Rightarrow> reserve_response \<Rightarrow> duration" where
  "retryDelay jitter res =
     (let delay = dur (RetryAfterMs res) Millisecond;
          delay = (if delay < 0 then 0 else delay);
          j = jitter delay;
          j = (if j < 0 then 0 else j)
      in wrap64 (delay + j))"

definition buildReserveRequest :: "job \<Rightarrow> reserve_request" where
  "buildReserveRequest j =
     \<lparr>LeaseID = JLeaseID j, JobID = JJobID j,
      Requirements = BuildLLMRequirements
        \<lparr>ILeaseID = JLeaseID j, IJobID = JJobID j, ITenantID = JTenantID j,
         IProvider = JProvider j, IModel = JModel j, IPrompt = JPrompt j,
         IMaxOutputTokens = JMaxOutputTokens j, IWantDailyBudget = JWantDailyBudget j\<rparr>\<rparr>"

definition buildLLMActuals :: "job \<Rightarrow> uint64 \<Rightarrow> actual list" where
  "buildLLMActuals j actualTokens =
     (let actuals = [\<lparr>AKey = buildTPMKey (JProvider j) (JModel j), ActualAmount = actualTokens\<rparr>]
      in if JWantDailyBudget j
         then actuals @ [\<lparr>AKey = buildDailyKey (JTenantID j), ActualAmount = actualTokens\<rparr>]
         else actuals)"

text \<open>The calls to the observer, the requeue and the completion of one attempt.\<close>

datatype sched_event =
    OnReserveStart job
  | OnReserveDenied job reserve_response
  | OnReserveError job string

datatype attempt =
    Requeued job go_time
  | Completed complete_request

text \<open>
  The limiter is a state \<open>'l\<close> with a reserve operation.  \<open>fresh1\<close> and \<open>fresh2\<close> are the ids the
  two possible calls of \<open>newLeaseID\<close> return, \<open>now\<close> the clock and \<open>tokens\<close> what \<open>Execute\<close> returns
  (its error is ignored).
\<close>

record attempt_env =
  aeFresh1 :: string
  aeFresh2 :: string
  aeNow :: go_time
  aeTokens :: uint64
  aeJitter :: "duration \<Rightarrow> duration"
  aeErrorRetryDelay :: duration

definition handleJob ::
    "('l \<Rightarrow> reserve_request \<Rightarrow> 'l \<times> (reserve_response + string)) \<Rightarrow> attempt_env \<Rightarrow> 'l \<Rightarrow> job \<Rightarrow>
     'l \<times> sched_event list \<times> attempt" where
  "handleJob reserve env l job0 =
     (let j = ensureLeaseID (aeFresh1 env) job0; (l', r) = reserve l (buildReserveRequest j) in
      case r of
        Inr err \<Rightarrow>
          (l', [OnReserveStart j, OnReserveError j err],
           Requeued j (Add (aeNow env) (aeErrorRetryDelay env)))
      | Inl res \<Rightarrow>
          if \<not> Allowed res then
            (l', [OnReserveStart j, OnReserveDenied j res],
             Requeued (j\<lparr>JLeaseID := aeFresh2 env\<rparr>) (Add (aeNow env) (retryDelay (aeJitter env) res)))
          else
            (l', [OnReserveStart j],
             Completed \<lparr>CLeaseID = JLeaseID j, CJobID = JJobID j,
               Actuals = (if JExecute j then buildLLMActuals j (aeTokens env) else [])\<rparr>))"

end
