(* ===== verification/Scheduler_Invariant.thy ===== *)
theory Scheduler_Invariant
  imports Scheduler
begin

text \<open>
  The invariant of the scheduler's queues (a queue per key, blocked items in time order, the
  round-robin index in range) and the multiset of the jobs they hold, which every operation
  changes exactly by the jobs that enter or leave.
\<close>

section \<open>The queues' invariant and their jobs\<close>

definition queue_ok :: "string \<Rightarrow> work_queue \<Rightarrow> bool" where
  "queue_ok k q \<longleftrightarrow>
     wqKey q = k \<and> sorted (map biNotBefore (wqBlocked q)) \<and>
     (\<forall>j \<in> set (wqReady q) \<union> biJob ` set (wqBlocked q). queueKey j = k)"

definition wf_sched :: "scheduler_state \<Rightarrow> bool" where
  "wf_sched s \<longleftrightarrow>
     distinct (ssOrder s) \<and> set (ssOrder s) = dom (ssQueues s) \<and>
     (ssRrIndex s < length (ssOrder s) \<or> ssRrIndex s = 0) \<and>
     (\<forall>k q. ssQueues s k = Some q \<longrightarrow> queue_ok k q)"

definition queue_jobs :: "work_queue option \<Rightarrow> job multiset" where
  "queue_jobs x = (case x of None \<Rightarrow> {#} | Some q \<Rightarrow> mset (wqReady q) + mset (map biJob (wqBlocked q)))"

definition sched_jobs :: "scheduler_state \<Rightarrow> job multiset" where
  "sched_jobs s = (\<Sum>k \<in> set (ssOrder s). queue_jobs (ssQueues s k))"

lemma wf_newSchedulerState [inv_intros]: "wf_sched newSchedulerState" "sched_jobs newSchedulerState = {#}"
  by (simp_all add: wf_sched_def newSchedulerState_def sched_jobs_def)

lemma sched_jobs_update:
  assumes "wf_sched s" "ssQueues s k = Some q"
  shows "sched_jobs s = queue_jobs (Some q) + (\<Sum>x \<in> set (ssOrder s) - {k}. queue_jobs (ssQueues s x))"
    "sched_jobs (s\<lparr>ssQueues := (ssQueues s)(k \<mapsto> q'), ssRrIndex := r\<rparr>) =
       queue_jobs (Some q') + (\<Sum>x \<in> set (ssOrder s) - {k}. queue_jobs (ssQueues s x))"
    "sched_jobs (s\<lparr>ssQueues := (ssQueues s)(k \<mapsto> q')\<rparr>) =
       queue_jobs (Some q') + (\<Sum>x \<in> set (ssOrder s) - {k}. queue_jobs (ssQueues s x))"
proof -
  have k: "k \<in> set (ssOrder s)" using assms by (auto simp: wf_sched_def)
  show "sched_jobs s = queue_jobs (Some q) + (\<Sum>x \<in> set (ssOrder s) - {k}. queue_jobs (ssQueues s x))"
    using k assms(2) by (simp add: sched_jobs_def sum.remove)
  have "(\<Sum>x \<in> set (ssOrder s) - {k}. queue_jobs (((ssQueues s)(k \<mapsto> q')) x)) =
      (\<Sum>x \<in> set (ssOrder s) - {k}. queue_jobs (ssQueues s x))"
    by (rule sum.cong) auto
  then show "sched_jobs (s\<lparr>ssQueues := (ssQueues s)(k \<mapsto> q'), ssRrIndex := r\<rparr>) =
       queue_jobs (Some q') + (\<Sum>x \<in> set (ssOrder s) - {k}. queue_jobs (ssQueues s x))"
    "sched_jobs (s\<lparr>ssQueues := (ssQueues s)(k \<mapsto> q')\<rparr>) =
       queue_jobs (Some q') + (\<Sum>x \<in> set (ssOrder s) - {k}. queue_jobs (ssQueues s x))"
    using k by (simp_all add: sched_jobs_def sum.remove del: fun_upd_apply) (simp_all add: add.commute)
qed

lemma sched_queue_props:
  assumes "wf_sched s" "sched_queue s k = (s1, q)"
  shows "wf_sched s1" "ssQueues s1 k = Some q" "sched_jobs s1 = sched_jobs s"
    "ssQueues s k = Some q \<or> (ssQueues s k = None \<and> q = \<lparr>wqKey = k, wqReady = [], wqBlocked = []\<rparr>)"
    "x \<noteq> k \<Longrightarrow> ssQueues s1 x = ssQueues s x"
proof -
  have "wf_sched s1 \<and> ssQueues s1 k = Some q \<and> sched_jobs s1 = sched_jobs s \<and>
    (ssQueues s k = Some q \<or> (ssQueues s k = None \<and> q = \<lparr>wqKey = k, wqReady = [], wqBlocked = []\<rparr>)) \<and>
    (\<forall>x. x \<noteq> k \<longrightarrow> ssQueues s1 x = ssQueues s x)"
  proof (cases "ssQueues s k")
    case None
    let ?q = "\<lparr>wqKey = k, wqReady = [], wqBlocked = []\<rparr>"
    have s1: "s1 = s\<lparr>ssQueues := (ssQueues s)(k \<mapsto> ?q), ssOrder := ssOrder s @ [k]\<rparr>" "q = ?q"
      using None assms(2) by (auto simp: sched_queue_def Let_def)
    have k: "k \<notin> set (ssOrder s)" using assms(1) None by (auto simp: wf_sched_def)
    have "queue_ok k ?q" by (simp add: queue_ok_def)
    then have "wf_sched s1"
      using assms(1) k by (auto simp: wf_sched_def s1 split: if_splits)
    moreover have "(\<Sum>x \<in> set (ssOrder s). queue_jobs (ssQueues s1 x)) = sched_jobs s"
      unfolding sched_jobs_def by (rule sum.cong) (use k s1 in auto)
    moreover have "ssOrder s1 = ssOrder s @ [k]" "queue_jobs (ssQueues s1 k) = {#}"
      by (simp_all add: s1 queue_jobs_def)
    ultimately have "wf_sched s1" "sched_jobs s1 = sched_jobs s"
      using k by (simp_all add: sched_jobs_def[of s1])
    then show ?thesis using None by (simp add: s1)
  next
    case (Some q')
    then show ?thesis using assms by (simp add: sched_queue_def)
  qed
  then show "wf_sched s1" "ssQueues s1 k = Some q" "sched_jobs s1 = sched_jobs s"
    "ssQueues s k = Some q \<or> (ssQueues s k = None \<and> q = \<lparr>wqKey = k, wqReady = [], wqBlocked = []\<rparr>)"
    "x \<noteq> k \<Longrightarrow> ssQueues s1 x = ssQueues s x" by simp_all
qed

lemma wf_sched_update:
  assumes "wf_sched s" "ssQueues s k = Some q" "queue_ok k q'"
  shows "wf_sched (s\<lparr>ssQueues := (ssQueues s)(k \<mapsto> q')\<rparr>)"
    "r < length (ssOrder s) \<Longrightarrow> wf_sched (s\<lparr>ssQueues := (ssQueues s)(k \<mapsto> q'), ssRrIndex := r\<rparr>)"
  using assms by (auto simp: wf_sched_def)

section \<open>The operations keep the invariant and the jobs\<close>

lemma enqueueReady_props:
  assumes "wf_sched s"
  shows "wf_sched (enqueueReady s j)" "sched_jobs (enqueueReady s j) = add_mset j (sched_jobs s)"
proof -
  obtain s1 q where q: "sched_queue s (queueKey j) = (s1, q)" by (cases "sched_queue s (queueKey j)")
  note Q = sched_queue_props(1-3)[OF assms q]
  have "queue_ok (queueKey j) q" using Q(1,2) by (simp add: wf_sched_def)
  then have ok: "queue_ok (queueKey j) (q\<lparr>wqReady := wqReady q @ [j]\<rparr>)" by (auto simp: queue_ok_def)
  show "wf_sched (enqueueReady s j)"
    using wf_sched_update(1)[OF Q(1,2) ok] by (simp add: enqueueReady_def q)
  show "sched_jobs (enqueueReady s j) = add_mset j (sched_jobs s)"
    using sched_jobs_update(1,3)[OF Q(1,2)] Q(3) by (simp add: enqueueReady_def q queue_jobs_def)
qed

lemma searchIndex_split:
  assumes "sorted (map biNotBefore bs)"
  shows "searchIndex bs t = length (takeWhile (\<lambda>b. biNotBefore b < t) bs)"
  by (induction bs t rule: searchIndex.induct) auto

lemma blocked_push_props:
  "sorted (map biNotBefore bs) \<Longrightarrow> sorted (map biNotBefore (blocked_push bs b))"
  "mset (blocked_push bs b) = add_mset b (mset bs)"
proof -
  show "mset (blocked_push bs b) = add_mset b (mset bs)"
    unfolding blocked_push_def Let_def
    by (simp, metis append_take_drop_id mset_append)
  assume s: "sorted (map biNotBefore bs)"
  let ?t = "biNotBefore b" and ?P = "\<lambda>x. biNotBefore x < biNotBefore b"
  have push: "blocked_push bs b = takeWhile ?P bs @ b # dropWhile ?P bs"
    using searchIndex_split[OF s, of ?t]
    by (simp add: blocked_push_def Let_def takeWhile_eq_take[symmetric] dropWhile_eq_drop[symmetric])
  have "\<forall>x \<in> set (dropWhile ?P bs). ?t \<le> biNotBefore x"
    using s
  proof (induction bs)
    case (Cons x xs)
    then show ?case by (cases "?P x") (auto simp: not_less)
  qed simp
  moreover have "sorted (map biNotBefore (takeWhile ?P bs @ dropWhile ?P bs))" using s by simp
  then have "sorted (map biNotBefore (takeWhile ?P bs))" "sorted (map biNotBefore (dropWhile ?P bs))"
    by (simp_all only: map_append sorted_append)
  ultimately show "sorted (map biNotBefore (blocked_push bs b))"
    unfolding push by (auto simp: sorted_append dest!: set_takeWhileD intro: less_imp_le)
qed

lemma enqueueBlocked_props:
  assumes "wf_sched s"
  shows "wf_sched (enqueueBlocked s j t)" "sched_jobs (enqueueBlocked s j t) = add_mset j (sched_jobs s)"
proof -
  obtain s1 q where q: "sched_queue s (queueKey j) = (s1, q)" by (cases "sched_queue s (queueKey j)")
  note Q = sched_queue_props(1-3)[OF assms q]
  let ?b = "\<lparr>biJob = j, biNotBefore = t\<rparr>"
  have m: "mset (blocked_push (wqBlocked q) ?b) = add_mset ?b (mset (wqBlocked q))"
    by (rule blocked_push_props(2))
  have "queue_ok (queueKey j) q" using Q(1,2) by (simp add: wf_sched_def)
  moreover have "set (blocked_push (wqBlocked q) ?b) = insert ?b (set (wqBlocked q))"
    using m by (metis set_mset_add_mset_insert set_mset_mset)
  ultimately have ok: "queue_ok (queueKey j) (q\<lparr>wqBlocked := blocked_push (wqBlocked q) ?b\<rparr>)"
    using blocked_push_props(1) by (auto simp: queue_ok_def)
  show "wf_sched (enqueueBlocked s j t)"
    using wf_sched_update(1)[OF Q(1,2) ok] by (simp add: enqueueBlocked_def q Let_def)
  show "sched_jobs (enqueueBlocked s j t) = add_mset j (sched_jobs s)"
    using sched_jobs_update(1,3)[OF Q(1,2)] Q(3) m
    by (simp add: enqueueBlocked_def q queue_jobs_def Let_def)
qed

text \<open>Promotion moves exactly the items whose time has come, in time order, behind the ready jobs.\<close>

lemma queue_promoteReady_eq:
  assumes "sorted (map biNotBefore (wqBlocked q))"
  shows "queue_promoteReady q now =
    q\<lparr>wqReady := wqReady q @ map biJob (filter (\<lambda>b. biNotBefore b \<le> now) (wqBlocked q)),
      wqBlocked := filter (\<lambda>b. now < biNotBefore b) (wqBlocked q)\<rparr>"
  using assms
proof (induction "wqBlocked q" arbitrary: q)
  case Nil
  then show ?case
    by (cases q) (simp add: queue_promoteReady.simps[of q] blocked_popReady_def
        queue_promoteReady.simps)
next
  case (Cons b bs)
  show ?case
  proof (cases "now < biNotBefore b")
    case True
    then have "filter (\<lambda>b. biNotBefore b \<le> now) (wqBlocked q) = []"
      "filter (\<lambda>b. now < biNotBefore b) (wqBlocked q) = wqBlocked q"
      using Cons.prems Cons.hyps(2)[symmetric] by (auto simp: filter_empty_conv filter_id_conv)
    then show ?thesis
      using True Cons.hyps(2)[symmetric]
      by (subst queue_promoteReady.simps) (cases q, auto simp: blocked_popReady_def)
  next
    case False
    let ?q = "q\<lparr>wqBlocked := bs, wqReady := wqReady q @ [biJob b]\<rparr>"
    have "queue_promoteReady q now = queue_promoteReady ?q now"
      using False Cons.hyps(2)[symmetric]
      by (subst queue_promoteReady.simps) (simp add: blocked_popReady_def)
    then show ?thesis
      using Cons.hyps(1)[of ?q] Cons.prems Cons.hyps(2)[symmetric] False by simp
  qed
qed

lemma filter_le_gr_mset:
  fixes t :: go_time
  shows "mset (filter (\<lambda>b. f b \<le> t) xs) + mset (filter (\<lambda>b. t < f b) xs) = mset xs"
  by (induction xs) auto

lemma sched_promoteReady_props:
  assumes "wf_sched s"
  shows "wf_sched (sched_promoteReady s now)" "sched_jobs (sched_promoteReady s now) = sched_jobs s"
proof -
  have eq: "queue_promoteReady q now =
    q\<lparr>wqReady := wqReady q @ map biJob (filter (\<lambda>b. biNotBefore b \<le> now) (wqBlocked q)),
      wqBlocked := filter (\<lambda>b. now < biNotBefore b) (wqBlocked q)\<rparr>" if "ssQueues s k = Some q" for k q
    using assms that by (intro queue_promoteReady_eq) (auto simp: wf_sched_def queue_ok_def)
  have ok: "queue_ok k (queue_promoteReady q now)" if "ssQueues s k = Some q" for k q
    using assms that unfolding eq[OF that]
    by (auto simp: wf_sched_def queue_ok_def intro: sorted_filter)
  show "wf_sched (sched_promoteReady s now)"
    using assms ok by (auto simp: wf_sched_def sched_promoteReady_def dom_def)
  have "queue_jobs (map_option (\<lambda>q. queue_promoteReady q now) (ssQueues s k)) = queue_jobs (ssQueues s k)" for k
  proof (cases "ssQueues s k")
    case (Some q)
    have "mset (filter (\<lambda>b. biNotBefore b \<le> now) (wqBlocked q)) +
        mset (filter (\<lambda>b. now < biNotBefore b) (wqBlocked q)) = mset (wqBlocked q)"
      by (rule filter_le_gr_mset)
    then have "image_mset biJob (mset (filter (\<lambda>b. biNotBefore b \<le> now) (wqBlocked q))) +
        image_mset biJob (mset (filter (\<lambda>b. now < biNotBefore b) (wqBlocked q))) =
        image_mset biJob (mset (wqBlocked q))"
      by (metis image_mset_union)
    then show ?thesis using Some eq[OF Some] by (simp add: queue_jobs_def)
  qed simp
  then show "sched_jobs (sched_promoteReady s now) = sched_jobs s"
    by (simp add: sched_jobs_def sched_promoteReady_def)
qed

end
