(* ===== verification/Scheduler_System.thy ===== *)
theory Scheduler_System
  imports Scheduler_Invariant
begin

text \<open>
  The round robin over the queues, and the scheduler as a system: the run loop, the workers and
  the callers of \<open>Submit\<close> as steps on the queues and the channels between them, in any
  interleaving.
\<close>

section \<open>Round robin\<close>

definition ready_at :: "scheduler_state \<Rightarrow> string \<Rightarrow> bool" where
  "ready_at s k \<longleftrightarrow> (\<exists>q. ssQueues s k = Some q \<and> wqReady q \<noteq> [])"

definition slot :: "scheduler_state \<Rightarrow> nat \<Rightarrow> string" where
  "slot s i = ssOrder s ! ((ssRrIndex s + i) mod length (ssOrder s))"

lemma scan_ready_None: "scan_ready s xs = None \<longleftrightarrow> (\<forall>i \<in> set xs. \<not> ready_at s (slot s i))"
  by (induction xs) (auto simp: Let_def ready_at_def slot_def split: option.splits list.splits)

lemma scan_ready_Some:
  "scan_ready s xs = Some (s', j) \<Longrightarrow>
   \<exists>pre i post q rest. xs = pre @ i # post \<and> (\<forall>x \<in> set pre. \<not> ready_at s (slot s x)) \<and>
     ssQueues s (slot s i) = Some q \<and> wqReady q = j # rest \<and>
     s' = s\<lparr>ssQueues := (ssQueues s)(slot s i \<mapsto> q\<lparr>wqReady := rest\<rparr>),
           ssRrIndex := ((ssRrIndex s + i) mod length (ssOrder s) + 1) mod length (ssOrder s)\<rparr>"
proof (induction xs)
  case (Cons i xs)
  show ?case
  proof (cases "ready_at s (slot s i)")
    case True
    then obtain q j' rest where q: "ssQueues s (slot s i) = Some q" "wqReady q = j' # rest"
      unfolding ready_at_def by (metis list.exhaust)
    let ?s = "s\<lparr>ssQueues := (ssQueues s)(slot s i \<mapsto> q\<lparr>wqReady := rest\<rparr>),
           ssRrIndex := ((ssRrIndex s + i) mod length (ssOrder s) + 1) mod length (ssOrder s)\<rparr>"
    have "scan_ready s (i # xs) = Some (?s, j')" using q by (simp add: Let_def slot_def)
    then have "s' = ?s" "j' = j" using Cons.prems by auto
    moreover have "i # xs = [] @ i # xs" "\<forall>x \<in> set []. \<not> ready_at s (slot s x)" by simp_all
    ultimately show ?thesis using q by blast
  next
    case False
    then have "scan_ready s xs = Some (s', j)"
      using Cons.prems
      by (auto simp: Let_def ready_at_def slot_def split: option.splits list.splits)
    from Cons.IH[OF this] obtain pre i' post q rest where r:
      "xs = pre @ i' # post" "\<forall>x \<in> set pre. \<not> ready_at s (slot s x)"
      "ssQueues s (slot s i') = Some q" "wqReady q = j # rest"
      "s' = s\<lparr>ssQueues := (ssQueues s)(slot s i' \<mapsto> q\<lparr>wqReady := rest\<rparr>),
           ssRrIndex := ((ssRrIndex s + i') mod length (ssOrder s) + 1) mod length (ssOrder s)\<rparr>"
      by blast
    have "i # xs = (i # pre) @ i' # post" "\<forall>x \<in> set (i # pre). \<not> ready_at s (slot s x)"
      using r(1,2) False by simp_all
    with r(3-5) show ?thesis by blast
  qed
qed simp

lemma slot_covers:
  assumes "wf_sched s" "k \<in> set (ssOrder s)"
  shows "\<exists>i < length (ssOrder s). slot s i = k"
proof -
  let ?n = "length (ssOrder s)"
  obtain p where p: "p < ?n" "ssOrder s ! p = k" using assms(2) by (auto simp: in_set_conv_nth)
  have r: "ssRrIndex s < ?n" using assms(1) p(1) by (auto simp: wf_sched_def)
  let ?i = "(p + (?n - ssRrIndex s)) mod ?n"
  have "(ssRrIndex s + ?i) mod ?n = (ssRrIndex s + (p + (?n - ssRrIndex s))) mod ?n"
    by (simp add: mod_add_right_eq)
  also have "\<dots> = (p + ?n) mod ?n" using r by (simp add: algebra_simps)
  also have "\<dots> = p" using p(1) by simp
  finally have "slot s ?i = k" using p(2) by (simp add: slot_def)
  moreover have "?i < ?n" using r by (intro mod_less_divisor) linarith
  ultimately show ?thesis by blast
qed

lemma nextReady_None:
  assumes "wf_sched s"
  shows "nextReady s = None \<longleftrightarrow> (\<forall>k. \<not> ready_at s k)"
proof
  assume n: "nextReady s = None"
  show "\<forall>k. \<not> ready_at s k"
  proof
    fix k
    show "\<not> ready_at s k"
    proof (cases "k \<in> set (ssOrder s)")
      case True
      then obtain i where i: "i < length (ssOrder s)" "slot s i = k" using slot_covers[OF assms] by blast
      moreover have "scan_ready s [0..<length (ssOrder s)] = None"
        using n i(1) by (auto simp: nextReady_def split: if_splits)
      ultimately show ?thesis unfolding scan_ready_None by auto
    next
      case False
      then show ?thesis using assms by (auto simp: ready_at_def wf_sched_def)
    qed
  qed
qed (simp add: nextReady_def scan_ready_None)

lemma upt_split:
  assumes "[0..<n] = pre @ i # post"
  shows "pre = [0..<i]" "i < n"
proof -
  have l: "length pre < n" using arg_cong[OF assms, of length] by simp
  have "i = [0..<n] ! length pre" unfolding assms by simp
  then have i: "i = length pre" using l by simp
  have "pre = take (length pre) [0..<n]" unfolding assms by simp
  then show "pre = [0..<i]" "i < n" using l i by (simp_all add: take_upt)
qed

text \<open>A dispatch takes the head of the first ready queue from the round-robin index on.\<close>

lemma nextReady_Some:
  assumes "nextReady s = Some (s', j)"
  obtains i q rest where
    "i < length (ssOrder s)" "\<forall>x < i. \<not> ready_at s (slot s x)"
    "ssQueues s (slot s i) = Some q" "wqReady q = j # rest"
    "s' = s\<lparr>ssQueues := (ssQueues s)(slot s i \<mapsto> q\<lparr>wqReady := rest\<rparr>),
           ssRrIndex := (ssRrIndex s + i + 1) mod length (ssOrder s)\<rparr>"
proof -
  have "scan_ready s [0..<length (ssOrder s)] = Some (s', j)"
    using assms by (simp add: nextReady_def split: if_splits)
  from scan_ready_Some[OF this] obtain pre i post q rest where
    r: "[0..<length (ssOrder s)] = pre @ i # post" "\<forall>x \<in> set pre. \<not> ready_at s (slot s x)"
     "ssQueues s (slot s i) = Some q" "wqReady q = j # rest"
     "s' = s\<lparr>ssQueues := (ssQueues s)(slot s i \<mapsto> q\<lparr>wqReady := rest\<rparr>),
           ssRrIndex := ((ssRrIndex s + i) mod length (ssOrder s) + 1) mod length (ssOrder s)\<rparr>"
    by blast
  have "pre = [0..<i]" "i < length (ssOrder s)"
    by (rule upt_split[OF r(1)])+
  with r that show thesis by (simp add: mod_Suc_eq)
qed

lemma nextReady_props:
  assumes "wf_sched s" "nextReady s = Some (s', j)"
  shows "wf_sched s'" "sched_jobs s = add_mset j (sched_jobs s')" "ssOrder s' = ssOrder s"
proof -
  obtain i q rest where n: "i < length (ssOrder s)" "ssQueues s (slot s i) = Some q" "wqReady q = j # rest"
    "s' = s\<lparr>ssQueues := (ssQueues s)(slot s i \<mapsto> q\<lparr>wqReady := rest\<rparr>),
           ssRrIndex := (ssRrIndex s + i + 1) mod length (ssOrder s)\<rparr>"
    using nextReady_Some[OF assms(2)] by blast
  have "queue_ok (slot s i) q" using assms(1) n(2) by (auto simp: wf_sched_def)
  then have ok: "queue_ok (slot s i) (q\<lparr>wqReady := rest\<rparr>)" using n(3) by (auto simp: queue_ok_def)
  have lt: "(ssRrIndex s + i + 1) mod length (ssOrder s) < length (ssOrder s)"
    using n(1) by (intro mod_less_divisor) linarith
  show "wf_sched s'" using wf_sched_update(2)[OF assms(1) n(2) ok lt] n(4) by simp
  show "sched_jobs s = add_mset j (sched_jobs s')"
    using sched_jobs_update(1,2)[OF assms(1) n(2)] n(3,4) by (simp add: queue_jobs_def)
  show "ssOrder s' = ssOrder s" using n(4) by simp
qed

text \<open>\<open>dispatchReady\<close> with room for \<open>m\<close> jobs in the work channel.\<close>

fun dispatchReady :: "nat \<Rightarrow> scheduler_state \<Rightarrow> scheduler_state \<times> job list" where
  "dispatchReady 0 s = (s, [])"
| "dispatchReady (Suc m) s =
     (case nextReady s of
        None \<Rightarrow> (s, [])
      | Some (s1, j) \<Rightarrow> let (s2, js) = dispatchReady m s1 in (s2, j # js))"

lemma dispatchReady_mono: "set (snd (dispatchReady m s)) \<subseteq> set (snd (dispatchReady (m + d) s))"
proof (induction m arbitrary: s)
  case (Suc m)
  show ?case
  proof (cases "nextReady s")
    case (Some sj)
    obtain s1 j where "sj = (s1, j)" by (cases sj)
    with Some Suc[of s1] show ?thesis by (auto simp: split_def Let_def)
  qed simp
qed simp

lemma served_within:
  "wf_sched s \<Longrightarrow> i < length (ssOrder s) \<Longrightarrow> slot s i = k \<Longrightarrow> ssQueues s k = Some q \<Longrightarrow>
   wqReady q = j # rest \<Longrightarrow> j \<in> set (snd (dispatchReady (Suc i) s))"
proof (induction i arbitrary: s rule: less_induct)
  case (less i)
  let ?n = "length (ssOrder s)"
  have r: "ready_at s (slot s i)" using less.prems(3-5) by (auto simp: ready_at_def)
  have "nextReady s \<noteq> None" using r nextReady_None[OF less.prems(1)] by blast
  then obtain s1 j1 where n1: "nextReady s = Some (s1, j1)" by auto
  obtain i1 q1 rest1 where n: "i1 < ?n" "\<forall>x < i1. \<not> ready_at s (slot s x)"
    "ssQueues s (slot s i1) = Some q1" "wqReady q1 = j1 # rest1"
    "s1 = s\<lparr>ssQueues := (ssQueues s)(slot s i1 \<mapsto> q1\<lparr>wqReady := rest1\<rparr>),
            ssRrIndex := (ssRrIndex s + i1 + 1) mod ?n\<rparr>"
    using nextReady_Some[OF n1] by blast
  have le: "i1 \<le> i" using n(2) r by (meson not_le)
  show ?case
  proof (cases "i1 = i")
    case True
    then show ?thesis using n(3,4) n1 less.prems(3-5) by (simp split: prod.splits)
  next
    case False
    let ?i = "i - i1 - 1"
    have "?i < i" using False le by simp
    moreover have "?i < length (ssOrder s1)" using less.prems(2) n(5) by simp
    moreover have "slot s1 ?i = k"
    proof -
      have "((ssRrIndex s + i1 + 1) mod ?n + ?i) mod ?n = (ssRrIndex s + i1 + 1 + ?i) mod ?n"
        by (rule mod_add_left_eq)
      also have "ssRrIndex s + i1 + 1 + ?i = ssRrIndex s + i" using False le by simp
      finally have "((ssRrIndex s + i1 + 1) mod ?n + ?i) mod ?n = (ssRrIndex s + i) mod ?n" .
      then show ?thesis using n(5) less.prems(3) by (simp add: slot_def)
    qed
    moreover have "slot s i1 \<noteq> k"
    proof
      assume "slot s i1 = k"
      moreover have "distinct (ssOrder s)" using less.prems(1) by (simp add: wf_sched_def)
      moreover have "(ssRrIndex s + i1) mod ?n < ?n" "(ssRrIndex s + i) mod ?n < ?n"
        using n(1) by (metis gr_zeroI less_zeroE mod_less_divisor)+
      ultimately have "(ssRrIndex s + i1) mod ?n = (ssRrIndex s + i) mod ?n"
        using less.prems(3) nth_eq_iff_index_eq unfolding slot_def by metis
      moreover have "(ssRrIndex s + i1) mod ?n = (ssRrIndex s + i) mod ?n \<Longrightarrow> i1 mod ?n = i mod ?n"
        by (simp add: nat_mod_eq_iff)
      ultimately show False using n(1) less.prems(2) False by simp
    qed
    then have "ssQueues s1 k = Some q" using n(5) less.prems(4) by simp
    ultimately have "j \<in> set (snd (dispatchReady (Suc ?i) s1))"
      using less.IH[of ?i s1] nextReady_props(1)[OF less.prems(1) n1] less.prems(5) by blast
    moreover have "set (snd (dispatchReady (Suc ?i) s1)) \<subseteq> set (snd (dispatchReady (Suc ?i + i1) s1))"
      by (rule dispatchReady_mono)
    moreover have "Suc ?i + i1 = i" using False le by simp
    ultimately show ?thesis using n1 by (auto split: prod.splits)
  qed
qed

section \<open>The scheduler as a system\<close>

text \<open>
  The queues belong to the run loop; the channels carry submitted jobs, requeued jobs and work.
  A channel with a capacity accepts a send only while it has room: the sender waits otherwise.
  \<open>syRunning\<close> are the jobs the workers hold, \<open>syCompleted\<close> the completions they have sent, with
  the job; \<open>syDropped\<close> are jobs a requeue gave up on after the loop had stopped.
\<close>

record 'l sched_sys =
  syState :: scheduler_state
  sySubmit :: "job list"
  syRequeue :: "(job \<times> go_time) list"
  syWork :: "job list"
  syRunning :: "job list"
  syCompleted :: "(job \<times> complete_request) list"
  syDropped :: "job list"
  syStopped :: bool
  syLimiter :: 'l

text \<open>\<open>newScheduler\<close>: a non-positive number of workers is one.\<close>

definition sched_workers :: "go_int \<Rightarrow> nat" where
  "sched_workers workers = (if workers \<le> 0 then 1 else nat workers)"

definition sched_start :: "'l \<Rightarrow> 'l sched_sys" where
  "sched_start l =
     \<lparr>syState = newSchedulerState, sySubmit = [], syRequeue = [], syWork = [], syRunning = [],
      syCompleted = [], syDropped = [], syStopped = False, syLimiter = l\<rparr>"

inductive sched_step ::
    "('l \<Rightarrow> reserve_request \<Rightarrow> 'l \<times> (reserve_response + string)) \<Rightarrow> nat \<Rightarrow>
     'l sched_sys \<Rightarrow> job list \<Rightarrow> 'l sched_sys \<Rightarrow> bool"
  for reserve w where
  submit: "length (sySubmit y) < w * 4 \<Longrightarrow>
     sched_step reserve w y [j] (y\<lparr>sySubmit := sySubmit y @ [j]\<rparr>)"
| promote: "\<not> syStopped y \<Longrightarrow>
     sched_step reserve w y [] (y\<lparr>syState := sched_promoteReady (syState y) now\<rparr>)"
| dispatch: "\<not> syStopped y \<Longrightarrow> length (syWork y) < w \<Longrightarrow> nextReady (syState y) = Some (s', j) \<Longrightarrow>
     sched_step reserve w y [] (y\<lparr>syState := s', syWork := syWork y @ [j]\<rparr>)"
| recv_submit: "\<not> syStopped y \<Longrightarrow> sySubmit y = j # js \<Longrightarrow>
     sched_step reserve w y [] (y\<lparr>sySubmit := js, syState := enqueueReady (syState y) j\<rparr>)"
| recv_requeue: "\<not> syStopped y \<Longrightarrow> syRequeue y = (j, t) # rs \<Longrightarrow>
     sched_step reserve w y [] (y\<lparr>syRequeue := rs, syState := enqueueBlocked (syState y) j t\<rparr>)"
| take_job: "syWork y = j # js \<Longrightarrow> length (syRunning y) < w \<Longrightarrow>
     sched_step reserve w y [] (y\<lparr>syWork := js, syRunning := syRunning y @ [j]\<rparr>)"
| attempt_requeue: "syRunning y = xs @ j # zs \<Longrightarrow>
     handleJob reserve env (syLimiter y) j = (l', evs, Requeued j' t) \<Longrightarrow> length (syRequeue y) < w * 4 \<Longrightarrow>
     sched_step reserve w y []
       (y\<lparr>syRunning := xs @ zs, syLimiter := l', syRequeue := syRequeue y @ [(j', t)]\<rparr>)"
| attempt_drop: "syStopped y \<Longrightarrow> syRunning y = xs @ j # zs \<Longrightarrow>
     handleJob reserve env (syLimiter y) j = (l', evs, Requeued j' t) \<Longrightarrow>
     sched_step reserve w y []
       (y\<lparr>syRunning := xs @ zs, syLimiter := l', syDropped := syDropped y @ [j']\<rparr>)"
| attempt_complete: "syRunning y = xs @ j # zs \<Longrightarrow>
     handleJob reserve env (syLimiter y) j = (l', evs, Completed creq) \<Longrightarrow>
     sched_step reserve w y []
       (y\<lparr>syRunning := xs @ zs, syLimiter := l'', syCompleted := syCompleted y @ [(j, creq)]\<rparr>)"
| stop: "sched_step reserve w y [] (y\<lparr>syStopped := True\<rparr>)"

inductive sched_run ::
    "('l \<Rightarrow> reserve_request \<Rightarrow> 'l \<times> (reserve_response + string)) \<Rightarrow> nat \<Rightarrow> 'l \<Rightarrow>
     job list \<Rightarrow> 'l sched_sys \<Rightarrow> bool"
  for reserve w l where
  sched_begin: "sched_run reserve w l [] (sched_start l)"
| sched_next: "sched_run reserve w l js y \<Longrightarrow> sched_step reserve w y new y' \<Longrightarrow>
     sched_run reserve w l (js @ new) y'"

text \<open>Every job of the system, by its id, wherever it is.\<close>

definition job_ids :: "'l sched_sys \<Rightarrow> string multiset" where
  "job_ids y =
     image_mset JJobID
       (sched_jobs (syState y) + mset (sySubmit y) + mset (map fst (syRequeue y)) + mset (syWork y) +
        mset (syRunning y) + mset (map fst (syCompleted y)) + mset (syDropped y))"

lemma handleJob_id:
  "handleJob reserve env l j = (l', evs, Requeued j' t) \<Longrightarrow> JJobID j' = JJobID j"
  by (auto simp: handleJob_def Let_def ensureLeaseID_def split: prod.splits sum.splits if_splits)

lemma sched_step_props:
  "sched_step reserve w y new y' \<Longrightarrow> wf_sched (syState y) \<Longrightarrow>
   length (syWork y) \<le> w \<and> length (syRunning y) \<le> w \<Longrightarrow>
   wf_sched (syState y') \<and> job_ids y' = job_ids y + image_mset JJobID (mset new) \<and>
   length (syWork y') \<le> w \<and> length (syRunning y') \<le> w"
proof (induction rule: sched_step.induct)
  case (promote y now)
  then show ?case using sched_promoteReady_props[OF promote(2), of now] by (simp add: job_ids_def)
next
  case (dispatch y s' j)
  then show ?case using nextReady_props[OF dispatch(4,3)] by (simp add: job_ids_def)
next
  case (recv_submit y j js)
  then show ?case using enqueueReady_props[OF recv_submit(3), of j] by (simp add: job_ids_def)
next
  case (recv_requeue y j t rs)
  then show ?case using enqueueBlocked_props[OF recv_requeue(3), of j t] by (simp add: job_ids_def)
qed (auto simp: job_ids_def dest: handleJob_id)

lemma sched_run_props:
  "sched_run reserve w l js y \<Longrightarrow>
   wf_sched (syState y) \<and> job_ids y = image_mset JJobID (mset js) \<and>
   length (syWork y) \<le> w \<and> length (syRunning y) \<le> w"
proof (induction rule: sched_run.induct)
  case sched_begin
  then show ?case by (simp add: sched_start_def job_ids_def wf_newSchedulerState)
next
  case (sched_next js y new y')
  then show ?case using sched_step_props[OF sched_next.hyps(2)] by simp
qed

lemma sched_run_undropped:
  "sched_run reserve w l js y \<Longrightarrow> \<not> syStopped y \<Longrightarrow> syDropped y = []"
proof (induction rule: sched_run.induct)
  case (sched_next js y new y')
  from sched_next.hyps(2) sched_next.IH sched_next.prems show ?case
    by (cases rule: sched_step.cases) auto
qed (simp add: sched_start_def)

end
