(* ===== verification/Scheduler_Theorems.thy ===== *)
theory Scheduler_Theorems
  imports Scheduler_System Mem_Examples
begin

text \<open>
  The properties of the scheduler: no job is lost or done twice, no queue starves, blocked jobs
  come back in time order and not early, and an attempt at a job, run on the in-memory backend,
  charges what the job used and leaves no lease behind.
\<close>

section \<open>Jobs\<close>

definition ex_job :: job where
  "ex_job = \<lparr>JJobID = ''j1'', JLeaseID = [], JTenantID = ''t'', JProvider = ''p'', JModel = ''m'',
     JPrompt = ''hello'', JMaxOutputTokens = 20, JWantDailyBudget = False, JExecute = True\<rparr>"

definition ex_job2 :: job where
  "ex_job2 = ex_job\<lparr>JJobID := ''j2'', JModel := ''n''\<rparr>"

text \<open>C19. Whatever the interleaving of callers, the run loop and the workers, and whatever the
  limiter answers: until the scheduler is shut down, the jobs it was given are, each exactly once,
  queued, on a channel, running, or completed; none is lost and none is duplicated, and no more
  jobs run at a time than there are workers.\<close>

theorem scheduler_conserves_jobs:
  assumes "sched_run reserve w l js y" "\<not> syStopped y"
  shows "image_mset JJobID
       (sched_jobs (syState y) + mset (sySubmit y) + mset (map fst (syRequeue y)) + mset (syWork y) +
        mset (syRunning y) + mset (map fst (syCompleted y))) = image_mset JJobID (mset js) \<and>
    length (syRunning y) \<le> w"
  using sched_run_props[OF assms(1)] sched_run_undropped[OF assms] by (simp add: job_ids_def)

definition allow_all :: "unit \<Rightarrow> reserve_request \<Rightarrow> unit \<times> (reserve_response + string)" where
  "allow_all l req = (l, Inl (reserve_response0\<lparr>Allowed := True\<rparr>))"

lemma ex_run: "\<exists>y. sched_run allow_all 1 () [ex_job] y \<and> \<not> syStopped y \<and> syRunning y = [ex_job]"
proof -
  let ?s0 = "sched_start () :: unit sched_sys"
  let ?s1 = "?s0\<lparr>sySubmit := [ex_job]\<rparr>"
  let ?s2 = "?s1\<lparr>sySubmit := [], syState := enqueueReady newSchedulerState ex_job\<rparr>"
  let ?st = "fst (the (nextReady (enqueueReady newSchedulerState ex_job)))"
  let ?s3 = "?s2\<lparr>syState := ?st, syWork := [ex_job]\<rparr>"
  let ?s4 = "?s3\<lparr>syWork := [], syRunning := [ex_job]\<rparr>"
  have "sched_run allow_all 1 () ([] @ [ex_job]) ?s1"
    using sched_next[OF sched_begin submit[of ?s0 1 allow_all ex_job]] by (simp add: sched_start_def)
  then have 1: "sched_run allow_all 1 () [ex_job] ?s1" by simp
  have 2: "sched_run allow_all 1 () [ex_job] ?s2"
    using sched_next[OF 1 recv_submit[of ?s1 ex_job "[]" allow_all 1]] by (simp add: sched_start_def)
  have "nextReady (enqueueReady newSchedulerState ex_job) = Some (?st, ex_job)"
    by (simp add: nextReady_def enqueueReady_def newSchedulerState_def sched_queue_def Let_def)
  then have 3: "sched_run allow_all 1 () [ex_job] ?s3"
    using sched_next[OF 2 dispatch[of ?s2 1 ?st ex_job allow_all]] by (simp add: sched_start_def)
  have "sched_run allow_all 1 () [ex_job] ?s4"
    using sched_next[OF 3 take_job[of ?s3 ex_job "[]" 1 allow_all]] by (simp add: sched_start_def)
  then show ?thesis by (intro exI[of _ ?s4]) (simp add: sched_start_def)
qed

theorem scheduler_conserves_jobs_witness:
  "\<exists>y. sched_run allow_all 1 () [ex_job] y \<and> syCompleted y = [] \<and> length (syRunning y) \<le> 1"
proof -
  obtain y where y: "sched_run allow_all 1 () [ex_job] y" "\<not> syStopped y" "syRunning y = [ex_job]"
    using ex_run by blast
  then have "syCompleted y = []" using scheduler_conserves_jobs[OF y(1,2)] by auto
  with y show ?thesis by auto
qed

text \<open>C20. Round robin starves no queue: the job at the head of any queue is among the next dispatches
  once there are as many of them as there are queues, however many jobs the other queues hold.\<close>

theorem round_robin_bounded_wait:
  assumes "wf_sched s" "ssQueues s k = Some q" "wqReady q = j # rest"
  shows "j \<in> set (snd (dispatchReady (length (ssOrder s)) s))"
proof -
  have "k \<in> set (ssOrder s)" using assms(1,2) by (auto simp: wf_sched_def)
  then obtain i where i: "i < length (ssOrder s)" "slot s i = k" using slot_covers[OF assms(1)] by blast
  have "j \<in> set (snd (dispatchReady (Suc i) s))" using served_within[OF assms(1) i assms(2,3)] .
  moreover have "Suc i + (length (ssOrder s) - Suc i) = length (ssOrder s)" using i(1) by simp
  ultimately show ?thesis
    using dispatchReady_mono[of "Suc i" s "length (ssOrder s) - Suc i"]
    by (simp only: subsetD)
qed

theorem round_robin_bounded_wait_witness:
  "ex_job2 \<in> set (snd (dispatchReady 2
     (enqueueReady (enqueueReady (enqueueReady newSchedulerState ex_job) ex_job) ex_job2)))"
proof -
  let ?s = "enqueueReady (enqueueReady (enqueueReady newSchedulerState ex_job) ex_job) ex_job2"
  have w: "wf_sched ?s" by (intro enqueueReady_props(1) wf_newSchedulerState)
  have "ssQueues ?s ''p:n'' = Some \<lparr>wqKey = ''p:n'', wqReady = [ex_job2], wqBlocked = []\<rparr>"
    and "length (ssOrder ?s) = 2" by code_simp+
  then show ?thesis using round_robin_bounded_wait[OF w, of "''p:n''" _ ex_job2 "[]"] by simp
qed

text \<open>Promotion is exact: in every queue the blocked jobs whose time has come, and no others, move
  behind the ready ones in the order of their times, and the rest stay blocked; no job is promoted
  before the time it was blocked until.\<close>

theorem promotion_exact:
  assumes "wf_sched s" "ssQueues s k = Some q"
  shows "ssQueues (sched_promoteReady s now) k = Some (q\<lparr>
      wqReady := wqReady q @ map biJob (filter (\<lambda>b. biNotBefore b \<le> now) (wqBlocked q)),
      wqBlocked := filter (\<lambda>b. now < biNotBefore b) (wqBlocked q)\<rparr>) \<and>
    sorted (map biNotBefore (wqBlocked q)) \<and>
    sched_jobs (sched_promoteReady s now) = sched_jobs s"
proof -
  have "sorted (map biNotBefore (wqBlocked q))" using assms by (auto simp: wf_sched_def queue_ok_def)
  then show ?thesis
    using queue_promoteReady_eq[of q now] assms(2) sched_promoteReady_props(2)[OF assms(1), of now]
    by (simp add: sched_promoteReady_def)
qed

theorem promotion_exact_witness:
  "ssQueues (sched_promoteReady (enqueueBlocked (enqueueBlocked newSchedulerState ex_job 7)
      (ex_job\<lparr>JJobID := ''j3''\<rparr>) 5) 6) ''p:m'' =
   Some \<lparr>wqKey = ''p:m'', wqReady = [ex_job\<lparr>JJobID := ''j3''\<rparr>],
         wqBlocked = [\<lparr>biJob = ex_job, biNotBefore = 7\<rparr>]\<rparr>"
proof -
  let ?s = "enqueueBlocked (enqueueBlocked newSchedulerState ex_job 7) (ex_job\<lparr>JJobID := ''j3''\<rparr>) 5"
  have w: "wf_sched ?s" by (intro enqueueBlocked_props(1) wf_newSchedulerState)
  have "ssQueues ?s ''p:m'' = Some \<lparr>wqKey = ''p:m'', wqReady = [],
      wqBlocked = [\<lparr>biJob = ex_job\<lparr>JJobID := ''j3''\<rparr>, biNotBefore = 5\<rparr>, \<lparr>biJob = ex_job, biNotBefore = 7\<rparr>]\<rparr>"
    by code_simp
  then show ?thesis using promotion_exact[OF w, of "''p:m''" _ 6] by simp
qed

section \<open>Attempts\<close>

text \<open>C22. What one attempt does: after an error of the limiter the job comes back with the same lease
  (so that a lost answer is not charged twice) after the error delay; after a denial it comes back
  with a fresh lease, not before the limiter's hint has passed and at most 25 milliseconds after
  that with the default jitter; after an admission the lease that was reserved is completed, and a
  job that executed reports its tokens for the tokens-per-minute limit.\<close>

theorem attempt_outcome:
  assumes "handleJob reserve env l j = (l', evs, out)"
    and "\<And>n. 0 < n \<Longrightarrow> 0 \<le> int63n n \<and> int63n n < n" "aeJitter env = Jitter int63n"
  defines "lease \<equiv> (if JLeaseID j = [] then aeFresh1 env else JLeaseID j)"
  shows "case snd (reserve l (buildReserveRequest (j\<lparr>JLeaseID := lease\<rparr>))) of
      Inr err \<Rightarrow> out = Requeued (j\<lparr>JLeaseID := lease\<rparr>) (aeNow env + aeErrorRetryDelay env)
    | Inl res \<Rightarrow>
        if Allowed res then
          \<exists>acts. out = Completed \<lparr>CLeaseID = lease, CJobID = JJobID j, Actuals = acts\<rparr> \<and>
            (JExecute j \<longrightarrow> \<lparr>AKey = buildTPMKey (JProvider j) (JModel j), ActualAmount = aeTokens env\<rparr> \<in> set acts)
        else
          \<exists>t. out = Requeued (j\<lparr>JLeaseID := aeFresh2 env\<rparr>) t \<and>
            (0 \<le> RetryAfterMs res \<and> RetryAfterMs res < 2 ^ 40 \<longrightarrow>
               aeNow env + RetryAfterMs res * 10 ^ 6 \<le> t \<and>
               t \<le> aeNow env + RetryAfterMs res * 10 ^ 6 + 25 * 10 ^ 6)"
proof -
  have ens: "ensureLeaseID (aeFresh1 env) j = j\<lparr>JLeaseID := lease\<rparr>"
    by (simp add: ensureLeaseID_def lease_def)
  obtain r where r: "reserve l (buildReserveRequest (j\<lparr>JLeaseID := lease\<rparr>)) = (l', r)"
    using assms(1)
    by (cases "reserve l (buildReserveRequest (j\<lparr>JLeaseID := lease\<rparr>))")
       (auto simp: handleJob_def ens Let_def split: sum.splits if_splits)
  have delay: "RetryAfterMs res * 10 ^ 6 \<le> retryDelay (aeJitter env) res \<and>
      retryDelay (aeJitter env) res \<le> RetryAfterMs res * 10 ^ 6 + 25 * 10 ^ 6"
    if "0 \<le> RetryAfterMs res" "RetryAfterMs res < 2 ^ 40" for res
  proof -
    let ?d = "RetryAfterMs res * 10 ^ 6"
    have d: "dur (RetryAfterMs res) Millisecond = ?d" "0 \<le> ?d"
      using that by (simp_all add: dur_def Millisecond_def wrap64_id in_int64_def)
    have "0 \<le> Jitter int63n ?d \<and> Jitter int63n ?d \<le> 25 * 10 ^ 6"
      using assms(2)[of "?d + 1"] assms(2)[of "defaultJitterMax + 1"] d(2)
      by (auto simp: Jitter_def Let_def defaultJitterMax_def Millisecond_def)
    moreover have "in_int64 (?d + Jitter int63n ?d)"
      using calculation that by (simp add: in_int64_def)
    ultimately show ?thesis
      using d assms(3) by (simp add: retryDelay_def Let_def wrap64_id)
  qed
  show ?thesis
  proof (cases r)
    case (Inr err)
    then show ?thesis using assms(1) r by (simp add: handleJob_def ens Let_def)
  next
    case (Inl res)
    then show ?thesis
      using assms(1) r delay[of res] by (auto simp: handleJob_def ens buildLLMActuals_def Let_def)
  qed
qed

definition deny_all :: "unit \<Rightarrow> reserve_request \<Rightarrow> unit \<times> (reserve_response + string)" where
  "deny_all l req = (l, Inl (reserve_response0\<lparr>RetryAfterMs := 100\<rparr>))"

definition ex_env :: attempt_env where
  "ex_env = \<lparr>aeFresh1 = ''L1'', aeFresh2 = ''L2'', aeNow = 1000, aeTokens = 12,
     aeJitter = Jitter (\<lambda>n. n - 1), aeErrorRetryDelay = defaultErrorRetryDelay\<rparr>"

theorem attempt_outcome_witness:
  "\<exists>t. snd (snd (handleJob deny_all ex_env () ex_job)) = Requeued (ex_job\<lparr>JLeaseID := ''L2''\<rparr>) t \<and>
     1000 + 100 * 10 ^ 6 \<le> t \<and> t \<le> 1000 + 100 * 10 ^ 6 + 25 * 10 ^ 6"
proof -
  obtain l' evs out where h: "handleJob deny_all ex_env () ex_job = (l', evs, out)"
    by (metis surj_pair)
  then have "\<exists>t. out = Requeued (ex_job\<lparr>JLeaseID := ''L2''\<rparr>) t \<and>
      1000 + 100 * 10 ^ 6 \<le> t \<and> t \<le> 1000 + 100 * 10 ^ 6 + 25 * 10 ^ 6"
    using attempt_outcome[OF h, of "\<lambda>n. n - 1"]
    by (simp add: deny_all_def ex_env_def reserve_response0_def)
  with h show ?thesis by simp
qed

section \<open>Attempts on the in-memory backend\<close>

text \<open>The in-memory backend as the limiter of an attempt, through the local client.\<close>

definition local_reserve ::
    "go_time \<Rightarrow> memory_backend \<Rightarrow> reserve_request \<Rightarrow> memory_backend \<times> (reserve_response + string)" where
  "local_reserve clk m req =
     (case mem_Reserve clk m req clk of
        Some (m', resp) \<Rightarrow> (m', Inl resp)
      | None \<Rightarrow> (m, Inr ''panic''))"


definition llm_limit :: "limit_key \<Rightarrow> string \<Rightarrow> uint64 \<Rightarrow> go_int \<Rightarrow> go_int \<Rightarrow> limit_state" where
  "llm_limit k kind c window timeout =
     \<lparr>Definition = \<lparr>Key = k, Kind = kind, Capacity = c, WindowSeconds = window,
        TimeoutSeconds = timeout, Unit = [], Description = [], Overage = OverageDebt\<rparr>,
      Status = LimitStatusActive, PendingDecreaseTo = 0\<rparr>"

definition llm_backend :: memory_backend where
  "llm_backend = applyStates (mem_AttachRegistry mem_New False [])
     [llm_limit ''global:llm:p:m:rpm'' KindRolling 10 60 0,
      llm_limit ''global:llm:p:m:tpm'' KindRolling 1000 60 0,
      llm_limit ''global:llm:p:m:concurrency'' KindConcurrency 2 0 60]"

lemma llm_backend_reachable: "mem_reachable llm_backend"
  unfolding llm_backend_def
  by (rule reach_start) (simp add: llm_limit_def sane_definition_def sane_timeout_def)

lemma llm_decidable: "decidable_request llm_backend (buildReserveRequest (ex_job\<lparr>JLeaseID := ''L''\<rparr>))"
proof -
  let ?r = "buildReserveRequest (ex_job\<lparr>JLeaseID := ''L''\<rparr>)"
  have v: "map (\<lambda>r. (RKey r, Amount r, Capacity (def_of llm_backend (RKey r)))) (Requirements ?r) =
      [(''global:llm:p:m:rpm'', 1, 10), (''global:llm:p:m:tpm'', 25, 1000),
       (''global:llm:p:m:concurrency'', 1, 2)]"
    by code_simp
  have "LeaseID ?r \<noteq> []" "Requirements ?r \<noteq> []" "Option.is_none (mbLeases llm_backend (LeaseID ?r))"
    "\<forall>r \<in> set (Requirements ?r). \<not> is_decreasing llm_backend (RKey r) \<and>
       \<not> Option.is_none (mbDefs llm_backend (RKey r))"
    by code_simp+
  moreover have "map RKey (Requirements ?r) =
      [''global:llm:p:m:rpm'', ''global:llm:p:m:tpm'', ''global:llm:p:m:concurrency'']"
    using arg_cong[OF v, of "map fst"] by (simp add: comp_def)
  moreover have "\<forall>r \<in> set (Requirements ?r). unat (Capacity (def_of llm_backend (RKey r))) + unat (Amount r) < 2 ^ 64"
  proof
    fix r
    assume "r \<in> set (Requirements ?r)"
    then have "(RKey r, Amount r, Capacity (def_of llm_backend (RKey r))) \<in>
        set (map (\<lambda>r. (RKey r, Amount r, Capacity (def_of llm_backend (RKey r)))) (Requirements ?r))"
      by auto
    then show "unat (Capacity (def_of llm_backend (RKey r))) + unat (Amount r) < 2 ^ 64"
      unfolding v by auto
  qed
  ultimately show ?thesis
    by (simp add: decidable_request_def proper_request_def Option.is_none_def)
qed


section \<open>Where the loop oversleeps\<close>

text \<open>
  The delay of the run loop until it looks at its queues again is not bounded by the idle
  interval: with a job ready (the work channel was full) and another blocked for ten seconds,
  the loop sleeps the ten seconds unless a submit or a requeue wakes it.
\<close>

theorem ready_job_waits_for_blocked_one:
  "let s = enqueueBlocked (enqueueReady newSchedulerState ex_job) ex_job2 (10 * Second) in
   nextReady s \<noteq> None \<and> nextWakeDelay defaultIdleInterval 0 [''p:m'', ''p:n''] s = 10 * Second \<and>
   defaultIdleInterval = 5 * Millisecond"
proof -
  let ?s = "enqueueBlocked (enqueueReady newSchedulerState ex_job) ex_job2 (10 * Second)"
  have "\<not> Option.is_none (nextReady ?s)"
    "nextWakeDelay defaultIdleInterval 0 [''p:m'', ''p:n''] ?s = 10 * Second"
    "defaultIdleInterval = 5 * Millisecond" by code_simp+
  then show ?thesis by (simp add: Option.is_none_def Let_def)
qed

end
