(* ===== verification/Limiter.thy ===== *)
theory Limiter
  imports Api
begin

text \<open>
  The \<open>Limiter\<close> interface of the clients (pkg/ratelimiter/interface.go) and its implementations:
  the one that allows everything (noop.go), the in-process client of the in-memory backend
  (local/client.go) and the HTTP client (httpclient/client.go), here connected to the handlers
  of the daemon by a transport that may fail.  A batch call carries the deadline of its context.
\<close>

record 'l limiter =
  lmReserve :: "'l \<Rightarrow> reserve_request \<Rightarrow> ('l \<times> (reserve_response + string)) option"
  lmComplete :: "'l \<Rightarrow> complete_request \<Rightarrow> ('l \<times> (complete_response + string)) option"
  lmBatchReserve ::
    "'l \<Rightarrow> go_time option \<Rightarrow> batch_reserve_request \<Rightarrow> ('l \<times> (batch_reserve_response + string)) option"
  lmBatchComplete ::
    "'l \<Rightarrow> go_time option \<Rightarrow> batch_complete_request \<Rightarrow> ('l \<times> (batch_complete_response + string)) option"

section \<open>The limiter that allows everything\<close>

definition go_result :: "'a \<times> go_error \<Rightarrow> 'a + string" where
  "go_result r = (case r of (x, None) \<Rightarrow> Inl x | (_, Some e) \<Rightarrow> Inr e)"

definition noop_limiter :: "'l limiter" where
  "noop_limiter =
     \<lparr>lmReserve = \<lambda>l req. Some (l, go_result (noop_Reserve req)),
      lmComplete = \<lambda>l req. Some (l, go_result (noop_Complete req)),
      lmBatchReserve = \<lambda>l _ reqs. Some (l, go_result (noop_BatchReserve reqs)),
      lmBatchComplete = \<lambda>l _ reqs. Some (l, go_result (noop_BatchComplete reqs))\<rparr>"

section \<open>The in-process client\<close>

text \<open>\<open>clk\<close> is the reading of the client's clock, which every call of a batch passes on.\<close>

definition local_Reserve ::
    "go_time \<Rightarrow> memory_backend \<Rightarrow> reserve_request \<Rightarrow> (memory_backend \<times> (reserve_response + string)) option" where
  "local_Reserve clk m req = map_option (\<lambda>(m', resp). (m', Inl resp)) (mem_Reserve clk m req clk)"

definition local_Complete ::
    "memory_backend \<Rightarrow> complete_request \<Rightarrow> (memory_backend \<times> (complete_response + string)) option" where
  "local_Complete m req = map_option (\<lambda>(m', resp). (m', Inl resp)) (mem_Complete m req)"

text \<open>The in-memory backend returns no error, so the error branch of the loop is not taken.\<close>

definition local_BatchReserve ::
    "go_time \<Rightarrow> memory_backend \<Rightarrow> batch_reserve_request \<Rightarrow>
     (memory_backend \<times> (batch_reserve_response + string)) option" where
  "local_BatchReserve clk m reqs =
     map_option (\<lambda>(m', rs). (m', Inl rs))
       (run_items (\<lambda>m req. map_option (\<lambda>(m', resp). (m', to_batch_reserve resp))
           (mem_Reserve clk m req clk)) m reqs)"

definition local_BatchComplete ::
    "memory_backend \<Rightarrow> batch_complete_request \<Rightarrow>
     (memory_backend \<times> (batch_complete_response + string)) option" where
  "local_BatchComplete m reqs =
     map_option (\<lambda>(m', rs). (m', Inl rs))
       (run_items (\<lambda>m req. map_option (\<lambda>(m', resp). (m', to_batch_complete resp))
           (mem_Complete m req)) m reqs)"

definition local_limiter :: "go_time \<Rightarrow> memory_backend limiter" where
  "local_limiter clk =
     \<lparr>lmReserve = local_Reserve clk, lmComplete = local_Complete,
      lmBatchReserve = \<lambda>m _. local_BatchReserve clk m, lmBatchComplete = \<lambda>m _. local_BatchComplete m\<rparr>"

section \<open>The HTTP client\<close>

text \<open>
  The client posts the request and decodes the body of a response with status 200; any other
  status is an error whose text names the status and the error code of the body.  The transport
  may fail before the request reaches the server or, with the answer lost, after it.  A body of
  another type decodes to the zero response, as JSON decoding does with unknown fields.
\<close>

datatype transport = Delivered | NotSent string | AnswerLost string

definition decodeHTTPError :: "int \<Rightarrow> http_body \<Rightarrow> string" where
  "decodeHTTPError status body =
     (case body of
        ErrorBody e \<Rightarrow>
          if e \<noteq> [] then ''http '' @ show_int status @ '': '' @ e else ''http '' @ show_int status
      | _ \<Rightarrow> ''http '' @ show_int status)"

definition http_call ::
    "transport \<Rightarrow> (http_body \<Rightarrow> 'r) \<Rightarrow> 'h \<Rightarrow> ('h \<times> http_response) option \<Rightarrow> ('h \<times> ('r + string)) option" where
  "http_call net dec h served =
     (case net of
        NotSent e \<Rightarrow> Some (h, Inr e)
      | AnswerLost e \<Rightarrow> map_option (\<lambda>(h', _). (h', Inr e)) served
      | Delivered \<Rightarrow>
          map_option (\<lambda>(h', status, body).
              (h', if status \<noteq> StatusOK then Inr (decodeHTTPError status body) else Inl (dec body)))
            served)"

definition http_Reserve where
  "http_Reserve ops net now h req =
     http_call net (\<lambda>b. case b of ReserveBody r \<Rightarrow> r | _ \<Rightarrow> reserve_response0) h
       (handleReserve ops now h ''POST'' (Some req))"

definition http_Complete where
  "http_Complete ops net h req =
     http_call net (\<lambda>b. case b of CompleteBody r \<Rightarrow> r | _ \<Rightarrow> complete_response0) h
       (handleComplete ops h ''POST'' (Some req))"

definition http_BatchReserve where
  "http_BatchReserve ops net now h reqs =
     http_call net (\<lambda>b. case b of BatchReserveBody rs \<Rightarrow> rs | _ \<Rightarrow> []) h
       (handleBatchReserve ops now h ''POST'' (Some reqs))"

definition http_BatchComplete where
  "http_BatchComplete ops net h reqs =
     http_call net (\<lambda>b. case b of BatchCompleteBody rs \<Rightarrow> rs | _ \<Rightarrow> []) h
       (handleBatchComplete ops h ''POST'' (Some reqs))"

definition http_limiter :: "'b backend_ops \<Rightarrow> transport \<Rightarrow> go_time \<Rightarrow> 'b api_handler limiter" where
  "http_limiter ops net now =
     \<lparr>lmReserve = http_Reserve ops net now, lmComplete = http_Complete ops net,
      lmBatchReserve = \<lambda>h _. http_BatchReserve ops net now h,
      lmBatchComplete = \<lambda>h _. http_BatchComplete ops net h\<rparr>"

end
