(* ===== verification/Batcher.thy ===== *)
theory Batcher
  imports Limiter
begin

text \<open>
  The batcher (pkg/ratelimiter/batcher.go, batcher_run.go): calls of \<open>Reserve\<close> and \<open>Complete\<close> wait
  in a channel, the run loop collects them and flushes them as one batch per kind when there are
  enough, when a timer fires, or when it stops, and each caller gets the answer for its item.
  An item carries an id that stands for its channels.
\<close>

section \<open>Items\<close>

datatype batch_kind = batchKindReserve | batchKindComplete

record batch_item =
  btId :: nat
  btKind :: batch_kind
  btReserve :: reserve_request
  btComplete :: complete_request
  btDeadline :: "go_time option"

text \<open>What is sent on an item's channels.\<close>

datatype delivery =
    ReserveDelivery reserve_response
  | CompleteDelivery complete_response
  | ErrDelivery string

fun earliestDeadline :: "batch_item list \<Rightarrow> go_time option \<Rightarrow> go_time option" where
  "earliestDeadline [] earliest = earliest"
| "earliestDeadline (item # items) earliest =
     (case btDeadline item of
        None \<Rightarrow> earliestDeadline items earliest
      | Some d \<Rightarrow>
          earliestDeadline items
            (case earliest of None \<Rightarrow> Some d | Some e \<Rightarrow> if Before d e then Some d else Some e))"

definition batchContext :: "batch_item list \<Rightarrow> go_time option" where
  "batchContext items = earliestDeadline items None"

section \<open>Flushing\<close>

definition sendReserveError :: "batch_item list \<Rightarrow> go_error \<Rightarrow> (nat \<times> delivery) list" where
  "sendReserveError items err =
     (let e = (case err of None \<Rightarrow> ''batch reserve response mismatch'' | Some e \<Rightarrow> e)
      in map (\<lambda>item. (btId item, ErrDelivery e)) items)"

definition sendCompleteError :: "batch_item list \<Rightarrow> go_error \<Rightarrow> (nat \<times> delivery) list" where
  "sendCompleteError items err =
     (let e = (case err of None \<Rightarrow> ''batch complete response mismatch'' | Some e \<Rightarrow> e)
      in map (\<lambda>item. (btId item, ErrDelivery e)) items)"

definition flushReserve ::
    "'l limiter \<Rightarrow> 'l \<Rightarrow> batch_item list \<Rightarrow> ('l \<times> (nat \<times> delivery) list) option" where
  "flushReserve lim l items =
     (case lmBatchReserve lim l (batchContext items) (map btReserve items) of
        None \<Rightarrow> None
      | Some (l', Inr err) \<Rightarrow> Some (l', sendReserveError items (Some err))
      | Some (l', Inl results) \<Rightarrow>
          if length results \<noteq> length items then Some (l', sendReserveError items None)
          else Some (l', map (\<lambda>(item, r). (btId item, ReserveDelivery (of_batch_reserve r)))
                           (zip items results)))"

definition flushComplete ::
    "'l limiter \<Rightarrow> 'l \<Rightarrow> batch_item list \<Rightarrow> ('l \<times> (nat \<times> delivery) list) option" where
  "flushComplete lim l items =
     (case lmBatchComplete lim l (batchContext items) (map btComplete items) of
        None \<Rightarrow> None
      | Some (l', Inr err) \<Rightarrow> Some (l', sendCompleteError items (Some err))
      | Some (l', Inl results) \<Rightarrow>
          if length results \<noteq> length items then Some (l', sendCompleteError items None)
          else Some (l', map (\<lambda>(item, r). (btId item, CompleteDelivery (of_batch_complete r)))
                           (zip items results)))"

definition reserve_items :: "batch_item list \<Rightarrow> batch_item list" where
  "reserve_items items = filter (\<lambda>item. btKind item = batchKindReserve) items"

definition complete_items :: "batch_item list \<Rightarrow> batch_item list" where
  "complete_items items = filter (\<lambda>item. btKind item = batchKindComplete) items"

definition flush ::
    "'l limiter \<Rightarrow> 'l \<Rightarrow> batch_item list \<Rightarrow> ('l \<times> (nat \<times> delivery) list) option" where
  "flush lim l items =
     do {
       (l1, d1) \<leftarrow> (if reserve_items items \<noteq> [] then flushReserve lim l (reserve_items items)
                    else Some (l, []));
       (l2, d2) \<leftarrow> (if complete_items items \<noteq> [] then flushComplete lim l1 (complete_items items)
                    else Some (l1, []));
       Some (l2, d1 @ d2)
     }"

section \<open>The run loop\<close>

text \<open>\<open>NewBatcher\<close>: a non-positive size is one, a non-positive interval two milliseconds.\<close>

definition batcher_max :: "go_int \<Rightarrow> nat" where
  "batcher_max maxBatch = (if maxBatch \<le> 0 then 1 else nat maxBatch)"

definition batcher_interval :: "duration \<Rightarrow> duration" where
  "batcher_interval flushInterval = (if flushInterval \<le> 0 then 2 * Millisecond else flushInterval)"

record 'l batcher =
  bcIn :: "batch_item list"
  bcPending :: "batch_item list"
  bcDelivered :: "(nat \<times> delivery) list"
  bcAccepted :: "nat list"
  bcDone :: bool
  bcLimiter :: 'l

definition NewBatcher :: "'l \<Rightarrow> 'l batcher" where
  "NewBatcher l = \<lparr>bcIn = [], bcPending = [], bcDelivered = [], bcAccepted = [], bcDone = False, bcLimiter = l\<rparr>"

text \<open>The closure \<open>flush\<close> of the run loop.\<close>

definition flush_pending :: "'l limiter \<Rightarrow> 'l batcher \<Rightarrow> 'l batcher option" where
  "flush_pending lim b =
     (if bcPending b = [] then Some b
      else do {
        (l, d) \<leftarrow> flush lim (bcLimiter b) (bcPending b);
        Some (b\<lparr>bcPending := [], bcLimiter := l, bcDelivered := bcDelivered b @ d\<rparr>)
      })"

text \<open>
  The events: a caller's send (the channel has room for twice the batch size), and the three
  cases of the loop's select.  The loop returns after it has stopped.  \<open>bcAccepted\<close> records the
  sends that went through.
\<close>

datatype batcher_event = Send batch_item | Receive | Tick | Stop

fun batcher_step :: "'l limiter \<Rightarrow> nat \<Rightarrow> 'l batcher \<Rightarrow> batcher_event \<Rightarrow> 'l batcher option" where
  "batcher_step lim n b (Send item) =
     (if length (bcIn b) < n * 2 then Some (b\<lparr>bcIn := bcIn b @ [item], bcAccepted := bcAccepted b @ [btId item]\<rparr>)
      else Some b)"
| "batcher_step lim n b Receive =
     (if bcDone b then Some b
      else case bcIn b of
        [] \<Rightarrow> Some b
      | item # rest \<Rightarrow>
          let b1 = b\<lparr>bcIn := rest, bcPending := bcPending b @ [item]\<rparr> in
          if length (bcPending b1) \<ge> n then flush_pending lim b1 else Some b1)"
| "batcher_step lim n b Tick = (if bcDone b then Some b else flush_pending lim b)"
| "batcher_step lim n b Stop =
     (if bcDone b then Some b
      else map_option (\<lambda>b. b\<lparr>bcDone := True\<rparr>) (flush_pending lim b))"

fun batcher_run :: "'l limiter \<Rightarrow> nat \<Rightarrow> 'l batcher \<Rightarrow> batcher_event list \<Rightarrow> 'l batcher option" where
  "batcher_run lim n b [] = Some b"
| "batcher_run lim n b (e # es) = do { b1 \<leftarrow> batcher_step lim n b e; batcher_run lim n b1 es }"

text \<open>
  The results a caller of \<open>Reserve\<close> or \<open>Complete\<close> may see: every case of its select that is
  enabled.  \<open>expired\<close> says that its context is done.
\<close>

datatype 'r call_result = CallOk 'r | CallErr string

definition caller_results :: "'l batcher \<Rightarrow> nat \<Rightarrow> bool \<Rightarrow> delivery call_result set" where
  "caller_results b k expired =
     (\<lambda>d. case d of ErrDelivery e \<Rightarrow> CallErr e | _ \<Rightarrow> CallOk d) ` {d. (k, d) \<in> set (bcDelivered b)} \<union>
     (if expired then {CallErr ''context done''} else {}) \<union>
     (if bcDone b then {CallErr ''batcher is closed''} else {})"

end
