(* ===== verification/Batcher_Theorems.thy ===== *)
theory Batcher_Theorems
  imports Batcher Mem_Examples
begin

text \<open>
  The properties of the batcher: every accepted call is answered at most once and none is lost
  while the loop runs, and a flush over a limiter whose batches are sequences of single calls
  (the contract \<open>batching\<close>) answers what the single calls would have answered.
\<close>

section \<open>Every item is answered once\<close>

lemma map_btId_zip: "length rs = length items \<Longrightarrow> map (\<lambda>p. btId (fst p)) (zip items rs) = map btId items"
  by (induction items rs rule: list_induct2') auto

lemma flushReserve_ids:
  "flushReserve lim l items = Some (l', d) \<Longrightarrow> map fst d = map btId items"
  by (auto simp: flushReserve_def sendReserveError_def Let_def comp_def split_def
      map_btId_zip split: option.splits sum.splits if_splits)

lemma flushComplete_ids:
  "flushComplete lim l items = Some (l', d) \<Longrightarrow> map fst d = map btId items"
  by (auto simp: flushComplete_def sendCompleteError_def Let_def comp_def split_def
      map_btId_zip split: option.splits sum.splits if_splits)

lemma mset_kinds: "mset (reserve_items items) + mset (complete_items items) = mset items"
proof (induction items)
  case (Cons i items)
  then show ?case by (cases "btKind i") (simp_all add: reserve_items_def complete_items_def)
qed (simp add: reserve_items_def complete_items_def)

lemma flush_ids:
  assumes "flush lim l items = Some (l', d)"
  shows "mset (map fst d) = mset (map btId items)"
proof -
  obtain l1 d1 l2 d2 where
    1: "(if reserve_items items \<noteq> [] then flushReserve lim l (reserve_items items) else Some (l, [])) = Some (l1, d1)"
    and 2: "(if complete_items items \<noteq> [] then flushComplete lim l1 (complete_items items) else Some (l1, [])) = Some (l2, d2)"
    and d: "d = d1 @ d2"
    using assms by (auto simp: flush_def split: Option.bind_splits prod.splits)
  have "map fst d1 = map btId (reserve_items items)"
    using 1 flushReserve_ids by (auto split: if_splits)
  moreover have "map fst d2 = map btId (complete_items items)"
    using 2 flushComplete_ids by (auto split: if_splits)
  ultimately show ?thesis
    using arg_cong[OF mset_kinds[of items], of "image_mset btId"] by (simp add: d)
qed

definition batcher_ok :: "nat \<Rightarrow> 'l batcher \<Rightarrow> bool" where
  "batcher_ok n b \<longleftrightarrow>
     mset (map fst (bcDelivered b)) + mset (map btId (bcPending b)) + mset (map btId (bcIn b)) =
       mset (bcAccepted b) \<and>
     length (bcPending b) < n \<and> length (bcIn b) \<le> n * 2 \<and> (bcDone b \<longrightarrow> bcPending b = [])"

lemma flush_pending_props:
  assumes "flush_pending lim b = Some b'"
  shows "bcPending b' = []" "bcIn b' = bcIn b" "bcAccepted b' = bcAccepted b" "bcDone b' = bcDone b"
    "mset (map fst (bcDelivered b')) = mset (map fst (bcDelivered b)) + mset (map btId (bcPending b))"
proof -
  have "bcPending b' = [] \<and> bcIn b' = bcIn b \<and> bcAccepted b' = bcAccepted b \<and> bcDone b' = bcDone b \<and>
    mset (map fst (bcDelivered b')) = mset (map fst (bcDelivered b)) + mset (map btId (bcPending b))"
  proof (cases "bcPending b = []")
    case False
    then obtain l d where f: "flush lim (bcLimiter b) (bcPending b) = Some (l, d)"
      "b' = b\<lparr>bcPending := [], bcLimiter := l, bcDelivered := bcDelivered b @ d\<rparr>"
      using assms by (auto simp: flush_pending_def split: Option.bind_splits)
    then show ?thesis using flush_ids[OF f(1)] by simp
  qed (use assms in \<open>simp add: flush_pending_def\<close>)
  then show "bcPending b' = []" "bcIn b' = bcIn b" "bcAccepted b' = bcAccepted b" "bcDone b' = bcDone b"
    "mset (map fst (bcDelivered b')) = mset (map fst (bcDelivered b)) + mset (map btId (bcPending b))"
    by simp_all
qed

lemma batcher_step_ok:
  assumes "batcher_step lim n b e = Some b'" "batcher_ok n b" "1 \<le> n"
  shows "batcher_ok n b'"
proof (cases e)
  case (Send item)
  with assms show ?thesis by (auto simp: batcher_ok_def split: if_splits)
next
  case Receive
  show ?thesis
  proof (cases "bcDone b \<or> bcIn b = []")
    case True
    with assms Receive show ?thesis by (auto split: if_splits)
  next
    case False
    then obtain item rest where i: "bcIn b = item # rest" by (cases "bcIn b") auto
    let ?b1 = "b\<lparr>bcIn := rest, bcPending := bcPending b @ [item]\<rparr>"
    have sum: "mset (map fst (bcDelivered ?b1)) + mset (map btId (bcPending ?b1)) + mset (map btId (bcIn ?b1)) =
       mset (bcAccepted ?b1)" "length (bcIn ?b1) \<le> n * 2"
      using assms(2) i by (simp_all add: batcher_ok_def)
    show ?thesis
    proof (cases "length (bcPending ?b1) \<ge> n")
      case True
      then have "flush_pending lim ?b1 = Some b'"
        using assms(1) Receive False i by (simp add: Let_def)
      from flush_pending_props[OF this] show ?thesis
        using sum assms(3) by (simp add: batcher_ok_def)
    next
      case False
      then have "b' = ?b1"
        using assms(1) Receive \<open>\<not> (bcDone b \<or> bcIn b = [])\<close> i by (simp add: Let_def)
      with sum False show ?thesis
        using \<open>\<not> (bcDone b \<or> bcIn b = [])\<close> by (simp add: batcher_ok_def)
    qed
  qed
next
  case Tick
  show ?thesis
  proof (cases "bcDone b")
    case False
    then have "flush_pending lim b = Some b'" using assms(1) Tick by simp
    from flush_pending_props[OF this] show ?thesis using assms(2,3) by (simp add: batcher_ok_def)
  qed (use assms Tick in simp)
next
  case Stop
  show ?thesis
  proof (cases "bcDone b")
    case False
    then obtain b1 where b1: "flush_pending lim b = Some b1" "b' = b1\<lparr>bcDone := True\<rparr>"
      using assms(1) Stop by auto
    from flush_pending_props[OF b1(1)] show ?thesis using assms(2,3) b1(2) by (simp add: batcher_ok_def)
  qed (use assms Stop in simp)
qed

lemma batcher_run_ok:
  "batcher_run lim n b es = Some b' \<Longrightarrow> batcher_ok n b \<Longrightarrow> 1 \<le> n \<Longrightarrow> batcher_ok n b'"
proof (induction es arbitrary: b)
  case (Cons e es)
  then obtain b1 where "batcher_step lim n b e = Some b1" "batcher_run lim n b1 es = Some b'"
    by (auto split: Option.bind_splits)
  then show ?case using Cons batcher_step_ok by blast
qed simp

text \<open>C24. Over any limiter, whatever it answers and in whatever order sends, receives, ticks and the
  stop come: every accepted call is, exactly once, answered, pending or waiting in the channel;
  fewer calls than the batch size are ever pending after a step, and none is once the loop has
  stopped.\<close>

theorem batcher_answers_once:
  assumes "batcher_run lim (batcher_max maxBatch) (NewBatcher l) es = Some b"
  shows "mset (map fst (bcDelivered b)) + mset (map btId (bcPending b)) + mset (map btId (bcIn b)) =
      mset (bcAccepted b) \<and>
    length (bcPending b) < batcher_max maxBatch \<and> (bcDone b \<longrightarrow> bcPending b = [])"
proof -
  have "1 \<le> batcher_max maxBatch" by (auto simp: batcher_max_def)
  moreover have "batcher_ok (batcher_max maxBatch) (NewBatcher l)"
    using calculation by (simp add: batcher_ok_def NewBatcher_def)
  ultimately show ?thesis using batcher_run_ok[OF assms] by (simp add: batcher_ok_def)
qed

definition ex_item :: "nat \<Rightarrow> reserve_request \<Rightarrow> batch_item" where
  "ex_item k req = \<lparr>btId = k, btKind = batchKindReserve, btReserve = req,
     btComplete = \<lparr>CLeaseID = [], CJobID = [], Actuals = []\<rparr>, btDeadline = None\<rparr>"

definition ex_citem :: "nat \<Rightarrow> complete_request \<Rightarrow> batch_item" where
  "ex_citem k req = \<lparr>btId = k, btKind = batchKindComplete, btReserve = \<lparr>LeaseID = [], JobID = [], Requirements = []\<rparr>,
     btComplete = req, btDeadline = Some (int k)\<rparr>"

definition ex_batch_run :: "memory_backend batcher option" where
  "ex_batch_run = batcher_run (local_limiter 1) (batcher_max 2) (NewBatcher ex_backend)
     [Send (ex_item 1 (ex_request ''a'' [(''k'', 4)])), Send (ex_citem 2 (ex_complete ''z'' [])),
      Receive, Receive, Send (ex_item 3 (ex_request ''b'' [(''k'', 4)]))]"

theorem batcher_answers_once_witness:
  "\<exists>b. ex_batch_run = Some b \<and> {#1, 2#} + mset (map btId (bcIn b)) = mset (bcAccepted b)"
proof -
  have r: "map_option (map fst \<circ> bcDelivered) ex_batch_run = Some [1, 2]"
    "map_option (map btId \<circ> bcPending) ex_batch_run = Some []" by code_simp+
  then obtain b where b: "ex_batch_run = Some b" by (cases ex_batch_run) simp_all
  then have "map fst (bcDelivered b) = [1, 2]" "bcPending b = []" using r unfolding b by simp_all
  moreover have "mset (map fst (bcDelivered b)) + mset (map btId (bcPending b)) + mset (map btId (bcIn b)) =
      mset (bcAccepted b)"
    using batcher_answers_once[OF b[unfolded ex_batch_run_def]] by simp
  ultimately have "{#1, 2#} + mset (map btId (bcIn b)) = mset (bcAccepted b)" by simp
  with b show ?thesis by blast
qed

section \<open>A flush is the single calls\<close>

definition response_or_error :: "reserve_response + string \<Rightarrow> reserve_response" where
  "response_or_error r = (case r of Inl x \<Rightarrow> x | Inr _ \<Rightarrow> reserve_response0\<lparr>Error := ''backend_error''\<rparr>)"

definition completion_or_error :: "complete_response + string \<Rightarrow> complete_response" where
  "completion_or_error r = (case r of Inl x \<Rightarrow> x | Inr _ \<Rightarrow> complete_response0\<lparr>CError := ''backend_error''\<rparr>)"

text \<open>The answer to one item if its call went to the limiter on its own.\<close>

definition direct_call :: "'l limiter \<Rightarrow> 'l \<Rightarrow> batch_item \<Rightarrow> ('l \<times> nat \<times> delivery) option" where
  "direct_call lim l item =
     (case btKind item of
        batchKindReserve \<Rightarrow>
          map_option (\<lambda>(l', r). (l', btId item, ReserveDelivery (response_or_error r)))
            (lmReserve lim l (btReserve item))
      | batchKindComplete \<Rightarrow>
          map_option (\<lambda>(l', r). (l', btId item, CompleteDelivery (completion_or_error r)))
            (lmComplete lim l (btComplete item)))"

locale batching =
  fixes lim :: "'l limiter"
  assumes batch_reserve_law: "lmBatchReserve lim l dl reqs =
      map_option (\<lambda>(l', rs). (l', Inl (map (to_batch_reserve \<circ> response_or_error) rs)))
        (run_items (lmReserve lim) l reqs)"
    and batch_complete_law: "lmBatchComplete lim l dl creqs =
      map_option (\<lambda>(l', rs). (l', Inl (map (to_batch_complete \<circ> completion_or_error) rs)))
        (run_items (lmComplete lim) l creqs)"
begin

lemma run_items_length: "run_items f l xs = Some (l', rs) \<Longrightarrow> length rs = length xs"
  by (induction xs arbitrary: l rs) (auto split: Option.bind_splits prod.splits)

lemma direct_reserves:
  "\<forall>item \<in> set items. btKind item = batchKindReserve \<Longrightarrow>
   run_items (direct_call lim) l items =
     map_option (\<lambda>(l', rs). (l', map (\<lambda>(item, r). (btId item, ReserveDelivery (response_or_error r))) (zip items rs)))
       (run_items (lmReserve lim) l (map btReserve items))"
proof (induction items arbitrary: l)
  case (Cons item items)
  then show ?case
    by (cases "lmReserve lim l (btReserve item)")
       (auto simp: direct_call_def split: Option.bind_splits prod.splits)
qed simp

lemma direct_completes:
  "\<forall>item \<in> set items. btKind item = batchKindComplete \<Longrightarrow>
   run_items (direct_call lim) l items =
     map_option (\<lambda>(l', rs). (l', map (\<lambda>(item, r). (btId item, CompleteDelivery (completion_or_error r))) (zip items rs)))
       (run_items (lmComplete lim) l (map btComplete items))"
proof (induction items arbitrary: l)
  case (Cons item items)
  then show ?case
    by (cases "lmComplete lim l (btComplete item)")
       (auto simp: direct_call_def split: Option.bind_splits prod.splits)
qed simp

lemma flushReserve_direct:
  assumes "\<forall>item \<in> set items. btKind item = batchKindReserve"
  shows "flushReserve lim l items = run_items (direct_call lim) l items"
  unfolding flushReserve_def batch_reserve_law direct_reserves[OF assms]
  by (cases "run_items (lmReserve lim) l (map btReserve items)")
     (auto simp: zip_map2 comp_def split_def dest!: run_items_length)

lemma flushComplete_direct:
  assumes "\<forall>item \<in> set items. btKind item = batchKindComplete"
  shows "flushComplete lim l items = run_items (direct_call lim) l items"
  unfolding flushComplete_def batch_complete_law direct_completes[OF assms]
  by (cases "run_items (lmComplete lim) l (map btComplete items)")
     (auto simp: zip_map2 comp_def split_def dest!: run_items_length)

lemma run_items_append:
  "run_items f l (xs @ ys) =
     do { (l1, rs) \<leftarrow> run_items f l xs; (l2, rs') \<leftarrow> run_items f l1 ys; Some (l2, rs @ rs') }"
  by (induction xs arbitrary: l) (auto split: Option.bind_splits prod.splits)

lemma flush_direct:
  "flush lim l items = run_items (direct_call lim) l (reserve_items items @ complete_items items)"
proof -
  have r: "(if reserve_items items \<noteq> [] then flushReserve lim l (reserve_items items) else Some (l, [])) =
      run_items (direct_call lim) l (reserve_items items)" for l
    using flushReserve_direct[of "reserve_items items"] by (simp add: reserve_items_def)
  have c: "(if complete_items items \<noteq> [] then flushComplete lim l (complete_items items) else Some (l, [])) =
      run_items (direct_call lim) l (complete_items items)" for l
    using flushComplete_direct[of "complete_items items"] by (simp add: complete_items_def)
  show ?thesis unfolding flush_def r c run_items_append ..
qed

end

interpretation noop_batching: batching noop_limiter
proof (unfold_locales, goal_cases)
  case (1 l dl reqs)
  have "run_items (lmReserve noop_limiter) l reqs =
      Some (l, map (\<lambda>_. Inl (reserve_response0\<lparr>Allowed := True\<rparr>)) reqs)"
    by (induction reqs) (simp_all add: noop_limiter_def go_result_def noop_Reserve_def)
  then show ?case by (simp add: noop_limiter_def go_result_def noop_BatchReserve_def response_or_error_def)
next
  case (2 l dl creqs)
  have "run_items (lmComplete noop_limiter) l creqs =
      Some (l, map (\<lambda>_. Inl (complete_response0\<lparr>Ok := True\<rparr>)) creqs)"
    by (induction creqs) (simp_all add: noop_limiter_def go_result_def noop_Complete_def)
  then show ?case by (simp add: noop_limiter_def go_result_def noop_BatchComplete_def completion_or_error_def)
qed

lemma run_items_map:
  assumes "\<And>l x. f l x = map_option (\<lambda>(l', r). (l', h r)) (g l x)"
  shows "run_items f l xs = map_option (\<lambda>(l', rs). (l', map h rs)) (run_items g l xs)"
proof (induction xs arbitrary: l)
  case (Cons x xs)
  show ?case
  proof (cases "g l x")
    case (Some lr)
    then show ?thesis
      using Cons by (cases lr; cases "run_items g (fst lr) xs") (auto simp: assms)
  qed (simp add: assms)
qed simp

interpretation local_batching: batching "local_limiter clk"
  for clk
proof (unfold_locales, goal_cases)
  case (1 l dl reqs)
  have "run_items (\<lambda>m req. map_option (\<lambda>(m', resp). (m', to_batch_reserve resp)) (mem_Reserve clk m req clk)) l reqs =
      map_option (\<lambda>(l', rs). (l', map (to_batch_reserve \<circ> response_or_error) rs))
        (run_items (local_Reserve clk) l reqs)"
    by (rule run_items_map)
       (simp add: local_Reserve_def response_or_error_def option.map_comp comp_def split_def)
  then show ?case
    by (simp add: local_limiter_def local_BatchReserve_def option.map_comp comp_def split_def)
next
  case (2 l dl creqs)
  have "run_items (\<lambda>m req. map_option (\<lambda>(m', resp). (m', to_batch_complete resp)) (mem_Complete m req)) l creqs =
      map_option (\<lambda>(l', rs). (l', map (to_batch_complete \<circ> completion_or_error) rs))
        (run_items local_Complete l creqs)"
    by (rule run_items_map)
       (simp add: local_Complete_def completion_or_error_def option.map_comp comp_def split_def)
  then show ?case
    by (simp add: local_limiter_def local_BatchComplete_def option.map_comp comp_def split_def)
qed

text \<open>C25. Batching does not change answers: over the in-process client of the in-memory backend a
  flush leads to the state, and sends each caller the response, that calling \<open>Reserve\<close> and
  \<open>Complete\<close> directly would have, item by item: first the reservations in the order they came,
  then the completions in theirs.\<close>

theorem flush_is_direct_calls:
  "flush (local_limiter clk) m items =
     run_items (direct_call (local_limiter clk)) m (reserve_items items @ complete_items items)"
  by (rule local_batching.flush_direct)

section \<open>Where the batcher falls short\<close>

lemma show_int_400: "show_int 400 = ''400''"
  by code_simp

text \<open>
  A batch of more than 256 calls is refused as a whole by the daemon, so that every caller of a
  batcher configured with a larger batch size gets an error once that many calls are pending.
\<close>

theorem oversize_batch_fails:
  assumes "ahBackend h = Some b" "256 < length items"
  shows "flushReserve (http_limiter ops Delivered now) h items =
    Some (h, map (\<lambda>item. (btId item, ErrDelivery ''http 400: invalid_request'')) items)"
  using assms
  by (simp add: flushReserve_def http_limiter_def http_BatchReserve_def http_call_def
      handleBatchReserve_def maxBatchRequests_def writeError_def decodeHTTPError_def StatusOK_def
      StatusBadRequest_def sendReserveError_def show_int_400)

text \<open>
  A stop flushes what the loop has received, not what is queued in the channel: the queued call is
  never answered but by the closed batcher.  And a call whose reservation the final flush made
  may still be told that the batcher is closed, while its lease stays recorded.
\<close>

theorem stop_abandons_queued_call:
  "\<exists>b. batcher_run (local_limiter 1) 2 (NewBatcher ex_backend)
      [Send (ex_item 1 (ex_request ''a'' [(''k'', 4)])), Stop] = Some b \<and>
    bcDelivered b = [] \<and> length (bcIn b) = 1 \<and> caller_results b 1 False = {CallErr ''batcher is closed''}"
  by (simp add: NewBatcher_def flush_pending_def caller_results_def)

definition stopped_batcher :: "memory_backend batcher" where
  "stopped_batcher = the (batcher_run (local_limiter 1) 2 (NewBatcher ex_backend)
     [Send (ex_item 1 (ex_request ''a'' [(''k'', 4)])), Receive, Stop])"

theorem stop_may_hide_a_reservation:
  "CallErr ''batcher is closed'' \<in> caller_results stopped_batcher 1 False \<and>
   CallOk (ReserveDelivery (reserve_response0\<lparr>Allowed := True\<rparr>)) \<in> caller_results stopped_batcher 1 False \<and>
   mbLeases (bcLimiter stopped_batcher) ''a'' \<noteq> None"
proof -
  have "bcDone stopped_batcher"
    "bcDelivered stopped_batcher = [(1, ReserveDelivery (reserve_response0\<lparr>Allowed := True\<rparr>))]"
    "\<not> Option.is_none (mbLeases (bcLimiter stopped_batcher) ''a'')"
    by code_simp+
  then show ?thesis by (auto simp: caller_results_def Option.is_none_def)
qed

end
