(* ===== verification/TB_Util.thy ===== *)
theory TB_Util
  imports RL_Types
begin

text \<open>
  Package \<open>internal/tbutil\<close>, the layer between the TigerBeetle backend and the TigerBeetle client:
  deterministic ids (ids.go), 128-bit amounts (uint128.go), the submitter that batches transfers
  (submitter.go) and the pool of clients (client\_pool.go).  TigerBeetle and its client are not
  part of the repository: the transfers and accounts are the structs the code fills in, and what
  the service answers is a parameter.  SHA-256 is a parameter as well.
\<close>

section \<open>Ids\<close>

type_synonym byte = "8 word"
type_synonym tb_id = "byte list"

definition operatorAccountLabel :: string where "operatorAccountLabel = ''acct:operator''"
definition limitAccountPrefix :: string where "limitAccountPrefix = ''acct:limit:''"
definition debtAccountPrefix :: string where "debtAccountPrefix = ''acct:debt:''"
definition reserveTransferPref :: string where "reserveTransferPref = ''xfer:reserve:''"
definition voidTransferPref :: string where "voidTransferPref = ''xfer:void:''"
definition rereserveTransferPref :: string where "rereserveTransferPref = ''xfer:rereserve:''"
definition debtTransferPref :: string where "debtTransferPref = ''xfer:debt:''"
definition decreaseTransferPref :: string where "decreaseTransferPref = ''xfer:decrease:''"

lemmas tb_labels = operatorAccountLabel_def limitAccountPrefix_def debtAccountPrefix_def
  reserveTransferPref_def voidTransferPref_def rereserveTransferPref_def debtTransferPref_def
  decreaseTransferPref_def

definition isZero :: "byte list \<Rightarrow> bool" where
  "isZero raw \<longleftrightarrow> list_all (\<lambda>b. b = 0) raw"

definition isMax :: "byte list \<Rightarrow> bool" where
  "isMax raw \<longleftrightarrow> list_all (\<lambda>b. b = 255) raw"

text \<open>The first 16 bytes of the hash, with a bit flipped when they are a reserved id.\<close>

definition ID128 :: "(string \<Rightarrow> byte list) \<Rightarrow> string \<Rightarrow> tb_id" where
  "ID128 sha256 label =
     (let raw = take 16 (sha256 label) in
      if isZero raw \<or> isMax raw then raw[0 := Bit_Operations.xor (raw ! 0) 1] else raw)"

definition ratelimiterKeySuffix :: "uint64 \<Rightarrow> string" where
  "ratelimiterKeySuffix target = decimal (unat target)"

text \<open>
  The labels the ids are hashes of: the string each id function builds.  \<open>CapacityLabel\<close> is that
  of \<open>capacityTransferID\<close> in internal/backend/tb/helpers.go.
\<close>

datatype tb_label =
    OperatorLabel
  | LimitLabel limit_key
  | DebtAccountLabel limit_key
  | ReserveLabel string limit_key
  | VoidLabel string limit_key
  | RereserveLabel string limit_key
  | DebtLabel string limit_key
  | DecreaseLabel limit_key uint64
  | CapacityLabel limit_key uint64

fun label_text :: "tb_label \<Rightarrow> string" where
  "label_text OperatorLabel = operatorAccountLabel"
| "label_text (LimitLabel key) = limitAccountPrefix @ key"
| "label_text (DebtAccountLabel key) = debtAccountPrefix @ key"
| "label_text (ReserveLabel lease key) = reserveTransferPref @ lease @ '':'' @ key"
| "label_text (VoidLabel lease key) = voidTransferPref @ lease @ '':'' @ key"
| "label_text (RereserveLabel lease key) = rereserveTransferPref @ lease @ '':'' @ key"
| "label_text (DebtLabel lease key) = debtTransferPref @ lease @ '':'' @ key"
| "label_text (DecreaseLabel key target) = decreaseTransferPref @ key @ '':'' @ ratelimiterKeySuffix target"
| "label_text (CapacityLabel key target) = ''xfer:capacity:'' @ key @ '':'' @ decimal (unat target)"

text \<open>The lease a label names, if it names one.\<close>

fun label_lease :: "tb_label \<Rightarrow> string" where
  "label_lease (ReserveLabel lease key) = lease"
| "label_lease (VoidLabel lease key) = lease"
| "label_lease (RereserveLabel lease key) = lease"
| "label_lease (DebtLabel lease key) = lease"
| "label_lease _ = []"

definition OperatorAccountID where "OperatorAccountID sha = ID128 sha (label_text OperatorLabel)"
definition LimitAccountID where "LimitAccountID sha key = ID128 sha (label_text (LimitLabel key))"
definition DebtAccountID where "DebtAccountID sha key = ID128 sha (label_text (DebtAccountLabel key))"
definition ReserveTransferID where
  "ReserveTransferID sha lease key = ID128 sha (label_text (ReserveLabel lease key))"
definition VoidTransferID where
  "VoidTransferID sha lease key = ID128 sha (label_text (VoidLabel lease key))"
definition RereserveTransferID where
  "RereserveTransferID sha lease key = ID128 sha (label_text (RereserveLabel lease key))"
definition DebtTransferID where
  "DebtTransferID sha lease key = ID128 sha (label_text (DebtLabel lease key))"
definition DecreaseTransferID where
  "DecreaseTransferID sha key target = ID128 sha (label_text (DecreaseLabel key target))"
definition capacityTransferID where
  "capacityTransferID sha key target = ID128 sha (label_text (CapacityLabel key target))"

text \<open>Texts split uniquely at the first colon, and at the last.\<close>

lemma split_first_colon:
  "CHR '':'' \<notin> set a \<Longrightarrow> CHR '':'' \<notin> set c \<Longrightarrow>
   a @ CHR '':'' # b = c @ CHR '':'' # d \<longleftrightarrow> a = c \<and> b = d"
  by (induction a arbitrary: c) (case_tac c; auto)+

lemma split_last_colon:
  "CHR '':'' \<notin> set b \<Longrightarrow> CHR '':'' \<notin> set d \<Longrightarrow>
   a @ CHR '':'' # b = c @ CHR '':'' # d \<longleftrightarrow> a = c \<and> b = d"
  using split_first_colon[of "rev b" "rev d" "rev a" "rev c"]
  by (metis rev.simps(2) rev_append rev_rev_ident append.assoc append_Cons append_Nil set_rev)

lemma label_text_inject:
  assumes "CHR '':'' \<notin> set (label_lease x)" "CHR '':'' \<notin> set (label_lease y)"
    and "label_text x = label_text y"
  shows "x = y"
  using assms
  by (cases x; cases y)
     (auto simp: tb_labels ratelimiterKeySuffix_def split_first_colon split_last_colon
        unsigned_word_eqI)

lemma ID128_valid:
  assumes "length (sha label) = 32"
  shows "length (ID128 sha label) = 16 \<and> \<not> isZero (ID128 sha label) \<and> \<not> isMax (ID128 sha label)"
proof -
  define raw where "raw = take 16 (sha label)"
  have len: "length raw = 16" using assms by (simp add: raw_def)
  then obtain b c rest where raw: "raw = b # c # rest" by (cases raw rule: list.exhaust; cases "tl raw") auto
  have flip: "Bit_Operations.xor (0 :: byte) 1 = 1" "Bit_Operations.xor (255 :: byte) 1 = 254" by simp_all
  have "length (ID128 sha label) = 16"
    using len unfolding ID128_def raw_def[symmetric] by (simp add: Let_def)
  moreover have "\<not> isZero (ID128 sha label) \<and> \<not> isMax (ID128 sha label)"
    unfolding ID128_def raw_def[symmetric] Let_def
    using raw flip by (auto simp: isZero_def isMax_def)
  ultimately show ?thesis by blast
qed

section \<open>Amounts\<close>

type_synonym uint128 = "128 word"

definition Uint128FromUint64 :: "uint64 \<Rightarrow> uint128" where
  "Uint128FromUint64 v = ucast v"

text \<open>The panic on overflow is \<open>None\<close>.\<close>

definition Uint128ToUint64 :: "uint128 \<Rightarrow> uint64 option" where
  "Uint128ToUint64 v = (if drop_bit 64 v \<noteq> 0 then None else Some (ucast v))"

lemma unat_ucast_128: "unat (ucast (v :: uint64) :: uint128) = unat v"
proof -
  have "unat v < 2 ^ 64" by (rule order.strict_trans2[OF unsigned_less]) simp
  then show ?thesis by (simp add: unsigned_ucast_eq take_bit_nat_eq_self)
qed

lemma drop_bit_64_eq_0: "drop_bit 64 (v :: uint128) = 0 \<longleftrightarrow> unat v < 2 ^ 64"
proof -
  have "drop_bit 64 v = 0 \<longleftrightarrow> unat v div 2 ^ 64 = 0"
    by (metis drop_bit_eq_div unat_drop_bit_eq unat_eq_0)
  then show ?thesis by (simp add: div_eq_0_iff)
qed

lemma Uint128_roundtrip [simp]: "Uint128ToUint64 (Uint128FromUint64 v) = Some v"
proof -
  have "drop_bit 64 (ucast v :: uint128) = 0"
    using unsigned_less[of v, where ?'a = nat] by (simp add: drop_bit_64_eq_0 unat_ucast_128)
  moreover have "ucast (ucast v :: uint128) = v"
    by (rule ucast_up_ucast_id) (simp add: is_up)
  ultimately show ?thesis by (simp add: Uint128ToUint64_def Uint128FromUint64_def)
qed

lemma Uint128ToUint64_unat: "Uint128ToUint64 v = Some w \<Longrightarrow> unat w = unat v"
  by (auto simp: Uint128ToUint64_def drop_bit_64_eq_0 unsigned_ucast_eq take_bit_nat_eq_self
      split: if_splits)

lemma Uint128ToUint64_defined: "Uint128ToUint64 v \<noteq> None \<longleftrightarrow> unat v < 2 ^ 64"
  by (simp add: Uint128ToUint64_def drop_bit_64_eq_0)

end
