(* ===== verification/TB_Submitter.thy ===== *)
theory TB_Submitter
  imports TB_Util
begin

text \<open>
  The submitter (internal/tbutil/submitter.go): callers queue work items, each a list of
  transfers; the run loop joins the items it has received into one \<open>CreateTransfers\<close> call when the
  batch is full, when a timer fires or when it stops, and hands each item the failures of its own
  transfers.  And the pool of client sessions (client\_pool.go).
\<close>

section \<open>Transfers\<close>

text \<open>The fields of \<open>tbtypes.Transfer\<close> the code sets; the flags are kept as the struct.\<close>

record tb_transfer =
  tfID :: tb_id
  tfDebit :: tb_id
  tfCredit :: tb_id
  tfAmount :: uint128
  tfPendingID :: "tb_id option"
  tfLedger :: "32 word"
  tfCode :: "16 word"
  tfTimeout :: "32 word"
  tfPending :: bool
  tfLinked :: bool
  tfVoid :: bool

text \<open>The results the code names; any other is known by its text.\<close>

datatype transfer_result =
    TransferExists
  | TransferExceedsCredits
  | TransferExceedsDebits
  | TransferLinkedEventFailed
  | TransferPendingTransferExpired
  | TransferPendingTransferAlreadyVoided
  | TransferPendingTransferAlreadyPosted
  | TransferPendingTransferNotFound
  | OtherTransferResult string

type_synonym transfer_errors = "nat \<rightharpoonup> transfer_result"

text \<open>\<open>WorkResult\<close>: the errors by the transfer's index in its item, or the error of the call.\<close>

type_synonym work_result = "transfer_errors + string"

record work_item =
  wiId :: nat
  wiTransfers :: "tb_transfer list"

text \<open>
  What a \<open>CreateTransfers\<close> call does to the service and answers: the failures with the index of
  their transfer, or an error (also when no client could be acquired).
\<close>

type_synonym 's create_transfers =
  "'s \<Rightarrow> tb_transfer list \<Rightarrow> 's \<times> ((nat \<times> transfer_result) list + string)"

section \<open>Flushing\<close>

fun totalTransfers :: "work_item list \<Rightarrow> nat" where
  "totalTransfers [] = 0"
| "totalTransfers (item # items) = length (wiTransfers item) + totalTransfers items"

text \<open>The spans: each item with its start in the batch.\<close>

fun work_spans :: "nat \<Rightarrow> work_item list \<Rightarrow> (work_item \<times> nat) list" where
  "work_spans cursor [] = []"
| "work_spans cursor (item # items) =
     (item, cursor) # work_spans (cursor + length (wiTransfers item)) items"

definition error_map :: "(nat \<times> transfer_result) list \<Rightarrow> transfer_errors" where
  "error_map results = foldl (\<lambda>m (index, result). m(index \<mapsto> result)) Map.empty results"

definition item_errors :: "transfer_errors \<Rightarrow> nat \<Rightarrow> nat \<Rightarrow> transfer_errors" where
  "item_errors errorMap start len = (\<lambda>i. if i < len then errorMap (start + i) else None)"

definition submitter_flush ::
    "'s create_transfers \<Rightarrow> 's \<Rightarrow> work_item list \<Rightarrow> 's \<times> (nat \<times> work_result) list" where
  "submitter_flush create s items =
     (case create s (concat (map wiTransfers items)) of
        (s', Inr err) \<Rightarrow> (s', map (\<lambda>(item, _). (wiId item, Inr err)) (work_spans 0 items))
      | (s', Inl results) \<Rightarrow>
          let errorMap = error_map results in
          (s', map (\<lambda>(item, start).
                 (wiId item, Inl (item_errors errorMap start (length (wiTransfers item)))))
               (work_spans 0 items)))"

section \<open>The run loop\<close>

record 's submitter =
  smPending :: "work_item list"
  smService :: 's
  smReplies :: "(nat \<times> work_result) list"
  smBatches :: "nat list"
  smStopped :: bool

definition NewSubmitter :: "'s \<Rightarrow> 's submitter" where
  "NewSubmitter s = \<lparr>smPending = [], smService = s, smReplies = [], smBatches = [], smStopped = False\<rparr>"

text \<open>The closure \<open>flush\<close> of \<open>Run\<close>; \<open>smBatches\<close> records how many transfers each call carried.\<close>

definition flush_work :: "'s create_transfers \<Rightarrow> 's submitter \<Rightarrow> 's submitter" where
  "flush_work create m =
     (if smPending m = [] then m
      else let (s, replies) = submitter_flush create (smService m) (smPending m) in
        m\<lparr>smPending := [], smService := s, smReplies := smReplies m @ replies,
          smBatches := smBatches m @ [totalTransfers (smPending m)]\<rparr>)"

datatype submitter_event = WorkReceived work_item | FlushTimer | ContextDone

text \<open>The texts of the errors are the source's.\<close>

fun submitter_step :: "'s create_transfers \<Rightarrow> nat \<Rightarrow> 's submitter \<Rightarrow> submitter_event \<Rightarrow> 's submitter" where
  "submitter_step create maxEvents m (WorkReceived item) =
     (if smStopped m then m
      else if length (wiTransfers item) > maxEvents then
        m\<lparr>smReplies := smReplies m @ [(wiId item, Inr ''work item exceeds max batch size'')]\<rparr>
      else
        let m1 = (if smPending m \<noteq> [] \<and> totalTransfers (smPending m) + length (wiTransfers item) > maxEvents
                  then flush_work create m else m);
            m2 = m1\<lparr>smPending := smPending m1 @ [item]\<rparr>
        in if totalTransfers (smPending m2) \<ge> maxEvents then flush_work create m2 else m2)"
| "submitter_step create maxEvents m FlushTimer =
     (if smStopped m then m else flush_work create m)"
| "submitter_step create maxEvents m ContextDone =
     (if smStopped m then m else (flush_work create m)\<lparr>smStopped := True\<rparr>)"

definition submitter_run ::
    "'s create_transfers \<Rightarrow> nat \<Rightarrow> 's submitter \<Rightarrow> submitter_event list \<Rightarrow> 's submitter" where
  "submitter_run create maxEvents m es = foldl (submitter_step create maxEvents) m es"

text \<open>The items the loop received before it stopped.\<close>

fun received_items :: "submitter_event list \<Rightarrow> work_item list" where
  "received_items [] = []"
| "received_items (WorkReceived item # es) = item # received_items es"
| "received_items (FlushTimer # es) = received_items es"
| "received_items (ContextDone # es) = []"

section \<open>Routing\<close>

lemma totalTransfers_append [simp]:
  "totalTransfers (xs @ ys) = totalTransfers xs + totalTransfers ys"
  by (induction xs) auto

lemma totalTransfers_concat: "totalTransfers items = length (concat (map wiTransfers items))"
  by (induction items) auto

lemma work_spans_append:
  "work_spans c (xs @ ys) = work_spans c xs @ work_spans (c + totalTransfers xs) ys"
  by (induction xs arbitrary: c) (auto simp: add.assoc)

lemma work_spans_items [simp]: "map fst (work_spans c items) = items"
  by (induction items arbitrary: c) auto

lemma map_fst_replies: "map (\<lambda>(item, start). (wiId item, f item start)) sps =
    zip (map (wiId \<circ> fst) sps) (map (\<lambda>(item, start). f item start) sps)"
  by (induction sps) auto

lemma submitter_flush_ids: "map fst (snd (submitter_flush create s items)) = map wiId items"
proof -
  have ids: "map (\<lambda>p. wiId (fst p)) (work_spans c xs) = map wiId xs" for c xs
    by (induction xs arbitrary: c) auto
  show ?thesis
    by (auto simp: submitter_flush_def Let_def case_prod_beta comp_def ids split: sum.splits prod.splits)
qed

text \<open>
  A service decides a batch chain by chain when a batch that ends a chain can be cut in two: the
  service is left in the state, and reports the failures, that the two calls would have led to.
  (TigerBeetle applies the events of a batch in order, and only linked events depend on the rest
  of their chain.)
\<close>

definition ends_chain :: "tb_transfer list \<Rightarrow> bool" where
  "ends_chain ts \<longleftrightarrow> ts \<noteq> [] \<and> \<not> tfLinked (last ts)"

definition shift_results :: "nat \<Rightarrow> (nat \<times> transfer_result) list \<Rightarrow> (nat \<times> transfer_result) list" where
  "shift_results n rs = map (\<lambda>(i, r). (n + i, r)) rs"

definition decides_by_chain :: "'s create_transfers \<Rightarrow> bool" where
  "decides_by_chain create \<longleftrightarrow>
     (\<forall>s ts us. ends_chain ts \<longrightarrow> us \<noteq> [] \<longrightarrow>
        (\<exists>s1 s2 rs qs. create s ts = (s1, Inl rs) \<and> create s1 us = (s2, Inl qs) \<and>
           create s (ts @ us) = (s2, Inl (rs @ shift_results (length ts) qs)))) \<and>
     (\<forall>s ts s1 rs. create s ts = (s1, Inl rs) \<longrightarrow> (\<forall>p \<in> set rs. fst p < length ts))"

lemma error_map_fold:
  "foldl (\<lambda>m (index, result). m(index \<mapsto> result)) m0 rs = m0 ++ error_map rs"
proof (induction rs rule: rev_induct)
  case (snoc x xs)
  then show ?case by (cases x) (simp add: error_map_def map_add_def fun_eq_iff)
qed (simp add: error_map_def)

lemma error_map_append: "error_map (rs @ qs) = error_map rs ++ error_map qs"
proof -
  have "error_map (rs @ qs) =
      foldl (\<lambda>m (index, result). m(index \<mapsto> result)) (error_map rs) qs"
    by (simp add: error_map_def)
  then show ?thesis using error_map_fold by metis
qed

lemma error_map_single [simp]: "error_map [p] = [fst p \<mapsto> snd p]"
  by (cases p) (simp add: error_map_def)

lemma error_map_Nil [simp]: "error_map [] = Map.empty"
  by (simp add: error_map_def)

lemma error_map_dom: "dom (error_map rs) = fst ` set rs"
proof (induction rs rule: rev_induct)
  case (snoc p rs)
  have "dom (error_map (rs @ [p])) = insert (fst p) (dom (error_map rs))"
    unfolding error_map_append error_map_single by auto
  with snoc show ?case by simp
qed simp

lemma outside_dom:
  fixes n :: nat
  assumes "dom em \<subseteq> {..<n}" "n \<le> i"
  shows "em i = None"
proof (rule ccontr)
  assume "em i \<noteq> None"
  then have "i \<in> dom em" by (simp add: domIff)
  then have "i \<in> {..<n}" using assms(1) by (simp only: subsetD)
  with assms(2) show False by simp
qed

lemma error_map_shift: "error_map (shift_results n rs) i = (if i < n then None else error_map rs (i - n))"
proof (induction rs rule: rev_induct)
  case (snoc x xs)
  have "shift_results n (xs @ [x]) = shift_results n xs @ [(n + fst x, snd x)]"
    by (cases x) (simp add: shift_results_def)
  then show ?case
    using snoc by (auto simp: error_map_append map_add_def split: option.splits)
qed (simp add: shift_results_def)

text \<open>An item alone in its batch gets the failures as they are.\<close>

definition submit_alone :: "'s create_transfers \<Rightarrow> 's \<Rightarrow> tb_transfer list \<Rightarrow> 's \<times> work_result" where
  "submit_alone create s ts =
     (case create s ts of (s', Inr err) \<Rightarrow> (s', Inr err) | (s', Inl rs) \<Rightarrow> (s', Inl (error_map rs)))"

fun submit_in_turn ::
    "'s create_transfers \<Rightarrow> 's \<Rightarrow> work_item list \<Rightarrow> 's \<times> (nat \<times> work_result) list" where
  "submit_in_turn create s [] = (s, [])"
| "submit_in_turn create s (item # items) =
     (let (s1, r) = submit_alone create s (wiTransfers item);
          (s2, rs) = submit_in_turn create s1 items
      in (s2, (wiId item, r) # rs))"

lemma chain_cut:
  assumes "decides_by_chain create" "ends_chain ts" "us \<noteq> []"
  obtains s1 s2 rs qs where "create s ts = (s1, Inl rs)" "create s1 us = (s2, Inl qs)"
    "create s (ts @ us) = (s2, Inl (rs @ shift_results (length ts) qs))"
    "dom (error_map rs) \<subseteq> {..<length ts}"
proof -
  obtain s1 s2 rs qs where *: "create s ts = (s1, Inl rs)" "create s1 us = (s2, Inl qs)"
    "create s (ts @ us) = (s2, Inl (rs @ shift_results (length ts) qs))"
    using assms unfolding decides_by_chain_def by blast
  then have "\<forall>p \<in> set rs. fst p < length ts"
    using assms(1) unfolding decides_by_chain_def by blast
  then have "dom (error_map rs) \<subseteq> {..<length ts}" by (auto simp: error_map_dom)
  then show ?thesis using * that by blast
qed

text \<open>The replies of a flush depend on the batch only through the map of errors.\<close>

definition span_reply :: "transfer_errors \<Rightarrow> work_item \<times> nat \<Rightarrow> nat \<times> work_result" where
  "span_reply em = (\<lambda>(item, start).
     (wiId item, Inl (item_errors em start (length (wiTransfers item)))))"

lemma flush_Inl:
  "create s (concat (map wiTransfers items)) = (s', Inl rs) \<Longrightarrow>
   submitter_flush create s items = (s', map (span_reply (error_map rs)) (work_spans 0 items))"
  by (simp add: submitter_flush_def Let_def span_reply_def)

lemma span_reply_shift:
  assumes "dom em1 \<subseteq> {..<n}"
  shows "map (span_reply (em1 ++ error_map (shift_results n qs))) (work_spans (n + c) items) =
    map (span_reply (error_map qs)) (work_spans c items)"
proof (induction items arbitrary: c)
  case (Cons item items)
  have "(em1 ++ error_map (shift_results n qs)) (n + k) = error_map qs k" for k
    using outside_dom[OF assms, of "n + k"] by (simp add: map_add_def error_map_shift split: option.splits)
  then have "item_errors (em1 ++ error_map (shift_results n qs)) (n + c) l = item_errors (error_map qs) c l" for l
    by (auto simp: item_errors_def fun_eq_iff add.assoc)
  with Cons[of "c + length (wiTransfers item)"] show ?case by (simp add: span_reply_def add.assoc)
qed simp

lemma flush_one:
  assumes "create s (wiTransfers item) = (s', Inl rs)" "dom (error_map rs) \<subseteq> {..<length (wiTransfers item)}"
  shows "submitter_flush create s [item] = (s', [(wiId item, Inl (error_map rs))])"
proof -
  have "item_errors (error_map rs) 0 (length (wiTransfers item)) = error_map rs"
    using outside_dom[OF assms(2)] by (auto simp: item_errors_def fun_eq_iff)
  then show ?thesis using assms(1) by (simp add: flush_Inl span_reply_def)
qed

lemma flush_Cons:
  assumes "decides_by_chain create" "ends_chain (wiTransfers item)" "items \<noteq> []"
    and "concat (map wiTransfers items) \<noteq> []"
  shows "\<exists>s1 rs. create s (wiTransfers item) = (s1, Inl rs) \<and>
    submitter_flush create s (item # items) =
      (fst (submitter_flush create s1 items),
       (wiId item, Inl (error_map rs)) # snd (submitter_flush create s1 items))"
proof -
  obtain s1 s2 rs qs where c: "create s (wiTransfers item) = (s1, Inl rs)"
    "create s1 (concat (map wiTransfers items)) = (s2, Inl qs)"
    "create s (wiTransfers item @ concat (map wiTransfers items)) =
       (s2, Inl (rs @ shift_results (length (wiTransfers item)) qs))"
    and dom: "dom (error_map rs) \<subseteq> {..<length (wiTransfers item)}"
    using chain_cut[OF assms(1,2,4)] by metis
  let ?n = "length (wiTransfers item)"
  let ?em = "error_map rs ++ error_map (shift_results ?n qs)"
  have "item_errors ?em 0 ?n = error_map rs"
    using outside_dom[OF dom]
    by (auto simp: item_errors_def fun_eq_iff map_add_def error_map_shift split: option.splits)
  then have "span_reply ?em (item, 0) = (wiId item, Inl (error_map rs))"
    by (simp add: span_reply_def)
  moreover have "map (span_reply ?em) (work_spans ?n items) =
      map (span_reply (error_map qs)) (work_spans 0 items)"
    using span_reply_shift[of "error_map rs" ?n qs 0 items] dom by simp
  moreover have "submitter_flush create s (item # items) =
      (s2, map (span_reply ?em) (work_spans 0 (item # items)))"
    using flush_Inl[of create s "item # items" s2 "rs @ shift_results ?n qs"] c(3)
    unfolding error_map_append by simp
  moreover have "submitter_flush create s1 items =
      (s2, map (span_reply (error_map qs)) (work_spans 0 items))"
    using c(2) by (rule flush_Inl)
  ultimately show ?thesis using c(1) by simp
qed

lemma flush_in_turn:
  assumes "decides_by_chain create" "\<forall>item \<in> set items. ends_chain (wiTransfers item)" "items \<noteq> []"
  shows "submitter_flush create s items = submit_in_turn create s items"
  using assms(2,3)
proof (induction items arbitrary: s)
  case (Cons item items)
  show ?case
  proof (cases "items = []")
    case True
    have ends: "ends_chain (wiTransfers item)" using Cons.prems by simp
    then obtain s1 rs where "create s (wiTransfers item) = (s1, Inl rs)"
      "dom (error_map rs) \<subseteq> {..<length (wiTransfers item)}"
      using chain_cut[OF assms(1) ends, of "wiTransfers item" s] by (metis ends_chain_def)
    with True show ?thesis by (simp add: flush_one submit_alone_def)
  next
    case False
    then have "concat (map wiTransfers items) \<noteq> []"
      using Cons.prems(1) by (cases items) (auto simp: ends_chain_def)
    then obtain s1 rs where c: "create s (wiTransfers item) = (s1, Inl rs)"
      "submitter_flush create s (item # items) =
        (fst (submitter_flush create s1 items),
         (wiId item, Inl (error_map rs)) # snd (submitter_flush create s1 items))"
      using flush_Cons[OF assms(1) _ False] Cons.prems(1) by force
    moreover have "submitter_flush create s1 items = submit_in_turn create s1 items"
      using Cons False by simp
    ultimately show ?thesis by (simp add: submit_alone_def case_prod_beta)
  qed
qed simp

section \<open>The loop's invariant\<close>

text \<open>
  Every item received is either pending or answered, once; no call carries more than the maximum,
  and less than that is pending.
\<close>

definition submitter_ok :: "nat \<Rightarrow> work_item list \<Rightarrow> 's submitter \<Rightarrow> bool" where
  "submitter_ok maxEvents items m \<longleftrightarrow>
     mset (map fst (smReplies m)) + mset (map wiId (smPending m)) = mset (map wiId items) \<and>
     (\<forall>n \<in> set (smBatches m). n \<le> maxEvents) \<and>
     totalTransfers (smPending m) < maxEvents \<and> (smStopped m \<longrightarrow> smPending m = [])"

lemma flush_work_ids:
  "mset (map fst (smReplies (flush_work create m))) + mset (map wiId (smPending (flush_work create m))) =
   mset (map fst (smReplies m)) + mset (map wiId (smPending m))"
  using submitter_flush_ids[of create "smService m" "smPending m"]
  by (simp add: flush_work_def case_prod_beta flip: mset_map)

lemma flush_work_pending [simp]: "smPending (flush_work create m) = []"
  by (simp add: flush_work_def case_prod_beta)

lemma flush_work_stopped [simp]: "smStopped (flush_work create m) = smStopped m"
  by (simp add: flush_work_def case_prod_beta)

lemma flush_work_batches:
  "set (smBatches (flush_work create m)) \<subseteq> insert (totalTransfers (smPending m)) (set (smBatches m))"
  by (auto simp: flush_work_def case_prod_beta)

lemma submitter_ok_flush:
  assumes "mset (map fst (smReplies m)) + mset (map wiId (smPending m)) = mset (map wiId items)"
    and "\<forall>n \<in> set (smBatches m). n \<le> maxEvents" "totalTransfers (smPending m) \<le> maxEvents" "0 < maxEvents"
  shows "submitter_ok maxEvents items (flush_work create m)"
  using assms flush_work_batches[of create m] flush_work_ids[of create m]
  by (auto simp: submitter_ok_def)

lemma submitter_ok_received:
  assumes "submitter_ok maxEvents items m" "0 < maxEvents" "\<not> smStopped m"
  shows "submitter_ok maxEvents (items @ [item]) (submitter_step create maxEvents m (WorkReceived item))"
proof (cases "length (wiTransfers item) > maxEvents")
  case True
  then show ?thesis using assms by (auto simp: submitter_ok_def)
next
  case False
  define m1 where "m1 = (if smPending m \<noteq> [] \<and>
      totalTransfers (smPending m) + length (wiTransfers item) > maxEvents then flush_work create m else m)"
  have m1: "submitter_ok maxEvents items m1" "\<not> smStopped m1"
    using assms submitter_ok_flush[of m items maxEvents create] by (auto simp: m1_def submitter_ok_def)
  have total: "totalTransfers (smPending m1) + length (wiTransfers item) \<le> maxEvents"
    using False by (auto simp: m1_def)
  define m2 where "m2 = m1\<lparr>smPending := smPending m1 @ [item]\<rparr>"
  have m2: "mset (map fst (smReplies m2)) + mset (map wiId (smPending m2)) = mset (map wiId (items @ [item]))"
    "\<forall>n \<in> set (smBatches m2). n \<le> maxEvents" "totalTransfers (smPending m2) \<le> maxEvents" "\<not> smStopped m2"
    using m1 total by (auto simp: m2_def submitter_ok_def)
  have "submitter_step create maxEvents m (WorkReceived item) =
      (if totalTransfers (smPending m2) \<ge> maxEvents then flush_work create m2 else m2)"
    using False assms(3) by (simp add: m1_def m2_def Let_def)
  then show ?thesis
    using submitter_ok_flush[OF m2(1-3) assms(2)] m2 by (auto simp: submitter_ok_def)
qed

lemma submitter_ok_other:
  assumes "submitter_ok maxEvents items m" "0 < maxEvents"
  shows "submitter_ok maxEvents items (submitter_step create maxEvents m FlushTimer)"
    and "submitter_ok maxEvents items (submitter_step create maxEvents m ContextDone)"
  using assms submitter_ok_flush[of m items maxEvents create] by (auto simp: submitter_ok_def)

lemma submitter_stopped:
  "smStopped m \<Longrightarrow> submitter_run create maxEvents m es = m"
proof (induction es)
  case (Cons e es)
  then show ?case by (cases e) (simp_all add: submitter_run_def)
qed (simp add: submitter_run_def)

lemma submitter_run_ok:
  assumes "submitter_ok maxEvents items m" "0 < maxEvents" "\<not> smStopped m"
  shows "submitter_ok maxEvents (items @ received_items es) (submitter_run create maxEvents m es)"
  using assms(1,3)
proof (induction es arbitrary: items m)
  case (Cons e es)
  have run: "submitter_run create maxEvents m (e # es) =
      submitter_run create maxEvents (submitter_step create maxEvents m e) es"
    by (simp add: submitter_run_def)
  show ?case
  proof (cases e)
    case (WorkReceived item)
    have "\<not> smStopped (submitter_step create maxEvents m e)"
      using Cons.prems by (auto simp: WorkReceived Let_def)
    then show ?thesis
      using Cons.IH[of "items @ [item]"] submitter_ok_received[OF Cons.prems(1) assms(2) Cons.prems(2)]
      unfolding run by (simp add: WorkReceived)
  next
    case FlushTimer
    have "\<not> smStopped (submitter_step create maxEvents m e)"
      using Cons.prems by (simp add: FlushTimer)
    then show ?thesis
      using Cons.IH submitter_ok_other(1)[OF Cons.prems(1) assms(2)] unfolding run by (simp add: FlushTimer)
  next
    case ContextDone
    have "smStopped (submitter_step create maxEvents m e)"
      using Cons.prems by (simp add: ContextDone)
    then have "submitter_run create maxEvents m (e # es) = submitter_step create maxEvents m e"
      unfolding run by (rule submitter_stopped)
    then show ?thesis
      using submitter_ok_other(2)[OF Cons.prems(1) assms(2)] by (simp add: ContextDone)
  qed
qed (simp add: submitter_run_def)

section \<open>The pool of clients\<close>

text \<open>
  A client is a number; \<open>connect i\<close> says whether the i-th connection attempt fails.  \<open>cpAvailable\<close>
  is the channel of idle clients, \<open>cpClosed\<close> the clients that were closed.
\<close>

record client_pool =
  cpClients :: "nat list"
  cpAvailable :: "nat list"
  cpClosed :: "nat list"

fun open_clients :: "(nat \<Rightarrow> go_error) \<Rightarrow> nat \<Rightarrow> nat \<Rightarrow> nat list \<Rightarrow> nat list + (nat list \<times> string)" where
  "open_clients connect i 0 clients = Inl clients"
| "open_clients connect i (Suc n) clients =
     (case connect i of
        Some err \<Rightarrow> Inr (clients, ''create TB client: '' @ err)
      | None \<Rightarrow> open_clients connect (Suc i) n (clients @ [i]))"

text \<open>On failure the clients opened so far are closed; they are the first part of the error.\<close>

definition NewClientPool :: "(nat \<Rightarrow> go_error) \<Rightarrow> go_int \<Rightarrow> client_pool + (nat list \<times> string)" where
  "NewClientPool connect sessions =
     (let n = (if sessions \<le> 0 then 1 else nat sessions) in
      case open_clients connect 0 n [] of
        Inr failed \<Rightarrow> Inr failed
      | Inl clients \<Rightarrow> Inl \<lparr>cpClients = clients, cpAvailable = clients, cpClosed = []\<rparr>)"

text \<open>\<open>Acquire\<close> waits while no client is idle: then it makes no step.\<close>

definition pool_Acquire :: "client_pool \<Rightarrow> (nat \<times> client_pool) option" where
  "pool_Acquire p =
     (case cpAvailable p of [] \<Rightarrow> None | c # rest \<Rightarrow> Some (c, p\<lparr>cpAvailable := rest\<rparr>))"

definition pool_Release :: "client_pool \<Rightarrow> nat option \<Rightarrow> client_pool" where
  "pool_Release p client =
     (case client of None \<Rightarrow> p | Some c \<Rightarrow> p\<lparr>cpAvailable := cpAvailable p @ [c]\<rparr>)"

definition pool_Close :: "client_pool \<Rightarrow> client_pool" where
  "pool_Close p = p\<lparr>cpClosed := cpClosed p @ cpClients p\<rparr>"

text \<open>Holders and the channel share the clients: acquire and release steps by any callers.\<close>

inductive pool_run :: "client_pool \<Rightarrow> nat multiset \<Rightarrow> client_pool \<Rightarrow> bool" for p0 where
  pool_start: "pool_run p0 {#} p0"
| pool_acquire: "pool_run p0 held p \<Longrightarrow> pool_Acquire p = Some (c, p') \<Longrightarrow> pool_run p0 (add_mset c held) p'"
| pool_release: "pool_run p0 (add_mset c held) p \<Longrightarrow> pool_run p0 held (pool_Release p (Some c))"

lemma pool_run_conserves:
  "pool_run p0 held p \<Longrightarrow>
   held + mset (cpAvailable p) = mset (cpAvailable p0) \<and> cpClients p = cpClients p0"
  by (induction rule: pool_run.induct)
     (auto simp: pool_Acquire_def pool_Release_def split: list.splits)

lemma open_clients_clients:
  "open_clients connect i n cs = Inl cs' \<Longrightarrow> cs' = cs @ [i..<i + n]"
proof (induction n arbitrary: i cs)
  case (Suc n)
  have "open_clients connect (Suc i) n (cs @ [i]) = Inl cs'"
    using Suc.prems by (simp split: option.splits)
  then have "cs' = (cs @ [i]) @ [Suc i..<Suc i + n]" by (rule Suc.IH)
  moreover have "[i..<i + Suc n] = i # [Suc i..<Suc i + n]"
    by (simp add: upt_conv_Cons del: upt_Suc)
  ultimately show ?case by simp
qed simp

lemma open_clients_failed:
  "open_clients connect i n cs = Inr (closed, err) \<Longrightarrow>
   \<exists>k. i \<le> k \<and> k < i + n \<and> connect k \<noteq> None \<and> closed = cs @ [i..<k]"
proof (induction n arbitrary: i cs)
  case (Suc n)
  show ?case
  proof (cases "connect i")
    case (Some e)
    with Suc.prems show ?thesis by (intro exI[of _ i]) auto
  next
    case None
    with Suc.prems Suc.IH[of "Suc i" "cs @ [i]"]
    obtain k where "Suc i \<le> k" "k < Suc i + n" "connect k \<noteq> None" "closed = cs @ [i] @ [Suc i..<k]" by auto
    then show ?thesis by (intro exI[of _ k]) (auto simp: upt_rec[of i k])
  qed
qed simp

end
