(* ===== verification/TB_Retry.thy ===== *)
theory TB_Retry
  imports RL_Types
begin

text \<open>
  The retry hints of the TigerBeetle backend (internal/backend/tb/retry.go, deny.go).  The code
  computes with \<open>float64\<close>: the operations it uses are the parameter \<open>'f float_ops\<close>, so that what
  is proved holds for any rounding and for any conversion of an out-of-range float, which Go
  leaves to the implementation.
\<close>

section \<open>Policies\<close>

record 'f float_ops =
  flOfInt :: "go_int \<Rightarrow> 'f"
  flMul :: "'f \<Rightarrow> 'f \<Rightarrow> 'f"
  flPow :: "'f \<Rightarrow> 'f \<Rightarrow> 'f"
  flToInt :: "'f \<Rightarrow> go_int"
  flSeconds :: "duration \<Rightarrow> 'f"

record 'f backoff_policy =
  bpBaseMs :: go_int
  bpMaxMs :: go_int
  bpFactor :: 'f
  bpJitterMs :: go_int

record 'f rolling_policy =
  rpBaseMs :: go_int
  rpMaxMs :: go_int
  rpFactor :: 'f
  rpJitterMs :: go_int
  rpWindowFraction :: 'f

record 'f retry_policy =
  Concurrency :: "'f backoff_policy"
  Rolling :: "'f rolling_policy"
  DecreasingFixedMs :: go_int

text \<open>The constants 2.0, 1.5 and 0.1 are arguments.\<close>

definition DefaultRetryPolicy :: "'f \<Rightarrow> 'f \<Rightarrow> 'f \<Rightarrow> 'f retry_policy" where
  "DefaultRetryPolicy two three_halves tenth =
     \<lparr>Concurrency = \<lparr>bpBaseMs = 50, bpMaxMs = 2000, bpFactor = two, bpJitterMs = 25\<rparr>,
      Rolling = \<lparr>rpBaseMs = 100, rpMaxMs = 5000, rpFactor = three_halves, rpJitterMs = 50,
        rpWindowFraction = tenth\<rparr>,
      DecreasingFixedMs = 10000\<rparr>"

definition policy_isZero :: "'f retry_policy \<Rightarrow> bool" where
  "policy_isZero p \<longleftrightarrow>
     bpBaseMs (Concurrency p) = 0 \<and> rpBaseMs (Rolling p) = 0 \<and> DecreasingFixedMs p = 0"

section \<open>Hints\<close>

definition clampInt :: "go_int \<Rightarrow> go_int \<Rightarrow> go_int \<Rightarrow> go_int" where
  "clampInt value minVal maxVal =
     (if value < minVal then minVal else if value > maxVal then maxVal else value)"

definition tb_maxInt :: "go_int \<Rightarrow> go_int \<Rightarrow> go_int" where
  "tb_maxInt a b = (if a > b then a else b)"

text \<open>\<open>intn n\<close> is the random number drawn below \<open>n\<close>.\<close>

definition retry_Jitter :: "(go_int \<Rightarrow> go_int) \<Rightarrow> go_int \<Rightarrow> go_int" where
  "retry_Jitter intn mx = (if mx \<le> 0 then 0 else intn (mx + 1))"

definition applyJitter :: "go_int \<Rightarrow> go_int \<Rightarrow> (go_int \<Rightarrow> go_int) \<Rightarrow> go_int" where
  "applyJitter value jitter jitterFn =
     (if jitter \<le> 0 then value else wrap64 (value + jitterFn jitter))"

definition RetryAfterMs_tb ::
    "'f float_ops \<Rightarrow> limit_definition \<Rightarrow> go_int \<Rightarrow> 'f retry_policy \<Rightarrow> (go_int \<Rightarrow> go_int) \<Rightarrow> go_int" where
  "RetryAfterMs_tb fl def streak0 cfg jitterFn =
     (let streak = (if streak0 < 1 then 1 else streak0) in
      if Kind def = KindConcurrency then
        let base = bpBaseMs (Concurrency cfg);
            raw = flToInt fl (flMul fl (flOfInt fl base) (flPow fl (bpFactor (Concurrency cfg)) (flOfInt fl streak)));
            timeoutMs = wrap64 (TimeoutSeconds def * 1000);
            capMs = (if TimeoutSeconds def > 0 \<and> timeoutMs < bpMaxMs (Concurrency cfg)
                     then timeoutMs else bpMaxMs (Concurrency cfg));
            delay = clampInt raw base capMs
        in applyJitter delay (bpJitterMs (Concurrency cfg)) jitterFn
      else if Kind def = KindRolling then
        let base = tb_maxInt (rpBaseMs (Rolling cfg))
              (flToInt fl (flMul fl (flOfInt fl (wrap64 (WindowSeconds def * 1000))) (rpWindowFraction (Rolling cfg))));
            raw = flToInt fl (flMul fl (flOfInt fl base) (flPow fl (rpFactor (Rolling cfg)) (flOfInt fl streak)));
            delay = clampInt raw base (rpMaxMs (Rolling cfg))
        in applyJitter delay (rpJitterMs (Rolling cfg)) jitterFn
      else rpBaseMs (Rolling cfg))"

section \<open>Denial streaks\<close>

type_synonym deny_tracker = "limit_key \<Rightarrow> go_int"

definition newDenyTracker :: deny_tracker where "newDenyTracker = (\<lambda>_. 0)"

definition deny_Increment :: "deny_tracker \<Rightarrow> limit_key \<Rightarrow> deny_tracker \<times> go_int" where
  "deny_Increment d key = (let n = wrap64 (d key + 1) in (d(key := n), n))"

definition deny_Decay :: "deny_tracker \<Rightarrow> limit_key \<Rightarrow> deny_tracker" where
  "deny_Decay d key = d(key := 0)"

section \<open>Bounds\<close>

lemma clampInt_bounds: "min minVal maxVal \<le> clampInt value minVal maxVal \<and> clampInt value minVal maxVal \<le> max minVal maxVal"
  by (auto simp: clampInt_def)

lemma applyJitter_bounds:
  assumes "0 \<le> intn (j + 1)" "intn (j + 1) < j + 1" "0 < j" "in_int64 v" "in_int64 (v + j)"
  shows "v \<le> applyJitter v j (retry_Jitter intn) \<and> applyJitter v j (retry_Jitter intn) \<le> v + j"
proof -
  have "in_int64 (v + intn (j + 1))" using assms by (auto simp: in_int64_def)
  then show ?thesis using assms by (simp add: applyJitter_def retry_Jitter_def)
qed

end
