(* ===== verification/TB_Backend.thy ===== *)
theory TB_Backend
  imports TB_Submitter TB_Retry Mem_Backend
begin

text \<open>
  The TigerBeetle backend (internal/backend/tb: backend.go, apply.go, decrease.go, reserve.go,
  complete.go, complete\_errors.go, helpers.go, debt.go).  The state of the limiter is kept twice:
  what the process remembers (states, leases, failed leases, denial streaks) and the accounts of
  the TigerBeetle service, of which only the interface is known here.  \<open>None\<close> is a panic, an
  \<open>Inr\<close> or a \<open>Some\<close> error text the error a Go function returns.  lease.go repeats \<open>LeaseState\<close>,
  \<open>indexByKey\<close> and \<open>requirementsEqual\<close> of the in-memory backend; their models are shared.
\<close>

section \<open>The service and the backend's state\<close>

record tb_account =
  taID :: tb_id
  taLedger :: "32 word"
  taCode :: "16 word"
  taDebitsMustNotExceedCredits :: bool
  taDebitsPending :: uint128
  taDebitsPosted :: uint128
  taCreditsPosted :: uint128

datatype account_result = AccountExists | OtherAccountResult string

text \<open>\<open>svSubmit\<close> is the way through the submitter: queue a work item and wait for its result.\<close>

record 's tb_service =
  svCreateAccounts :: "'s \<Rightarrow> tb_account list \<Rightarrow> 's \<times> ((nat \<times> account_result) list + string)"
  svLookupAccounts :: "'s \<Rightarrow> tb_id list \<Rightarrow> tb_account list + string"
  svSubmit :: "'s \<Rightarrow> tb_transfer list \<Rightarrow> 's \<times> work_result"

record ('s, 'f) tb_deps =
  tdSha :: "string \<Rightarrow> byte list"
  tdService :: "'s tb_service"
  tdFloat :: "'f float_ops"
  tdPolicy :: "'f retry_policy"

record 's tb_backend =
  tbService :: 's
  tbStates :: "limit_key \<rightharpoonup> limit_state"
  tbLeases :: "string \<rightharpoonup> lease_state"
  tbFailed :: "string \<rightharpoonup> go_int"
  tbDeny :: deny_tracker

definition ledgerLimits :: "32 word" where "ledgerLimits = 1"
definition codeLimit :: "16 word" where "codeLimit = 1"

section \<open>Helpers\<close>

definition submitTransfers ::
    "('s, 'f) tb_deps \<Rightarrow> 's tb_backend \<Rightarrow> tb_transfer list \<Rightarrow> 's tb_backend \<times> work_result" where
  "submitTransfers D b transfers =
     (if transfers = [] then (b, Inl Map.empty)
      else let (s, r) = svSubmit (tdService D) (tbService b) transfers in (b\<lparr>tbService := s\<rparr>, r))"

definition accountBalance :: "tb_account \<Rightarrow> uint64 option" where
  "accountBalance account =
     do {
       credits \<leftarrow> Uint128ToUint64 (taCreditsPosted account);
       debits \<leftarrow> Uint128ToUint64 (taDebitsPosted account);
       Some (if credits < debits then 0 else credits - debits)
     }"

definition accountAvailable :: "tb_account \<Rightarrow> uint64 option" where
  "accountAvailable account =
     do {
       balance \<leftarrow> accountBalance account;
       pending \<leftarrow> Uint128ToUint64 (taDebitsPending account);
       Some (if balance < pending then 0 else balance - pending)
     }"

definition lookupAccount ::
    "('s, 'f) tb_deps \<Rightarrow> 's tb_backend \<Rightarrow> tb_id \<Rightarrow> tb_account + string" where
  "lookupAccount D b i =
     (case svLookupAccounts (tdService D) (tbService b) [i] of
        Inr err \<Rightarrow> Inr err
      | Inl [] \<Rightarrow> Inr ''account not found''
      | Inl (a # _) \<Rightarrow> Inl a)"

text \<open>
  \<open>firstTransferError\<close> returns the first unexpected result of a map iteration: whether there is
  one does not depend on the order, its text does, and is left out.
\<close>

definition firstTransferError :: "transfer_errors \<Rightarrow> go_error" where
  "firstTransferError errors =
     (if ran errors \<subseteq> {TransferExists} then None else Some ''transfer error'')"

text \<open>Go converts the float of seconds to an \<open>int\<close>.\<close>

definition remainingWindowSeconds :: "'f float_ops \<Rightarrow> go_int \<Rightarrow> go_time \<Rightarrow> go_int \<Rightarrow> go_int" where
  "remainingWindowSeconds fl reservedAtUnix now windowSeconds =
     (if windowSeconds \<le> 0 then 1
      else
        let reservedAt = reservedAtUnix * 10 ^ 6;
            elapsed = flToInt fl (flSeconds fl (Sub now reservedAt));
            remaining = wrap64 (windowSeconds - elapsed)
        in if remaining < 1 then 1 else remaining)"

section \<open>Transfers\<close>

definition base_transfer :: tb_transfer where
  "base_transfer =
     \<lparr>tfID = [], tfDebit = [], tfCredit = [], tfAmount = 0, tfPendingID = None,
      tfLedger = ledgerLimits, tfCode = codeLimit, tfTimeout = 0,
      tfPending = False, tfLinked = False, tfVoid = False\<rparr>"

text \<open>\<open>uint32(timeout)\<close> keeps the low 32 bits.\<close>

definition uint32_of :: "go_int \<Rightarrow> 32 word" where
  "uint32_of n = word_of_int n"

definition voidTransfer ::
    "('s, 'f) tb_deps \<Rightarrow> string \<Rightarrow> limit_key \<Rightarrow> uint64 \<Rightarrow> bool \<Rightarrow> tb_transfer" where
  "voidTransfer D lease key amount linked =
     base_transfer\<lparr>tfID := VoidTransferID (tdSha D) lease key,
       tfDebit := LimitAccountID (tdSha D) key, tfCredit := OperatorAccountID (tdSha D),
       tfAmount := Uint128FromUint64 amount, tfVoid := True, tfLinked := linked,
       tfPendingID := Some (ReserveTransferID (tdSha D) lease key)\<rparr>"

definition pendingTransfer ::
    "('s, 'f) tb_deps \<Rightarrow> string \<Rightarrow> limit_key \<Rightarrow> uint64 \<Rightarrow> go_int \<Rightarrow> tb_transfer" where
  "pendingTransfer D lease key amount timeout =
     base_transfer\<lparr>tfID := RereserveTransferID (tdSha D) lease key,
       tfDebit := LimitAccountID (tdSha D) key, tfCredit := OperatorAccountID (tdSha D),
       tfAmount := Uint128FromUint64 amount, tfPending := True, tfTimeout := uint32_of timeout\<rparr>"

definition debtTransfer :: "('s, 'f) tb_deps \<Rightarrow> string \<Rightarrow> limit_key \<Rightarrow> uint64 \<Rightarrow> tb_transfer" where
  "debtTransfer D lease key amount =
     base_transfer\<lparr>tfID := DebtTransferID (tdSha D) lease key,
       tfDebit := DebtAccountID (tdSha D) key, tfCredit := OperatorAccountID (tdSha D),
       tfAmount := Uint128FromUint64 amount\<rparr>"

section \<open>Definitions\<close>

definition base_account :: tb_account where
  "base_account =
     \<lparr>taID = [], taLedger = ledgerLimits, taCode = codeLimit, taDebitsMustNotExceedCredits = False,
      taDebitsPending = 0, taDebitsPosted = 0, taCreditsPosted = 0\<rparr>"

definition limit_accounts :: "('s, 'f) tb_deps \<Rightarrow> limit_definition \<Rightarrow> tb_account list" where
  "limit_accounts D def =
     [base_account\<lparr>taID := OperatorAccountID (tdSha D)\<rparr>,
      base_account\<lparr>taID := LimitAccountID (tdSha D) (Key def), taDebitsMustNotExceedCredits := True\<rparr>] @
     (if Overage def = OverageDebt
      then [base_account\<lparr>taID := DebtAccountID (tdSha D) (Key def)\<rparr>] else [])"

definition ensureAccounts ::
    "('s, 'f) tb_deps \<Rightarrow> 's tb_backend \<Rightarrow> limit_definition \<Rightarrow> 's tb_backend \<times> go_error" where
  "ensureAccounts D b def =
     (let (s, r) = svCreateAccounts (tdService D) (tbService b) (limit_accounts D def);
          b' = b\<lparr>tbService := s\<rparr>
      in case r of
           Inr err \<Rightarrow> (b', Some err)
         | Inl results \<Rightarrow>
             (b', case find (\<lambda>(_, res). res \<noteq> AccountExists) results of
                    None \<Rightarrow> None
                  | Some (_, OtherAccountResult text) \<Rightarrow> Some (''create account error: '' @ text)
                  | Some (_, AccountExists) \<Rightarrow> None))"

definition capacity_transfer ::
    "('s, 'f) tb_deps \<Rightarrow> limit_definition \<Rightarrow> uint64 \<Rightarrow> tb_transfer" where
  "capacity_transfer D def delta =
     base_transfer\<lparr>tfID := capacityTransferID (tdSha D) (Key def) (Capacity def),
       tfDebit := OperatorAccountID (tdSha D), tfCredit := LimitAccountID (tdSha D) (Key def),
       tfAmount := Uint128FromUint64 delta\<rparr>"

definition ensureCapacity ::
    "('s, 'f) tb_deps \<Rightarrow> 's tb_backend \<Rightarrow> limit_definition \<Rightarrow> ('s tb_backend \<times> go_error) option" where
  "ensureCapacity D b def =
     (case lookupAccount D b (LimitAccountID (tdSha D) (Key def)) of
        Inr err \<Rightarrow> Some (b, Some err)
      | Inl account \<Rightarrow>
         (case accountBalance account of
            None \<Rightarrow> None
          | Some balance \<Rightarrow>
              if Capacity def \<le> balance then Some (b, None)
              else
                let (b', r) = submitTransfers D b [capacity_transfer D def (Capacity def - balance)]
                in case r of
                     Inr err \<Rightarrow> Some (b', Some err)
                   | Inl errors \<Rightarrow> Some (b', firstTransferError errors)))"

definition set_state :: "'s tb_backend \<Rightarrow> limit_state \<Rightarrow> 's tb_backend" where
  "set_state b state = b\<lparr>tbStates := (tbStates b)(Key (Definition state) \<mapsto> state)\<rparr>"

definition tb_ApplyDefinition ::
    "('s, 'f) tb_deps \<Rightarrow> 's tb_backend \<Rightarrow> limit_definition \<Rightarrow> ('s tb_backend \<times> go_error) option" where
  "tb_ApplyDefinition D b def =
     (case ensureAccounts D b def of
        (b1, Some err) \<Rightarrow> Some (b1, Some err)
      | (b1, None) \<Rightarrow>
         (let raise =
             (case ensureCapacity D b1 def of
                None \<Rightarrow> None
              | Some (b2, Some err) \<Rightarrow> Some (b2, Some err)
              | Some (b2, None) \<Rightarrow>
                  Some (set_state b2
                    \<lparr>Definition = def, Status = LimitStatusActive, PendingDecreaseTo = 0\<rparr>, None))
          in case tbStates b1 (Key def) of
               None \<Rightarrow> raise
             | Some prev \<Rightarrow>
                 if Capacity def \<ge> Capacity (Definition prev) then raise
                 else Some (b1\<lparr>tbStates := (tbStates b1)(Key def \<mapsto>
                        \<lparr>Definition = Definition prev, Status = LimitStatusDecreasing,
                         PendingDecreaseTo = Capacity def\<rparr>)\<rparr>, None)))"

definition tb_ApplyState ::
    "('s, 'f) tb_deps \<Rightarrow> 's tb_backend \<Rightarrow> limit_state \<Rightarrow> ('s tb_backend \<times> go_error) option" where
  "tb_ApplyState D b state =
     (case ensureAccounts D b (Definition state) of
        (b1, Some err) \<Rightarrow> Some (b1, Some err)
      | (b1, None) \<Rightarrow>
         (case ensureCapacity D b1 (Definition state) of
            None \<Rightarrow> None
          | Some (b2, Some err) \<Rightarrow> Some (b2, Some err)
          | Some (b2, None) \<Rightarrow> Some (set_state b2 state, None)))"

fun loadStates ::
    "('s, 'f) tb_deps \<Rightarrow> 's tb_backend \<Rightarrow> limit_state list \<Rightarrow> ('s tb_backend \<times> go_error) option" where
  "loadStates D b [] = Some (b, None)"
| "loadStates D b (state # states) =
     (case tb_ApplyState D b state of
        None \<Rightarrow> None
      | Some (b', Some err) \<Rightarrow> Some (b', Some err)
      | Some (b', None) \<Rightarrow> loadStates D b' states)"

end
