(* ===== verification/TB_Ops.thy ===== *)
theory TB_Ops
  imports TB_Backend
begin

text \<open>
  The operations of the TigerBeetle backend on leases and pending decreases (reserve.go,
  complete.go, complete\_errors.go, decrease.go, debt.go) and its construction (backend.go).
  The mutex is released around the calls to the service; an operation here is one uninterrupted
  run, and \<open>tryApplyDecrease\<close> takes the state it was started with as an argument of its own, as
  in the code, so that a run on a stale state can be told.
\<close>

section \<open>Reserve\<close>

definition timeoutSeconds :: "limit_definition \<Rightarrow> go_int" where
  "timeoutSeconds def =
     (if Kind def = KindRolling then WindowSeconds def
      else if Kind def = KindConcurrency then TimeoutSeconds def else 0)"

text \<open>The loop under the lock: the definitions of the required limits, or the refusal.\<close>

fun reserve_defs ::
    "(limit_key \<rightharpoonup> limit_state) \<Rightarrow> go_int \<Rightarrow> requirement list \<Rightarrow> limit_definition list + reserve_response" where
  "reserve_defs states decreasingMs [] = Inl []"
| "reserve_defs states decreasingMs (r # rs) =
     (case states (RKey r) of
        None \<Rightarrow> Inr (reserve_response0\<lparr>Error := ''unknown_limit_key:'' @ RKey r\<rparr>)
      | Some state \<Rightarrow>
          if Status state = LimitStatusDecreasing then
            Inr (reserve_response0\<lparr>RetryAfterMs := decreasingMs, Error := ''limit_decreasing:'' @ RKey r\<rparr>)
          else case reserve_defs states decreasingMs rs of
                 Inl defs \<Rightarrow> Inl (Definition state # defs)
               | Inr resp \<Rightarrow> Inr resp)"

definition reserve_transfers ::
    "('s, 'f) tb_deps \<Rightarrow> string \<Rightarrow> requirement list \<Rightarrow> limit_definition list \<Rightarrow> tb_transfer list" where
  "reserve_transfers D lease reqs defs =
     map (\<lambda>i. let r = reqs ! i in
       base_transfer\<lparr>tfID := ReserveTransferID (tdSha D) lease (RKey r),
         tfDebit := LimitAccountID (tdSha D) (RKey r), tfCredit := OperatorAccountID (tdSha D),
         tfAmount := Uint128FromUint64 (Amount r), tfPending := True,
         tfLinked := i + 1 < length reqs,
         tfTimeout := uint32_of (timeoutSeconds (defs ! i))\<rparr>) [0..<length reqs]"

text \<open>
  The loop over the error map, in the order \<open>order\<close> of the map's iteration.  \<open>draw i n\<close> is the
  random number below \<open>n\<close> drawn for the error of transfer \<open>i\<close>.
\<close>

record reserve_tally =
  rtDeny :: deny_tracker
  rtMaxRetry :: go_int
  rtHasDenied :: bool
  rtHasLinked :: bool
  rtHasUnexpected :: bool
  rtOnlyExists :: bool

definition tally_step ::
    "('s, 'f) tb_deps \<Rightarrow> (nat \<Rightarrow> go_int \<Rightarrow> go_int) \<Rightarrow> requirement list \<Rightarrow> limit_definition list \<Rightarrow>
     transfer_errors \<Rightarrow> reserve_tally \<Rightarrow> nat \<Rightarrow> reserve_tally" where
  "tally_step D draw reqs defs errors t index =
     (case errors index of
        None \<Rightarrow> t
      | Some result \<Rightarrow>
          if result = TransferExceedsCredits \<or> result = TransferExceedsDebits then
            let t1 = t\<lparr>rtHasDenied := True, rtOnlyExists := False\<rparr> in
            if index < length reqs then
              let (deny, streak) = deny_Increment (rtDeny t1) (RKey (reqs ! index));
                  retry = RetryAfterMs_tb (tdFloat D) (defs ! index) streak (tdPolicy D)
                            (retry_Jitter (draw index))
              in t1\<lparr>rtDeny := deny, rtMaxRetry := (if retry > rtMaxRetry t1 then retry else rtMaxRetry t1)\<rparr>
            else t1
          else if result = TransferExists then t
          else if result = TransferLinkedEventFailed then t\<lparr>rtHasLinked := True, rtOnlyExists := False\<rparr>
          else t\<lparr>rtHasUnexpected := True, rtOnlyExists := False\<rparr>)"

text \<open>The decision: allowed, denied with a hint, or an error.\<close>

datatype reserve_decision = ReserveAllow | ReserveDeny go_int | ReserveFail string

definition evaluateReserveErrors ::
    "('s, 'f) tb_deps \<Rightarrow> (nat \<Rightarrow> go_int \<Rightarrow> go_int) \<Rightarrow> nat list \<Rightarrow> requirement list \<Rightarrow> limit_definition list \<Rightarrow>
     transfer_errors \<Rightarrow> deny_tracker \<Rightarrow> deny_tracker \<times> reserve_decision" where
  "evaluateReserveErrors D draw order reqs defs errors deny =
     (if order = [] then (deny, ReserveAllow)
      else
        let t = foldl (tally_step D draw reqs defs errors)
              \<lparr>rtDeny = deny, rtMaxRetry = 0, rtHasDenied = False, rtHasLinked = False,
               rtHasUnexpected = False, rtOnlyExists = True\<rparr> order
        in if rtHasDenied t then (rtDeny t, ReserveDeny (rtMaxRetry t))
           else if rtOnlyExists t then (rtDeny t, ReserveAllow)
           else if rtHasUnexpected t \<or> rtHasLinked t then (rtDeny t, ReserveFail ''reserve transfer error'')
           else (rtDeny t, ReserveFail ''reserve transfer error''))"

text \<open>
  \<open>clk\<close> is the reading of the backend's clock and \<open>order errors\<close> the order in which Go iterates
  over a map of errors.
\<close>

definition tb_Reserve ::
    "('s, 'f) tb_deps \<Rightarrow> (nat \<Rightarrow> go_int \<Rightarrow> go_int) \<Rightarrow> (transfer_errors \<Rightarrow> nat list) \<Rightarrow> go_time \<Rightarrow>
     's tb_backend \<Rightarrow> reserve_request \<Rightarrow> go_time \<Rightarrow> 's tb_backend \<times> (reserve_response + string)" where
  "tb_Reserve D draw order clk b req at =
     (let reqs = Requirements req in
      if LeaseID req = [] \<or> reqs = [] then (b, Inl (reserve_response0\<lparr>Error := invalidRequestError\<rparr>))
      else
        let now = (if IsZero at then clk else at) in
        case tbLeases b (LeaseID req) of
          Some state \<Rightarrow>
            (b, Inl (if requirementsEqual (lsRequirements state) reqs
                     then reserve_response0\<lparr>Allowed := True, ReservedAtUnixMs := lsReservedAtUnix state\<rparr>
                     else reserve_response0\<lparr>Error := invalidRequestError\<rparr>))
        | None \<Rightarrow>
           (case tbFailed b (LeaseID req) of
              Some hint \<Rightarrow> (b, Inl (reserve_response0\<lparr>RetryAfterMs := hint\<rparr>))
            | None \<Rightarrow>
               (case reserve_defs (tbStates b) (DecreasingFixedMs (tdPolicy D)) reqs of
                  Inr resp \<Rightarrow> (b, Inl resp)
                | Inl defs \<Rightarrow>
                    let (b1, r) = submitTransfers D b (reserve_transfers D (LeaseID req) reqs defs) in
                    (case r of
                       Inr err \<Rightarrow> (b1, Inr err)
                     | Inl errors \<Rightarrow>
                         let (deny, decision) =
                           evaluateReserveErrors D draw (order errors) reqs defs errors (tbDeny b1);
                             b2 = b1\<lparr>tbDeny := deny\<rparr>
                         in (case decision of
                               ReserveFail err \<Rightarrow> (b2, Inr err)
                             | ReserveDeny hint \<Rightarrow>
                                 (b2\<lparr>tbFailed := (tbFailed b2)(LeaseID req \<mapsto> hint)\<rparr>,
                                  Inl (reserve_response0\<lparr>RetryAfterMs := hint\<rparr>))
                             | ReserveAllow \<Rightarrow>
                                 (b2\<lparr>tbLeases := (tbLeases b2)(LeaseID req \<mapsto>
                                      \<lparr>lsLeaseID = LeaseID req, lsReservedAtUnix = UnixMilli now,
                                       lsRequirements = reqs, lsReservedAmounts = indexByKey reqs\<rparr>),
                                    tbDeny := foldl (\<lambda>d r. deny_Decay d (RKey r)) (tbDeny b2) reqs\<rparr>,
                                  Inl (reserve_response0\<lparr>Allowed := True, ReservedAtUnixMs := UnixMilli now\<rparr>)))))))"

section \<open>Complete\<close>

definition isIgnorableResult :: "transfer_result \<Rightarrow> bool" where
  "isIgnorableResult result \<longleftrightarrow>
     result \<in> {TransferExists, TransferPendingTransferExpired, TransferPendingTransferAlreadyVoided,
       TransferPendingTransferAlreadyPosted, TransferPendingTransferNotFound}"

text \<open>The loops return at the first result of their kind; which one does not matter.\<close>

definition hasNonIgnorableErrors :: "transfer_errors \<Rightarrow> bool" where
  "hasNonIgnorableErrors errors \<longleftrightarrow>
     ran errors \<noteq> {} \<and>
     ((\<exists>result \<in> ran errors. result \<noteq> TransferLinkedEventFailed \<and> \<not> isIgnorableResult result) \<or>
      (\<forall>result \<in> ran errors. \<not> isIgnorableResult result))"

definition isOverageDenied :: "transfer_errors \<Rightarrow> bool" where
  "isOverageDenied errors \<longleftrightarrow>
     TransferExceedsCredits \<in> ran errors \<or> TransferExceedsDebits \<in> ran errors"

definition check_submit ::
    "('s, 'f) tb_deps \<Rightarrow> 's tb_backend \<Rightarrow> tb_transfer list \<Rightarrow> string \<Rightarrow> 's tb_backend \<times> go_error" where
  "check_submit D b transfers text =
     (case submitTransfers D b transfers of
        (b', Inr err) \<Rightarrow> (b', Some err)
      | (b', Inl errors) \<Rightarrow> (b', if hasNonIgnorableErrors errors then Some text else None))"

definition release_transfers ::
    "('s, 'f) tb_deps \<Rightarrow> lease_state \<Rightarrow> (limit_key \<rightharpoonup> limit_definition) \<Rightarrow> tb_transfer list" where
  "release_transfers D state defs =
     map (\<lambda>r. voidTransfer D (lsLeaseID state) (RKey r) (reserved_amount state (RKey r)) False)
       (filter (\<lambda>r. (case defs (RKey r) of None \<Rightarrow> False | Some def \<Rightarrow> Kind def = KindConcurrency) \<and>
                    reserved_amount state (RKey r) \<noteq> 0) (lsRequirements state))"

definition releaseConcurrency ::
    "('s, 'f) tb_deps \<Rightarrow> 's tb_backend \<Rightarrow> lease_state \<Rightarrow> (limit_key \<rightharpoonup> limit_definition) \<Rightarrow>
     's tb_backend \<times> go_error" where
  "releaseConcurrency D b state defs =
     (if release_transfers D state defs = [] then (b, None)
      else check_submit D b (release_transfers D state defs) ''concurrency release failed'')"

definition reconcileUnderuse ::
    "('s, 'f) tb_deps \<Rightarrow> 's tb_backend \<Rightarrow> lease_state \<Rightarrow> limit_definition \<Rightarrow> uint64 \<Rightarrow> go_time \<Rightarrow>
     's tb_backend \<times> go_error" where
  "reconcileUnderuse D b state def actual now =
     (let remaining = remainingWindowSeconds (tdFloat D) (lsReservedAtUnix state) now (WindowSeconds def);
          void = voidTransfer D (lsLeaseID state) (Key def) (reserved_amount state (Key def)) (actual \<noteq> 0)
      in if actual = 0 then check_submit D b [void] ''void transfer failed''
         else check_submit D b
           [void, pendingTransfer D (lsLeaseID state) (Key def) actual remaining]
           ''reconcile underuse failed'')"

definition reconcileOveruse ::
    "('s, 'f) tb_deps \<Rightarrow> 's tb_backend \<Rightarrow> lease_state \<Rightarrow> limit_definition \<Rightarrow> uint64 \<Rightarrow> go_time \<Rightarrow>
     's tb_backend \<times> go_error" where
  "reconcileOveruse D b state def diff now =
     (if diff = 0 then (b, None)
      else
        let remaining = remainingWindowSeconds (tdFloat D) (lsReservedAtUnix state) now (WindowSeconds def);
            (b1, r) = submitTransfers D b [pendingTransfer D (lsLeaseID state) (Key def) diff remaining]
        in case r of
             Inr err \<Rightarrow> (b1, Some err)
           | Inl errors \<Rightarrow>
               if ran errors = {} then (b1, None)
               else if isOverageDenied errors then
                 if Overage def \<noteq> OverageDebt then (b1, None)
                 else check_submit D b1 [debtTransfer D (lsLeaseID state) (Key def) diff] ''debt transfer failed''
               else (b1, if hasNonIgnorableErrors errors then Some ''overage reserve failed'' else None))"

fun reconcileRolling ::
    "('s, 'f) tb_deps \<Rightarrow> 's tb_backend \<Rightarrow> lease_state \<Rightarrow> (limit_key \<rightharpoonup> limit_definition) \<Rightarrow> actual list \<Rightarrow>
     go_time \<Rightarrow> 's tb_backend \<times> go_error" where
  "reconcileRolling D b state defs [] now = (b, None)"
| "reconcileRolling D b state defs (a # rest) now =
     (let one =
        (case defs (AKey a) of
           None \<Rightarrow> (b, None)
         | Some def \<Rightarrow>
             let reserved = reserved_amount state (AKey a) in
             if Kind def \<noteq> KindRolling \<or> reserved = 0 then (b, None)
             else if ActualAmount a < reserved then reconcileUnderuse D b state def (ActualAmount a) now
             else if ActualAmount a > reserved then reconcileOveruse D b state def (ActualAmount a - reserved) now
             else (b, None))
      in case one of
           (b', Some err) \<Rightarrow> (b', Some err)
         | (b', None) \<Rightarrow> reconcileRolling D b' state defs rest now)"

definition complete_defs ::
    "(limit_key \<rightharpoonup> limit_state) \<Rightarrow> limit_key list \<Rightarrow> limit_key \<rightharpoonup> limit_definition" where
  "complete_defs states keys =
     foldl (\<lambda>defs key. case states key of None \<Rightarrow> defs | Some state \<Rightarrow> defs(key \<mapsto> Definition state))
       Map.empty keys"

definition tb_Complete ::
    "('s, 'f) tb_deps \<Rightarrow> go_time \<Rightarrow> 's tb_backend \<Rightarrow> complete_request \<Rightarrow>
     's tb_backend \<times> complete_response \<times> go_error" where
  "tb_Complete D clk b req =
     (if CLeaseID req = [] then (b, complete_response0\<lparr>CError := invalidRequestError\<rparr>, None)
      else case tbLeases b (CLeaseID req) of
        None \<Rightarrow> (b, complete_response0\<lparr>Ok := True\<rparr>, None)
      | Some state \<Rightarrow>
          let b1 = b\<lparr>tbLeases := (tbLeases b)(CLeaseID req := None)\<rparr>;
              defs = complete_defs (tbStates b)
                (map RKey (lsRequirements state) @ map AKey (Actuals req))
          in case releaseConcurrency D b1 state defs of
               (b2, Some err) \<Rightarrow> (b2, complete_response0\<lparr>CError := ''backend_error''\<rparr>, Some err)
             | (b2, None) \<Rightarrow>
                (case reconcileRolling D b2 state defs (Actuals req) clk of
                   (b3, Some err) \<Rightarrow> (b3, complete_response0\<lparr>CError := ''backend_error''\<rparr>, Some err)
                 | (b3, None) \<Rightarrow> (b3, complete_response0\<lparr>Ok := True\<rparr>, None)))"

section \<open>Pending decreases\<close>

text \<open>The result: the backend, the registry, and the path the registry is saved to, if it is.\<close>

definition decrease_transfer :: "('s, 'f) tb_deps \<Rightarrow> limit_state \<Rightarrow> tb_transfer" where
  "decrease_transfer D state =
     base_transfer\<lparr>tfID := DecreaseTransferID (tdSha D) (Key (Definition state)) (PendingDecreaseTo state),
       tfDebit := LimitAccountID (tdSha D) (Key (Definition state)),
       tfCredit := OperatorAccountID (tdSha D),
       tfAmount := Uint128FromUint64 (Capacity (Definition state) - PendingDecreaseTo state)\<rparr>"

definition decreased_state :: "limit_state \<Rightarrow> limit_state" where
  "decreased_state state =
     \<lparr>Definition = (Definition state)\<lparr>Capacity := PendingDecreaseTo state\<rparr>,
      Status = LimitStatusActive, PendingDecreaseTo = 0\<rparr>"

definition tb_tryApplyDecrease ::
    "('s, 'f) tb_deps \<Rightarrow> string \<Rightarrow> registry \<Rightarrow> 's tb_backend \<Rightarrow> limit_state \<Rightarrow>
     ('s tb_backend \<times> registry \<times> string option \<times> go_error) option" where
  "tb_tryApplyDecrease D path reg b state =
     (let current = Capacity (Definition state); target = PendingDecreaseTo state in
      if Status state \<noteq> LimitStatusDecreasing \<or> target = 0 \<or> target \<ge> current then Some (b, reg, None, None)
      else case lookupAccount D b (LimitAccountID (tdSha D) (Key (Definition state))) of
        Inr err \<Rightarrow> Some (b, reg, None, Some err)
      | Inl account \<Rightarrow>
         (case accountAvailable account of
            None \<Rightarrow> None
          | Some available \<Rightarrow>
              if available < current - target then Some (b, reg, None, None)
              else
                let (b1, r) = submitTransfers D b [decrease_transfer D state] in
                (case r of
                   Inr err \<Rightarrow> Some (b1, reg, None, Some err)
                 | Inl errors \<Rightarrow>
                    (case firstTransferError errors of
                       Some err \<Rightarrow> Some (b1, reg, None, Some err)
                     | None \<Rightarrow>
                         Some (set_state b1 (decreased_state state), registry_Put reg (decreased_state state),
                           if path \<noteq> [] then Some path else None, None)))))"

text \<open>One tick of the loop: the decreasing states are copied first, in the order of the map.\<close>

fun try_decreases ::
    "('s, 'f) tb_deps \<Rightarrow> string \<Rightarrow> registry \<Rightarrow> 's tb_backend \<Rightarrow> limit_state list \<Rightarrow>
     ('s tb_backend \<times> registry) option" where
  "try_decreases D path reg b [] = Some (b, reg)"
| "try_decreases D path reg b (state # states) =
     (case tb_tryApplyDecrease D path reg b state of
        None \<Rightarrow> None
      | Some (b', reg', _, _) \<Rightarrow> try_decreases D path reg' b' states)"

definition applyPendingDecreases ::
    "('s, 'f) tb_deps \<Rightarrow> string \<Rightarrow> registry \<Rightarrow> limit_key list \<Rightarrow> 's tb_backend \<Rightarrow> ('s tb_backend \<times> registry) option" where
  "applyPendingDecreases D path reg order b =
     try_decreases D path reg b
       (filter (\<lambda>state. Status state = LimitStatusDecreasing) (List.map_filter (tbStates b) order))"

section \<open>Debt and construction\<close>

definition tb_DebtForKey :: "('s, 'f) tb_deps \<Rightarrow> 's tb_backend \<Rightarrow> limit_key \<Rightarrow> (uint64 + string) option" where
  "tb_DebtForKey D b key =
     (case lookupAccount D b (DebtAccountID (tdSha D) key) of
        Inr err \<Rightarrow> Some (Inr err)
      | Inl account \<Rightarrow> map_option Inl (Uint128ToUint64 (taDebitsPosted account)))"

record 'f tb_config =
  tcSessions :: go_int
  tcMaxBatchEvents :: go_int
  tcFlushInterval :: duration
  tcHasRegistry :: bool
  tcRetryPolicy :: "'f retry_policy"

definition tb_config_defaults :: "'f retry_policy \<Rightarrow> 'f tb_config \<Rightarrow> 'f tb_config" where
  "tb_config_defaults policy0 cfg =
     cfg\<lparr>tcMaxBatchEvents := (if tcMaxBatchEvents cfg \<le> 0 then 8000 else tcMaxBatchEvents cfg),
       tcFlushInterval := (if tcFlushInterval cfg \<le> 0 then 200 * 1000 else tcFlushInterval cfg),
       tcSessions := (if tcSessions cfg \<le> 0 then 1 else tcSessions cfg),
       tcRetryPolicy := (if policy_isZero (tcRetryPolicy cfg) then policy0 else tcRetryPolicy cfg)\<rparr>"

text \<open>
  \<open>connect\<close> says which connection attempts fail.  A failed load of the registry's states cancels
  the workers and closes the pool; the result is then the error.
\<close>

definition tb_New ::
    "('s, 'f) tb_deps \<Rightarrow> (nat \<Rightarrow> go_error) \<Rightarrow> 'f retry_policy \<Rightarrow> 'f tb_config \<Rightarrow> 's \<Rightarrow> limit_state list \<Rightarrow>
     (('s, 'f) tb_deps \<times> client_pool \<times> 's tb_backend + string) option" where
  "tb_New D connect policy0 cfg0 s states =
     (if \<not> tcHasRegistry cfg0 then Some (Inr ''registry required'')
      else
        let cfg = tb_config_defaults policy0 cfg0; D' = D\<lparr>tdPolicy := tcRetryPolicy cfg\<rparr> in
        case NewClientPool connect (tcSessions cfg) of
          Inr (_, err) \<Rightarrow> Some (Inr err)
        | Inl pool \<Rightarrow>
           (case loadStates D' \<lparr>tbService = s, tbStates = Map.empty, tbLeases = Map.empty,
                  tbFailed = Map.empty, tbDeny = newDenyTracker\<rparr> states of
              None \<Rightarrow> None
            | Some (b, Some err) \<Rightarrow> Some (Inr err)
            | Some (b, None) \<Rightarrow> Some (Inl (D', pool, b))))"

end
