(* ===== verification/TB_Reserve.thy ===== *)
theory TB_Reserve
  imports TB_Ops
begin

text \<open>
  What a reservation of the TigerBeetle backend comes to: the decision over the errors of the
  transfers, which must not depend on the order in which Go iterates over their map, the bounds of
  the retry hint, and the state after each outcome.
\<close>

section \<open>The retry hint\<close>

definition fair_draw :: "(go_int \<Rightarrow> go_int) \<Rightarrow> bool" where
  "fair_draw intn \<longleftrightarrow> (\<forall>n > 0. 0 \<le> intn n \<and> intn n < n)"

text \<open>The part of a rolling limit's base delay that grows with the window.\<close>

definition window_base :: "'f float_ops \<Rightarrow> 'f retry_policy \<Rightarrow> limit_definition \<Rightarrow> go_int" where
  "window_base fl cfg def =
     flToInt fl (flMul fl (flOfInt fl (wrap64 (WindowSeconds def * 1000))) (rpWindowFraction (Rolling cfg)))"

definition hint_low :: "limit_definition \<Rightarrow> go_int" where
  "hint_low def = (if Kind def = KindConcurrency then 50 else 100)"

definition hint_high :: "'f float_ops \<Rightarrow> 'f retry_policy \<Rightarrow> limit_definition \<Rightarrow> go_int" where
  "hint_high fl cfg def =
     (if Kind def = KindConcurrency then 2025
      else if Kind def = KindRolling then max 5000 (window_base fl cfg def) + 50 else 100)"

text \<open>The times of a definition that do not overflow when counted in milliseconds.\<close>

definition moderate_times :: "'f float_ops \<Rightarrow> 'f retry_policy \<Rightarrow> limit_definition \<Rightarrow> bool" where
  "moderate_times fl cfg def \<longleftrightarrow>
     (Kind def = KindConcurrency \<longrightarrow> 0 < TimeoutSeconds def \<and> TimeoutSeconds def < 2 ^ 50) \<and>
     window_base fl cfg def < 2 ^ 62"

lemma retry_hint_bounds:
  fixes fl :: "'f float_ops"
  assumes "fair_draw intn" "moderate_times fl cfg def" "cfg = DefaultRetryPolicy two three_halves tenth"
  shows "hint_low def \<le> RetryAfterMs_tb fl def streak cfg (retry_Jitter intn) \<and>
    RetryAfterMs_tb fl def streak cfg (retry_Jitter intn) \<le> hint_high fl cfg def"
proof (cases "Kind def = KindConcurrency")
  case True
  define raw where "raw = flToInt fl (flMul fl (flOfInt fl 50) (flPow fl two (flOfInt fl (if streak < 1 then 1 else streak))))"
  define capMs where "capMs = (if TimeoutSeconds def * 1000 < 2000 then TimeoutSeconds def * 1000 else 2000)"
  have t: "wrap64 (TimeoutSeconds def * 1000) = TimeoutSeconds def * 1000" "TimeoutSeconds def > 0"
    using assms(2) True by (auto simp: moderate_times_def in_int64_def)
  have eq: "RetryAfterMs_tb fl def streak cfg (retry_Jitter intn) =
      applyJitter (clampInt raw 50 capMs) 25 (retry_Jitter intn)"
    using t True by (simp add: RetryAfterMs_tb_def assms(3) DefaultRetryPolicy_def raw_def capMs_def Let_def)
  have c: "50 \<le> clampInt raw 50 capMs" "clampInt raw 50 capMs \<le> 2000"
    using t(2) by (auto simp: clampInt_def capMs_def)
  then have "in_int64 (clampInt raw 50 capMs)" "in_int64 (clampInt raw 50 capMs + 25)"
    by (auto simp: in_int64_def)
  moreover have "0 \<le> intn (25 + 1)" "intn (25 + 1) < 25 + 1"
    using assms(1) by (auto simp: fair_draw_def)
  ultimately show ?thesis
    using applyJitter_bounds[of intn 25 "clampInt raw 50 capMs"] c True
    unfolding eq by (auto simp: hint_low_def hint_high_def)
next
  case False
  show ?thesis
  proof (cases "Kind def = KindRolling")
    case True
    define base where "base = tb_maxInt 100 (window_base fl cfg def)"
    define raw where "raw = flToInt fl (flMul fl (flOfInt fl base) (flPow fl three_halves (flOfInt fl (if streak < 1 then 1 else streak))))"
    have eq: "RetryAfterMs_tb fl def streak cfg (retry_Jitter intn) =
        applyJitter (clampInt raw base 5000) 50 (retry_Jitter intn)"
      using True False
      by (simp add: RetryAfterMs_tb_def assms(3) DefaultRetryPolicy_def raw_def base_def window_base_def Let_def)
    have c: "100 \<le> clampInt raw base 5000" "clampInt raw base 5000 \<le> max 5000 (window_base fl cfg def)"
      by (auto simp: clampInt_def base_def tb_maxInt_def)
    have w: "window_base fl cfg def < 2 ^ 62" using assms(2) by (simp add: moderate_times_def)
    have "in_int64 (clampInt raw base 5000)" "in_int64 (clampInt raw base 5000 + 50)"
      using c w by (auto simp: in_int64_def)
    moreover have "0 \<le> intn (50 + 1)" "intn (50 + 1) < 50 + 1"
      using assms(1) by (auto simp: fair_draw_def)
    ultimately show ?thesis
      using applyJitter_bounds[of intn 50 "clampInt raw base 5000"] c True False
      unfolding eq by (auto simp: hint_low_def hint_high_def)
  next
    case other: False
    with False show ?thesis
      by (simp add: RetryAfterMs_tb_def assms(3) DefaultRetryPolicy_def hint_low_def hint_high_def)
  qed
qed

section \<open>The decision\<close>

definition exceeds :: "transfer_result \<Rightarrow> bool" where
  "exceeds result \<longleftrightarrow> result = TransferExceedsCredits \<or> result = TransferExceedsDebits"

definition fold_tally where
  "fold_tally D draw reqs defs errors t order = foldl (tally_step D draw reqs defs errors) t order"

lemma fold_tally_simps [simp]:
  "fold_tally D draw reqs defs errors t [] = t"
  "fold_tally D draw reqs defs errors t (i # is') =
     fold_tally D draw reqs defs errors (tally_step D draw reqs defs errors t i) is'"
  by (simp_all add: fold_tally_def)

lemma tally_step_flags:
  "rtHasDenied (tally_step D draw reqs defs errors t i) \<longleftrightarrow>
     rtHasDenied t \<or> (\<exists>r. errors i = Some r \<and> exceeds r)"
  "rtOnlyExists (tally_step D draw reqs defs errors t i) \<longleftrightarrow>
     rtOnlyExists t \<and> (\<forall>r. errors i = Some r \<longrightarrow> r = TransferExists)"
  by (auto simp: tally_step_def exceeds_def Let_def case_prod_beta split: option.split)

lemma fold_tally_flags:
  "rtHasDenied (fold_tally D draw reqs defs errors t order) \<longleftrightarrow>
     rtHasDenied t \<or> (\<exists>i \<in> set order. \<exists>r. errors i = Some r \<and> exceeds r)"
  "rtOnlyExists (fold_tally D draw reqs defs errors t order) \<longleftrightarrow>
     rtOnlyExists t \<and> (\<forall>i \<in> set order. \<forall>r. errors i = Some r \<longrightarrow> r = TransferExists)"
  by (induction order arbitrary: t) (auto simp: tally_step_flags)

text \<open>Every hint lies between \<open>lo\<close> and \<open>hi\<close>; so does the largest, once there is one.\<close>

definition hints_within where
  "hints_within D draw defs lo hi \<longleftrightarrow>
     (\<forall>def \<in> set defs. \<forall>streak i.
        lo \<le> RetryAfterMs_tb (tdFloat D) def streak (tdPolicy D) (retry_Jitter (draw i)) \<and>
        RetryAfterMs_tb (tdFloat D) def streak (tdPolicy D) (retry_Jitter (draw i)) \<le> hi)"

lemma tally_step_hint:
  fixes i :: nat
  assumes "hints_within D draw defs lo hi" "0 < lo" "length defs = length reqs" "dom errors \<subseteq> {..<length reqs}"
    and "rtMaxRetry t \<le> hi" "rtHasDenied t \<longrightarrow> lo \<le> rtMaxRetry t" "0 \<le> rtMaxRetry t"
  defines "t' \<equiv> tally_step D draw reqs defs errors t i"
  shows "rtMaxRetry t' \<le> hi" "rtHasDenied t' \<longrightarrow> lo \<le> rtMaxRetry t'" "0 \<le> rtMaxRetry t'"
proof -
  have "rtMaxRetry t' \<le> hi \<and> (rtHasDenied t' \<longrightarrow> lo \<le> rtMaxRetry t') \<and> 0 \<le> rtMaxRetry t'"
  proof (cases "\<exists>r. errors i = Some r \<and> exceeds r")
    case True
    then obtain r where r: "errors i = Some r" "exceeds r" by blast
    have i: "i < length reqs" using assms(4) r(1) by (auto simp: dom_def)
    define inc where "inc = deny_Increment (rtDeny t) (RKey (reqs ! i))"
    define hint where "hint = RetryAfterMs_tb (tdFloat D) (defs ! i) (snd inc) (tdPolicy D) (retry_Jitter (draw i))"
    have "defs ! i \<in> set defs" using i assms(3) by simp
    then have h: "lo \<le> hint" "hint \<le> hi" using assms(1) unfolding hints_within_def hint_def by blast+
    have "rtMaxRetry t' = (if hint > rtMaxRetry t then hint else rtMaxRetry t)"
      using r i by (auto simp: t'_def tally_step_def exceeds_def Let_def hint_def inc_def case_prod_beta)
    then show ?thesis using h assms(2,5-7) by auto
  next
    case False
    then have "rtMaxRetry t' = rtMaxRetry t" "rtHasDenied t' = rtHasDenied t"
      by (auto simp: t'_def tally_step_def exceeds_def split: option.splits)
    then show ?thesis using assms(5-7) by simp
  qed
  then show "rtMaxRetry t' \<le> hi" "rtHasDenied t' \<longrightarrow> lo \<le> rtMaxRetry t'" "0 \<le> rtMaxRetry t'" by auto
qed

lemma fold_tally_hint:
  assumes "hints_within D draw defs lo hi" "0 < lo" "length defs = length reqs" "dom errors \<subseteq> {..<length reqs}"
  shows "rtMaxRetry t \<le> hi \<Longrightarrow> rtHasDenied t \<longrightarrow> lo \<le> rtMaxRetry t \<Longrightarrow> 0 \<le> rtMaxRetry t \<Longrightarrow>
    rtMaxRetry (fold_tally D draw reqs defs errors t order) \<le> hi \<and>
    (rtHasDenied (fold_tally D draw reqs defs errors t order) \<longrightarrow>
       lo \<le> rtMaxRetry (fold_tally D draw reqs defs errors t order))"
proof (induction order arbitrary: t)
  case (Cons i order)
  show ?case
    using Cons.IH[OF tally_step_hint[OF assms Cons.prems, of i]] by simp
qed simp

text \<open>A list of keys in the order of some iteration over the error map.\<close>

definition iterates_errors :: "(transfer_errors \<Rightarrow> nat list) \<Rightarrow> bool" where
  "iterates_errors order \<longleftrightarrow> (\<forall>em. finite (dom em) \<longrightarrow> distinct (order em) \<and> set (order em) = dom em)"

lemma evaluate_decision:
  assumes "iterates_errors order" "dom errors \<subseteq> {..<length reqs}" "length defs = length reqs"
    and "hints_within D draw defs lo hi" "0 < lo" "0 \<le> hi"
    and "evaluateReserveErrors D draw (order errors) reqs defs errors deny = (deny', decision)"
  shows "if \<exists>r \<in> ran errors. exceeds r then \<exists>h. decision = ReserveDeny h \<and> lo \<le> h \<and> h \<le> hi
         else if ran errors \<subseteq> {TransferExists} then decision = ReserveAllow
         else decision = ReserveFail ''reserve transfer error''"
proof -
  let ?start = "\<lparr>rtDeny = deny, rtMaxRetry = 0, rtHasDenied = False, rtHasLinked = False,
      rtHasUnexpected = False, rtOnlyExists = True\<rparr>"
  let ?t = "fold_tally D draw reqs defs errors ?start (order errors)"
  have fin: "finite (dom errors)" using assms(2) by (rule finite_subset) simp
  then have set: "set (order errors) = dom errors" using assms(1) by (simp add: iterates_errors_def)
  then have nil: "order errors = [] \<longleftrightarrow> ran errors = {}"
  proof -
    have "ran errors = {} \<longleftrightarrow> dom errors = {}"
      by (metis dom_eq_empty_conv ran_empty ranI option.exhaust_sel empty_iff ext)
    then show ?thesis using set set_empty[of "order errors"] by simp
  qed
  have denied: "rtHasDenied ?t \<longleftrightarrow> (\<exists>r \<in> ran errors. exceeds r)"
    unfolding fold_tally_flags using set by (auto simp: ran_def dom_def)
  have only: "rtOnlyExists ?t \<longleftrightarrow> ran errors \<subseteq> {TransferExists}"
    unfolding fold_tally_flags using set by (auto simp: ran_def dom_def)
  have hint: "rtHasDenied ?t \<longrightarrow> lo \<le> rtMaxRetry ?t \<and> rtMaxRetry ?t \<le> hi"
    using fold_tally_hint[OF assms(4,5,3,2), where t = ?start and order = "order errors"] assms(6) by simp
  show ?thesis
    using assms(7) nil denied only hint
    by (auto simp: evaluateReserveErrors_def Let_def fold_tally_def[symmetric] split: if_splits)
qed

section \<open>The outcomes\<close>

text \<open>A new lease over known limits, none of them decreasing.\<close>

definition tb_fresh :: "'s tb_backend \<Rightarrow> reserve_request \<Rightarrow> bool" where
  "tb_fresh b req \<longleftrightarrow>
     LeaseID req \<noteq> [] \<and> Requirements req \<noteq> [] \<and>
     tbLeases b (LeaseID req) = None \<and> tbFailed b (LeaseID req) = None \<and>
     (\<forall>r \<in> set (Requirements req).
        \<exists>state. tbStates b (RKey r) = Some state \<and> Status state \<noteq> LimitStatusDecreasing)"

definition required_defs :: "'s tb_backend \<Rightarrow> requirement list \<Rightarrow> limit_definition list" where
  "required_defs b reqs = map (\<lambda>r. Definition (the (tbStates b (RKey r)))) reqs"

lemma reserve_defs_known:
  "\<forall>r \<in> set reqs. \<exists>state. tbStates b (RKey r) = Some state \<and> Status state \<noteq> LimitStatusDecreasing \<Longrightarrow>
   reserve_defs (tbStates b) ms reqs = Inl (required_defs b reqs)"
  by (induction reqs) (auto simp: required_defs_def)

text \<open>The chain a reservation submits.\<close>

definition reserve_chain :: "('s, 'f) tb_deps \<Rightarrow> 's tb_backend \<Rightarrow> reserve_request \<Rightarrow> tb_transfer list" where
  "reserve_chain D b req =
     reserve_transfers D (LeaseID req) (Requirements req) (required_defs b (Requirements req))"

lemma reserve_chain_nonempty: "Requirements req \<noteq> [] \<Longrightarrow> reserve_chain D b req \<noteq> []"
  by (simp add: reserve_chain_def reserve_transfers_def)

definition reserved_lease :: "reserve_request \<Rightarrow> go_time \<Rightarrow> lease_state" where
  "reserved_lease req now =
     \<lparr>lsLeaseID = LeaseID req, lsReservedAtUnix = UnixMilli now,
      lsRequirements = Requirements req, lsReservedAmounts = indexByKey (Requirements req)\<rparr>"

text \<open>What the backend does with the answer to the chain.\<close>

definition reserve_outcome ::
    "'s tb_backend \<Rightarrow> reserve_request \<Rightarrow> go_time \<Rightarrow> reserve_decision \<Rightarrow> 's tb_backend \<times> (reserve_response + string)" where
  "reserve_outcome b req now decision =
     (case decision of
        ReserveFail err \<Rightarrow> (b, Inr err)
      | ReserveDeny hint \<Rightarrow>
          (b\<lparr>tbFailed := (tbFailed b)(LeaseID req \<mapsto> hint)\<rparr>, Inl (reserve_response0\<lparr>RetryAfterMs := hint\<rparr>))
      | ReserveAllow \<Rightarrow>
          (b\<lparr>tbLeases := (tbLeases b)(LeaseID req \<mapsto> reserved_lease req now),
            tbDeny := foldl (\<lambda>d r. deny_Decay d (RKey r)) (tbDeny b) (Requirements req)\<rparr>,
           Inl (reserve_response0\<lparr>Allowed := True, ReservedAtUnixMs := UnixMilli now\<rparr>)))"

lemma tb_Reserve_fresh:
  assumes "tb_fresh b req" "svSubmit (tdService D) (tbService b) (reserve_chain D b req) = (s', r)"
  shows "tb_Reserve D draw order clk b req at =
    (case r of
       Inr err \<Rightarrow> (b\<lparr>tbService := s'\<rparr>, Inr err)
     | Inl errors \<Rightarrow>
         let (deny, decision) = evaluateReserveErrors D draw (order errors) (Requirements req)
               (required_defs b (Requirements req)) errors (tbDeny b)
         in reserve_outcome (b\<lparr>tbService := s', tbDeny := deny\<rparr>) req (backend_now clk at) decision)"
proof -
  have f: "LeaseID req \<noteq> []" "Requirements req \<noteq> []" "tbLeases b (LeaseID req) = None"
    "tbFailed b (LeaseID req) = None"
    using assms(1) by (auto simp: tb_fresh_def)
  have d: "reserve_defs (tbStates b) ms (Requirements req) = Inl (required_defs b (Requirements req))" for ms
    using assms(1) by (intro reserve_defs_known) (simp add: tb_fresh_def)
  have s: "submitTransfers D b (reserve_transfers D (LeaseID req) (Requirements req) (required_defs b (Requirements req)))
      = (b\<lparr>tbService := s'\<rparr>, r)"
    using assms(2) reserve_chain_nonempty[OF f(2), of D b]
    by (simp add: submitTransfers_def reserve_chain_def)
  have n: "(if IsZero at then clk else at) = backend_now clk at" by (simp add: backend_now_def)
  show ?thesis
    unfolding tb_Reserve_def Let_def n
    by (cases r) (simp_all add: f d s reserve_outcome_def reserved_lease_def case_prod_beta
        split: reserve_decision.splits)
qed

text \<open>The hints of a request stay in bounds with the default policy, whatever the streaks.\<close>

definition sane_hints where
  "sane_hints D draw b req \<longleftrightarrow>
     (\<exists>two three_halves tenth. tdPolicy D = DefaultRetryPolicy two three_halves tenth) \<and>
     (\<forall>i. fair_draw (draw i)) \<and>
     (\<forall>def \<in> set (required_defs b (Requirements req)). moderate_times (tdFloat D) (tdPolicy D) def)"

definition highest_hint where
  "highest_hint D defs = Max (insert 0 (hint_high (tdFloat D) (tdPolicy D) ` set defs))"

lemma sane_hints_within:
  assumes "sane_hints D draw b req"
  shows "hints_within D draw (required_defs b (Requirements req)) 50
    (highest_hint D (required_defs b (Requirements req)))"
  unfolding hints_within_def
proof (intro ballI allI)
  fix def streak i assume def: "def \<in> set (required_defs b (Requirements req))"
  obtain two three_halves tenth where p: "tdPolicy D = DefaultRetryPolicy two three_halves tenth"
    using assms by (auto simp: sane_hints_def)
  have b: "hint_low def \<le> RetryAfterMs_tb (tdFloat D) def streak (tdPolicy D) (retry_Jitter (draw i)) \<and>
      RetryAfterMs_tb (tdFloat D) def streak (tdPolicy D) (retry_Jitter (draw i)) \<le> hint_high (tdFloat D) (tdPolicy D) def"
    by (rule retry_hint_bounds[OF _ _ p]) (use assms def in \<open>auto simp: sane_hints_def\<close>)
  have "hint_high (tdFloat D) (tdPolicy D) def \<le> highest_hint D (required_defs b (Requirements req))"
    unfolding highest_hint_def using def by (intro Max_ge) auto
  moreover have "50 \<le> hint_low def" by (simp add: hint_low_def)
  ultimately show "50 \<le> RetryAfterMs_tb (tdFloat D) def streak (tdPolicy D) (retry_Jitter (draw i)) \<and>
      RetryAfterMs_tb (tdFloat D) def streak (tdPolicy D) (retry_Jitter (draw i)) \<le>
        highest_hint D (required_defs b (Requirements req))"
    using b by linarith
qed

lemma highest_hint_nonneg: "0 \<le> highest_hint D defs"
  unfolding highest_hint_def by (intro Max_ge) auto

lemma decay_keys:
  "foldl (\<lambda>d r. deny_Decay d (RKey r)) d0 reqs k = (if k \<in> RKey ` set reqs then 0 else d0 k)"
  by (induction reqs arbitrary: d0) (auto simp: deny_Decay_def)

text \<open>The facts of an answered reservation, one decision at a time.\<close>

lemma answered_run:
  assumes "tb_fresh b req" "sane_hints D draw b req" "iterates_errors order"
    and "svSubmit (tdService D) (tbService b) (reserve_chain D b req) = (s', Inl errors)"
    and "dom errors \<subseteq> {..<length (Requirements req)}"
  obtains deny decision where
    "tb_Reserve D draw order clk b req at =
       reserve_outcome (b\<lparr>tbService := s', tbDeny := deny\<rparr>) req (backend_now clk at) decision"
    "if \<exists>r \<in> ran errors. exceeds r then
       \<exists>h. decision = ReserveDeny h \<and> 50 \<le> h \<and> h \<le> highest_hint D (required_defs b (Requirements req))
     else if ran errors \<subseteq> {TransferExists} then decision = ReserveAllow
     else decision = ReserveFail ''reserve transfer error''"
proof -
  obtain deny decision where e: "evaluateReserveErrors D draw (order errors) (Requirements req)
      (required_defs b (Requirements req)) errors (tbDeny b) = (deny, decision)"
    by (cases "evaluateReserveErrors D draw (order errors) (Requirements req)
      (required_defs b (Requirements req)) errors (tbDeny b)")
  show ?thesis
  proof (rule that)
    show "tb_Reserve D draw order clk b req at =
        reserve_outcome (b\<lparr>tbService := s', tbDeny := deny\<rparr>) req (backend_now clk at) decision"
      using tb_Reserve_fresh[OF assms(1,4), of draw order clk at] e by simp
    show "if \<exists>r \<in> ran errors. exceeds r then
        \<exists>h. decision = ReserveDeny h \<and> 50 \<le> h \<and> h \<le> highest_hint D (required_defs b (Requirements req))
      else if ran errors \<subseteq> {TransferExists} then decision = ReserveAllow
      else decision = ReserveFail ''reserve transfer error''"
      by (rule evaluate_decision[OF assms(3,5) _ sane_hints_within[OF assms(2)] _ highest_hint_nonneg e])
         (simp_all add: required_defs_def)
  qed
qed

end
