(* ===== verification/TB_Contract.thy ===== *)
theory TB_Contract
  imports TB_Reserve Api_Contract Registry_Theorems
begin

text \<open>
  The TigerBeetle backend under the API: it keeps the contract of the \<open>Backend\<close> interface
  (interpretation \<open>tigerbeetle\<close>), its decrease loop keeps the registry in step with it, and every
  list of transfers it submits is a chain that ends with the list.
\<close>

section \<open>States\<close>

text \<open>The service reports balances that fit 64 bits, so that reading an account does not panic.\<close>

definition narrow_accounts :: "('s, 'f) tb_deps \<Rightarrow> bool" where
  "narrow_accounts D \<longleftrightarrow>
     (\<forall>s ids accounts. svLookupAccounts (tdService D) s ids = Inl accounts \<longrightarrow>
        (\<forall>a \<in> set accounts. unat (taCreditsPosted a) < 2 ^ 64 \<and> unat (taDebitsPosted a) < 2 ^ 64 \<and>
           unat (taDebitsPending a) < 2 ^ 64))"

definition tb_ok :: "('s, 'f) tb_deps \<Rightarrow> 's tb_backend \<Rightarrow> bool" where
  "tb_ok D b \<longleftrightarrow> narrow_accounts D \<and> wf_registry (tbStates b)"

lemma lookup_narrow:
  assumes "narrow_accounts D" "lookupAccount D b i = Inl account"
  shows "\<exists>balance available. accountBalance account = Some balance \<and> accountAvailable account = Some available"
proof -
  obtain rest where "svLookupAccounts (tdService D) (tbService b) [i] = Inl (account # rest)"
    using assms(2) by (auto simp: lookupAccount_def split: sum.splits list.splits)
  then have "unat (taCreditsPosted account) < 2 ^ 64" "unat (taDebitsPosted account) < 2 ^ 64"
      "unat (taDebitsPending account) < 2 ^ 64"
    using assms(1) unfolding narrow_accounts_def by force+
  then have "Uint128ToUint64 (taCreditsPosted account) \<noteq> None" "Uint128ToUint64 (taDebitsPosted account) \<noteq> None"
      "Uint128ToUint64 (taDebitsPending account) \<noteq> None"
    by (simp_all only: Uint128ToUint64_defined)
  then show ?thesis by (auto simp: accountBalance_def accountAvailable_def)
qed

lemma submitTransfers_states [simp]:
  "submitTransfers D b ts = (b', r) \<Longrightarrow> tbStates b' = tbStates b \<and> tbLeases b' = tbLeases b \<and> tbFailed b' = tbFailed b"
  by (auto simp: submitTransfers_def split: if_splits prod.splits)

lemma ensureAccounts_states: "tbStates (fst (ensureAccounts D b def)) = tbStates b"
  by (auto simp: ensureAccounts_def Let_def split: sum.splits prod.splits)

lemma ensureCapacity_answers:
  assumes "narrow_accounts D"
  shows "\<exists>b' err. ensureCapacity D b def = Some (b', err) \<and> tbStates b' = tbStates b"
proof (cases "lookupAccount D b (LimitAccountID (tdSha D) (Key def))")
  case (Inl account)
  obtain balance where bal: "accountBalance account = Some balance"
    using lookup_narrow[OF assms Inl] by blast
  obtain b' r where sub: "submitTransfers D b [capacity_transfer D def (Capacity def - balance)] = (b', r)"
    by (cases "submitTransfers D b [capacity_transfer D def (Capacity def - balance)]")
  then show ?thesis
    using Inl bal submitTransfers_states[OF sub]
    by (cases r) (auto simp: ensureCapacity_def Let_def)
qed (simp add: ensureCapacity_def)

lemma tb_ApplyDefinition_answers:
  assumes "tb_ok D b"
  shows "\<exists>b' err. tb_ApplyDefinition D b d = Some (b', err) \<and> tb_ok D b' \<and>
    tbStates b' = (if err = None then registry_Put (tbStates b) (registry_NextState (tbStates b) d) else tbStates b)"
proof -
  obtain b1 err1 where acc: "ensureAccounts D b d = (b1, err1)" by (cases "ensureAccounts D b d")
  have b1: "tbStates b1 = tbStates b" using ensureAccounts_states[of D b d] acc by simp
  obtain b2 err2 where cap: "ensureCapacity D b1 d = Some (b2, err2)" "tbStates b2 = tbStates b1"
    using ensureCapacity_answers assms unfolding tb_ok_def by metis
  have key: "tbStates b (Key d) = Some prev \<Longrightarrow> Key (Definition prev) = Key d" for prev
    using assms by (auto simp: tb_ok_def wf_registry_def state_key_def)
  have "\<exists>b' err. tb_ApplyDefinition D b d = Some (b', err) \<and>
      tbStates b' = (if err = None then registry_Put (tbStates b) (registry_NextState (tbStates b) d) else tbStates b)"
    using acc b1 cap key
    by (cases err1; cases err2; cases "tbStates b (Key d)")
       (auto simp: tb_ApplyDefinition_def Let_def registry_Put_def registry_NextState_def nextState_def
          set_state_def state_key_def)
  then obtain b' err where "tb_ApplyDefinition D b d = Some (b', err)"
      "tbStates b' = (if err = None then registry_Put (tbStates b) (registry_NextState (tbStates b) d) else tbStates b)"
    by blast
  moreover have "wf_registry (registry_Put (tbStates b) (registry_NextState (tbStates b) d))"
    using assms by (simp add: tb_ok_def wf_registry_Put)
  ultimately show ?thesis
    using assms by (intro exI[of _ b'] exI[of _ err]) (simp add: tb_ok_def)
qed

lemma tb_Reserve_states: "tbStates (fst (tb_Reserve D draw order clk b req at)) = tbStates b"
  by (auto simp: tb_Reserve_def Let_def dest!: submitTransfers_states
      split: option.splits sum.splits prod.splits reserve_decision.splits)

lemma check_submit_states: "check_submit D b ts text = (b', err) \<Longrightarrow> tbStates b' = tbStates b \<and> tbLeases b' = tbLeases b"
  by (auto simp: check_submit_def dest!: submitTransfers_states split: prod.splits sum.splits)

lemma releaseConcurrency_states:
  "releaseConcurrency D b state defs = (b', err) \<Longrightarrow> tbStates b' = tbStates b \<and> tbLeases b' = tbLeases b"
  by (auto simp: releaseConcurrency_def dest!: check_submit_states split: if_splits)

lemma reconcileUnderuse_states:
  "reconcileUnderuse D b state def actual now = (b', err) \<Longrightarrow> tbStates b' = tbStates b \<and> tbLeases b' = tbLeases b"
  by (auto simp: reconcileUnderuse_def Let_def dest!: check_submit_states split: if_splits)

lemma reconcileOveruse_states:
  assumes "reconcileOveruse D b state def diff now = (b', err)"
  shows "tbStates b' = tbStates b \<and> tbLeases b' = tbLeases b"
  using assms
  by (auto simp: reconcileOveruse_def Let_def dest!: check_submit_states submitTransfers_states
      split: if_splits prod.splits sum.splits)

lemma reconcileRolling_states:
  "reconcileRolling D b state defs actuals now = (b', err) \<Longrightarrow> tbStates b' = tbStates b \<and> tbLeases b' = tbLeases b"
proof (induction actuals arbitrary: b)
  case (Cons a rest)
  then show ?case
    by (fastforce simp: Let_def dest!: reconcileUnderuse_states reconcileOveruse_states
        split: option.splits prod.splits if_splits)
qed simp

lemma tb_Complete_states:
  assumes "tb_Complete D clk b req = (b', resp, err)"
  shows "tbStates b' = tbStates b \<and>
    tbLeases b' = (if CLeaseID req = [] then tbLeases b else (tbLeases b)(CLeaseID req := None))"
  using assms
  by (auto simp: tb_Complete_def Let_def fun_upd_idem dest!: releaseConcurrency_states reconcileRolling_states
      split: if_splits option.splits prod.splits)

section \<open>The contract\<close>

text \<open>The panic of a definition, which \<open>tb_ok\<close> rules out, would abort the request.\<close>

definition tb_ops ::
    "('s, 'f) tb_deps \<Rightarrow> (nat \<Rightarrow> go_int \<Rightarrow> go_int) \<Rightarrow> (transfer_errors \<Rightarrow> nat list) \<Rightarrow> go_time \<Rightarrow>
     's tb_backend backend_ops" where
  "tb_ops D draw order clk =
     \<lparr>opApply = \<lambda>b d. (case tb_ApplyDefinition D b d of Some r \<Rightarrow> r | None \<Rightarrow> (b, Some ''panic'')),
      opReserve = \<lambda>b req at. Some (tb_Reserve D draw order clk b req at),
      opComplete = \<lambda>b req. (case tb_Complete D clk b req of
         (b', resp, None) \<Rightarrow> Some (b', Inl resp) | (b', _, Some err) \<Rightarrow> Some (b', Inr err))\<rparr>"

interpretation tigerbeetle: limit_backend "tb_ops D draw order clk" "tb_ok D" tbStates
  for D :: "('s, 'f) tb_deps" and draw order clk
proof (unfold_locales, goal_cases)
  case (1 b d)
  obtain b' err where "tb_ApplyDefinition D b d = Some (b', err)" "tb_ok D b'"
    "tbStates b' = (if err = None then registry_Put (tbStates b) (registry_NextState (tbStates b) d) else tbStates b)"
    using tb_ApplyDefinition_answers[OF 1, of d] by blast
  then show ?case by (intro exI[of _ b'] exI[of _ err]) (simp add: tb_ops_def)
next
  case (2 b req now)
  obtain b' r where "tb_Reserve D draw order clk b req now = (b', r)"
    by (cases "tb_Reserve D draw order clk b req now")
  then show ?case
    using 2 tb_Reserve_states[of D draw order clk b req now] by (simp add: tb_ops_def tb_ok_def)
next
  case (3 b creq)
  obtain b' resp err where "tb_Complete D clk b creq = (b', resp, err)"
    by (cases "tb_Complete D clk b creq")
  then show ?case
    using 3 tb_Complete_states[of D clk b creq b' resp err]
    by (cases err) (auto simp: tb_ops_def tb_ok_def)
qed

section \<open>The decrease loop\<close>

lemma tryApplyDecrease_answers:
  assumes "narrow_accounts D"
  shows "\<exists>b' reg' saved err. tb_tryApplyDecrease D path reg b state = Some (b', reg', saved, err) \<and>
    (tbStates b' = tbStates b \<and> reg' = reg \<or>
     tbStates b' = registry_Put (tbStates b) (decreased_state state) \<and> reg' = registry_Put reg (decreased_state state))"
proof (cases "Status state \<noteq> LimitStatusDecreasing \<or> PendingDecreaseTo state = 0 \<or>
    PendingDecreaseTo state \<ge> Capacity (Definition state)")
  case True
  then show ?thesis by (simp add: tb_tryApplyDecrease_def Let_def)
next
  case False
  note go = this
  show ?thesis
  proof (cases "lookupAccount D b (LimitAccountID (tdSha D) (Key (Definition state)))")
    case (Inl account)
    obtain available where av: "accountAvailable account = Some available"
      using lookup_narrow[OF assms Inl] by blast
    obtain b1 r where sub: "submitTransfers D b [decrease_transfer D state] = (b1, r)"
      by (cases "submitTransfers D b [decrease_transfer D state]")
    have key: "Key (Definition (decreased_state state)) = Key (Definition state)"
      by (simp add: decreased_state_def)
    show ?thesis
    proof (cases "available < Capacity (Definition state) - PendingDecreaseTo state")
      case True
      then show ?thesis using go Inl av by (simp add: tb_tryApplyDecrease_def Let_def)
    next
      case False
      note fits = this
      show ?thesis
      proof (cases r)
        case (Inr err)
        then show ?thesis
          using go Inl av sub fits submitTransfers_states[OF sub] by (simp add: tb_tryApplyDecrease_def Let_def)
      next
        case (Inl errors)
        then show ?thesis
          using go \<open>lookupAccount D b _ = Inl account\<close> av sub fits submitTransfers_states[OF sub] key
          by (cases "firstTransferError errors")
             (simp_all add: tb_tryApplyDecrease_def Let_def set_state_def registry_Put_def)
      qed
    qed
  qed (use go in \<open>simp add: tb_tryApplyDecrease_def Let_def\<close>)
qed

lemma try_decreases_synced:
  assumes "narrow_accounts D"
  shows "tb_ok D b \<Longrightarrow> \<exists>b'. try_decreases D path (tbStates b) b states = Some (b', tbStates b') \<and> tb_ok D b'"
proof (induction states arbitrary: b)
  case (Cons state states)
  obtain b1 reg1 saved err where t: "tb_tryApplyDecrease D path (tbStates b) b state = Some (b1, reg1, saved, err)"
    "tbStates b1 = tbStates b \<and> reg1 = tbStates b \<or>
     tbStates b1 = registry_Put (tbStates b) (decreased_state state) \<and>
       reg1 = registry_Put (tbStates b) (decreased_state state)"
    using tryApplyDecrease_answers[OF assms, of path "tbStates b" b state] by blast
  then have "reg1 = tbStates b1" by auto
  moreover have "tb_ok D b1"
    using t(2) Cons.prems wf_registry_Put[of "tbStates b" "decreased_state state"] by (auto simp: tb_ok_def)
  ultimately show ?case using t(1) Cons.IH[of b1] by simp
qed simp

section \<open>The daemon over TigerBeetle\<close>

text \<open>The API calls and the ticks of the decrease loop, in any order.\<close>

datatype tb_event = ApiCall api_call | DecreaseTick "limit_key list"

fun tb_serve ::
    "('s, 'f) tb_deps \<Rightarrow> (nat \<Rightarrow> go_int \<Rightarrow> go_int) \<Rightarrow> (transfer_errors \<Rightarrow> nat list) \<Rightarrow> go_time \<Rightarrow>
     's tb_backend api_handler \<Rightarrow> tb_event \<Rightarrow> ('s tb_backend api_handler \<times> http_response option) option" where
  "tb_serve D draw order clk h (ApiCall call) =
     map_option (\<lambda>(h', resp). (h', Some resp)) (api_serve (tb_ops D draw order clk) h call)"
| "tb_serve D draw order clk h (DecreaseTick keys) =
     (case (ahBackend h, ahRegistry h) of
        (Some b, Some reg) \<Rightarrow>
          map_option (\<lambda>(b', reg'). (h\<lparr>ahBackend := Some b', ahRegistry := Some reg'\<rparr>, None))
            (applyPendingDecreases D (ahRegistryPath h) reg keys b)
      | _ \<Rightarrow> None)"

lemma tb_serve_synced:
  assumes "synced (tb_ok D) tbStates h"
  shows "\<exists>h' resp. tb_serve D draw order clk h e = Some (h', resp) \<and> synced (tb_ok D) tbStates h'"
proof (cases e)
  case (ApiCall call)
  then show ?thesis using tigerbeetle.api_serve_synced[OF assms, of draw order clk call] by auto
next
  case (DecreaseTick keys)
  obtain b where b: "ahBackend h = Some b" "tb_ok D b" "ahRegistry h = Some (tbStates b)"
    using assms by (auto simp: synced_def)
  obtain b' where "applyPendingDecreases D (ahRegistryPath h) (tbStates b) keys b = Some (b', tbStates b')" "tb_ok D b'"
    using try_decreases_synced[OF _ b(2)] b(2) unfolding applyPendingDecreases_def tb_ok_def by blast
  then show ?thesis using b DecreaseTick by (simp add: synced_def)
qed

lemma tb_run_synced:
  "synced (tb_ok D) tbStates h \<Longrightarrow>
   \<exists>h' resps. run_items (tb_serve D draw order clk) h es = Some (h', resps) \<and> synced (tb_ok D) tbStates h' \<and>
     length resps = length es"
  by (rule run_items_total[of "synced (tb_ok D) tbStates"]) (use tb_serve_synced in auto)

lemma loadStates_states:
  assumes "narrow_accounts D"
  shows "\<exists>b' err. loadStates D b states = Some (b', err) \<and>
    (err = None \<longrightarrow> tbStates b' = foldl registry_Put (tbStates b) states)"
proof (induction states arbitrary: b)
  case (Cons state states)
  obtain b1 err1 where acc: "ensureAccounts D b (Definition state) = (b1, err1)"
    by (cases "ensureAccounts D b (Definition state)")
  have b1: "tbStates b1 = tbStates b" using ensureAccounts_states[of D b "Definition state"] acc by simp
  obtain b2 err2 where cap: "ensureCapacity D b1 (Definition state) = Some (b2, err2)" "tbStates b2 = tbStates b1"
    using ensureCapacity_answers assms by metis
  have "tbStates (set_state b2 state) = registry_Put (tbStates b) state"
    using b1 cap(2) by (simp add: set_state_def registry_Put_def)
  then show ?case
    using Cons.IH[of "set_state b2 state"] acc cap(1)
    by (cases err1; cases err2) (auto simp: tb_ApplyState_def)
qed simp

end
