(* ===== verification/TB_Chains.thy ===== *)
theory TB_Chains
  imports TB_Contract
begin

text \<open>
  The transfers the TigerBeetle backend submits.  A service wrapped by \<open>guarded P\<close> refuses every
  list of transfers without the property \<open>P\<close>; an operation that does over the wrapped service
  exactly what it does over the service submits only lists with \<open>P\<close>.
\<close>

definition guarded ::
    "(tb_transfer list \<Rightarrow> bool) \<Rightarrow> ('s, 'f) tb_deps \<Rightarrow> ('s, 'f) tb_deps" where
  "guarded P D = D\<lparr>tdService := (tdService D)\<lparr>svSubmit :=
     (\<lambda>s ts. if P ts then svSubmit (tdService D) s ts else (s, Inr ''refused by the guard''))\<rparr>\<rparr>"

lemma guarded_simps [simp]:
  "tdSha (guarded P D) = tdSha D" "tdFloat (guarded P D) = tdFloat D" "tdPolicy (guarded P D) = tdPolicy D"
  "svCreateAccounts (tdService (guarded P D)) = svCreateAccounts (tdService D)"
  "svLookupAccounts (tdService (guarded P D)) = svLookupAccounts (tdService D)"
  by (simp_all add: guarded_def)

text \<open>
  A well-formed submission: not empty, the last transfer not linked, and every transfer in the one
  ledger, with the id of one of the labels and the operator on one side.
\<close>

definition chain_ok :: "('s, 'f) tb_deps \<Rightarrow> tb_transfer list \<Rightarrow> bool" where
  "chain_ok D ts \<longleftrightarrow> ends_chain ts \<and>
     (\<forall>t \<in> set ts. tfLedger t = ledgerLimits \<and> tfCode t = codeLimit \<and>
        (\<exists>l. tfID t = ID128 (tdSha D) (label_text l)) \<and>
        (tfDebit t = OperatorAccountID (tdSha D) \<or> tfCredit t = OperatorAccountID (tdSha D)))"

lemma guarded_submit [simp]:
  "ts = [] \<or> P ts \<Longrightarrow> submitTransfers (guarded P D) b ts = submitTransfers D b ts"
  by (auto simp: submitTransfers_def guarded_def)

lemma guarded_check [simp]:
  "ts = [] \<or> P ts \<Longrightarrow> check_submit (guarded P D) b ts text = check_submit D b ts text"
  by (simp add: check_submit_def)

lemma guarded_transfers [simp]:
  "voidTransfer (guarded P D) = voidTransfer D" "pendingTransfer (guarded P D) = pendingTransfer D"
  "debtTransfer (guarded P D) = debtTransfer D" "capacity_transfer (guarded P D) = capacity_transfer D"
  "reserve_transfers (guarded P D) = reserve_transfers D" "release_transfers (guarded P D) = release_transfers D"
  "decrease_transfer (guarded P D) = decrease_transfer D" "limit_accounts (guarded P D) = limit_accounts D"
  "lookupAccount (guarded P D) = lookupAccount D"
  by (simp_all add: fun_eq_iff voidTransfer_def pendingTransfer_def debtTransfer_def capacity_transfer_def
      reserve_transfers_def release_transfers_def decrease_transfer_def limit_accounts_def lookupAccount_def)

lemma guarded_evaluate [simp]: "evaluateReserveErrors (guarded P D) = evaluateReserveErrors D"
proof -
  have "tally_step (guarded P D) = tally_step D"
    unfolding tally_step_def guarded_simps by (rule refl)
  then show ?thesis unfolding evaluateReserveErrors_def by (simp only:)
qed

declare label_text.simps [simp del]

lemmas transfer_ids = VoidTransferID_def RereserveTransferID_def ReserveTransferID_def DebtTransferID_def
  DecreaseTransferID_def capacityTransferID_def

lemma chain_ok_single:
  "\<not> tfLinked t \<Longrightarrow> tfLedger t = ledgerLimits \<Longrightarrow> tfCode t = codeLimit \<Longrightarrow>
   tfID t = ID128 (tdSha D) (label_text l) \<Longrightarrow>
   tfDebit t = OperatorAccountID (tdSha D) \<or> tfCredit t = OperatorAccountID (tdSha D) \<Longrightarrow> chain_ok D [t]"
  by (auto simp: chain_ok_def ends_chain_def)

lemma chain_ok_transfers [simp]:
  "chain_ok D [capacity_transfer D d delta]" "chain_ok D [decrease_transfer D state]"
  "chain_ok D [debtTransfer D lease key amount]" "chain_ok D [pendingTransfer D lease key amount timeout]"
  "chain_ok D [voidTransfer D lease key amount False]"
  by (rule chain_ok_single; simp add: capacity_transfer_def decrease_transfer_def debtTransfer_def
      pendingTransfer_def voidTransfer_def base_transfer_def transfer_ids)+

lemma chain_ok_underuse [simp]:
  "chain_ok D [voidTransfer D lease key amount True, pendingTransfer D lease key amount' timeout]"
  by (auto simp: chain_ok_def ends_chain_def pendingTransfer_def voidTransfer_def base_transfer_def
      transfer_ids)

lemma chain_ok_reserve: "reqs \<noteq> [] \<Longrightarrow> chain_ok D (reserve_transfers D lease reqs defs)"
  by (auto simp: chain_ok_def ends_chain_def reserve_transfers_def last_map base_transfer_def Let_def
      transfer_ids)

lemma chain_ok_release:
  "release_transfers D state defs \<noteq> [] \<Longrightarrow> chain_ok D (release_transfers D state defs)"
  by (auto simp: chain_ok_def ends_chain_def release_transfers_def last_map voidTransfer_def base_transfer_def
      transfer_ids)

section \<open>The operations over a guarded service\<close>

lemma guarded_calls:
  "submitTransfers (guarded (chain_ok D) D) b [capacity_transfer D d delta] =
   submitTransfers D b [capacity_transfer D d delta]"
  "submitTransfers (guarded (chain_ok D) D) b [decrease_transfer D state] =
   submitTransfers D b [decrease_transfer D state]"
  "submitTransfers (guarded (chain_ok D) D) b [pendingTransfer D lease key amount timeout] =
   submitTransfers D b [pendingTransfer D lease key amount timeout]"
  "check_submit (guarded (chain_ok D) D) b [voidTransfer D lease key amount False] text =
   check_submit D b [voidTransfer D lease key amount False] text"
  "check_submit (guarded (chain_ok D) D) b
     [voidTransfer D lease key amount True, pendingTransfer D lease key amount' timeout] text =
   check_submit D b [voidTransfer D lease key amount True, pendingTransfer D lease key amount' timeout] text"
  "check_submit (guarded (chain_ok D) D) b [debtTransfer D lease key amount] text =
   check_submit D b [debtTransfer D lease key amount] text"
  by simp_all

lemma guarded_release:
  "check_submit (guarded (chain_ok D) D) b (release_transfers D st defs) text =
   check_submit D b (release_transfers D st defs) text"
  by (rule guarded_check) (use chain_ok_release in blast)

lemma guarded_ensureAccounts: "ensureAccounts (guarded P D) = ensureAccounts D"
  unfolding ensureAccounts_def guarded_simps guarded_transfers by (rule refl)

lemma guarded_ensureCapacity: "ensureCapacity (guarded (chain_ok D) D) = ensureCapacity D"
  unfolding ensureCapacity_def guarded_simps guarded_transfers guarded_calls by (rule refl)

lemma guarded_ApplyDefinition: "tb_ApplyDefinition (guarded (chain_ok D) D) = tb_ApplyDefinition D"
  unfolding tb_ApplyDefinition_def guarded_ensureAccounts guarded_ensureCapacity by (rule refl)

lemma guarded_Reserve:
  "tb_Reserve (guarded (chain_ok D) D) draw order clk b req at = tb_Reserve D draw order clk b req at"
proof (cases "LeaseID req = [] \<or> Requirements req = []")
  case False
  then have "submitTransfers (guarded (chain_ok D) D) b (reserve_transfers D lease (Requirements req) defs) =
      submitTransfers D b (reserve_transfers D lease (Requirements req) defs)" for lease defs
    by (simp add: chain_ok_reserve)
  then show ?thesis
    unfolding tb_Reserve_def Let_def guarded_simps guarded_transfers guarded_evaluate by (simp only:)
qed (simp add: tb_Reserve_def)

lemma guarded_reconcile:
  "reconcileUnderuse (guarded (chain_ok D) D) b state def amount now = reconcileUnderuse D b state def amount now"
  "reconcileOveruse (guarded (chain_ok D) D) b state def amount now = reconcileOveruse D b state def amount now"
proof -
  show "reconcileUnderuse (guarded (chain_ok D) D) b state def amount now = reconcileUnderuse D b state def amount now"
    by (cases "amount = 0") (simp_all add: reconcileUnderuse_def Let_def guarded_calls)
  show "reconcileOveruse (guarded (chain_ok D) D) b state def amount now = reconcileOveruse D b state def amount now"
    unfolding reconcileOveruse_def guarded_simps guarded_transfers guarded_calls by (rule refl)
qed

lemma guarded_Rolling:
  "reconcileRolling (guarded (chain_ok D) D) b state defs actuals now = reconcileRolling D b state defs actuals now"
  by (induction actuals arbitrary: b) (simp_all only: reconcileRolling.simps guarded_reconcile)

lemma guarded_Complete: "tb_Complete (guarded (chain_ok D) D) = tb_Complete D"
  unfolding tb_Complete_def releaseConcurrency_def guarded_transfers guarded_release guarded_Rolling by (rule refl)

lemma guarded_tryApplyDecrease: "tb_tryApplyDecrease (guarded (chain_ok D) D) = tb_tryApplyDecrease D"
  unfolding tb_tryApplyDecrease_def guarded_simps guarded_transfers guarded_calls by (rule refl)

end
