(* ===== verification/TB_Examples.thy ===== *)
theory TB_Examples
  imports TB_Chains
begin

text \<open>
  Concrete services and requests, the inputs of the witnesses.  \<open>ex_service\<close> admits a chain when
  every transfer fits what its account has left; its state is what every account has left.
\<close>

section \<open>A service that admits chains\<close>

definition fits_left :: "(tb_id \<Rightarrow> nat) \<Rightarrow> tb_transfer \<Rightarrow> bool" where
  "fits_left left t \<longleftrightarrow> unat (tfAmount t) \<le> left (tfDebit t)"

definition charge :: "(tb_id \<Rightarrow> nat) \<Rightarrow> tb_transfer list \<Rightarrow> tb_id \<Rightarrow> nat" where
  "charge left ts = foldl (\<lambda>l t. l(tfDebit t := l (tfDebit t) - unat (tfAmount t))) left ts"

definition ex_errors :: "(tb_id \<Rightarrow> nat) \<Rightarrow> tb_transfer list \<Rightarrow> transfer_errors" where
  "ex_errors left ts = (\<lambda>i. if i < length ts
     then Some (if fits_left left (ts ! i) then TransferLinkedEventFailed else TransferExceedsCredits) else None)"

definition ex_service :: "(tb_id \<Rightarrow> nat) tb_service" where
  "ex_service =
     \<lparr>svCreateAccounts = \<lambda>left _. (left, Inl []),
      svLookupAccounts = \<lambda>left ids. Inl (map (\<lambda>i. base_account\<lparr>taID := i,
        taCreditsPosted := Uint128FromUint64 (of_nat (left i))\<rparr>) ids),
      svSubmit = \<lambda>left ts. (if list_all (fits_left left) ts then (charge left ts, Inl Map.empty)
        else (left, Inl (ex_errors left ts)))\<rparr>"

text \<open>The label itself, cut or filled to 32 bytes, stands for its hash.\<close>

definition ex_sha :: "string \<Rightarrow> byte list" where
  "ex_sha s = take 32 (map of_char s @ replicate 32 0)"

definition ex_float :: "int float_ops" where
  "ex_float = \<lparr>flOfInt = \<lambda>n. n, flMul = (*), flPow = \<lambda>a b. a ^ nat b, flToInt = \<lambda>n. n,
     flSeconds = \<lambda>d. d div 10 ^ 9\<rparr>"

definition ex_deps :: "(tb_id \<Rightarrow> nat, int) tb_deps" where
  "ex_deps = \<lparr>tdSha = ex_sha, tdService = ex_service, tdFloat = ex_float,
     tdPolicy = DefaultRetryPolicy 2 2 0\<rparr>"

definition ex_order :: "transfer_errors \<Rightarrow> nat list" where
  "ex_order em = (if finite (dom em) then sorted_list_of_set (dom em) else [])"

lemma iterates_ex_order: "iterates_errors ex_order"
  by (simp add: iterates_errors_def ex_order_def)

definition ex_limit :: "limit_key \<Rightarrow> limit_state" where
  "ex_limit key = \<lparr>Definition = \<lparr>Key = key, Kind = KindRolling, Capacity = 10, WindowSeconds = 60,
      TimeoutSeconds = 0, Unit = [], Description = [], Overage = OverageDebt\<rparr>,
     Status = LimitStatusActive, PendingDecreaseTo = 0\<rparr>"

text \<open>A backend whose limit \<open>k\<close> has five left, and two requests.\<close>

definition ex_tb :: "(tb_id \<Rightarrow> nat) tb_backend" where
  "ex_tb = \<lparr>tbService = (\<lambda>_. 5), tbStates = [''k'' \<mapsto> ex_limit ''k''],
     tbLeases = Map.empty, tbFailed = Map.empty, tbDeny = newDenyTracker\<rparr>"

definition ex_tb_request :: "uint64 \<Rightarrow> reserve_request" where
  "ex_tb_request n = \<lparr>LeaseID = ''L'', JobID = ''J'', Requirements = [\<lparr>RKey = ''k'', Amount = n\<rparr>]\<rparr>"

lemma ex_fresh: "tb_fresh ex_tb (ex_tb_request n)"
  by (simp add: tb_fresh_def ex_tb_def ex_tb_request_def ex_limit_def)

lemma ex_hints: "sane_hints ex_deps (\<lambda>_ _. 0) ex_tb (ex_tb_request n)"
  unfolding sane_hints_def
  by (auto simp: ex_deps_def ex_tb_def ex_tb_request_def ex_limit_def fair_draw_def required_defs_def
      moderate_times_def window_base_def ex_float_def DefaultRetryPolicy_def)

lemma ex_chain: "reserve_chain ex_deps ex_tb (ex_tb_request n) =
    [base_transfer\<lparr>tfID := ReserveTransferID ex_sha ''L'' ''k'', tfDebit := LimitAccountID ex_sha ''k'',
      tfCredit := OperatorAccountID ex_sha, tfAmount := Uint128FromUint64 n, tfPending := True,
      tfTimeout := 60\<rparr>]"
  by (simp add: reserve_chain_def reserve_transfers_def ex_tb_request_def ex_tb_def ex_deps_def
      required_defs_def ex_limit_def timeoutSeconds_def uint32_of_def base_transfer_def)

lemma unat_Uint128FromUint64 [simp]: "unat (Uint128FromUint64 v) = unat v"
  by (simp add: Uint128FromUint64_def unat_ucast_128)

lemma ex_submit:
  "svSubmit (tdService ex_deps) (tbService ex_tb) (reserve_chain ex_deps ex_tb (ex_tb_request 3)) =
     (charge (\<lambda>_. 5) (reserve_chain ex_deps ex_tb (ex_tb_request 3)), Inl Map.empty)"
  "svSubmit (tdService ex_deps) (tbService ex_tb) (reserve_chain ex_deps ex_tb (ex_tb_request 7)) =
     (\<lambda>_. 5, Inl [0 \<mapsto> TransferExceedsCredits])"
  unfolding ex_chain
  by (auto simp: ex_deps_def ex_service_def fits_left_def ex_tb_def ex_errors_def fun_eq_iff)

section \<open>A service that decides by chain\<close>

text \<open>It refuses exactly the transfers of amount zero.\<close>

fun zero_errors :: "nat \<Rightarrow> tb_transfer list \<Rightarrow> (nat \<times> transfer_result) list" where
  "zero_errors n [] = []"
| "zero_errors n (t # ts) =
     (if tfAmount t = 0 then [(n, OtherTransferResult ''amount must not be zero'')] else []) @
     zero_errors (Suc n) ts"

definition zero_create :: "nat create_transfers" where
  "zero_create s ts = (s + length ts, Inl (zero_errors 0 ts))"

lemma zero_errors_append: "zero_errors n (ts @ us) = zero_errors n ts @ zero_errors (n + length ts) us"
  by (induction ts arbitrary: n) auto

lemma zero_errors_shift: "zero_errors (n + k) us = shift_results n (zero_errors k us)"
proof (induction us arbitrary: k)
  case (Cons u us)
  then show ?case using Cons[of "Suc k"] by (auto simp: shift_results_def)
qed (simp add: shift_results_def)

lemma zero_errors_bound: "p \<in> set (zero_errors n ts) \<Longrightarrow> n \<le> fst p \<and> fst p < n + length ts"
proof (induction ts arbitrary: n)
  case (Cons t ts)
  have "p = (n, OtherTransferResult ''amount must not be zero'') \<or> p \<in> set (zero_errors (Suc n) ts)"
    using Cons.prems by (auto split: if_splits)
  then show ?case using Cons.IH[of "Suc n"] by (elim disjE) simp_all
qed simp

lemma zero_decides: "decides_by_chain zero_create"
  unfolding decides_by_chain_def
proof (intro conjI allI impI)
  fix s ts and us :: "tb_transfer list"
  have "zero_errors 0 (ts @ us) = zero_errors 0 ts @ shift_results (length ts) (zero_errors 0 us)"
    using zero_errors_append[of 0 ts us] zero_errors_shift[of "length ts" 0 us] by simp
  then show "\<exists>s1 s2 rs qs. zero_create s ts = (s1, Inl rs) \<and> zero_create s1 us = (s2, Inl qs) \<and>
      zero_create s (ts @ us) = (s2, Inl (rs @ shift_results (length ts) qs))"
    by (simp add: zero_create_def)
next
  fix s ts s1 rs assume "zero_create s ts = (s1, Inl rs)"
  then have "rs = zero_errors 0 ts" by (simp add: zero_create_def)
  then show "\<forall>p \<in> set rs. fst p < length ts" using zero_errors_bound[of _ 0 ts] by auto
qed

end
