(* ===== verification/TB_Theorems.thy ===== *)
theory TB_Theorems
  imports TB_Examples Mem_Spec
begin

text \<open>The properties of the TigerBeetle backend and of the layer below it.\<close>

section \<open>Ids\<close>

text \<open>C26. No two things share an id but by a collision of the hash: for leases without a colon
  (the generated ones have none) the labels of accounts and transfers are all different, whatever
  colons the limit keys contain, and every id is a 16-byte number that is neither of the two
  TigerBeetle reserves.\<close>

theorem tb_ids_never_clash:
  assumes "\<And>s. length (sha s) = 32"
  shows "inj_on label_text {l. CHR '':'' \<notin> set (label_lease l)} \<and>
    (\<forall>s. length (ID128 sha s) = 16 \<and> \<not> isZero (ID128 sha s) \<and> \<not> isMax (ID128 sha s))"
proof
  show "inj_on label_text {l. CHR '':'' \<notin> set (label_lease l)}"
    by (auto intro: inj_onI label_text_inject)
  show "\<forall>s. length (ID128 sha s) = 16 \<and> \<not> isZero (ID128 sha s) \<and> \<not> isMax (ID128 sha s)"
    using assms ID128_valid by blast
qed

theorem tb_ids_never_clash_witness:
  "ID128 (\<lambda>_. replicate 32 0) ''x'' = 1 # replicate 15 0 \<and> \<not> isZero (ID128 (\<lambda>_. replicate 32 0) ''x'')"
proof
  show "ID128 (\<lambda>_. replicate 32 0) ''x'' = 1 # replicate 15 0" by code_simp
  show "\<not> isZero (ID128 (\<lambda>_. replicate 32 0) ''x'')"
    using tb_ids_never_clash[of "\<lambda>_. replicate 32 0"] by simp
qed

section \<open>The submitter\<close>

text \<open>C27. Batching is transparent: over a service that decides chain by chain, a flush of items
  whose last transfer is not linked leads the service to the state that submitting the items one
  after the other would lead it to, and hands each item, under the positions the item itself
  gives its transfers, exactly the failures it would get alone.\<close>

theorem submitter_batch_transparent:
  assumes "decides_by_chain create" "\<forall>item \<in> set items. ends_chain (wiTransfers item)" "items \<noteq> []"
  shows "submitter_flush create s items = submit_in_turn create s items"
  using assms by (rule flush_in_turn)

definition ex_work :: "nat \<Rightarrow> uint128 list \<Rightarrow> work_item" where
  "ex_work i amounts = \<lparr>wiId = i, wiTransfers = map (\<lambda>a. base_transfer\<lparr>tfAmount := a\<rparr>) amounts\<rparr>"

theorem submitter_batch_transparent_witness:
  "submitter_flush zero_create 0 [ex_work 1 [5], ex_work 2 [4, 0]] =
     submit_in_turn zero_create 0 [ex_work 1 [5], ex_work 2 [4, 0]] \<and>
   map (\<lambda>(i, r). (i, case r of Inl em \<Rightarrow> em 1 = None | Inr _ \<Rightarrow> False))
     (snd (submitter_flush zero_create 0 [ex_work 1 [5], ex_work 2 [4, 0]])) = [(1, True), (2, False)]"
proof
  show "submitter_flush zero_create 0 [ex_work 1 [5], ex_work 2 [4, 0]] =
      submit_in_turn zero_create 0 [ex_work 1 [5], ex_work 2 [4, 0]]"
    by (rule submitter_batch_transparent[OF zero_decides])
       (simp_all add: ex_work_def ends_chain_def base_transfer_def)
  show "map (\<lambda>(i, r). (i, case r of Inl em \<Rightarrow> em 1 = None | Inr _ \<Rightarrow> False))
     (snd (submitter_flush zero_create 0 [ex_work 1 [5], ex_work 2 [4, 0]])) = [(1, True), (2, False)]"
    by (simp add: submitter_flush_def zero_create_def ex_work_def base_transfer_def item_errors_def
        error_map_def Let_def)
qed

text \<open>C28. The submitter stays within bounds: whatever the service answers and in whatever order
  items arrive, the timer fires and the loop is stopped, no call carries more transfers than the
  maximum and fewer than that are waiting; every item received is, exactly once, answered or
  waiting, and none is waiting once the loop has stopped.\<close>

theorem submitter_bounds:
  fixes create :: "'s create_transfers" and s :: 's and es :: "submitter_event list"
  assumes "0 < maxEvents"
  defines "m \<equiv> submitter_run create maxEvents (NewSubmitter s) es"
  shows "(\<forall>n \<in> set (smBatches m). n \<le> maxEvents) \<and> totalTransfers (smPending m) < maxEvents \<and>
    mset (map fst (smReplies m)) + mset (map wiId (smPending m)) = mset (map wiId (received_items es)) \<and>
    (smStopped m \<longrightarrow> smPending m = [])"
proof -
  have "submitter_ok maxEvents [] (NewSubmitter s)"
    using assms(1) by (simp add: submitter_ok_def NewSubmitter_def)
  then have "submitter_ok maxEvents ([] @ received_items es) m"
    unfolding m_def by (rule submitter_run_ok) (use assms(1) in \<open>simp_all add: NewSubmitter_def\<close>)
  then show ?thesis by (simp add: submitter_ok_def)
qed

theorem submitter_bounds_witness:
  "smBatches (submitter_run zero_create 2 (NewSubmitter 0)
      [WorkReceived (ex_work 1 [5]), WorkReceived (ex_work 2 [4, 0]), WorkReceived (ex_work 3 [1, 1, 1])]) = [1, 2] \<and>
   totalTransfers (smPending (submitter_run zero_create 2 (NewSubmitter 0)
      [WorkReceived (ex_work 1 [5]), WorkReceived (ex_work 2 [4, 0]), WorkReceived (ex_work 3 [1, 1, 1])])) < 2"
  using submitter_bounds[of 2 zero_create 0 "[WorkReceived (ex_work 1 [5]), WorkReceived (ex_work 2 [4, 0]),
      WorkReceived (ex_work 3 [1, 1, 1])]"]
  by (simp add: submitter_run_def NewSubmitter_def ex_work_def Let_def flush_work_def case_prod_beta)

section \<open>Reservations\<close>

text \<open>C29. The outcome of a new lease depends on the failures of its transfers and not on the order
  in which Go iterates over them.  When a transfer exceeded its limit the request is denied with
  a hint between 50 milliseconds and the highest of its limits (with the default policy and times
  that do not overflow, however long the streak of denials), and the lease is remembered as
  failed; when the transfers succeeded, or existed already, it is allowed, the lease is recorded
  and the streaks of its limits end; any other failure is an error that leaves both tables alone.
  The states of the limits never change.\<close>

theorem tb_Reserve_outcome:
  fixes clk at :: go_time
  assumes "tb_fresh b req" "sane_hints D draw b req" "iterates_errors order"
    and "svSubmit (tdService D) (tbService b) (reserve_chain D b req) = (s', Inl errors)"
    and "dom errors \<subseteq> {..<length (Requirements req)}"
    and "tb_Reserve D draw order clk b req at = (b', out)"
  defines "now \<equiv> backend_now clk at"
  shows "tbService b' = s' \<and> tbStates b' = tbStates b \<and>
    (if \<exists>r \<in> ran errors. exceeds r then
       \<exists>hint. 50 \<le> hint \<and> hint \<le> highest_hint D (required_defs b (Requirements req)) \<and>
         out = Inl (reserve_response0\<lparr>RetryAfterMs := hint\<rparr>) \<and>
         tbFailed b' = (tbFailed b)(LeaseID req \<mapsto> hint) \<and> tbLeases b' = tbLeases b
     else if ran errors \<subseteq> {TransferExists} then
       out = Inl (reserve_response0\<lparr>Allowed := True, ReservedAtUnixMs := UnixMilli now\<rparr>) \<and>
       tbLeases b' = (tbLeases b)(LeaseID req \<mapsto> reserved_lease req now) \<and> tbFailed b' = tbFailed b \<and>
       (\<forall>r \<in> set (Requirements req). tbDeny b' (RKey r) = 0)
     else (\<exists>err. out = Inr err) \<and> tbLeases b' = tbLeases b \<and> tbFailed b' = tbFailed b)"
proof -
  obtain deny decision where run:
    "tb_Reserve D draw order clk b req at =
       reserve_outcome (b\<lparr>tbService := s', tbDeny := deny\<rparr>) req now decision"
    and dec: "if \<exists>r \<in> ran errors. exceeds r then
       \<exists>h. decision = ReserveDeny h \<and> 50 \<le> h \<and> h \<le> highest_hint D (required_defs b (Requirements req))
     else if ran errors \<subseteq> {TransferExists} then decision = ReserveAllow
     else decision = ReserveFail ''reserve transfer error''"
    using answered_run[OF assms(1-5), of clk at] unfolding now_def by blast
  have out: "(b', out) = reserve_outcome (b\<lparr>tbService := s', tbDeny := deny\<rparr>) req now decision"
    using run assms(6) by simp
  show ?thesis
  proof (cases "\<exists>r \<in> ran errors. exceeds r")
    case True
    then obtain h where h: "decision = ReserveDeny h" "50 \<le> h"
        "h \<le> highest_hint D (required_defs b (Requirements req))" using dec by auto
    then have b': "b' = b\<lparr>tbService := s', tbDeny := deny, tbFailed := (tbFailed b)(LeaseID req \<mapsto> h)\<rparr>"
        "out = Inl (reserve_response0\<lparr>RetryAfterMs := h\<rparr>)"
      using out by (simp_all add: reserve_outcome_def)
    show ?thesis
      using True h(2,3) unfolding b' by (simp only: if_True) (intro conjI exI[of _ h]; simp)
  next
    case False
    show ?thesis
    proof (cases "ran errors \<subseteq> {TransferExists}")
      case True
      then show ?thesis using False dec out by (simp add: reserve_outcome_def decay_keys)
    next
      case other: False
      then show ?thesis using False dec out by (simp add: reserve_outcome_def)
    qed
  qed
qed

theorem tb_Reserve_outcome_witness:
  "(\<exists>hint b'. tb_Reserve ex_deps (\<lambda>_ _. 0) ex_order 1 ex_tb (ex_tb_request 7) 0 =
      (b', Inl (reserve_response0\<lparr>RetryAfterMs := hint\<rparr>)) \<and> 50 \<le> hint \<and> tbLeases b' ''L'' = None) \<and>
   Allowed (case snd (tb_Reserve ex_deps (\<lambda>_ _. 0) ex_order 1 ex_tb (ex_tb_request 3) 0) of Inl r \<Rightarrow> r)"
proof
  obtain b' out where r: "tb_Reserve ex_deps (\<lambda>_ _. 0) ex_order 1 ex_tb (ex_tb_request 7) 0 = (b', out)"
    by (cases "tb_Reserve ex_deps (\<lambda>_ _. 0) ex_order 1 ex_tb (ex_tb_request 7) 0")
  have e: "dom [0 \<mapsto> TransferExceedsCredits] \<subseteq> {..<length (Requirements (ex_tb_request 7))}"
    "\<exists>r \<in> ran [0 \<mapsto> TransferExceedsCredits]. exceeds r" "tbLeases ex_tb = Map.empty"
    by (simp_all add: ex_tb_request_def exceeds_def ex_tb_def)
  show "\<exists>hint b'. tb_Reserve ex_deps (\<lambda>_ _. 0) ex_order 1 ex_tb (ex_tb_request 7) 0 =
      (b', Inl (reserve_response0\<lparr>RetryAfterMs := hint\<rparr>)) \<and> 50 \<le> hint \<and> tbLeases b' ''L'' = None"
    using tb_Reserve_outcome[OF ex_fresh ex_hints iterates_ex_order ex_submit(2) e(1) r] r e(2,3) by auto
next
  obtain b' out where r: "tb_Reserve ex_deps (\<lambda>_ _. 0) ex_order 1 ex_tb (ex_tb_request 3) 0 = (b', out)"
    by (cases "tb_Reserve ex_deps (\<lambda>_ _. 0) ex_order 1 ex_tb (ex_tb_request 3) 0")
  have e: "dom Map.empty \<subseteq> {..<length (Requirements (ex_tb_request 3))}" by simp
  show "Allowed (case snd (tb_Reserve ex_deps (\<lambda>_ _. 0) ex_order 1 ex_tb (ex_tb_request 3) 0) of Inl r \<Rightarrow> r)"
    using tb_Reserve_outcome[OF ex_fresh ex_hints iterates_ex_order ex_submit(1) e r] r by simp
qed

text \<open>A retried reservation is not charged again: once a request has been answered, allowed or
  denied, asking again under its lease with the same requirements (each limit once, in any order)
  gets the same answer, at any later time, without a call of the service, and changes nothing.\<close>

theorem tb_Reserve_idempotent:
  assumes "tb_fresh b req" "sane_hints D draw b req" "iterates_errors order"
    and "svSubmit (tdService D) (tbService b) (reserve_chain D b req) = (s', Inl errors)"
    and "dom errors \<subseteq> {..<length (Requirements req)}"
    and "tb_Reserve D draw order clk b req at = (b', Inl resp)"
    and "distinct (map RKey (Requirements req))"
    and "LeaseID req' = LeaseID req" "mset (Requirements req') = mset (Requirements req)"
  shows "tb_Reserve D draw' order' clk' b' req' at' = (b', Inl resp)"
proof -
  obtain deny decision where run:
    "tb_Reserve D draw order clk b req at =
       reserve_outcome (b\<lparr>tbService := s', tbDeny := deny\<rparr>) req (backend_now clk at) decision"
    using answered_run[OF assms(1-5), of clk at] by blast
  have f: "LeaseID req \<noteq> []" "Requirements req \<noteq> []" "tbLeases b (LeaseID req) = None"
    using assms(1) by (auto simp: tb_fresh_def)
  have ne: "Requirements req' \<noteq> []" using assms(9) f(2) by auto
  have eq: "requirementsEqual (Requirements req) (Requirements req')"
    using requirementsEqual_mset[OF assms(7)] assms(9) mset_eq_imp_distinct_iff[of "map RKey (Requirements req')"]
    by (metis assms(7) mset_map)
  show ?thesis
  proof (cases decision)
    case ReserveAllow
    then have "tbLeases b' (LeaseID req) = Some (reserved_lease req (backend_now clk at))"
      "resp = reserve_response0\<lparr>Allowed := True, ReservedAtUnixMs := UnixMilli (backend_now clk at)\<rparr>"
      using run assms(6) by (auto simp: reserve_outcome_def)
    then show ?thesis
      using f ne eq assms(8) by (simp add: tb_Reserve_def reserved_lease_def Let_def)
  next
    case (ReserveDeny h)
    then have "tbLeases b' (LeaseID req) = None" "tbFailed b' (LeaseID req) = Some h"
      "resp = reserve_response0\<lparr>RetryAfterMs := h\<rparr>"
      using run assms(6) f(3) by (auto simp: reserve_outcome_def)
    then show ?thesis using f ne assms(8) by (simp add: tb_Reserve_def Let_def)
  next
    case (ReserveFail err)
    then show ?thesis using run assms(6) by (simp add: reserve_outcome_def)
  qed
qed

theorem tb_Reserve_idempotent_witness:
  "snd (tb_Reserve ex_deps (\<lambda>_ _. 0) ex_order 9
      (fst (tb_Reserve ex_deps (\<lambda>_ _. 0) ex_order 1 ex_tb (ex_tb_request 3) 0)) (ex_tb_request 3) 8) =
   snd (tb_Reserve ex_deps (\<lambda>_ _. 0) ex_order 1 ex_tb (ex_tb_request 3) 0)"
proof -
  have e: "dom Map.empty \<subseteq> {..<length (Requirements (ex_tb_request 3))}"
    "distinct (map RKey (Requirements (ex_tb_request 3)))" by (simp_all add: ex_tb_request_def)
  obtain b' out where r: "tb_Reserve ex_deps (\<lambda>_ _. 0) ex_order 1 ex_tb (ex_tb_request 3) 0 = (b', out)"
    by (cases "tb_Reserve ex_deps (\<lambda>_ _. 0) ex_order 1 ex_tb (ex_tb_request 3) 0")
  obtain deny decision where run:
    "tb_Reserve ex_deps (\<lambda>_ _. 0) ex_order 1 ex_tb (ex_tb_request 3) 0 =
       reserve_outcome (ex_tb\<lparr>tbService := charge (\<lambda>_. 5) (reserve_chain ex_deps ex_tb (ex_tb_request 3)),
         tbDeny := deny\<rparr>) (ex_tb_request 3) (backend_now 1 0) decision"
    "decision = ReserveAllow"
    using answered_run[OF ex_fresh ex_hints iterates_ex_order ex_submit(1) e(1), of 1 0] by force
  then obtain resp where "out = Inl resp" using r by (simp add: reserve_outcome_def)
  with r show ?thesis
    using tb_Reserve_idempotent[OF ex_fresh ex_hints iterates_ex_order ex_submit(1) e(1), of 1 0 b' resp
        "ex_tb_request 3" "\<lambda>_ _. 0" ex_order 9 8] e(2) by simp
qed

definition pending_chain :: "tb_transfer list \<Rightarrow> bool" where
  "pending_chain ts \<longleftrightarrow> ts \<noteq> [] \<and> distinct (map tfDebit ts) \<and> distinct (map tfID ts) \<and>
     (\<forall>t \<in> set ts. tfPending t) \<and> (\<forall>i < length ts. tfLinked (ts ! i) \<longleftrightarrow> i + 1 < length ts)"

definition admits_chains :: "'s tb_service \<Rightarrow> ('s \<Rightarrow> tb_id \<Rightarrow> nat) \<Rightarrow> ('s \<Rightarrow> tb_id set) \<Rightarrow> bool" where
  "admits_chains svc left used \<longleftrightarrow>
     (\<forall>s ts. pending_chain ts \<longrightarrow> tfID ` set ts \<inter> used s = {} \<longrightarrow>
        (\<exists>s' errors. svSubmit svc s ts = (s', Inl errors) \<and> dom errors \<subseteq> {..<length ts} \<and>
           (if \<forall>t \<in> set ts. unat (tfAmount t) \<le> left s (tfDebit t)
            then errors = Map.empty \<and> (\<forall>t \<in> set ts. left s' (tfDebit t) = left s (tfDebit t) - unat (tfAmount t)) \<and>
                 (\<forall>a. a \<notin> tfDebit ` set ts \<longrightarrow> left s' a = left s a)
            else (\<exists>r \<in> ran errors. exceeds r) \<and> left s' = left s)))"

text \<open>The labels the chain of a request hashes.\<close>

definition request_labels :: "reserve_request \<Rightarrow> string set" where
  "request_labels req =
     (\<lambda>r. label_text (LimitLabel (RKey r))) ` set (Requirements req) \<union>
     (\<lambda>r. label_text (ReserveLabel (LeaseID req) (RKey r))) ` set (Requirements req)"

lemma reserve_chain_length: "length (reserve_chain D b req) = length (Requirements req)"
  by (simp add: reserve_chain_def reserve_transfers_def)

lemma reserve_chain_nth:
  assumes "i < length (Requirements req)"
  shows "tfDebit (reserve_chain D b req ! i) = LimitAccountID (tdSha D) (RKey (Requirements req ! i))"
    "tfID (reserve_chain D b req ! i) = ReserveTransferID (tdSha D) (LeaseID req) (RKey (Requirements req ! i))"
    "unat (tfAmount (reserve_chain D b req ! i)) = unat (Amount (Requirements req ! i))"
    "tfPending (reserve_chain D b req ! i)"
    "tfLinked (reserve_chain D b req ! i) \<longleftrightarrow> i + 1 < length (Requirements req)"
  using assms by (simp_all add: reserve_chain_def reserve_transfers_def Let_def)

lemma reserve_chain_maps:
  "map tfDebit (reserve_chain D b req) = map (\<lambda>r. LimitAccountID (tdSha D) (RKey r)) (Requirements req)"
  "map tfID (reserve_chain D b req) = map (\<lambda>r. ReserveTransferID (tdSha D) (LeaseID req) (RKey r)) (Requirements req)"
  "map (\<lambda>t. (tfDebit t, unat (tfAmount t))) (reserve_chain D b req) =
   map (\<lambda>r. (LimitAccountID (tdSha D) (RKey r), unat (Amount r))) (Requirements req)"
  by (rule nth_equalityI; simp add: reserve_chain_length reserve_chain_nth)+

text \<open>What holds of every debit and amount of the chain holds of every requirement, and conversely.\<close>

lemma reserve_chain_all:
  "(\<forall>t \<in> set (reserve_chain D b req). P (tfDebit t) (unat (tfAmount t))) \<longleftrightarrow>
   (\<forall>r \<in> set (Requirements req). P (LimitAccountID (tdSha D) (RKey r)) (unat (Amount r)))"
proof -
  have "(\<forall>t \<in> set (reserve_chain D b req). P (tfDebit t) (unat (tfAmount t))) \<longleftrightarrow>
      (\<forall>x \<in> set (map (\<lambda>t. (tfDebit t, unat (tfAmount t))) (reserve_chain D b req)). P (fst x) (snd x))"
    by simp
  also have "\<dots> \<longleftrightarrow> (\<forall>r \<in> set (Requirements req). P (LimitAccountID (tdSha D) (RKey r)) (unat (Amount r)))"
    unfolding reserve_chain_maps by simp
  finally show ?thesis .
qed

lemma reserve_chain_pending:
  assumes "Requirements req \<noteq> []" "distinct (map RKey (Requirements req))"
    and "inj_on (ID128 (tdSha D)) (request_labels req)"
  shows "pending_chain (reserve_chain D b req)"
proof -
  have d: "inj_on RKey (set (Requirements req))" "distinct (Requirements req)" using assms(2) by (simp_all add: distinct_map)
  have lim: "label_text (LimitLabel (RKey r)) = label_text (LimitLabel (RKey q)) \<longleftrightarrow> RKey r = RKey q"
    and res: "label_text (ReserveLabel (LeaseID req) (RKey r)) = label_text (ReserveLabel (LeaseID req) (RKey q)) \<longleftrightarrow> RKey r = RKey q"
    for r q by (simp_all add: label_text.simps)
  have "r = q" if "r \<in> set (Requirements req)" "q \<in> set (Requirements req)"
      "LimitAccountID (tdSha D) (RKey r) = LimitAccountID (tdSha D) (RKey q)" for r q
    using inj_onD[OF assms(3), of "label_text (LimitLabel (RKey r))" "label_text (LimitLabel (RKey q))"]
      inj_onD[OF d(1) _ that(1,2)] that lim[of r q] by (simp add: request_labels_def LimitAccountID_def)
  then have "inj_on (\<lambda>r. LimitAccountID (tdSha D) (RKey r)) (set (Requirements req))" by (rule inj_onI)
  moreover have "r = q" if "r \<in> set (Requirements req)" "q \<in> set (Requirements req)"
      "ReserveTransferID (tdSha D) (LeaseID req) (RKey r) = ReserveTransferID (tdSha D) (LeaseID req) (RKey q)" for r q
    using inj_onD[OF assms(3), of "label_text (ReserveLabel (LeaseID req) (RKey r))" "label_text (ReserveLabel (LeaseID req) (RKey q))"]
      inj_onD[OF d(1) _ that(1,2)] that res[of r q] by (simp add: request_labels_def ReserveTransferID_def)
  then have "inj_on (\<lambda>r. ReserveTransferID (tdSha D) (LeaseID req) (RKey r)) (set (Requirements req))" by (rule inj_onI)
  ultimately have "distinct (map tfDebit (reserve_chain D b req))" "distinct (map tfID (reserve_chain D b req))"
    unfolding reserve_chain_maps distinct_map using d(2) by simp_all
  then show ?thesis
    using assms(1) reserve_chain_nonempty[OF assms(1), of D b] reserve_chain_nth[of _ req D b]
    by (auto simp: pending_chain_def reserve_chain_length in_set_conv_nth)
qed


lemma charge_other: "a \<notin> tfDebit ` set ts \<Longrightarrow> charge left ts a = left a"
  unfolding charge_def by (induction ts arbitrary: left) auto

lemma charge_Cons: "charge left (u # ts) = charge (left(tfDebit u := left (tfDebit u) - unat (tfAmount u))) ts"
  by (simp add: charge_def)

lemma charge_distinct:
  "distinct (map tfDebit ts) \<Longrightarrow> t \<in> set ts \<Longrightarrow> charge left ts (tfDebit t) = left (tfDebit t) - unat (tfAmount t)"
proof (induction ts arbitrary: left)
  case (Cons u ts)
  show ?case
  proof (cases "t = u")
    case True
    then show ?thesis using Cons.prems(1) unfolding charge_Cons by (simp add: charge_other)
  next
    case False
    then have t: "t \<in> set ts" using Cons.prems(2) by simp
    then have "tfDebit t \<in> tfDebit ` set ts" by simp
    then have ne: "tfDebit t \<noteq> tfDebit u" using Cons.prems(1) by auto
    define left' where "left' = left(tfDebit u := left (tfDebit u) - unat (tfAmount u))"
    have "charge left (u # ts) (tfDebit t) = charge left' ts (tfDebit t)" by (simp only: charge_Cons left'_def)
    also have "\<dots> = left' (tfDebit t) - unat (tfAmount t)" using Cons.IH t Cons.prems(1) by simp
    also have "left' (tfDebit t) = left (tfDebit t)" using ne by (simp add: left'_def)
    finally show ?thesis .
  qed
qed simp

lemma ex_service_admits: "admits_chains ex_service (\<lambda>left. left) (\<lambda>_. {})"
  unfolding admits_chains_def
proof (intro allI impI)
  fix s :: "tb_id \<Rightarrow> nat" and ts assume ts: "pending_chain ts" "tfID ` set ts \<inter> {} = {}"
  have all: "list_all (fits_left s) ts \<longleftrightarrow> (\<forall>t \<in> set ts. unat (tfAmount t) \<le> s (tfDebit t))"
    by (simp add: list_all_iff fits_left_def)
  show "\<exists>s' errors. svSubmit ex_service s ts = (s', Inl errors) \<and> dom errors \<subseteq> {..<length ts} \<and>
      (if \<forall>t \<in> set ts. unat (tfAmount t) \<le> s (tfDebit t)
       then errors = Map.empty \<and> (\<forall>t \<in> set ts. s' (tfDebit t) = s (tfDebit t) - unat (tfAmount t)) \<and>
            (\<forall>a. a \<notin> tfDebit ` set ts \<longrightarrow> s' a = s a)
       else (\<exists>r \<in> ran errors. exceeds r) \<and> s' = s)"
  proof (cases "list_all (fits_left s) ts")
    case True
    then have "svSubmit ex_service s ts = (charge s ts, Inl Map.empty)" by (simp add: ex_service_def)
    moreover have "distinct (map tfDebit ts)" using ts(1) by (simp add: pending_chain_def)
    ultimately show ?thesis
      using True all by (intro exI[of _ "charge s ts"] exI[of _ Map.empty]) (simp add: charge_distinct charge_other)
  next
    case False
    then obtain i where i: "i < length ts" "\<not> fits_left s (ts ! i)" by (auto simp: list_all_length)
    then have "ex_errors s ts i = Some TransferExceedsCredits" by (simp add: ex_errors_def)
    then have "TransferExceedsCredits \<in> ran (ex_errors s ts)" by (rule ranI)
    then have "\<exists>r \<in> ran (ex_errors s ts). exceeds r" by (auto simp: exceeds_def)
    moreover have "svSubmit ex_service s ts = (s, Inl (ex_errors s ts))" using False by (simp add: ex_service_def)
    moreover have "dom (ex_errors s ts) \<subseteq> {..<length ts}" by (auto simp: ex_errors_def split: if_splits)
    ultimately show ?thesis
      using False all by (intro exI[of _ s] exI[of _ "ex_errors s ts"]) auto
  qed
qed


section \<open>Transfers, completions and the daemon\<close>

text \<open>Every list of transfers the backend submits, in any operation and state and over any
  service, is one the submitter may batch with others: it is not empty, its last transfer is not
  linked, and every transfer is in the one ledger, has the id of one of the labels, and has the
  operator on one side: over a service that refuses all other lists every operation does exactly
  the same.\<close>

theorem tb_submissions_well_formed:
  "tb_ApplyDefinition (guarded (chain_ok D) D) b d = tb_ApplyDefinition D b d \<and>
   tb_Reserve (guarded (chain_ok D) D) draw order clk b req at = tb_Reserve D draw order clk b req at \<and>
   tb_Complete (guarded (chain_ok D) D) clk b creq = tb_Complete D clk b creq \<and>
   tb_tryApplyDecrease (guarded (chain_ok D) D) path reg b state = tb_tryApplyDecrease D path reg b state"
  by (simp only: guarded_ApplyDefinition guarded_Reserve guarded_Complete guarded_tryApplyDecrease simp_thms)


text \<open>A backend that holds one slot of a concurrency limit, and a service that fails.\<close>

definition ex_slots :: limit_state where
  "ex_slots = \<lparr>Definition = \<lparr>Key = ''c'', Kind = KindConcurrency, Capacity = 2, WindowSeconds = 0,
      TimeoutSeconds = 60, Unit = [], Description = [], Overage = OverageDebt\<rparr>,
     Status = LimitStatusActive, PendingDecreaseTo = 0\<rparr>"

definition ex_holding :: "(tb_id \<Rightarrow> nat) tb_backend" where
  "ex_holding = ex_tb\<lparr>tbStates := [''c'' \<mapsto> ex_slots],
     tbLeases := [''L'' \<mapsto> \<lparr>lsLeaseID = ''L'', lsReservedAtUnix = 0,
       lsRequirements = [\<lparr>RKey = ''c'', Amount = 1\<rparr>], lsReservedAmounts = [''c'' \<mapsto> 1]\<rparr>]\<rparr>"

definition ex_down :: "(tb_id \<Rightarrow> nat, int) tb_deps" where
  "ex_down = ex_deps\<lparr>tdService := ex_service\<lparr>svSubmit := \<lambda>s _. (s, Inr ''connection lost'')\<rparr>\<rparr>"

definition ex_completion :: complete_request where
  "ex_completion = \<lparr>CLeaseID = ''L'', CJobID = ''J'', Actuals = []\<rparr>"

lemma ex_completion_fails:
  "snd (snd (tb_Complete ex_down 5 ex_holding ex_completion)) = Some ''connection lost''"
  by (simp add: tb_Complete_def ex_completion_def ex_holding_def ex_tb_def releaseConcurrency_def
      release_transfers_def complete_defs_def ex_slots_def reserved_amount_def check_submit_def
      submitTransfers_def ex_down_def)



definition ex_tb_config :: "int tb_config" where
  "ex_tb_config = \<lparr>tcSessions = 0, tcMaxBatchEvents = 0, tcFlushInterval = 0, tcHasRegistry = True,
     tcRetryPolicy = DefaultRetryPolicy 2 2 0\<rparr>"

lemma ex_narrow: "narrow_accounts ex_deps"
  using unsigned_less[of "of_nat _ :: uint64", where ?'a = nat]
  by (auto simp: narrow_accounts_def ex_deps_def ex_service_def base_account_def)

lemma Uint128ToUint64_zero: "Uint128ToUint64 0 = Some 0"
  by (simp add: Uint128ToUint64_def)


end
