(* ===== verification/TB_Findings.thy ===== *)
theory TB_Findings
  imports TB_Examples
begin

text \<open>
  Where the TigerBeetle backend falls short of its description
  (spec/features/rate-limiter/backend-tb.md).
\<close>

text \<open>
  The id of a capacity transfer is made of the key and the target alone, so a limit that is raised,
  lowered and raised again to a target it had before reuses an id.  The service reports it as
  existing and applies nothing; the backend takes that for success and serves the definition with
  less capacity than it says.  (With another amount the report is an error, and the definition is
  refused from then on.)
\<close>

lemma capacity_id_reused:
  assumes "ensureAccounts D b d = (b, None)"
    and "\<And>prev. tbStates b (Key d) = Some prev \<Longrightarrow> Capacity (Definition prev) \<le> Capacity d"
    and "lookupAccount D b (LimitAccountID (tdSha D) (Key d)) = Inl account"
    and "accountBalance account = Some balance" "balance < Capacity d"
    and "svSubmit (tdService D) (tbService b) [capacity_transfer D d (Capacity d - balance)] =
           (tbService b, Inl [0 \<mapsto> TransferExists])"
  shows "tb_ApplyDefinition D b d =
    Some (set_state b \<lparr>Definition = d, Status = LimitStatusActive, PendingDecreaseTo = 0\<rparr>, None)"
proof -
  have "submitTransfers D b [capacity_transfer D d (Capacity d - balance)] = (b, Inl [0 \<mapsto> TransferExists])"
    using assms(6) by (simp add: submitTransfers_def)
  moreover have "firstTransferError [0 \<mapsto> TransferExists] = None" by (simp add: firstTransferError_def)
  moreover have "\<not> Capacity d \<le> balance" using assms(5) by simp
  ultimately have "ensureCapacity D b d = Some (b, None)"
    using assms(3,4) by (simp add: ensureCapacity_def)
  then show ?thesis
    using assms(1,2) by (cases "tbStates b (Key d)") (auto simp: tb_ApplyDefinition_def)
qed

text \<open>
  A denied transfer's id stays failed in the service.  When the answer to the first attempt is
  lost, the backend does not know that the lease failed: each retry under the same lease, which is
  what the scheduler does after an error, is answered with an error again.
\<close>

lemma lost_denial_never_recovers:
  assumes "tb_fresh b req" "sane_hints D draw b req" "iterates_errors order"
    and "svSubmit (tdService D) (tbService b) (reserve_chain D b req) =
           (tbService b, Inl [0 \<mapsto> OtherTransferResult ''id_already_failed''])"
  shows "\<exists>deny err. tb_Reserve D draw order clk b req at = (b\<lparr>tbDeny := deny\<rparr>, Inr err)"
proof -
  let ?em = "[0 \<mapsto> OtherTransferResult ''id_already_failed'']"
  have "Requirements req \<noteq> []" using assms(1) by (simp add: tb_fresh_def)
  then have "dom ?em \<subseteq> {..<length (Requirements req)}" by simp
  from answered_run[OF assms(1-4) this, of clk at] obtain deny decision where
    "tb_Reserve D draw order clk b req at =
       reserve_outcome (b\<lparr>tbService := tbService b, tbDeny := deny\<rparr>) req (backend_now clk at) decision"
    "decision = ReserveFail ''reserve transfer error''"
    by (auto simp: exceeds_def)
  then show ?thesis by (auto simp: reserve_outcome_def)
qed

text \<open>
  A tick of the decrease loop works on a copy of the states.  A definition that raises the limit
  in between is overwritten: whatever the backend's state is by then, the lower capacity is
  installed.
\<close>

lemma stale_decrease_wins:
  assumes "Status state = LimitStatusDecreasing" "PendingDecreaseTo state \<noteq> 0"
    "PendingDecreaseTo state < Capacity (Definition state)"
    and "lookupAccount D b (LimitAccountID (tdSha D) (Key (Definition state))) = Inl account"
    and "accountAvailable account = Some available"
    and "Capacity (Definition state) - PendingDecreaseTo state \<le> available"
    and "svSubmit (tdService D) (tbService b) [decrease_transfer D state] = (s', Inl Map.empty)"
  shows "\<exists>b' reg' saved. tb_tryApplyDecrease D path reg b state = Some (b', reg', saved, None) \<and>
    tbStates b' (Key (Definition state)) = Some (decreased_state state)"
proof -
  have "submitTransfers D b [decrease_transfer D state] = (b\<lparr>tbService := s'\<rparr>, Inl Map.empty)"
    using assms(7) by (simp add: submitTransfers_def)
  moreover have "firstTransferError Map.empty = None" by (simp add: firstTransferError_def)
  moreover have "\<not> available < Capacity (Definition state) - PendingDecreaseTo state"
    "\<not> Capacity (Definition state) \<le> PendingDecreaseTo state" using assms(3,6) by simp_all
  ultimately show ?thesis
    using assms(1,2,4,5)
    by (simp add: tb_tryApplyDecrease_def Let_def set_state_def decreased_state_def)
qed

text \<open>
  The exponential backoff falls back to its base: where a float out of range converts to the least
  integer (as on amd64), the hint of the 58th denial in a row is the base delay again.
\<close>

definition amd64_float :: "int float_ops" where
  "amd64_float = ex_float\<lparr>flToInt := \<lambda>n. if - (2 ^ 63) \<le> n \<and> n < 2 ^ 63 then n else - (2 ^ 63)\<rparr>"

lemma long_streak_resets_backoff:
  "RetryAfterMs_tb amd64_float \<lparr>Key = ''c'', Kind = KindConcurrency, Capacity = 2, WindowSeconds = 0,
      TimeoutSeconds = 60, Unit = [], Description = [], Overage = OverageDebt\<rparr> 57 (DefaultRetryPolicy 2 2 0) (\<lambda>_. 0) = 2000"
  "RetryAfterMs_tb amd64_float \<lparr>Key = ''c'', Kind = KindConcurrency, Capacity = 2, WindowSeconds = 0,
      TimeoutSeconds = 60, Unit = [], Description = [], Overage = OverageDebt\<rparr> 58 (DefaultRetryPolicy 2 2 0) (\<lambda>_. 0) = 50"
  by code_simp+

text \<open>
  The timeout keeps 32 bits: a window of \<open>2\<^sup>3\<^sup>2\<close> seconds, which the API accepts, becomes the timeout
  zero, which is none.
\<close>

lemma wide_window_never_expires: "uint32_of (2 ^ 32) = 0"
  by (simp add: uint32_of_def)

text \<open>A colon in a lease id makes two reservations share an id.\<close>

lemma colon_lease_clash: "ReserveTransferID sha ''a:b'' ''c'' = ReserveTransferID sha ''a'' ''b:c''"
  by (simp add: ReserveTransferID_def reserveTransferPref_def label_text.simps)

end
