(* ===== verification/Go_Text.thy ===== *)
theory Go_Text
  imports Go_Prelude
begin

text \<open>
  More of Go's standard library: the functions of \<open>strings\<close> and \<open>strconv\<close> that the agent, the
  question and the configuration packages call, and \<open>float64\<close> products of an \<open>int\<close> and a constant.
\<close>

section \<open>Splitting and joining\<close>

text \<open>\<open>strings.Join\<close>.\<close>

fun join :: "string \<Rightarrow> string list \<Rightarrow> string" where
  "join sep [] = []"
| "join sep [x] = x"
| "join sep (x # y # xs) = x @ sep @ join sep (y # xs)"

text \<open>\<open>strings.Split\<close> with a separator of one byte.\<close>

fun split_byte :: "char \<Rightarrow> string \<Rightarrow> string list" where
  "split_byte c [] = [[]]"
| "split_byte c (x # xs) =
     (if x = c then [] # split_byte c xs
      else case split_byte c xs of [] \<Rightarrow> [[x]] | y # ys \<Rightarrow> (x # y) # ys)"

lemma split_byte_nonempty [simp]: "split_byte c s \<noteq> []"
  by (induction s) (auto split: list.splits)

lemma join_hd: "join [c] ((x # y) # ys) = x # join [c] (y # ys)"
  by (cases ys) auto

lemma join_split_byte [simp]: "join [c] (split_byte c s) = s"
proof (induction s)
  case Nil
  then show ?case by simp
next
  case (Cons x xs)
  obtain y ys where "split_byte c xs = y # ys"
    using split_byte_nonempty[of c xs] by (cases "split_byte c xs") blast+
  then show ?case using Cons by (auto simp: join_hd)
qed

text \<open>\<open>strings.Count\<close> of one byte, and \<open>strings.TrimRight\<close> with a cutset of one.\<close>

definition count_byte :: "char \<Rightarrow> string \<Rightarrow> nat" where
  "count_byte c s = length (filter (\<lambda>x. x = c) s)"

definition TrimRight :: "string \<Rightarrow> char \<Rightarrow> string" where
  "TrimRight s c = rev (dropWhile (\<lambda>x. x = c) (rev s))"

section \<open>Searching\<close>

text \<open>\<open>strings.LastIndex\<close>: \<open>None\<close> is \<open>-1\<close>.\<close>

definition LastIndex :: "string \<Rightarrow> string \<Rightarrow> nat option" where
  "LastIndex s sub = find (\<lambda>i. prefix sub (drop i s)) (rev [0..<length s + 1])"

lemma LastIndex_append:
  assumes "\<And>i. 0 < i \<Longrightarrow> i \<le> length b \<Longrightarrow> \<not> prefix sub (drop i b)" "prefix sub b"
  shows "LastIndex (a @ b) sub = Some (length a)"
proof -
  have e: "rev [0..<length (a @ b) + 1] =
      rev [length a + 1..<length (a @ b) + 1] @ length a # rev [0..<length a]"
  proof -
    have "[0..<length (a @ b) + 1] = [0..<length a] @ [length a..<length (a @ b) + 1]"
      using upt_add_eq_append[of 0 "length a" "length b + 1"] by (simp add: add.commute)
    also have "[length a..<length (a @ b) + 1] = length a # [length a + 1..<length (a @ b) + 1]"
      by (simp del: upt_Suc add: upt_conv_Cons)
    finally show ?thesis by (simp del: upt_Suc)
  qed
  have none: "find (\<lambda>i. prefix sub (drop i (a @ b))) (rev [length a + 1..<length (a @ b) + 1]) = None"
  proof (unfold find_None_iff, intro notI)
    assume "\<exists>x. x \<in> set (rev [length a + 1..<length (a @ b) + 1]) \<and> prefix sub (drop x (a @ b))"
    then obtain x where "x \<in> set (rev [length a + 1..<length (a @ b) + 1])" and
      p: "prefix sub (drop x (a @ b))" by blast
    then have x: "length a < x" "x \<le> length a + length b" unfolding set_rev set_upt by auto
    then have "x - length a \<le> length b" "0 < x - length a" by linarith+
    note x = this x p
    have "prefix sub (drop (x - length a) b)" using p x by simp
    with x assms(1)[of "x - length a"] show False by simp
  qed
  have skip: "find P xs = None \<Longrightarrow> P y \<Longrightarrow> find P (xs @ y # ys) = Some y" for P and xs ys :: "nat list" and y
    by (induction xs) (auto split: if_splits)
  show ?thesis unfolding LastIndex_def e by (rule skip[OF none]) (simp add: assms(2))
qed

section \<open>Quoting\<close>

text \<open>
  \<open>strconv.Quote\<close>, the verb \<open>%q\<close>, on ASCII bytes; bytes from 0x80 on are left as they are, which
  is what Go does for the printable characters they encode.  The program only puts its result into
  the text of error messages.
\<close>

definition hex_digit :: "nat \<Rightarrow> char" where
  "hex_digit d = (if d < 10 then char_of (48 + d) else char_of (87 + d))"

definition quote_byte :: "char \<Rightarrow> string" where
  "quote_byte c =
     (if c = CHR 0x22 then [CHR 0x5C, CHR 0x22]
      else if c = CHR 0x5C then [CHR 0x5C, CHR 0x5C]
      else if c = CHR 0x07 then [CHR 0x5C, CHR ''a'']
      else if c = CHR 0x08 then [CHR 0x5C, CHR ''b'']
      else if c = CHR 0x0C then [CHR 0x5C, CHR ''f'']
      else if c = CHR 0x0A then [CHR 0x5C, CHR ''n'']
      else if c = CHR 0x0D then [CHR 0x5C, CHR ''r'']
      else if c = CHR 0x09 then [CHR 0x5C, CHR ''t'']
      else if c = CHR 0x0B then [CHR 0x5C, CHR ''v'']
      else if c < CHR 0x20 \<or> c = CHR 0x7F then
        [CHR 0x5C, CHR ''x'', hex_digit (of_char c div 16), hex_digit (of_char c mod 16)]
      else [c])"

definition quote :: "string \<Rightarrow> string" where
  "quote s = CHR 0x22 # concat (map quote_byte s) @ [CHR 0x22]"

section \<open>Products of an int and a float64 constant\<close>

text \<open>
  A positive \<open>float64\<close> is an integer of at most 53 bits times a power of two.  \<open>round53\<close> rounds a
  natural number to the nearest one of that form, ties to even: it is the conversion of an
  \<open>int\<close>, and, at a fixed power of two, the product of two doubles.
\<close>

fun bit_length :: "nat \<Rightarrow> nat" where
  "bit_length n = (if n = 0 then 0 else bit_length (n div 2) + 1)"

declare bit_length.simps [simp del]

definition round53 :: "nat \<Rightarrow> nat" where
  "round53 n =
     (let k = bit_length n - 53; q = n div 2 ^ k; r = n mod 2 ^ k in
      if k = 0 then n
      else if 2 * r > 2 ^ k \<or> (2 * r = 2 ^ k \<and> odd q) then (q + 1) * 2 ^ k
      else q * 2 ^ k)"

text \<open>
  \<open>int(math.Ceil(float64(n) * c))\<close> for a positive \<open>n\<close> and the double \<open>c = m / 2 ^ s\<close>.
\<close>

definition ceil_product :: "nat \<Rightarrow> nat \<Rightarrow> nat \<Rightarrow> nat" where
  "ceil_product n m s = (round53 (round53 n * m) + 2 ^ s - 1) div 2 ^ s"

lemma bit_length_bound: "n < 2 ^ bit_length n"
proof (induction n rule: bit_length.induct)
  case (1 n)
  show ?case
  proof (cases "n = 0")
    case False
    have "n < 2 * 2 ^ bit_length (n div 2)" using 1 False by auto
    with False show ?thesis by (simp add: bit_length.simps[of n])
  qed (simp add: bit_length.simps)
qed

lemma bit_length_le: "n > 0 \<Longrightarrow> 2 ^ (bit_length n - 1) \<le> n"
proof (induction n rule: bit_length.induct)
  case (1 n)
  show ?case
  proof (cases "n div 2 = 0")
    case True
    with 1 show ?thesis by (subst bit_length.simps) (simp add: bit_length.simps)
  next
    case False
    then have "bit_length (n div 2) \<noteq> 0" by (subst bit_length.simps) simp
    with 1 False show ?thesis
      by (subst bit_length.simps) (cases "bit_length (n div 2)", auto)
  qed
qed

lemma round53_pos: "n > 0 \<Longrightarrow> round53 n > 0"
proof -
  assume n: "n > 0"
  have "2 ^ (bit_length n - 53) \<le> (2::nat) ^ (bit_length n - 1)" by (rule power_increasing) auto
  then have "2 ^ (bit_length n - 53) \<le> n" using bit_length_le[OF n] by (rule order.trans)
  then have "n div 2 ^ (bit_length n - 53) > 0" by (simp add: div_greater_zero_iff)
  with n show ?thesis by (auto simp: round53_def Let_def)
qed

lemma ceil_product_pos: "n > 0 \<Longrightarrow> m > 0 \<Longrightarrow> ceil_product n m s > 0"
  using round53_pos[of "round53 n * m"] round53_pos[of n] by (simp add: ceil_product_def div_greater_zero_iff)

end
