(* ===== verification/Agent_Types.thy ===== *)
theory Agent_Types
  imports Go_Text
begin

text \<open>
  The data of the agent runtime (\<open>internal/agent\<close>): the history of a session with its three kinds
  of content, the context of a turn and the prompt built from them
  (\<open>session_types.go\<close>, \<open>runner.go\<close>, \<open>history.go\<close>, \<open>session_start.go\<close>, \<open>session_build.go\<close>,
  \<open>environment.go\<close>, \<open>tokens.go\<close>, \<open>tool_schema.go\<close>).

  A Go map that the program only reads (the arguments of a tool call, the properties of a schema)
  is the list of its entries, read by \<open>map_of\<close>.  The raw JSON of a tool call's argument is a
  string; \<open>json.Marshal\<close> of the argument map is the parameter \<open>marshal\<close>, with \<open>Inr\<close> its error.  A history content is one of the three types that
  carry the unexported marker method; nothing in the program builds a nil content.
\<close>

section \<open>Tools\<close>

text \<open>\<open>tools.CallResult\<close>.\<close>

record call_result =
  crTool :: string
  crOutput :: string
  crOutputBytes :: go_int
  crTruncated :: bool
  crStartedAt :: go_time
  crFinishedAt :: go_time
  crDuration :: duration
  crError :: string

type_synonym tool_args = "(string \<times> string) list"
type_synonym marshal_args = "tool_args \<Rightarrow> string + string"

record tool_call =
  tcID :: string
  tcName :: string
  tcArgs :: "tool_args option"

record tool_output =
  toToolCallID :: string
  toResult :: call_result

datatype tool_schema = ToolSchema
  (tsType: string)
  (tsProperties: "(string \<times> tool_schema) list")
  (tsItems: "tool_schema option")
  (tsRequired: "string list")
  (tsAdditionalProperties: "bool option")

definition ObjectSchema ::
    "(string \<times> tool_schema) list \<Rightarrow> string list \<Rightarrow> bool option \<Rightarrow> tool_schema" where
  "ObjectSchema properties required additional = ToolSchema ''object'' properties None required additional"

definition ArraySchema :: "tool_schema \<Rightarrow> tool_schema" where
  "ArraySchema items = ToolSchema ''array'' [] (Some items) [] None"

definition StringSchema :: tool_schema where
  "StringSchema = ToolSchema ''string'' [] None [] None"

definition IntegerSchema :: tool_schema where
  "IntegerSchema = ToolSchema ''integer'' [] None [] None"

record tool_definition =
  defName :: string
  defDescription :: string
  defParameters :: "tool_schema option"

section \<open>History\<close>

datatype history_content =
    HistoryText string
  | ToolCallContent tool_call
  | ToolOutputContent tool_output

record history_item =
  hiRole :: string
  hiContent :: history_content

abbreviation text_item :: "string \<Rightarrow> string \<Rightarrow> history_item" where
  "text_item role text \<equiv> \<lparr>hiRole = role, hiContent = HistoryText text\<rparr>"

definition contentString :: "marshal_args \<Rightarrow> history_content \<Rightarrow> string" where
  "contentString marshal content =
     (case content of
        HistoryText text \<Rightarrow> text
      | ToolCallContent call \<Rightarrow>
          let args = (case tcArgs call of None \<Rightarrow> [] | Some a \<Rightarrow> a);
              raw = (case marshal args of Inl r \<Rightarrow> r | Inr _ \<Rightarrow> [])
          in tcName call @ raw
      | ToolOutputContent out \<Rightarrow> crOutput (toResult out))"

definition ApproxTokenCount :: "marshal_args \<Rightarrow> history_item list \<Rightarrow> go_int" where
  "ApproxTokenCount marshal history =
     foldl (\<lambda>total item. total + int (length (contentString marshal (hiContent item)))) 0 history div 4"

section \<open>Sessions\<close>

record sandbox_policy =
  spMode :: string
  spNetworkAccess :: string
  spWritableRoots :: "string list"
  spShell :: string

record feature_flags =
  ffParallelTools :: bool
  ffSkillsEnabled :: bool

record model_family =
  mfBaseInstructionsTemplate :: string
  mfNeedsSpecialApplyPatchInstructions :: bool
  mfSupportsParallelToolCalls :: bool

record session_config =
  scModel :: string
  scModelOverride :: string
  scProvider :: string
  scApprovalPolicy :: string
  scSandboxPolicy :: sandbox_policy
  scCWD :: string
  scDeveloperInstructions :: string
  scUserInstructions :: string
  scBaseInstructionsOverride :: string
  scOutputSchema :: string
  scFeatures :: feature_flags
  scTools :: "tool_definition list"
  scVerbose :: bool
  scAuthMode :: string

record turn_context =
  txModel :: string
  txModelFamily :: model_family
  txTools :: "tool_definition list"
  txApprovalPolicy :: string
  txSandboxPolicy :: sandbox_policy
  txCWD :: string
  txDeveloperInstructions :: string
  txUserInstructions :: string
  txBaseInstructionsOverride :: string
  txOutputSchema :: string
  txFeatures :: feature_flags
  txVerbose :: bool

record prompt =
  prInstructions :: string
  prInputItems :: "history_item list"
  prTools :: "tool_definition list"
  prParallelToolCalls :: bool
  prOutputSchema :: string

record session =
  snCtx :: turn_context
  snHistory :: "history_item list"

section \<open>Building a session\<close>

abbreviation newline :: string where "newline \<equiv> [CHR 0x0A]"

definition formatUserInstructions :: "string \<Rightarrow> string \<Rightarrow> string" where
  "formatUserInstructions cwd instructions =
     ''# AGENTS.md instructions for '' @ cwd @ newline @ newline @ ''<INSTRUCTIONS>'' @ newline @
     instructions @ newline @ ''</INSTRUCTIONS>''"

text \<open>One line \<open>  <tag>value</tag>\<close> of an environment block, and the lines of the writable roots.\<close>

definition tag_line :: "string \<Rightarrow> string \<Rightarrow> string" where
  "tag_line tag v = ''  <'' @ tag @ ''>'' @ v @ ''</'' @ tag @ ''>'' @ newline"

definition roots_block :: "string list \<Rightarrow> string" where
  "roots_block roots =
     ''  <writable_roots>'' @ newline @
     concat (map (\<lambda>root. ''    <root>'' @ root @ ''</root>'' @ newline) roots) @
     ''  </writable_roots>'' @ newline"

definition formatEnvironmentContext :: "turn_context \<Rightarrow> string" where
  "formatEnvironmentContext ctx =
     ''<environment_context>'' @ newline @
     tag_line ''cwd'' (txCWD ctx) @
     tag_line ''approval_policy'' (txApprovalPolicy ctx) @
     tag_line ''sandbox_mode'' (spMode (txSandboxPolicy ctx)) @
     tag_line ''network_access'' (spNetworkAccess (txSandboxPolicy ctx)) @
     roots_block (spWritableRoots (txSandboxPolicy ctx)) @
     tag_line ''shell'' (spShell (txSandboxPolicy ctx)) @
     ''</environment_context>''"

definition BuildInitialContext :: "turn_context \<Rightarrow> history_item list" where
  "BuildInitialContext ctx =
     (if TrimSpace (txDeveloperInstructions ctx) \<noteq> []
      then [text_item ''developer'' (txDeveloperInstructions ctx)] else []) @
     (if TrimSpace (txUserInstructions ctx) \<noteq> []
      then [text_item ''user'' (formatUserInstructions (txCWD ctx) (txUserInstructions ctx))] else []) @
     [text_item ''user'' (formatEnvironmentContext ctx)]"

definition hasTool :: "tool_definition list \<Rightarrow> string \<Rightarrow> bool" where
  "hasTool tools name \<longleftrightarrow> (\<exists>tool \<in> set tools. defName tool = name)"

definition ApplyPatchInstructions :: string where
  "ApplyPatchInstructions = ''When editing files, use the apply_patch tool.''"

definition BuildPrompt :: "turn_context \<Rightarrow> history_item list \<Rightarrow> prompt" where
  "BuildPrompt ctx history =
     (let base = TrimSpace (txBaseInstructionsOverride ctx);
          instructions = (if base = [] then mfBaseInstructionsTemplate (txModelFamily ctx) else base);
          instructions =
            (if mfNeedsSpecialApplyPatchInstructions (txModelFamily ctx) \<and>
                \<not> hasTool (txTools ctx) ''apply_patch''
             then (if instructions \<noteq> [] then instructions @ newline else instructions) @ ApplyPatchInstructions
             else instructions)
      in \<lparr>prInstructions = instructions, prInputItems = history, prTools = txTools ctx,
          prParallelToolCalls =
            (mfSupportsParallelToolCalls (txModelFamily ctx) \<and> ffParallelTools (txFeatures ctx)),
          prOutputSchema = txOutputSchema ctx\<rparr>)"

text \<open>\<open>StartSession\<close>; \<open>loader\<close> is the interface value, \<open>None\<close> when it is nil.\<close>

definition StartSession ::
    "session_config \<Rightarrow> (string \<Rightarrow> string \<Rightarrow> model_family + string) option \<Rightarrow> session + string" where
  "StartSession config loader =
     (let model = (if scModelOverride config \<noteq> [] then TrimSpace (scModelOverride config)
                   else TrimSpace (scModel config)) in
      if model = [] then Inr ''model is required''
      else case loader of
        None \<Rightarrow> Inr ''model family loader is required''
      | Some load \<Rightarrow>
         (case load (scProvider config) model of
            Inr err \<Rightarrow> Inr err
          | Inl family \<Rightarrow>
              let ctx = \<lparr>txModel = model, txModelFamily = family, txTools = scTools config,
                         txApprovalPolicy = scApprovalPolicy config,
                         txSandboxPolicy = scSandboxPolicy config, txCWD = scCWD config,
                         txDeveloperInstructions = scDeveloperInstructions config,
                         txUserInstructions = scUserInstructions config,
                         txBaseInstructionsOverride = scBaseInstructionsOverride config,
                         txOutputSchema = scOutputSchema config, txFeatures = scFeatures config,
                         txVerbose = scVerbose config\<rparr>
              in Inl \<lparr>snCtx = ctx, snHistory = BuildInitialContext ctx\<rparr>))"

section \<open>Changes of the environment\<close>

definition stringSliceEqual :: "string list \<Rightarrow> string list \<Rightarrow> bool" where
  "stringSliceEqual a b \<longleftrightarrow> length a = length b \<and> (\<forall>i \<in> {0..<length a}. a ! i = b ! i)"

lemma stringSliceEqual_iff [simp]: "stringSliceEqual a b \<longleftrightarrow> a = b"
  unfolding stringSliceEqual_def by (subst list_eq_iff_nth_eq[of a b]) (simp add: Ball_def)

definition formatEnvironmentDiff :: "turn_context \<Rightarrow> turn_context \<Rightarrow> string" where
  "formatEnvironmentDiff cur nxt =
     (let p = txSandboxPolicy cur; q = txSandboxPolicy nxt;
          body =
            (if txCWD cur \<noteq> txCWD nxt then [tag_line ''cwd'' (txCWD nxt)] else []) @
            (if txApprovalPolicy cur \<noteq> txApprovalPolicy nxt
             then [tag_line ''approval_policy'' (txApprovalPolicy nxt)] else []) @
            (if spMode p \<noteq> spMode q then [tag_line ''sandbox_mode'' (spMode q)] else []) @
            (if spNetworkAccess p \<noteq> spNetworkAccess q
             then [tag_line ''network_access'' (spNetworkAccess q)] else []) @
            (if \<not> stringSliceEqual (spWritableRoots p) (spWritableRoots q)
             then [roots_block (spWritableRoots q)] else []) @
            (if spShell p \<noteq> spShell q then [tag_line ''shell'' (spShell q)] else [])
      in if body = [] then []
         else ''<environment_diff>'' @ newline @ concat body @ ''</environment_diff>'')"

text \<open>\<open>AppendEnvironmentDiff\<close> on a session that is not nil: the session and whether it changed.\<close>

definition AppendEnvironmentDiff :: "session \<Rightarrow> turn_context \<Rightarrow> session \<times> bool" where
  "AppendEnvironmentDiff s nxt =
     (let diff = formatEnvironmentDiff (snCtx s) nxt in
      if diff = [] then (s, False)
      else (\<lparr>snCtx = nxt, snHistory = snHistory s @ [text_item ''user'' diff]\<rparr>, True))"

end
