(* ===== verification/Agent_Compaction.thy ===== *)
theory Agent_Compaction
  imports Agent_Types
begin

text \<open>
  History compaction (\<open>compaction.go\<close>, \<open>compaction_helpers.go\<close>, \<open>compaction_policy.go\<close>,
  \<open>compaction_summary.go\<close> of \<open>internal/agent\<close>): what is kept of a history that exceeds the soft
  limit, and the summary that replaces the rest.

  A provider is its \<open>Stream\<close> method on a state of the world.  What it returns is the list of events
  that \<open>Recv\<close> yields and how it ends: with \<open>io.EOF\<close> (\<open>None\<close>) or with another error.  An index
  that Go sets to \<open>-1\<close> is \<open>None\<close> here.
\<close>

section \<open>Streams\<close>

datatype stream_event =
    StreamEventMessage string
  | StreamEventToolCall tool_call
  | StreamEventOther go_int

type_synonym agent_stream = "stream_event list \<times> string option"
type_synonym 'w provider = "'w \<Rightarrow> prompt \<Rightarrow> 'w \<times> (agent_stream + string)"

section \<open>Configuration\<close>

definition SummaryPrefix :: string where
  "SummaryPrefix = ''Summary of previous context:'' @ newline"

definition DefaultSummaryPrompt :: string where
  "DefaultSummaryPrompt =
     join newline
       [''You are summarizing a coding task for future continuation.'',
        ''Summarize the conversation and tool outputs so far with:'',
        ''- goal and constraints'', ''- decisions made'', ''- important facts, files, and paths'',
        ''- current state, errors, and blockers'', ''- next steps'',
        ''Be concise. Use plain text. Do not add new instructions or speculation. Do not include the summary prefix.'']"

record compaction_config =
  ccSoftLimit :: go_int
  ccHardLimit :: go_int
  ccSummaryPrompt :: string
  ccRecentUserTokenBudget :: go_int
  ccRecentToolOutputLimit :: go_int

record compaction_stats =
  csBeforeTokens :: go_int
  csAfterTokens :: go_int
  csSummaryTokens :: go_int

text \<open>
  \<open>int(math.Ceil(float64(limit) * 0.8))\<close> and the same with \<open>0.25\<close>: the double 0.8 is
  \<open>7205759403792794 / 2 ^ 53\<close>.
\<close>

definition soft_of_hard :: "go_int \<Rightarrow> go_int" where
  "soft_of_hard limit = int (ceil_product (nat limit) 7205759403792794 53)"

definition budget_of_base :: "go_int \<Rightarrow> go_int" where
  "budget_of_base base = int (ceil_product (nat base) 1 2)"

definition NormalizeCompactionConfig :: "compaction_config \<Rightarrow> compaction_config" where
  "NormalizeCompactionConfig cfg =
     (let c1 = (if ccHardLimit cfg \<le> 0 \<and> ccSoftLimit cfg > 0
                then cfg\<lparr>ccHardLimit := ccSoftLimit cfg\<rparr> else cfg);
          c2 = (if ccSoftLimit c1 \<le> 0 \<and> ccHardLimit c1 > 0
                then let soft = soft_of_hard (ccHardLimit c1)
                     in c1\<lparr>ccSoftLimit := (if soft \<le> 0 then ccHardLimit c1 else soft)\<rparr>
                else c1)
      in if ccRecentUserTokenBudget c2 \<le> 0 then
           let base = (if ccSoftLimit c2 \<le> 0 then ccHardLimit c2 else ccSoftLimit c2)
           in if base > 0 then c2\<lparr>ccRecentUserTokenBudget := budget_of_base base\<rparr> else c2
         else c2)"

section \<open>Kinds of history items\<close>

definition historyText :: "history_item \<Rightarrow> string option" where
  "historyText item = (case hiContent item of HistoryText text \<Rightarrow> Some text | _ \<Rightarrow> None)"

definition text_prefixed :: "string \<Rightarrow> history_item \<Rightarrow> bool" where
  "text_prefixed p item = (case historyText item of None \<Rightarrow> False | Some text \<Rightarrow> HasPrefix text p)"

definition isDeveloperInstructions :: "history_item \<Rightarrow> bool" where
  "isDeveloperInstructions item \<longleftrightarrow> hiRole item = ''developer''"

definition isUserInstructions :: "history_item \<Rightarrow> bool" where
  "isUserInstructions item \<longleftrightarrow>
     hiRole item = ''user'' \<and> text_prefixed ''# AGENTS.md instructions for '' item"

definition isEnvironmentItem :: "history_item \<Rightarrow> bool" where
  "isEnvironmentItem item \<longleftrightarrow>
     hiRole item = ''user'' \<and>
     (text_prefixed ''<environment_context>'' item \<or> text_prefixed ''<environment_diff>'' item)"

definition isUserMessage :: "history_item \<Rightarrow> bool" where
  "isUserMessage item \<longleftrightarrow>
     hiRole item = ''user'' \<and> \<not> isUserInstructions item \<and> \<not> isEnvironmentItem item"

definition isSummaryItem :: "history_item \<Rightarrow> bool" where
  "isSummaryItem item \<longleftrightarrow> text_prefixed SummaryPrefix item"

section \<open>Selection\<close>

definition filterSummaryItems :: "history_item list \<Rightarrow> history_item list" where
  "filterSummaryItems history = filter (\<lambda>item. \<not> isSummaryItem item) history"

text \<open>The loops that go down from the last index.\<close>

definition indices_down :: "nat \<Rightarrow> nat list" where
  "indices_down n = rev [0..<n]"

definition lastEnvironmentIndex :: "history_item list \<Rightarrow> nat option" where
  "lastEnvironmentIndex history =
     find (\<lambda>i. isEnvironmentItem (history ! i)) (indices_down (length history))"

text \<open>
  A token counter is the interface value, \<open>None\<close> when it is nil; then the estimate by characters
  is used.  A sum of tokens is not wrapped: it counts bytes held in memory.
\<close>

definition countTokens ::
    "marshal_args \<Rightarrow> (history_item list \<Rightarrow> go_int) option \<Rightarrow> history_item \<Rightarrow> go_int" where
  "countTokens marshal counter item =
     (case counter of None \<Rightarrow> ApproxTokenCount marshal [item] | Some f \<Rightarrow> f [item])"

definition no_keep :: "history_item list \<Rightarrow> bool list" where
  "no_keep history = replicate (length history) False"

fun user_scan ::
    "history_item list \<Rightarrow> (history_item \<Rightarrow> go_int) \<Rightarrow> go_int \<Rightarrow> nat list \<Rightarrow> bool list \<Rightarrow> go_int \<Rightarrow> nat option \<Rightarrow>
     bool list \<times> nat option" where
  "user_scan history tokens_of budget [] keep used lastUser = (keep, lastUser)"
| "user_scan history tokens_of budget (i # rest) keep used lastUser =
     (if \<not> isUserMessage (history ! i) then user_scan history tokens_of budget rest keep used lastUser
      else
        let tokens = tokens_of (history ! i) in
        if budget > 0 \<and> used + tokens > budget \<and> used > 0 then (keep, lastUser)
        else user_scan history tokens_of budget rest (keep[i := True]) (used + tokens)
               (if lastUser = None then Some i else lastUser))"

definition selectRecentUserMessages ::
    "marshal_args \<Rightarrow> history_item list \<Rightarrow> (history_item list \<Rightarrow> go_int) option \<Rightarrow> go_int \<Rightarrow>
     bool list \<times> nat option" where
  "selectRecentUserMessages marshal history counter budget =
     (let (keep, lastUser) =
        user_scan history (countTokens marshal counter) budget (indices_down (length history))
          (no_keep history) 0 None
      in if lastUser = None then
           (case find (\<lambda>i. isUserMessage (history ! i)) (indices_down (length history)) of
              None \<Rightarrow> (keep, None)
            | Some i \<Rightarrow> (keep[i := True], Some i))
         else (keep, lastUser))"

fun tool_scan :: "history_item list \<Rightarrow> go_int \<Rightarrow> nat list \<Rightarrow> bool list \<Rightarrow> go_int \<Rightarrow> bool list" where
  "tool_scan history limit [] keep n = keep"
| "tool_scan history limit (i # rest) keep n =
     (if n \<ge> limit then keep
      else if hiRole (history ! i) = ''tool'' then tool_scan history limit rest (keep[i := True]) (n + 1)
      else tool_scan history limit rest keep n)"

definition selectToolOutputs :: "history_item list \<Rightarrow> nat option \<Rightarrow> go_int \<Rightarrow> bool list" where
  "selectToolOutputs history lastUser limit =
     (if limit > 0 then tool_scan history limit (indices_down (length history)) (no_keep history) 0
      else case lastUser of
        None \<Rightarrow> no_keep history
      | Some u \<Rightarrow>
          foldl (\<lambda>keep i. if hiRole (history ! i) = ''tool'' then keep[i := True] else keep)
            (no_keep history) [u + 1..<length history])"

definition findToolCallIndex :: "history_item list \<Rightarrow> nat \<Rightarrow> string \<Rightarrow> nat option" where
  "findToolCallIndex history outputIndex callID =
     (if callID = [] then None
      else find (\<lambda>i. case hiContent (history ! i) of ToolCallContent call \<Rightarrow> tcID call = callID | _ \<Rightarrow> False)
             (indices_down outputIndex))"

definition call_of_output :: "history_item list \<Rightarrow> bool list \<Rightarrow> nat \<Rightarrow> nat option" where
  "call_of_output history outputKeep i =
     (if \<not> outputKeep ! i then None
      else case hiContent (history ! i) of
        ToolOutputContent out \<Rightarrow> findToolCallIndex history i (toToolCallID out)
      | _ \<Rightarrow> None)"

definition selectToolCallsForOutputs :: "history_item list \<Rightarrow> bool list \<Rightarrow> bool list" where
  "selectToolCallsForOutputs history outputKeep =
     foldl (\<lambda>keep i. case call_of_output history outputKeep i of None \<Rightarrow> keep | Some c \<Rightarrow> keep[c := True])
       (no_keep history) [0..<length outputKeep]"

definition mergeKeep :: "bool list \<Rightarrow> bool list \<Rightarrow> bool list" where
  "mergeKeep target source =
     map (\<lambda>i. target ! i \<or> (i < length source \<and> source ! i)) [0..<length target]"

definition collectSummaryItems :: "history_item list \<Rightarrow> bool list \<Rightarrow> history_item list" where
  "collectSummaryItems history keep = map fst (filter (\<lambda>(item, k). \<not> k) (zip history keep))"

text \<open>The flags that \<open>CompactHistory\<close> computes, and the items they keep.\<close>

definition keep_flags ::
    "marshal_args \<Rightarrow> history_item list \<Rightarrow> (history_item list \<Rightarrow> go_int) option \<Rightarrow> compaction_config \<Rightarrow> bool list" where
  "keep_flags marshal filtered counter cfg =
     (let keep = map (\<lambda>item. isDeveloperInstructions item \<or> isUserInstructions item) filtered;
          keep = (case lastEnvironmentIndex filtered of None \<Rightarrow> keep | Some e \<Rightarrow> keep[e := True]);
          (userKeep, lastUser) =
            selectRecentUserMessages marshal filtered counter (ccRecentUserTokenBudget cfg);
          keep = mergeKeep keep userKeep;
          toolKeep = selectToolOutputs filtered lastUser (ccRecentToolOutputLimit cfg);
          keep = mergeKeep keep toolKeep
      in mergeKeep keep (selectToolCallsForOutputs filtered toolKeep))"

definition kept_items :: "history_item list \<Rightarrow> bool list \<Rightarrow> history_item list" where
  "kept_items history keep = map fst (filter snd (zip history keep))"

section \<open>Summaries\<close>

definition estimatePromptTokens ::
    "marshal_args \<Rightarrow> (history_item list \<Rightarrow> go_int) option \<Rightarrow> string \<Rightarrow> history_item list \<Rightarrow> go_int" where
  "estimatePromptTokens marshal counter prompt items =
     (case counter of None \<Rightarrow> ApproxTokenCount marshal items | Some f \<Rightarrow> f items) +
     (if TrimSpace prompt \<noteq> [] then int (length prompt) div 4 else 0)"

fun trim_oldest ::
    "(history_item list \<Rightarrow> go_int) \<Rightarrow> go_int \<Rightarrow> history_item list \<Rightarrow> history_item list" where
  "trim_oldest estimate limit [] = []"
| "trim_oldest estimate limit (x # xs) =
     (if estimate (x # xs) > limit then trim_oldest estimate limit xs else x # xs)"

definition trimSummaryItems ::
    "marshal_args \<Rightarrow> history_item list \<Rightarrow> string \<Rightarrow> (history_item list \<Rightarrow> go_int) option \<Rightarrow> go_int \<Rightarrow>
     history_item list" where
  "trimSummaryItems marshal items prompt counter limit =
     (if limit \<le> 0 then items else trim_oldest (estimatePromptTokens marshal counter prompt) limit items)"

text \<open>The loop over the events of the summary stream, with the text written so far.\<close>

fun read_summary :: "stream_event list \<Rightarrow> string option \<Rightarrow> string \<Rightarrow> string + string" where
  "read_summary [] None acc = Inl acc"
| "read_summary [] (Some err) acc = Inr err"
| "read_summary (StreamEventMessage m # es) ending acc = read_summary es ending (acc @ m)"
| "read_summary (StreamEventToolCall c # es) ending acc = Inr ''summary stream emitted tool call''"
| "read_summary (StreamEventOther t # es) ending acc =
     Inr (''summary stream emitted unknown event type '' @ show_int t)"

definition SummarizeHistory ::
    "marshal_args \<Rightarrow> 'w provider \<Rightarrow> 'w \<Rightarrow> history_item list \<Rightarrow> string \<Rightarrow>
     (history_item list \<Rightarrow> go_int) option \<Rightarrow> go_int \<Rightarrow> 'w \<times> (string + string)" where
  "SummarizeHistory marshal provider w items prompt counter limit =
     (let trimmedPrompt = TrimSpace prompt;
          summaryPrompt = (if trimmedPrompt = [] then DefaultSummaryPrompt else trimmedPrompt);
          trimmed = trimSummaryItems marshal items summaryPrompt counter limit in
      if trimmed = [] then (w, Inl [])
      else if limit > 0 \<and> estimatePromptTokens marshal counter summaryPrompt trimmed > limit
      then (w, Inr ''summary prompt exceeds limit after trimming'')
      else case provider w \<lparr>prInstructions = summaryPrompt, prInputItems = trimmed, prTools = [],
                           prParallelToolCalls = False, prOutputSchema = []\<rparr> of
        (w', Inr err) \<Rightarrow> (w', Inr err)
      | (w', Inl (events, ending)) \<Rightarrow>
          (w', case read_summary events ending [] of Inl s \<Rightarrow> Inl (TrimSpace s) | Inr err \<Rightarrow> Inr err))"

section \<open>Compaction\<close>

text \<open>
  \<open>CompactHistory\<close> with a provider that is not nil: the world, and the new history with its
  statistics (\<open>None\<close> when nothing was done), or the error, which leaves the history as it was.
\<close>

definition CompactHistory ::
    "marshal_args \<Rightarrow> 'w provider \<Rightarrow> 'w \<Rightarrow> history_item list \<Rightarrow> (history_item list \<Rightarrow> go_int) option \<Rightarrow>
     compaction_config \<Rightarrow> 'w \<times> ((history_item list \<times> compaction_stats) option + string)" where
  "CompactHistory marshal provider w history counter cfg0 =
     (let cfg = NormalizeCompactionConfig cfg0 in
      case counter of
        None \<Rightarrow> (w, Inl None)
      | Some f \<Rightarrow>
          if ccSoftLimit cfg \<le> 0 \<or> f history \<le> ccSoftLimit cfg then (w, Inl None)
          else
            let filtered = filterSummaryItems history;
                keep = keep_flags marshal filtered counter cfg;
                summaryItems = collectSummaryItems filtered keep;
                (w', r) =
                  (if summaryItems \<noteq> []
                   then SummarizeHistory marshal provider w summaryItems (ccSummaryPrompt cfg) counter
                          (ccHardLimit cfg)
                   else (w, Inl []))
            in (case r of
                  Inr err \<Rightarrow> (w', Inr err)
                | Inl s \<Rightarrow>
                    let summary = TrimSpace s;
                        item = text_item ''assistant'' (SummaryPrefix @ summary);
                        compacted = kept_items filtered keep @ (if summary \<noteq> [] then [item] else [])
                    in (w', Inl (Some (compacted,
                          \<lparr>csBeforeTokens = f history, csAfterTokens = f compacted,
                           csSummaryTokens =
                             (if summary \<noteq> [] then countTokens marshal counter item else 0)\<rparr>)))))"

end
