(* ===== verification/Agent_Keep.thy ===== *)
theory Agent_Keep
  imports Agent_Compaction
begin

text \<open>
  What compaction keeps: facts on the flags of \<open>keep_flags\<close> by index, and the discipline of tool
  calls, \<open>well_paired\<close>: every call is followed at once by its output, every output is preceded at
  once by its call.  Compaction keeps the discipline, because it keeps a call exactly when it keeps
  its output.
\<close>

section \<open>Searching downwards\<close>

lemma find_down_Some:
  "find P (indices_down n) = Some i \<longleftrightarrow> i < n \<and> P i \<and> (\<forall>j. i < j \<and> j < n \<longrightarrow> \<not> P j)"
proof (induction n)
  case (Suc n)
  then show ?case by (cases "P n") (auto simp: indices_down_def less_Suc_eq)
qed (simp add: indices_down_def)

lemma find_down_None: "find P (indices_down n) = None \<longleftrightarrow> (\<forall>i < n. \<not> P i)"
  by (simp add: find_None_iff indices_down_def)

section \<open>Keeping by flags\<close>

lemma kept_items_Nil [simp]: "kept_items [] keep = []" "kept_items xs [] = []"
  by (simp_all add: kept_items_def)

lemma kept_items_Cons [simp]:
  "kept_items (x # xs) (k # ks) = (if k then x # kept_items xs ks else kept_items xs ks)"
  by (simp add: kept_items_def)

lemma kept_items_append:
  "length as = length ks \<Longrightarrow> kept_items (as @ bs) (ks @ ls) = kept_items as ks @ kept_items bs ls"
  by (simp add: kept_items_def)

lemma kept_subseq: "subseq (kept_items xs ks) xs"
  by (induction xs ks rule: list_induct2') (auto intro: subseq_Cons')

lemma kept_length: "length (kept_items xs ks) \<le> length xs"
  by (rule list_emb_length[OF kept_subseq])

lemma kept_set: "set (kept_items xs ks) \<subseteq> set xs"
  by (induction xs ks rule: list_induct2') auto

lemma kept_filter_all:
  assumes "length ks = length xs" "\<And>i. i < length xs \<Longrightarrow> P (xs ! i) \<Longrightarrow> ks ! i"
  shows "filter P (kept_items xs ks) = filter P xs"
  using assms
proof (induction ks xs rule: list_induct2)
  case (Cons k ks x xs)
  have "filter P (kept_items xs ks) = filter P xs"
    using Cons.prems[of "Suc _"] by (intro Cons.IH) simp
  moreover have "P x \<Longrightarrow> k" using Cons.prems[of 0] by simp
  ultimately show ?case by auto
qed simp

lemma kept_last:
  assumes "length ks = length xs" "i < length xs" "ks ! i" "P (xs ! i)"
    and "\<And>j. i < j \<Longrightarrow> j < length xs \<Longrightarrow> \<not> P (xs ! j)"
  shows "filter P (kept_items xs ks) \<noteq> [] \<and> last (filter P (kept_items xs ks)) = xs ! i"
proof -
  have x: "xs = take i xs @ xs ! i # drop (Suc i) xs" using assms(2) by (rule id_take_nth_drop)
  have k: "ks = take i ks @ ks ! i # drop (Suc i) ks" using assms(1,2) by (simp add: id_take_nth_drop[symmetric])
  have "\<not> P z" if z: "z \<in> set (kept_items (drop (Suc i) xs) (drop (Suc i) ks))" for z
  proof -
    have "z \<in> set (drop (Suc i) xs)" using z kept_set by blast
    then obtain j where "j < length xs - Suc i" "z = xs ! (Suc i + j)" by (auto simp: in_set_conv_nth)
    then show ?thesis using assms(5)[of "Suc i + j"] by simp
  qed
  then have "filter P (kept_items (drop (Suc i) xs) (drop (Suc i) ks)) = []" by (simp add: filter_empty_conv)
  moreover have "kept_items xs ks =
      kept_items (take i xs) (take i ks) @ xs ! i # kept_items (drop (Suc i) xs) (drop (Suc i) ks)"
    using assms(1-3) by (subst x, subst k, subst kept_items_append) simp_all
  ultimately show ?thesis using assms(4) by simp
qed

section \<open>The flags, by index\<close>

lemma length_no_keep [simp]: "length (no_keep h) = length h"
  and nth_no_keep [simp]: "i < length h \<Longrightarrow> \<not> no_keep h ! i"
  by (simp_all add: no_keep_def)

lemma nth_flag_set: "keep[c := True] ! i \<longleftrightarrow> keep ! i \<or> (i = c \<and> c < length keep)"
  by (cases "c < length keep") (auto simp: nth_list_update list_update_beyond)

lemma length_mergeKeep [simp]: "length (mergeKeep a b) = length a"
  by (simp add: mergeKeep_def)

lemma nth_mergeKeep: "i < length a \<Longrightarrow> length b = length a \<Longrightarrow> mergeKeep a b ! i \<longleftrightarrow> a ! i \<or> b ! i"
  by (simp add: mergeKeep_def)

lemma user_scan_length: "length (fst (user_scan h t b js keep used lu)) = length keep"
  by (induction h t b "js" keep used lu rule: user_scan.induct) (auto simp: Let_def)

lemma user_scan_user:
  assumes "fst (user_scan h t b js keep used lu) ! i" "set js \<subseteq> {..<length keep}"
  shows "keep ! i \<or> isUserMessage (h ! i)"
  using assms
proof (induction h t b "js" keep used lu rule: user_scan.induct)
  case (2 h t b j rest keep used lu)
  then show ?case by (cases "i = j") (auto simp: Let_def split: if_splits)
qed simp

lemma user_scan_grows:
  assumes "keep ! i" "i < length keep"
  shows "fst (user_scan h t b js keep used lu) ! i"
  using assms
proof (induction h t b "js" keep used lu rule: user_scan.induct)
  case (2 h t b j rest keep used lu)
  then show ?case by (cases "i = j") (auto simp: Let_def)
qed simp

lemma user_scan_last: "snd (user_scan h t b js keep used (Some u)) = Some u"
proof (induction "js" arbitrary: keep used)
  case (Cons j rest)
  then show ?case by (auto simp: Let_def)
qed simp

lemma user_scan_first:
  assumes "find (\<lambda>i. isUserMessage (h ! i)) js = Some u" "set js \<subseteq> {..<length keep}"
  shows "snd (user_scan h t b js keep 0 None) = Some u \<and> fst (user_scan h t b js keep 0 None) ! u"
  using assms
proof (induction "js")
  case (Cons j rest)
  then show ?case
    by (cases "isUserMessage (h ! j)") (auto simp: Let_def user_scan_last user_scan_grows)
qed simp

lemma user_scan_none:
  "find (\<lambda>i. isUserMessage (h ! i)) js = None \<Longrightarrow> user_scan h t b js keep used None = (keep, None)"
  by (induction "js") (auto split: if_splits)

lemma set_indices_down [simp]: "set (indices_down n) = {..<n}"
  by (auto simp: indices_down_def)

lemma selectRecentUserMessages_eq:
  "selectRecentUserMessages marshal h counter budget =
     user_scan h (countTokens marshal counter) budget (indices_down (length h)) (no_keep h) 0 None"
proof (cases "find (\<lambda>i. isUserMessage (h ! i)) (indices_down (length h))")
  case None
  then show ?thesis by (simp add: selectRecentUserMessages_def user_scan_none)
next
  case (Some u)
  then show ?thesis
    using user_scan_first[OF Some, of "no_keep h" "countTokens marshal counter" budget]
    by (auto simp: selectRecentUserMessages_def split: prod.splits)
qed

lemma tool_scan_facts:
  assumes "set js \<subseteq> {..<length keep}"
  shows "length (tool_scan h limit js keep n) = length keep \<and>
     (\<forall>i. tool_scan h limit js keep n ! i \<longrightarrow> keep ! i \<or> hiRole (h ! i) = ''tool'')"
  using assms
proof (induction h limit "js" keep n rule: tool_scan.induct)
  case (2 h limit j rest keep n)
  then show ?case by (auto simp: nth_flag_set split: if_splits)
qed simp

lemma tools_after_facts:
  fixes h :: "history_item list"
  assumes "set js \<subseteq> {..<length keep}"
  defines "r \<equiv> foldl (\<lambda>keep i. if hiRole (h ! i) = ''tool'' then keep[i := True] else keep) keep js"
  shows "length r = length keep \<and> (\<forall>i. r ! i \<longrightarrow> keep ! i \<or> hiRole (h ! i) = ''tool'')"
  using assms(1) unfolding r_def
proof (induction "js" arbitrary: keep)
  case (Cons j rest)
  then show ?case
    using Cons.IH[of keep] Cons.IH[of "keep[j := True]"] by (auto simp: nth_flag_set split: if_splits)
qed simp

lemma selectToolOutputs_facts:
  "length (selectToolOutputs h lu limit) = length h \<and>
   (\<forall>i < length h. selectToolOutputs h lu limit ! i \<longrightarrow> hiRole (h ! i) = ''tool'')"
proof (cases "limit > 0")
  case True
  then show ?thesis
    using tool_scan_facts[of "indices_down (length h)" "no_keep h" h limit 0]
    by (auto simp: selectToolOutputs_def)
next
  case False
  then show ?thesis
    using tools_after_facts[of "[Suc u..<length h]" "no_keep h" h for u]
    by (fastforce simp: selectToolOutputs_def split: option.splits)
qed

lemma mark_calls:
  fixes f :: "nat \<Rightarrow> nat option"
  assumes "\<forall>i \<in> set js. \<forall>c. f i = Some c \<longrightarrow> c < length keep"
  defines "r \<equiv> foldl (\<lambda>keep i. case f i of None \<Rightarrow> keep | Some c \<Rightarrow> keep[c := True]) keep js"
  shows "length r = length keep \<and> (\<forall>c < length keep. r ! c \<longleftrightarrow> keep ! c \<or> (\<exists>i \<in> set js. f i = Some c))"
  using assms(1) unfolding r_def
proof (induction "js" arbitrary: keep)
  case (Cons j rest)
  then have "length (case f j of None \<Rightarrow> keep | Some c \<Rightarrow> keep[c := True]) = length keep"
    by (auto split: option.split)
  moreover from Cons.prems have "\<forall>i \<in> set rest. \<forall>c. f i = Some c \<longrightarrow> c < length keep" by simp
  ultimately show ?case
    using Cons.IH[of "case f j of None \<Rightarrow> keep | Some c \<Rightarrow> keep[c := True]"] Cons.prems
    by (auto simp: nth_flag_set split: option.splits if_splits)
qed simp

lemma findToolCallIndex_Some:
  "findToolCallIndex h n callID = Some c \<longleftrightarrow>
     callID \<noteq> [] \<and> c < n \<and> (\<exists>call. hiContent (h ! c) = ToolCallContent call \<and> tcID call = callID) \<and>
     (\<forall>j call. c < j \<and> j < n \<and> hiContent (h ! j) = ToolCallContent call \<longrightarrow> tcID call \<noteq> callID)"
  unfolding findToolCallIndex_def
  by (auto simp: find_down_Some split: history_content.splits)

lemma call_of_output_less:
  "call_of_output h keep i = Some c \<Longrightarrow> c < i"
  by (auto simp: call_of_output_def findToolCallIndex_Some split: if_splits history_content.splits)

lemma selectToolCallsForOutputs_facts:
  assumes "length keep = length h"
  shows "length (selectToolCallsForOutputs h keep) = length h \<and>
     (\<forall>c < length h. selectToolCallsForOutputs h keep ! c \<longleftrightarrow>
        (\<exists>i < length h. call_of_output h keep i = Some c))"
proof -
  have "\<forall>i \<in> set [0..<length keep]. \<forall>c. call_of_output h keep i = Some c \<longrightarrow> c < length (no_keep h)"
    using call_of_output_less assms by fastforce
  from mark_calls[OF this] show ?thesis
    unfolding selectToolCallsForOutputs_def by (simp add: assms Bex_def)
qed

section \<open>The flags of a compaction\<close>

definition kept_tools ::
    "marshal_args \<Rightarrow> history_item list \<Rightarrow> (history_item list \<Rightarrow> go_int) option \<Rightarrow> compaction_config \<Rightarrow> bool list" where
  "kept_tools marshal h counter cfg =
     selectToolOutputs h (snd (selectRecentUserMessages marshal h counter (ccRecentUserTokenBudget cfg)))
       (ccRecentToolOutputLimit cfg)"

lemma length_kept_tools [simp]: "length (kept_tools marshal h counter cfg) = length h"
  and kept_tools_role: "i < length h \<Longrightarrow> kept_tools marshal h counter cfg ! i \<Longrightarrow> hiRole (h ! i) = ''tool''"
  using selectToolOutputs_facts[of h] by (auto simp: kept_tools_def)

lemma user_keep_length [simp]: "length (fst (selectRecentUserMessages marshal h counter b)) = length h"
  by (simp add: selectRecentUserMessages_eq user_scan_length)

lemma user_keep_user:
  "fst (selectRecentUserMessages marshal h counter b) ! i \<Longrightarrow> i < length h \<Longrightarrow> isUserMessage (h ! i)"
  using user_scan_user[of h "countTokens marshal counter" b "indices_down (length h)" "no_keep h" 0 None i]
  by (auto simp: selectRecentUserMessages_eq)

lemma keep_flags_nth:
  assumes "i < length h"
  shows "keep_flags marshal h counter cfg ! i \<longleftrightarrow>
     isDeveloperInstructions (h ! i) \<or> isUserInstructions (h ! i) \<or> lastEnvironmentIndex h = Some i \<or>
     fst (selectRecentUserMessages marshal h counter (ccRecentUserTokenBudget cfg)) ! i \<or>
     kept_tools marshal h counter cfg ! i \<or>
     (\<exists>j < length h. call_of_output h (kept_tools marshal h counter cfg) j = Some i)"
proof -
  obtain uk lu where sel: "selectRecentUserMessages marshal h counter (ccRecentUserTokenBudget cfg) = (uk, lu)"
    by (rule prod.exhaust)
  have uk: "length uk = length h"
    using user_keep_length[of marshal h counter "ccRecentUserTokenBudget cfg"] sel by simp
  note F = selectToolCallsForOutputs_facts[of "kept_tools marshal h counter cfg" h]
  show ?thesis
    using assms uk F
    by (cases "lastEnvironmentIndex h")
       (auto simp: keep_flags_def sel Let_def kept_tools_def nth_mergeKeep nth_flag_set selectToolOutputs_facts)
qed

lemma length_keep_flags [simp]: "length (keep_flags marshal h counter cfg) = length h"
  by (auto simp: keep_flags_def Let_def split: prod.splits option.splits)

section \<open>Calls and outputs\<close>

text \<open>
  A history is well paired when each text is not a tool's, each call carries an id and is the
  assistant's, and the tool's output of that id comes right after it; no output stands alone.
\<close>

definition output_of :: "tool_call \<Rightarrow> history_item \<Rightarrow> bool" where
  "output_of call item \<longleftrightarrow>
     hiRole item = ''tool'' \<and>
     (case hiContent item of ToolOutputContent out \<Rightarrow> toToolCallID out = tcID call | _ \<Rightarrow> False)"

fun well_paired :: "history_item list \<Rightarrow> bool" where
  "well_paired [] = True"
| "well_paired (x # xs) =
     (case hiContent x of
        HistoryText text \<Rightarrow> hiRole x \<noteq> ''tool'' \<and> well_paired xs
      | ToolCallContent call \<Rightarrow>
          hiRole x = ''assistant'' \<and> tcID call \<noteq> [] \<and>
          (case xs of [] \<Rightarrow> False | y # ys \<Rightarrow> output_of call y \<and> well_paired ys)
      | ToolOutputContent out \<Rightarrow> False)"

text \<open>Induction along the pairs.\<close>

lemma well_paired_induct [consumes 1, case_names Nil message pair]:
  assumes "well_paired xs" "P []"
    and "\<And>role text xs. role \<noteq> ''tool'' \<Longrightarrow> well_paired xs \<Longrightarrow> P xs \<Longrightarrow> P (text_item role text # xs)"
    and "\<And>call out xs. tcID call \<noteq> [] \<Longrightarrow> toToolCallID out = tcID call \<Longrightarrow> well_paired xs \<Longrightarrow> P xs \<Longrightarrow>
       P (\<lparr>hiRole = ''assistant'', hiContent = ToolCallContent call\<rparr> #
          \<lparr>hiRole = ''tool'', hiContent = ToolOutputContent out\<rparr> # xs)"
  shows "P xs"
  using assms(1)
proof (induction xs rule: length_induct)
  case (1 xs)
  show ?case
  proof (cases xs)
    case Nil
    then show ?thesis using assms(2) by simp
  next
    case (Cons x rest)
    show ?thesis
    proof (cases "hiContent x")
      case (HistoryText t)
      then show ?thesis using 1 Cons assms(3)[of "hiRole x" rest t] by (cases x) auto
    next
      case (ToolCallContent call)
      then obtain y ys where r: "rest = y # ys" "output_of call y" "well_paired ys"
        using 1 Cons by (auto split: list.splits)
      then obtain out where "y = \<lparr>hiRole = ''tool'', hiContent = ToolOutputContent out\<rparr>" "toToolCallID out = tcID call"
        by (cases y) (auto simp: output_of_def split: history_content.splits)
      then show ?thesis
        using 1 Cons ToolCallContent r assms(4)[of call out ys] by (cases x) auto
    qed (use 1 Cons in simp)
  qed
qed

lemma well_paired_append: "well_paired xs \<Longrightarrow> well_paired ys \<Longrightarrow> well_paired (xs @ ys)"
  by (induction rule: well_paired_induct) (auto simp: output_of_def)

lemma well_paired_filter:
  "well_paired xs \<Longrightarrow> (\<And>x. x \<in> set xs \<Longrightarrow> \<not> P x \<Longrightarrow> \<exists>role text. x = text_item role text) \<Longrightarrow>
   well_paired (filter P xs)"
  by (induction rule: well_paired_induct) (auto simp: output_of_def split: if_splits)

lemma filterSummaryItems_paired: "well_paired xs \<Longrightarrow> well_paired (filterSummaryItems xs)"
  unfolding filterSummaryItems_def
proof (rule well_paired_filter)
  fix x :: history_item
  assume "\<not> \<not> isSummaryItem x"
  then show "\<exists>role text. x = text_item role text"
    by (cases x; cases "hiContent x") (auto simp: isSummaryItem_def text_prefixed_def historyText_def)
qed

text \<open>The same by index.\<close>

lemma well_paired_output:
  assumes "well_paired xs" "i < length xs" "hiContent (xs ! i) = ToolOutputContent out"
  shows "i > 0 \<and> hiRole (xs ! i) = ''tool'' \<and>
     (\<exists>call. hiContent (xs ! (i - 1)) = ToolCallContent call \<and> tcID call = toToolCallID out) \<and> toToolCallID out \<noteq> []"
  using assms
proof (induction arbitrary: i rule: well_paired_induct)
  case (message role t xs)
  then obtain j where "i = Suc j" by (cases i) auto
  then show ?case using message.IH[of j] message.prems by (cases j) auto
next
  case (pair call out' xs)
  show ?case
  proof (cases i)
    case (Suc j)
    then show ?thesis
    proof (cases j)
      case (Suc k)
      with \<open>i = Suc j\<close> show ?thesis using pair.IH[of k] pair.prems by (cases k) auto
    qed (use pair in auto)
  qed (use pair in auto)
qed simp

lemma well_paired_call:
  assumes "well_paired xs" "i < length xs" "hiContent (xs ! i) = ToolCallContent call"
  shows "hiRole (xs ! i) = ''assistant'' \<and> tcID call \<noteq> [] \<and> Suc i < length xs \<and>
     (\<exists>out. hiContent (xs ! Suc i) = ToolOutputContent out \<and> toToolCallID out = tcID call \<and> hiRole (xs ! Suc i) = ''tool'')"
  using assms
proof (induction arbitrary: i rule: well_paired_induct)
  case (message role t xs)
  then obtain j where "i = Suc j" by (cases i) auto
  then show ?case using message by auto
next
  case (pair call' out xs)
  show ?case
  proof (cases i)
    case (Suc j)
    then show ?thesis using pair by (cases j) auto
  qed (use pair in auto)
qed simp

lemma well_paired_kept:
  assumes "well_paired xs" "length keep = length xs"
    and "\<And>i call. i < length xs \<Longrightarrow> hiContent (xs ! i) = ToolCallContent call \<Longrightarrow> keep ! i \<longleftrightarrow> keep ! Suc i"
  shows "well_paired (kept_items xs keep)"
  using assms
proof (induction arbitrary: keep rule: well_paired_induct)
  case (message role t xs)
  then obtain k ks where "keep = k # ks" "length ks = length xs" by (cases keep) auto
  moreover from this have "well_paired (kept_items xs ks)" using message.prems(2)[of "Suc _"] by (intro message.IH) auto
  ultimately show ?case using message by simp
next
  case (pair call out xs)
  then obtain k k' ks where k: "keep = k # k' # ks" "length ks = length xs"
    by (cases keep; cases "tl keep") auto
  then have "well_paired (kept_items xs ks)" using pair.prems(2)[of "Suc (Suc _)"] by (intro pair.IH) auto
  moreover have "k = k'" using pair.prems(2)[of 0 call] k by simp
  ultimately show ?case using pair k by (simp add: output_of_def)
qed simp

lemma keep_call_iff_output:
  assumes wp: "well_paired h" and i: "i < length h" and c: "hiContent (h ! i) = ToolCallContent call"
  shows "keep_flags marshal h counter cfg ! i \<longleftrightarrow> keep_flags marshal h counter cfg ! Suc i"
proof -
  let ?tools = "kept_tools marshal h counter cfg"
  obtain out where out: "hiRole (h ! i) = ''assistant''" "tcID call \<noteq> []" "Suc i < length h"
    "hiContent (h ! Suc i) = ToolOutputContent out" "toToolCallID out = tcID call" "hiRole (h ! Suc i) = ''tool''"
    using well_paired_call[OF assms] by blast
  have no_env: "lastEnvironmentIndex h \<noteq> Some i" "lastEnvironmentIndex h \<noteq> Some (Suc i)"
    using out by (auto simp: lastEnvironmentIndex_def find_down_Some isEnvironmentItem_def)
  have "(\<exists>j < length h. call_of_output h ?tools j = Some i) \<longleftrightarrow> ?tools ! Suc i"
  proof
    assume "?tools ! Suc i"
    then have "call_of_output h ?tools (Suc i) = Some i"
      using out c by (auto simp: call_of_output_def findToolCallIndex_Some)
    then show "\<exists>j < length h. call_of_output h ?tools j = Some i" using out(3) by blast
  next
    assume "\<exists>j < length h. call_of_output h ?tools j = Some i"
    then obtain j o2 where j: "j < length h" "?tools ! j" "hiContent (h ! j) = ToolOutputContent o2"
      "findToolCallIndex h j (toToolCallID o2) = Some i"
      by (auto simp: call_of_output_def split: if_splits history_content.splits)
    obtain call2 where c2: "j > 0" "hiContent (h ! (j - 1)) = ToolCallContent call2" "tcID call2 = toToolCallID o2"
      using well_paired_output[OF wp j(1,3)] by blast
    have "i < j" "\<not> (i < j - 1 \<and> j - 1 < j)"
      using j(4) c2(2,3) unfolding findToolCallIndex_Some by blast+
    then have "j = Suc i" using c2(1) by linarith
    then show "?tools ! Suc i" using j(2) by simp
  qed
  moreover have "\<not> ?tools ! i" using kept_tools_role[OF i, of marshal counter cfg] out(1) by auto
  moreover have "\<not> fst (selectRecentUserMessages marshal h counter b) ! i"
    "\<not> fst (selectRecentUserMessages marshal h counter b) ! Suc i" for b
    using user_keep_user[of marshal h counter b] i out by (auto simp: isUserMessage_def)
  moreover have "call_of_output h ?tools j \<noteq> Some (Suc i)" for j
    using out(4) by (auto simp: call_of_output_def findToolCallIndex_Some split: history_content.splits)
  ultimately show ?thesis
    using keep_flags_nth[OF i] keep_flags_nth[OF out(3)] no_env out(1,6)
    by (auto simp: isDeveloperInstructions_def isUserInstructions_def)
qed

lemma compaction_keeps_pairs:
  "well_paired h \<Longrightarrow> well_paired (kept_items h (keep_flags marshal h counter cfg))"
  by (rule well_paired_kept) (auto simp: keep_call_iff_output)

end
