(* ===== verification/Agent_OpenRouter.thy ===== *)
theory Agent_OpenRouter
  imports Agent_Keep
begin

text \<open>
  The OpenRouter provider (\<open>openrouter.go\<close>, \<open>openrouter_messages.go\<close>, \<open>openrouter_stream.go\<close> of
  \<open>internal/agent\<close>): the translation of a prompt into chat messages and the accumulation of a
  streamed answer into events.

  Parameters: \<open>marshal\<close> is \<open>json.Marshal\<close> of an argument map, \<open>chunk_of\<close> is \<open>json.Unmarshal\<close> into
  a stream chunk and \<open>args_of\<close> into an argument map (JSON's null is the nil map), \<open>encode\<close> is
  \<open>json.Marshal\<close> of the request.  The body of an answer is the list of lines the scanner yields,
  and \<open>scanErr n\<close> is \<open>scanner.Err()\<close> after it has yielded \<open>n\<close> of them.
\<close>

section \<open>Messages\<close>

record or_tool_call =
  orID :: string
  orType :: string
  orName :: string
  orArguments :: string

record or_message =
  omRole :: string
  omContent :: string
  omToolCalls :: "or_tool_call list"
  omToolCallID :: string

record or_tool =
  otType :: string
  otName :: string
  otDescription :: string
  otParameters :: tool_schema

record or_request =
  rqModel :: string
  rqStream :: bool
  rqMessages :: "or_message list"
  rqTools :: "or_tool list"
  rqToolChoice :: string

definition toOpenRouterMessage :: "marshal_args \<Rightarrow> history_item \<Rightarrow> or_message + string" where
  "toOpenRouterMessage marshal item =
     (let role = (if hiRole item = ''developer'' then ''system'' else hiRole item) in
      case hiContent item of
        HistoryText text \<Rightarrow> Inl \<lparr>omRole = role, omContent = text, omToolCalls = [], omToolCallID = []\<rparr>
      | ToolCallContent call \<Rightarrow>
         (case marshal (case tcArgs call of None \<Rightarrow> [] | Some a \<Rightarrow> a) of
            Inr err \<Rightarrow> Inr (''marshal tool args: '' @ err)
          | Inl payload \<Rightarrow>
              if tcID call = [] then Inr ''tool call id is required''
              else Inl \<lparr>omRole = role, omContent = [],
                       omToolCalls = [\<lparr>orID = tcID call, orType = ''function'', orName = tcName call,
                                      orArguments = payload\<rparr>],
                       omToolCallID = []\<rparr>)
      | ToolOutputContent out \<Rightarrow>
          Inl \<lparr>omRole = ''tool'', omContent = crOutput (toResult out), omToolCalls = [],
              omToolCallID = toToolCallID out\<rparr>)"

fun convert_items :: "marshal_args \<Rightarrow> history_item list \<Rightarrow> or_message list + string" where
  "convert_items marshal [] = Inl []"
| "convert_items marshal (item # items) =
     (case toOpenRouterMessage marshal item of
        Inr err \<Rightarrow> Inr err
      | Inl msg \<Rightarrow>
         (case convert_items marshal items of
            Inr err \<Rightarrow> Inr err
          | Inl msgs \<Rightarrow> Inl (if omRole msg \<noteq> [] then msg # msgs else msgs)))"

definition buildOpenRouterMessages :: "marshal_args \<Rightarrow> prompt \<Rightarrow> or_message list + string" where
  "buildOpenRouterMessages marshal p =
     (case convert_items marshal (prInputItems p) of
        Inr err \<Rightarrow> Inr err
      | Inl msgs \<Rightarrow>
          Inl ((if TrimSpace (prInstructions p) \<noteq> []
                then [\<lparr>omRole = ''system'', omContent = prInstructions p, omToolCalls = [], omToolCallID = []\<rparr>]
                else []) @ msgs))"

definition buildOpenRouterTools :: "tool_definition list \<Rightarrow> or_tool list" where
  "buildOpenRouterTools defs =
     map (\<lambda>d. \<lparr>otType = ''function'', otName = defName d, otDescription = defDescription d,
              otParameters = (case defParameters d of
                 None \<Rightarrow> ToolSchema ''object'' [] None [] None | Some p \<Rightarrow> p)\<rparr>) defs"

section \<open>The streamed answer\<close>

record stream_call =
  stIndex :: go_int
  stID :: string
  stName :: string
  stArguments :: string

record stream_choice =
  chContent :: string
  chToolCalls :: "stream_call list"

record accumulator =
  acID :: string
  acName :: string
  acArguments :: string

type_synonym accumulators = "(go_int \<times> accumulator) list"

text \<open>
  The map of accumulators is the list of its entries; the program only looks at it by index and
  in the order of the sorted indices.
\<close>

definition acc_of :: "accumulators \<Rightarrow> go_int \<Rightarrow> accumulator" where
  "acc_of accs i =
     (case map_of accs i of Some a \<Rightarrow> a | None \<Rightarrow> \<lparr>acID = [], acName = [], acArguments = []\<rparr>)"

definition set_acc :: "accumulators \<Rightarrow> go_int \<Rightarrow> accumulator \<Rightarrow> accumulators" where
  "set_acc accs i a =
     (if map_of accs i = None then accs @ [(i, a)]
      else map (\<lambda>(j, b). if j = i then (j, a) else (j, b)) accs)"

definition add_call :: "accumulators \<Rightarrow> stream_call \<Rightarrow> accumulators" where
  "add_call accs c =
     (let a = acc_of accs (stIndex c) in
      set_acc accs (stIndex c)
        \<lparr>acID = (if stID c \<noteq> [] then stID c else acID a),
         acName = (if stName c \<noteq> [] then stName c else acName a),
         acArguments = acArguments a @ stArguments c\<rparr>)"

type_synonym gathered = "string \<times> accumulators"

definition add_choice :: "gathered \<Rightarrow> stream_choice \<Rightarrow> gathered" where
  "add_choice g c = (fst g @ chContent c, foldl add_call (snd g) (chToolCalls c))"

text \<open>The loop over the lines; \<open>n\<close> counts the lines that were read.\<close>

fun scan_lines ::
    "(string \<Rightarrow> stream_choice list + string) \<Rightarrow> (nat \<Rightarrow> string option) \<Rightarrow> string list \<Rightarrow> nat \<Rightarrow> gathered \<Rightarrow>
     gathered + string" where
  "scan_lines chunk_of scanErr [] n g =
     (case scanErr n of Some err \<Rightarrow> Inr err | None \<Rightarrow> Inl g)"
| "scan_lines chunk_of scanErr (raw # lines) n g =
     (let line = TrimSpace raw in
      if line = [] \<or> \<not> HasPrefix line ''data:'' then scan_lines chunk_of scanErr lines (n + 1) g
      else
        let payload = TrimSpace (TrimPrefix line ''data:'') in
        if payload = ''[DONE]'' then (case scanErr (n + 1) of Some err \<Rightarrow> Inr err | None \<Rightarrow> Inl g)
        else case chunk_of payload of
          Inr err \<Rightarrow> Inr (''parse stream chunk: '' @ err)
        | Inl choices \<Rightarrow> scan_lines chunk_of scanErr lines (n + 1) (foldl add_choice g choices))"

text \<open>The events of the sorted accumulators; the first malformed argument text is the error.\<close>

fun call_events ::
    "(string \<Rightarrow> tool_args option + string) \<Rightarrow> accumulators \<Rightarrow> go_int list \<Rightarrow> stream_event list + string" where
  "call_events args_of accs [] = Inl []"
| "call_events args_of accs (i # is) =
     (let a = acc_of accs i in
      case (if acArguments a \<noteq> [] then args_of (acArguments a) else Inl None) of
        Inr err \<Rightarrow> Inr (''parse tool arguments: '' @ err)
      | Inl args \<Rightarrow>
         (case call_events args_of accs is of
            Inr err \<Rightarrow> Inr err
          | Inl es \<Rightarrow>
              Inl (StreamEventToolCall
                     \<lparr>tcID = (if acID a = [] then ''call-'' @ show_int i else acID a),
                      tcName = acName a, tcArgs = args\<rparr> # es)))"

definition parseOpenRouterStream ::
    "(string \<Rightarrow> stream_choice list + string) \<Rightarrow> (string \<Rightarrow> tool_args option + string) \<Rightarrow>
     (nat \<Rightarrow> string option) \<Rightarrow> string list \<Rightarrow> stream_event list + string" where
  "parseOpenRouterStream chunk_of args_of scanErr lines =
     (case scan_lines chunk_of scanErr lines 0 ([], []) of
        Inr err \<Rightarrow> Inr err
      | Inl (content, accs) \<Rightarrow>
         (case call_events args_of accs (sort (map fst accs)) of
            Inr err \<Rightarrow> Inr err
          | Inl calls \<Rightarrow>
              Inl ((if content \<noteq> [] then [StreamEventMessage content] else []) @ calls)))"

section \<open>The provider\<close>

record or_provider =
  orAPIKey :: string
  orBaseURL :: string
  orModel :: string

definition defaultOpenRouterBaseURL :: string where
  "defaultOpenRouterBaseURL = ''https://openrouter.ai/api/v1''"

definition NewOpenRouterProvider :: "string \<Rightarrow> string \<Rightarrow> string \<Rightarrow> or_provider + string" where
  "NewOpenRouterProvider model apiKey baseURL =
     (if TrimSpace model = [] then Inr ''model is required''
      else if TrimSpace apiKey = [] then Inr ''api key is required''
      else
        let base = (if TrimSpace baseURL = [] then defaultOpenRouterBaseURL else baseURL)
        in Inl \<lparr>orAPIKey = apiKey, orBaseURL = TrimRight base CHR ''/'', orModel = model\<rparr>)"

text \<open>\<open>env\<close> is \<open>os.Getenv\<close>.\<close>

definition ProviderFromEnv :: "(string \<Rightarrow> string) \<Rightarrow> string \<Rightarrow> string \<Rightarrow> or_provider + string" where
  "ProviderFromEnv env provider model =
     (let provider = (if provider = [] then TrimSpace (env ''LLM_PROVIDER'') else provider) in
      if provider = [] then Inr ''provider is required''
      else if provider \<noteq> ''openrouter'' then Inr (''unsupported provider '' @ quote provider)
      else
        let apiKey = TrimSpace (env ''LLM_API_KEY'') in
        if apiKey = [] then Inr ''LLM_API_KEY is required''
        else NewOpenRouterProvider model apiKey [])"

definition openrouter_request :: "or_provider \<Rightarrow> prompt \<Rightarrow> or_message list \<Rightarrow> or_request" where
  "openrouter_request p pr messages =
     \<lparr>rqModel = orModel p, rqStream = True, rqMessages = messages,
      rqTools = (if prTools pr \<noteq> [] then buildOpenRouterTools (prTools pr) else []),
      rqToolChoice = (if prTools pr \<noteq> [] then ''auto'' else [])\<rparr>"

text \<open>
  \<open>Stream\<close>: the HTTP exchange is the parameter \<open>post\<close>, from the endpoint, the key and the body to
  a status, the whole body as text, its lines and the scanner's error, or the error of building or
  sending the request.
\<close>

record http_answer =
  haStatus :: go_int
  haText :: string
  haLines :: "string list"
  haScanErr :: "nat \<Rightarrow> string option"

definition openrouter_Stream ::
    "marshal_args \<Rightarrow> (or_request \<Rightarrow> string + string) \<Rightarrow> (string \<Rightarrow> stream_choice list + string) \<Rightarrow>
     (string \<Rightarrow> tool_args option + string) \<Rightarrow> ('w \<Rightarrow> string \<Rightarrow> string \<Rightarrow> string \<Rightarrow> 'w \<times> (http_answer + string)) \<Rightarrow>
     or_provider \<Rightarrow> 'w provider" where
  "openrouter_Stream marshal encode chunk_of args_of post p w pr =
     (case buildOpenRouterMessages marshal pr of
        Inr err \<Rightarrow> (w, Inr err)
      | Inl messages \<Rightarrow>
         (case encode (openrouter_request p pr messages) of
            Inr err \<Rightarrow> (w, Inr (''marshal request: '' @ err))
          | Inl payload \<Rightarrow>
             (case post w (orBaseURL p @ ''/chat/completions'') (orAPIKey p) payload of
                (w', Inr err) \<Rightarrow> (w', Inr err)
              | (w', Inl resp) \<Rightarrow>
                  if haStatus resp < 200 \<or> haStatus resp \<ge> 300
                  then (w', Inr (''openrouter error: '' @ TrimSpace (haText resp)))
                  else (w', case parseOpenRouterStream chunk_of args_of (haScanErr resp) (haLines resp) of
                              Inr err \<Rightarrow> Inr err
                            | Inl events \<Rightarrow> Inl (events, None)))))"

text \<open>\<open>staticStream.Recv\<close>, and the loop of a reader: it yields the events and then \<open>io.EOF\<close>.\<close>

definition staticStream_Recv :: "stream_event list \<Rightarrow> nat \<Rightarrow> nat \<times> stream_event option" where
  "staticStream_Recv events index =
     (if index \<ge> length events then (index, None) else (index + 1, Some (events ! index)))"

function recv_all :: "stream_event list \<Rightarrow> nat \<Rightarrow> stream_event list" where
  "recv_all events index =
     (case staticStream_Recv events index of
        (_, None) \<Rightarrow> []
      | (index', Some e) \<Rightarrow> e # recv_all events index')"
  by pat_completeness auto
termination
  by (relation "measure (\<lambda>(events, index). length events - index)")
     (auto simp: staticStream_Recv_def split: if_splits)

declare recv_all.simps [simp del]

lemma recv_all_drop: "recv_all events index = drop index events"
proof (induction events index rule: recv_all.induct)
  case (1 events index)
  show ?case
  proof (cases "index < length events")
    case True
    then show ?thesis
      using 1 by (subst recv_all.simps) (simp add: staticStream_Recv_def Cons_nth_drop_Suc)
  qed (subst recv_all.simps, simp add: staticStream_Recv_def)
qed

lemma staticStream_events: "recv_all events 0 = events"
  by (simp add: recv_all_drop)

section \<open>Well-paired prompts are accepted\<close>

text \<open>
  The messages of a well-paired history keep its discipline: a message with a tool call is
  followed at once by the tool message that answers it, and there is no other tool message.
\<close>

fun paired_messages :: "or_message list \<Rightarrow> bool" where
  "paired_messages [] = True"
| "paired_messages (m # ms) =
     (if omToolCalls m = [] then omRole m \<noteq> ''tool'' \<and> paired_messages ms
      else case ms of
        [] \<Rightarrow> False
      | r # rest \<Rightarrow>
          omRole m = ''assistant'' \<and> omRole r = ''tool'' \<and>
          map orID (omToolCalls m) = [omToolCallID r] \<and> omToolCallID r \<noteq> [] \<and> omToolCalls r = [] \<and>
          paired_messages rest)"

lemma convert_items_paired:
  assumes "well_paired items" "\<forall>a. \<exists>raw. marshal a = Inl raw"
  shows "\<exists>msgs. convert_items marshal items = Inl msgs \<and> paired_messages msgs"
  using assms(1)
proof (induction rule: well_paired_induct)
  case (message role t xs)
  then show ?case by (auto simp: toOpenRouterMessage_def)
next
  case (pair call out xs)
  moreover obtain raw where "marshal (case tcArgs call of None \<Rightarrow> [] | Some a \<Rightarrow> a) = Inl raw"
    using assms(2) by blast
  ultimately show ?case by (auto simp: toOpenRouterMessage_def)
qed simp

lemma buildOpenRouterMessages_paired:
  assumes "well_paired (prInputItems p)" "\<forall>a. \<exists>raw. marshal a = Inl raw"
  shows "\<exists>msgs. buildOpenRouterMessages marshal p = Inl msgs \<and> paired_messages msgs"
proof -
  obtain msgs where "convert_items marshal (prInputItems p) = Inl msgs" "paired_messages msgs"
    using convert_items_paired[OF assms] by blast
  then show ?thesis by (auto simp: buildOpenRouterMessages_def)
qed

section \<open>Chunking does not matter\<close>

text \<open>What is gathered depends on the choices in their order, not on the chunks that carry them.\<close>

definition data_payload :: "string \<Rightarrow> string option" where
  "data_payload raw =
     (let line = TrimSpace raw in
      if line = [] \<or> \<not> HasPrefix line ''data:'' then None else Some (TrimSpace (TrimPrefix line ''data:'')))"

lemma scan_lines_Cons:
  "scan_lines chunk_of scanErr (raw # lines) n g =
     (case data_payload raw of
        None \<Rightarrow> scan_lines chunk_of scanErr lines (n + 1) g
      | Some payload \<Rightarrow>
          if payload = ''[DONE]'' then (case scanErr (n + 1) of Some err \<Rightarrow> Inr err | None \<Rightarrow> Inl g)
          else case chunk_of payload of
            Inr err \<Rightarrow> Inr (''parse stream chunk: '' @ err)
          | Inl choices \<Rightarrow> scan_lines chunk_of scanErr lines (n + 1) (foldl add_choice g choices))"
  by (simp add: data_payload_def Let_def)

lemma scan_lines_gathers:
  assumes "\<forall>raw \<in> set lines. data_payload raw \<noteq> Some ''[DONE]''"
    and "\<forall>raw \<in> set lines. \<forall>d. data_payload raw = Some d \<longrightarrow> chunk_of d = Inl (choices_of d)"
    and "scanErr (n + length lines) = None"
  shows "scan_lines chunk_of scanErr lines n g =
     Inl (foldl add_choice g (concat (map choices_of (List.map_filter data_payload lines))))"
  using assms
proof (induction lines arbitrary: n g)
  case (Cons raw lines)
  have IH: "scan_lines chunk_of scanErr lines (n + 1) g' =
      Inl (foldl add_choice g' (concat (map choices_of (List.map_filter data_payload lines))))" for g'
    using Cons.prems by (intro Cons.IH) auto
  show ?case
  proof (cases "data_payload raw")
    case None
    then show ?thesis using IH by (simp add: scan_lines_Cons List.map_filter_simps del: scan_lines.simps)
  next
    case (Some d)
    moreover have "chunk_of d = Inl (choices_of d)" "d \<noteq> ''[DONE]''" using Cons.prems Some by auto
    ultimately show ?thesis
      using IH by (simp add: scan_lines_Cons List.map_filter_simps del: scan_lines.simps)
  qed
qed (simp add: List.map_filter_simps)

end
