(* ===== verification/Agent_Call.thy ===== *)
theory Agent_Call
  imports Agent_OpenRouter
begin

text \<open>
  A call of the agent (\<open>internal/agent/call\<close>: \<open>runner.go\<close>, \<open>stream.go\<close>, \<open>helpers.go\<close>,
  \<open>limits.go\<close>, \<open>hooks.go\<close>, \<open>types.go\<close>): the loop of compaction, limit check, prompt, stream and
  tool execution that answers one user message.

  The provider, the tool executor and the clock act on a state of the world \<open>'w\<close>: \<open>aeElapsed\<close> is
  \<open>time.Since(start)\<close> for the start of the call.  The loop has no bound of its own, so it is a
  partial function: \<open>None\<close> is a call that does not return.  The counters of the metrics count
  things of one call and are not wrapped.  Verbose logging only writes and is left out.
\<close>

section \<open>Data\<close>

datatype call_error = ErrBudgetExceeded | CallErr string

record run_limits =
  liMaxSteps :: go_int
  liMaxSeconds :: duration
  liMaxTokens :: go_int

record run_options =
  roTokenCounter :: "(history_item list \<Rightarrow> go_int) option"
  roCompaction :: compaction_config
  roLimits :: run_limits

record run_metrics =
  meToolCalls :: "string \<rightharpoonup> go_int"
  meWallTime :: duration
  meTokens :: go_int
  meSteps :: go_int
  meCompactions :: go_int
  meLastSummaryTokens :: go_int

record call_input =
  ciPrompt :: prompt
  ciToolDefs :: "tool_definition list"
  ciLimits :: run_limits

text \<open>\<open>CallResult\<close> of package \<open>call\<close>.\<close>

record agent_result =
  arOutput :: string
  arMetrics :: run_metrics
  arFailureReason :: string

record 'w agent_env =
  aeMarshal :: marshal_args
  aeStream :: "'w provider"
  aeExecute :: "'w \<Rightarrow> tool_call \<Rightarrow> 'w \<times> call_result"
  aeElapsed :: "'w \<Rightarrow> 'w \<times> duration"

record 'w call_hook =
  hkBefore :: "'w \<Rightarrow> call_input \<Rightarrow> 'w \<times> call_error option"
  hkAfter :: "'w \<Rightarrow> call_input \<Rightarrow> agent_result \<Rightarrow> 'w \<times> call_error option"

section \<open>Helpers\<close>

fun callBeforeHooks :: "'w call_hook list \<Rightarrow> call_input \<Rightarrow> 'w \<Rightarrow> 'w \<times> call_error option" where
  "callBeforeHooks [] input w = (w, None)"
| "callBeforeHooks (h # hs) input w =
     (case hkBefore h w input of
        (w', Some err) \<Rightarrow> (w', Some err)
      | (w', None) \<Rightarrow> callBeforeHooks hs input w')"

definition callAfterHooks :: "'w call_hook list \<Rightarrow> call_input \<Rightarrow> agent_result \<Rightarrow> 'w \<Rightarrow> 'w" where
  "callAfterHooks hooks input result w = foldl (\<lambda>w h. fst (hkAfter h w input result)) w hooks"

definition latestAssistantMessage :: "history_item list \<Rightarrow> string" where
  "latestAssistantMessage history =
     (case find (\<lambda>item. hiRole item = ''assistant'' \<and> historyText item \<noteq> None) (rev history) of
        None \<Rightarrow> []
      | Some item \<Rightarrow> the (historyText item))"

definition failureReasonForError :: "call_error option \<Rightarrow> string" where
  "failureReasonForError err =
     (case err of
        None \<Rightarrow> []
      | Some ErrBudgetExceeded \<Rightarrow> ''budget_exceeded''
      | Some (CallErr _) \<Rightarrow> ''runtime_error'')"

definition exceededLimits ::
    "'w agent_env \<Rightarrow> run_limits \<Rightarrow> (history_item list \<Rightarrow> go_int) option \<Rightarrow> history_item list \<Rightarrow> go_int \<Rightarrow> 'w \<Rightarrow>
     'w \<times> bool" where
  "exceededLimits E limits counter history steps w =
     (let (w1, late) =
        (if liMaxSeconds limits > 0
         then let (w1, d) = aeElapsed E w in (w1, d > liMaxSeconds limits) else (w, False))
      in (w1, late \<or> (liMaxSteps limits > 0 \<and> steps \<ge> liMaxSteps limits) \<or>
              (liMaxTokens limits > 0 \<and>
               (case counter of None \<Rightarrow> False | Some f \<Rightarrow> f history > liMaxTokens limits))))"

definition finalizeMetrics ::
    "'w agent_env \<Rightarrow> run_options \<Rightarrow> history_item list \<Rightarrow> run_metrics \<Rightarrow> 'w \<Rightarrow> 'w \<times> run_metrics" where
  "finalizeMetrics E opts history m w =
     (let (w', d) = aeElapsed E w; m1 = m\<lparr>meWallTime := d\<rparr> in
      (w', case roTokenCounter opts of None \<Rightarrow> m1 | Some f \<Rightarrow> m1\<lparr>meTokens := f history\<rparr>))"

section \<open>The response stream\<close>

definition call_id :: "history_item list \<Rightarrow> tool_call \<Rightarrow> tool_call" where
  "call_id history c = (if tcID c = [] then c\<lparr>tcID := ''call-'' @ decimal (length history)\<rparr> else c)"

definition count_tool :: "string \<Rightarrow> run_metrics \<Rightarrow> run_metrics" where
  "count_tool name m =
     m\<lparr>meToolCalls := (meToolCalls m)(name \<mapsto> (case meToolCalls m name of None \<Rightarrow> 0 | Some n \<Rightarrow> n) + 1)\<rparr>"

text \<open>What is left: the world, the history, the metrics, whether to go on, and the error.\<close>

fun handleResponseStream ::
    "('w \<Rightarrow> tool_call \<Rightarrow> 'w \<times> call_result) \<Rightarrow> stream_event list \<Rightarrow> string option \<Rightarrow> 'w \<Rightarrow> history_item list \<Rightarrow>
     run_metrics \<Rightarrow> bool \<Rightarrow> 'w \<times> history_item list \<times> run_metrics \<times> bool \<times> call_error option" where
  "handleResponseStream exec [] None w h m needs = (w, h, m, needs, None)"
| "handleResponseStream exec [] (Some err) w h m needs = (w, h, m, needs, Some (CallErr err))"
| "handleResponseStream exec (StreamEventMessage t # es) ending w h m needs =
     handleResponseStream exec es ending w (h @ [text_item ''assistant'' t]) m needs"
| "handleResponseStream exec (StreamEventToolCall c # es) ending w h m needs =
     (let c = call_id h c; (w', result) = exec w c in
      handleResponseStream exec es ending w'
        (h @ [\<lparr>hiRole = ''assistant'', hiContent = ToolCallContent c\<rparr>,
              \<lparr>hiRole = ''tool'', hiContent = ToolOutputContent \<lparr>toToolCallID = tcID c, toResult = result\<rparr>\<rparr>])
        (count_tool (tcName c) m) True)"
| "handleResponseStream exec (StreamEventOther n # es) ending w h m needs =
     (w, h, m, needs, Some (CallErr (''unknown stream event type: '' @ show_int n)))"

section \<open>The loop\<close>

record 'w call_state =
  ctWorld :: 'w
  ctHistory :: "history_item list"
  ctMetrics :: run_metrics
  ctHookInput :: "call_input option"

datatype loop_step = Continue | Stop "call_error option"

text \<open>The compaction at the head of an iteration.\<close>

definition compact_step ::
    "'w agent_env \<Rightarrow> run_options \<Rightarrow> 'w call_state \<Rightarrow> 'w call_state \<times> call_error option" where
  "compact_step E opts s =
     (case roTokenCounter opts of
        None \<Rightarrow> (s, None)
      | Some f \<Rightarrow>
         (case CompactHistory (aeMarshal E) (aeStream E) (ctWorld s) (ctHistory s) (Some f) (roCompaction opts) of
            (w, Inr err) \<Rightarrow> (s\<lparr>ctWorld := w\<rparr>, Some (CallErr err))
          | (w, Inl None) \<Rightarrow> (s\<lparr>ctWorld := w\<rparr>, None)
          | (w, Inl (Some (compacted, stats))) \<Rightarrow>
              (s\<lparr>ctWorld := w, ctHistory := compacted,
                 ctMetrics := (ctMetrics s)\<lparr>meCompactions := meCompactions (ctMetrics s) + 1,
                                            meLastSummaryTokens := csSummaryTokens stats\<rparr>\<rparr>, None)))"

text \<open>The hooks, before the first prompt only.\<close>

definition hooks_step ::
    "'w agent_env \<Rightarrow> turn_context \<Rightarrow> run_options \<Rightarrow> 'w call_hook list \<Rightarrow> prompt \<Rightarrow> 'w call_state \<Rightarrow>
     'w call_state \<times> call_error option" where
  "hooks_step E ctx opts hooks p s =
     (if ctHookInput s \<noteq> None then (s, None)
      else
        let input = \<lparr>ciPrompt = p, ciToolDefs = txTools ctx, ciLimits = roLimits opts\<rparr> in
        (case callBeforeHooks hooks input (ctWorld s) of
           (w, Some err) \<Rightarrow> (s\<lparr>ctWorld := w\<rparr>, Some err)
         | (w, None) \<Rightarrow> (s\<lparr>ctWorld := w, ctHookInput := Some input\<rparr>, None)))"

text \<open>The prompt of an iteration and its answer.\<close>

definition stream_step ::
    "'w agent_env \<Rightarrow> prompt \<Rightarrow> 'w call_state \<Rightarrow> 'w call_state \<times> loop_step" where
  "stream_step E p s =
     (case aeStream E (ctWorld s) p of
        (w, Inr err) \<Rightarrow> (s\<lparr>ctWorld := w\<rparr>, Stop (Some (CallErr err)))
      | (w, Inl (events, ending)) \<Rightarrow>
          let m = (ctMetrics s)\<lparr>meSteps := meSteps (ctMetrics s) + 1\<rparr>;
              (w', h, m', needs, err) =
                handleResponseStream (aeExecute E) events ending w (ctHistory s) m False;
              s' = s\<lparr>ctWorld := w', ctHistory := h, ctMetrics := m'\<rparr>
          in (s', if err \<noteq> None then Stop err else if needs then Continue else Stop None))"

definition call_iteration ::
    "'w agent_env \<Rightarrow> turn_context \<Rightarrow> run_options \<Rightarrow> 'w call_hook list \<Rightarrow> 'w call_state \<Rightarrow>
     'w call_state \<times> loop_step" where
  "call_iteration E ctx opts hooks s =
     (case compact_step E opts s of
        (s1, Some err) \<Rightarrow> (s1, Stop (Some err))
      | (s1, None) \<Rightarrow>
          let (w, exceeded) = exceededLimits E (roLimits opts) (roTokenCounter opts) (ctHistory s1)
                                (meSteps (ctMetrics s1)) (ctWorld s1);
              s2 = s1\<lparr>ctWorld := w\<rparr>
          in if exceeded then (s2, Stop (Some ErrBudgetExceeded))
             else
               let p = BuildPrompt ctx (ctHistory s2) in
               (case hooks_step E ctx opts hooks p s2 of
                  (s3, Some err) \<Rightarrow> (s3, Stop (Some err))
                | (s3, None) \<Rightarrow> stream_step E p s3))"

partial_function (option) call_loop ::
    "'w agent_env \<Rightarrow> turn_context \<Rightarrow> run_options \<Rightarrow> 'w call_hook list \<Rightarrow> 'w call_state \<Rightarrow>
     ('w call_state \<times> call_error option) option" where
  "call_loop E ctx opts hooks s =
     (case call_iteration E ctx opts hooks s of
        (s', Continue) \<Rightarrow> call_loop E ctx opts hooks s'
      | (s', Stop err) \<Rightarrow> Some (s', err))"

definition zero_metrics :: run_metrics where
  "zero_metrics = \<lparr>meToolCalls = Map.empty, meWallTime = 0, meTokens = 0, meSteps = 0,
                   meCompactions = 0, meLastSummaryTokens = 0\<rparr>"

definition call_start :: "'w \<Rightarrow> session \<Rightarrow> string \<Rightarrow> 'w call_state" where
  "call_start w session userText =
     \<lparr>ctWorld = w, ctHistory = snHistory session @ [text_item ''user'' userText],
      ctMetrics = zero_metrics, ctHookInput = None\<rparr>"

text \<open>\<open>RunCall\<close>: the world, the session, the result and the error.\<close>

definition RunCall ::
    "'w agent_env \<Rightarrow> session \<Rightarrow> string \<Rightarrow> run_options \<Rightarrow> 'w call_hook list \<Rightarrow> 'w \<Rightarrow>
     ('w \<times> session \<times> agent_result \<times> call_error option) option" where
  "RunCall E session userText opts hooks w =
     (case call_loop E (snCtx session) opts hooks (call_start w session userText) of
        None \<Rightarrow> None
      | Some (s, err) \<Rightarrow>
          let (w1, m) = finalizeMetrics E opts (ctHistory s) (ctMetrics s) (ctWorld s);
              result = \<lparr>arOutput = latestAssistantMessage (ctHistory s), arMetrics = m,
                        arFailureReason = failureReasonForError err\<rparr>;
              w2 = (case ctHookInput s of None \<Rightarrow> w1 | Some input \<Rightarrow> callAfterHooks hooks input result w1)
          in Some (w2, session\<lparr>snHistory := ctHistory s\<rparr>, result, err))"

end
