(* ===== verification/Agent_Segments.thy ===== *)
theory Agent_Segments
  imports Agent_Call
begin

text \<open>
  What compaction keeps of each kind: the user messages and the tool items that are kept are final
  segments of those the history has, the environment item is the last one.
\<close>

section \<open>Final segments\<close>

lemma kept_segment:
  assumes "length keep = length xs" "\<And>i. i < length xs \<Longrightarrow> P (xs ! i) \<Longrightarrow> keep ! i \<longleftrightarrow> m \<le> i"
  shows "filter P (kept_items xs keep) = filter P (drop m xs)"
  using assms
proof (induction keep xs arbitrary: m rule: list_induct2)
  case (Cons k ks x xs)
  have IH: "filter P (kept_items xs ks) = filter P (drop (m - 1) xs)"
  proof (rule Cons.IH)
    fix i assume "i < length xs" "P (xs ! i)"
    then show "ks ! i \<longleftrightarrow> m - 1 \<le> i" using Cons.prems[of "Suc i"] by auto
  qed
  show ?case using IH Cons.prems[of 0] by (cases m) auto
qed simp

lemma suffix_filter_drop: "suffix (filter P (drop m xs)) (filter P xs)"
  by (metis append_take_drop_id filter_append suffixI)

lemma indices_down_Suc: "indices_down (Suc n) = n # indices_down n"
  by (simp add: indices_down_def)

lemma user_scan_segment:
  fixes lu :: "nat option"
  assumes "n \<le> length keep" "\<And>i. i < n \<Longrightarrow> \<not> keep ! i"
  shows "\<exists>m. (\<forall>i < length keep. fst (user_scan h t b (indices_down n) keep used lu) ! i \<longleftrightarrow>
     keep ! i \<or> (m \<le> i \<and> i < n \<and> isUserMessage (h ! i)))"
  using assms
proof (induction n arbitrary: keep used lu)
  case 0
  then show ?case by (simp add: indices_down_def)
next
  case (Suc n)
  have n: "n \<le> length keep" "n < length keep" using Suc.prems(1) by auto
  have k: "\<And>i. i < n \<Longrightarrow> \<not> keep ! i" using Suc.prems(2) by simp
  let ?rest = "\<lambda>k u l. fst (user_scan h t b (indices_down n) k u l)"
  consider (no) "\<not> isUserMessage (h ! n)" | (stop) "isUserMessage (h ! n)" "b > 0 \<and> used + t (h ! n) > b \<and> used > 0"
    | (go) "isUserMessage (h ! n)" "\<not> (b > 0 \<and> used + t (h ! n) > b \<and> used > 0)" by blast
  then show ?case
  proof cases
    case no
    obtain m where "\<forall>i < length keep. ?rest keep used lu ! i \<longleftrightarrow> keep ! i \<or> (m \<le> i \<and> i < n \<and> isUserMessage (h ! i))"
      using Suc.IH[OF n(1) k] by blast
    then show ?thesis using no by (intro exI[of _ m]) (auto simp: indices_down_Suc less_Suc_eq)
  next
    case stop
    then show ?thesis by (intro exI[of _ "Suc n"]) (auto simp: indices_down_Suc)
  next
    case go
    let ?k = "keep[n := True]"
    obtain m where m: "\<forall>i < length ?k. ?rest ?k (used + t (h ! n)) (if lu = None then Some n else lu) ! i \<longleftrightarrow>
        ?k ! i \<or> (m \<le> i \<and> i < n \<and> isUserMessage (h ! i))"
      using Suc.IH[of ?k "used + t (h ! n)" "if lu = None then Some n else lu"] n Suc.prems(2)
      by (auto simp: nth_flag_set)
    have "user_scan h t b (indices_down (Suc n)) keep used lu =
        user_scan h t b (indices_down n) ?k (used + t (h ! n)) (if lu = None then Some n else lu)"
      using go by (auto simp: indices_down_Suc Let_def)
    then show ?thesis
      using m go(1) n(2) by (intro exI[of _ "min m n"]) (auto simp: nth_flag_set less_Suc_eq min_def)
  qed
qed

lemma tool_scan_segment:
  assumes "n \<le> length keep" "\<And>i. i < n \<Longrightarrow> \<not> keep ! i"
  shows "\<exists>m. (\<forall>i < length keep. tool_scan h limit (indices_down n) keep c ! i \<longleftrightarrow>
       keep ! i \<or> (m \<le> i \<and> i < n \<and> hiRole (h ! i) = ''tool'')) \<and>
     length (filter (\<lambda>i. m \<le> i \<and> hiRole (h ! i) = ''tool'') [0..<n]) =
       min (nat (limit - c)) (length (filter (\<lambda>i. hiRole (h ! i) = ''tool'') [0..<n]))"
  using assms
proof (induction n arbitrary: keep c)
  case 0
  then show ?case by (simp add: indices_down_def)
next
  case (Suc n)
  have n: "n \<le> length keep" "n < length keep" using Suc.prems(1) by auto
  have k: "\<And>i. i < n \<Longrightarrow> \<not> keep ! i" using Suc.prems(2) by simp
  let ?tool = "\<lambda>i. hiRole (h ! i) = ''tool''"
  consider (stop) "c \<ge> limit" | (no) "c < limit" "\<not> ?tool n" | (go) "c < limit" "?tool n" by linarith
  then show ?case
  proof cases
    case stop
    have "filter (\<lambda>i. Suc n \<le> i \<and> ?tool i) [0..<Suc n] = []" by (auto simp: filter_empty_conv)
    then show ?thesis using stop by (intro exI[of _ "Suc n"]) (auto simp: indices_down_Suc)
  next
    case no
    obtain m where "\<forall>i < length keep. tool_scan h limit (indices_down n) keep c ! i \<longleftrightarrow>
          keep ! i \<or> (m \<le> i \<and> i < n \<and> ?tool i)"
      "length (filter (\<lambda>i. m \<le> i \<and> ?tool i) [0..<n]) = min (nat (limit - c)) (length (filter ?tool [0..<n]))"
      using Suc.IH[OF n(1) k, of c] by blast
    then show ?thesis using no by (intro exI[of _ m]) (auto simp: indices_down_Suc less_Suc_eq)
  next
    case go
    let ?k = "keep[n := True]"
    obtain m where m: "\<forall>i < length ?k. tool_scan h limit (indices_down n) ?k (c + 1) ! i \<longleftrightarrow>
          ?k ! i \<or> (m \<le> i \<and> i < n \<and> ?tool i)"
      "length (filter (\<lambda>i. m \<le> i \<and> ?tool i) [0..<n]) = min (nat (limit - (c + 1))) (length (filter ?tool [0..<n]))"
      using Suc.IH[of ?k "c + 1"] n Suc.prems(2) by (auto simp: nth_flag_set)
    have step: "tool_scan h limit (indices_down (Suc n)) keep c = tool_scan h limit (indices_down n) ?k (c + 1)"
      using go by (simp add: indices_down_Suc)
    have same: "filter (\<lambda>i. min m n \<le> i \<and> ?tool i) [0..<n] = filter (\<lambda>i. m \<le> i \<and> ?tool i) [0..<n]"
      by (rule filter_cong) (auto simp: min_def)
    have "nat (limit - c) = Suc (nat (limit - (c + 1)))" using go(1) by linarith
    then have len: "length (filter (\<lambda>i. min m n \<le> i \<and> ?tool i) [0..<Suc n]) =
        min (nat (limit - c)) (length (filter ?tool [0..<Suc n]))"
      using m(2) go(2) same by simp
    show ?thesis
      unfolding step using m(1) go(2) n(2) len
      by (intro exI[of _ "min m n"] conjI) (auto simp: nth_flag_set less_Suc_eq min_def)
  qed
qed

lemma filter_nth_upt: "filter P xs = map (nth xs) (filter (\<lambda>i. P (xs ! i)) [0..<length xs])"
  by (subst (1) map_nth[of xs, symmetric]) (simp add: filter_map comp_def del: map_nth)

lemma filter_drop_upt:
  "length (filter P (drop m xs)) = length (filter (\<lambda>i. m \<le> i \<and> P (xs ! i)) [0..<length xs])"
proof (cases "m \<le> length xs")
  case True
  have "[0..<length xs] = [0..<m] @ [m..<length xs]" using True upt_add_eq_append[of 0 m "length xs - m"] by simp
  moreover have "filter (\<lambda>i. m \<le> i \<and> P (xs ! i)) [0..<m] = []" by (auto simp: filter_empty_conv)
  moreover have "filter (\<lambda>i. m \<le> i \<and> P (xs ! i)) [m..<length xs] = filter (\<lambda>i. P (xs ! i)) [m..<length xs]"
    by (rule filter_cong) auto
  moreover have "drop m xs = map (nth xs) [m..<length xs]"
    using True by (simp add: list_eq_iff_nth_eq)
  ultimately show ?thesis by (simp add: filter_map comp_def)
next
  case False
  then have "filter (\<lambda>i. m \<le> i \<and> P (xs ! i)) [0..<length xs] = []" by (auto simp: filter_empty_conv)
  then show ?thesis using False by simp
qed

section \<open>What is kept\<close>

definition user_flags ::
    "marshal_args \<Rightarrow> history_item list \<Rightarrow> (history_item list \<Rightarrow> go_int) option \<Rightarrow> compaction_config \<Rightarrow> bool list" where
  "user_flags marshal h counter cfg =
     fst (selectRecentUserMessages marshal h counter (ccRecentUserTokenBudget cfg))"

lemma call_of_output_content:
  "call_of_output h keep j = Some i \<Longrightarrow> \<exists>call. hiContent (h ! i) = ToolCallContent call"
  by (auto simp: call_of_output_def findToolCallIndex_Some split: if_splits history_content.splits)

lemma text_prefixed_text: "text_prefixed p item \<Longrightarrow> \<exists>text. hiContent item = HistoryText text \<and> prefix p text"
  by (auto simp: text_prefixed_def historyText_def split: history_content.splits)

lemma environment_not_instructions: "isEnvironmentItem item \<Longrightarrow> \<not> isUserInstructions item"
  by (auto simp: isEnvironmentItem_def isUserInstructions_def dest!: text_prefixed_text elim!: prefixE)

text \<open>A well-paired history has tool calls of the assistant only, and only outputs are the tool's.\<close>

lemma well_paired_roles:
  assumes "well_paired h" "i < length h"
  shows "hiRole (h ! i) = ''tool'' \<longleftrightarrow> (\<exists>out. hiContent (h ! i) = ToolOutputContent out)"
    and "hiContent (h ! i) = ToolCallContent call \<Longrightarrow> hiRole (h ! i) = ''assistant''"
proof -
  show "hiContent (h ! i) = ToolCallContent call \<Longrightarrow> hiRole (h ! i) = ''assistant''"
    using well_paired_call[OF assms] by blast
  show "hiRole (h ! i) = ''tool'' \<longleftrightarrow> (\<exists>out. hiContent (h ! i) = ToolOutputContent out)"
  proof
    assume r: "hiRole (h ! i) = ''tool''"
    show "\<exists>out. hiContent (h ! i) = ToolOutputContent out"
      using assms r
    proof (induction arbitrary: i rule: well_paired_induct)
      case (message role t xs)
      then show ?case by (cases i) auto
    next
      case (pair call out xs)
      then show ?case by (cases i; cases "i - 1") auto
    qed simp
  qed (use well_paired_output[OF assms] in blast)
qed

lemma keep_instructions:
  "i < length h \<Longrightarrow> isDeveloperInstructions (h ! i) \<or> isUserInstructions (h ! i) \<Longrightarrow>
   keep_flags marshal h counter cfg ! i"
  by (auto simp: keep_flags_nth)

lemma keep_environment:
  assumes "well_paired h" "i < length h" "isEnvironmentItem (h ! i)"
  shows "keep_flags marshal h counter cfg ! i \<longleftrightarrow> lastEnvironmentIndex h = Some i"
  using assms user_keep_user[OF _ assms(2)] kept_tools_role[OF assms(2), of marshal counter cfg]
    environment_not_instructions[OF assms(3)]
  by (auto simp: keep_flags_nth isEnvironmentItem_def isUserMessage_def isDeveloperInstructions_def
      dest!: call_of_output_content text_prefixed_text)

lemma keep_user:
  assumes "i < length h" "isUserMessage (h ! i)" "well_paired h"
  shows "keep_flags marshal h counter cfg ! i \<longleftrightarrow> user_flags marshal h counter cfg ! i"
proof -
  have "lastEnvironmentIndex h \<noteq> Some i"
    using assms(2) by (auto simp: lastEnvironmentIndex_def find_down_Some isUserMessage_def)
  moreover have "\<not> kept_tools marshal h counter cfg ! i"
    using kept_tools_role[OF assms(1)] assms(2) by (auto simp: isUserMessage_def)
  moreover have "call_of_output h (kept_tools marshal h counter cfg) j \<noteq> Some i" for j
    using call_of_output_content[of h _ j i] well_paired_call[OF assms(3,1)] assms(2)
    by (auto simp: isUserMessage_def)
  ultimately show ?thesis
    using assms by (auto simp: keep_flags_nth user_flags_def isUserMessage_def isDeveloperInstructions_def)
qed

lemma keep_tool:
  assumes "i < length h" "hiRole (h ! i) = ''tool''" "well_paired h"
  shows "keep_flags marshal h counter cfg ! i \<longleftrightarrow> kept_tools marshal h counter cfg ! i"
proof -
  have "lastEnvironmentIndex h \<noteq> Some i"
    using assms(2) by (auto simp: lastEnvironmentIndex_def find_down_Some isEnvironmentItem_def)
  moreover have "call_of_output h (kept_tools marshal h counter cfg) j \<noteq> Some i" for j
    using call_of_output_content[of h _ j i] well_paired_call[OF assms(3,1)] assms(2) by auto
  moreover have "\<not> fst (selectRecentUserMessages marshal h counter b) ! i" for b
    using user_keep_user[OF _ assms(1)] assms(2) by (auto simp: isUserMessage_def)
  ultimately show ?thesis
    using assms by (auto simp: keep_flags_nth isDeveloperInstructions_def isUserInstructions_def)
qed

lemma kept_users:
  fixes cfg :: compaction_config and counter :: "(history_item list \<Rightarrow> go_int) option" and marshal :: marshal_args
  assumes "well_paired h"
  defines "kept \<equiv> kept_items h (keep_flags marshal h counter cfg)"
  shows "suffix (filter isUserMessage kept) (filter isUserMessage h) \<and>
     (filter isUserMessage kept = [] \<longrightarrow> filter isUserMessage h = [])"
proof -
  obtain m where m: "\<forall>i < length h. user_flags marshal h counter cfg ! i \<longleftrightarrow> m \<le> i \<and> isUserMessage (h ! i)"
    using user_scan_segment[of "length h" "no_keep h" h "countTokens marshal counter" "ccRecentUserTokenBudget cfg" 0 None]
    by (auto simp: user_flags_def selectRecentUserMessages_eq)
  have k: "filter isUserMessage kept = filter isUserMessage (drop m h)"
    unfolding kept_def by (rule kept_segment) (auto simp: keep_user assms(1) m)
  have "filter isUserMessage h = []" if e: "filter isUserMessage (drop m h) = []"
  proof (rule ccontr)
    assume "filter isUserMessage h \<noteq> []"
    then have "\<exists>i < length h. isUserMessage (h ! i)" by (auto simp: filter_empty_conv in_set_conv_nth)
    then obtain u where u: "find (\<lambda>i. isUserMessage (h ! i)) (indices_down (length h)) = Some u"
      using find_down_None[of "\<lambda>i. isUserMessage (h ! i)" "length h"] by auto
    then have "u < length h" by (simp add: find_down_Some)
    moreover have "user_flags marshal h counter cfg ! u"
      using user_scan_first[OF u, of "no_keep h"] by (simp add: user_flags_def selectRecentUserMessages_eq)
    ultimately have "m \<le> u" "isUserMessage (h ! u)" using m by auto
    then have "h ! u \<in> set (drop m h)" using \<open>u < length h\<close> by (auto simp: in_set_conv_nth intro!: exI[of _ "u - m"])
    with e \<open>isUserMessage (h ! u)\<close> show False by (auto simp: filter_empty_conv)
  qed
  with k show ?thesis by (auto simp: suffix_filter_drop)
qed

lemma kept_environment:
  assumes "well_paired h"
  shows "filter isEnvironmentItem (kept_items h (keep_flags marshal h counter cfg)) =
     (if filter isEnvironmentItem h = [] then [] else [last (filter isEnvironmentItem h)])"
proof (cases "lastEnvironmentIndex h")
  case None
  then have n: "\<not> isEnvironmentItem x" if "x \<in> set h" for x
    using that unfolding lastEnvironmentIndex_def find_down_None by (auto simp: in_set_conv_nth)
  moreover from this have "\<not> isEnvironmentItem x" if "x \<in> set (kept_items h (keep_flags marshal h counter cfg))" for x
    using kept_set that by blast
  ultimately show ?thesis by (auto simp: filter_empty_conv)
next
  case (Some e)
  then have e: "e < length h" "isEnvironmentItem (h ! e)" "\<And>j. e < j \<Longrightarrow> j < length h \<Longrightarrow> \<not> isEnvironmentItem (h ! j)"
    by (auto simp: lastEnvironmentIndex_def find_down_Some)
  have "\<not> isEnvironmentItem x" if x: "x \<in> set (drop (Suc e) h)" for x
  proof -
    obtain j where "j < length h - Suc e" "x = h ! (Suc e + j)" using x by (auto simp: in_set_conv_nth)
    then show ?thesis using e(3)[of "Suc e + j"] by simp
  qed
  then have tail: "filter isEnvironmentItem (drop (Suc e) h) = []" by (auto simp: filter_empty_conv)
  have "filter isEnvironmentItem (kept_items h (keep_flags marshal h counter cfg)) =
      filter isEnvironmentItem (drop e h)"
  proof (rule kept_segment)
    fix i assume "i < length h" "isEnvironmentItem (h ! i)"
    then show "keep_flags marshal h counter cfg ! i \<longleftrightarrow> e \<le> i"
      using keep_environment[OF assms] Some e(3)[of i] by (metis le_neq_implies_less option.inject order_refl)
  qed simp
  also have "drop e h = h ! e # drop (Suc e) h" using e(1) by (rule Cons_nth_drop_Suc[symmetric])
  finally have k: "filter isEnvironmentItem (kept_items h (keep_flags marshal h counter cfg)) = [h ! e]"
    using tail e(2) by simp
  have "filter isEnvironmentItem h = filter isEnvironmentItem (take e h) @ [h ! e]"
    using id_take_nth_drop[OF e(1)] tail e(2) by (metis filter.simps(2) filter_append)
  with k show ?thesis by simp
qed

lemma kept_tool_items:
  fixes cfg :: compaction_config and counter :: "(history_item list \<Rightarrow> go_int) option" and marshal :: marshal_args
  assumes "well_paired h" "ccRecentToolOutputLimit cfg > 0"
  defines "tool \<equiv> \<lambda>item :: history_item. hiRole item = ''tool''"
  defines "kept \<equiv> filter tool (kept_items h (keep_flags marshal h counter cfg))"
  shows "suffix kept (filter tool h) \<and>
     length kept = min (nat (ccRecentToolOutputLimit cfg)) (length (filter tool h))"
proof -
  obtain m where m: "\<forall>i < length h. kept_tools marshal h counter cfg ! i \<longleftrightarrow> m \<le> i \<and> tool (h ! i)"
    "length (filter (\<lambda>i. m \<le> i \<and> tool (h ! i)) [0..<length h]) =
       min (nat (ccRecentToolOutputLimit cfg)) (length (filter (\<lambda>i. tool (h ! i)) [0..<length h]))"
    using tool_scan_segment[of "length h" "no_keep h" h "ccRecentToolOutputLimit cfg" 0] assms(2)
    by (auto simp: kept_tools_def selectToolOutputs_def tool_def)
  have "kept = filter tool (drop m h)"
    unfolding kept_def by (rule kept_segment) (use m(1) keep_tool[OF _ _ assms(1)] in \<open>auto simp: tool_def\<close>)
  moreover have "length (filter tool (drop m h)) = min (nat (ccRecentToolOutputLimit cfg)) (length (filter tool h))"
    using m(2) filter_drop_upt[of tool m h] filter_drop_upt[of tool 0 h] by simp
  ultimately show ?thesis by (simp add: suffix_filter_drop)
qed

end
