(* ===== verification/Agent_Run.thy ===== *)
theory Agent_Run
  imports Agent_Segments
begin

text \<open>
  Facts on a call of the agent: one iteration keeps the history well paired and counts its steps;
  with a step limit the loop ends.  \<open>observed\<close> wraps a world so that it records the prompts.
\<close>

section \<open>One iteration\<close>

text \<open>The history only grows, stays well paired, and the steps stay as they are.\<close>

lemma handleResponseStream_facts:
  assumes "handleResponseStream exec es ending w h m needs = (w', h', m', needs', err)"
  shows "(well_paired h \<longrightarrow> well_paired h') \<and> meSteps m' = meSteps m \<and> prefix h h'"
  using assms
proof (induction es arbitrary: w h m needs)
  case Nil
  then show ?case by (cases ending) auto
next
  case (Cons e es)
  show ?case
  proof (cases e)
    case (StreamEventMessage t)
    then show ?thesis
      using Cons.IH[of w "h @ [text_item ''assistant'' t]" m needs] Cons.prems
      by (auto simp: well_paired_append dest: append_prefixD)
  next
    case (StreamEventToolCall c)
    obtain w1 result where ex: "exec w (call_id h c) = (w1, result)" by (rule prod.exhaust)
    let ?pair = "[\<lparr>hiRole = ''assistant'', hiContent = ToolCallContent (call_id h c)\<rparr>,
        \<lparr>hiRole = ''tool'', hiContent = ToolOutputContent \<lparr>toToolCallID = tcID (call_id h c), toResult = result\<rparr>\<rparr>]"
    have "well_paired ?pair" by (simp add: call_id_def output_of_def)
    then have "well_paired h \<Longrightarrow> well_paired (h @ ?pair)" by (rule well_paired_append[rotated])
    moreover have "handleResponseStream exec es ending w1 (h @ ?pair) (count_tool (tcName (call_id h c)) m) True =
        (w', h', m', needs', err)"
      using Cons.prems StreamEventToolCall ex by (simp add: Let_def)
    ultimately show ?thesis
      using Cons.IH[of w1 "h @ ?pair" "count_tool (tcName (call_id h c)) m" True]
      by (auto simp: count_tool_def dest: append_prefixD)
  next
    case (StreamEventOther n)
    then show ?thesis using Cons.prems by auto
  qed
qed

lemma compaction_paired:
  assumes "CompactHistory marshal P w h counter cfg = (w', Inl (Some (compacted, stats)))" "well_paired h"
  shows "well_paired compacted"
proof -
  note p = compaction_keeps_pairs[OF filterSummaryItems_paired[OF assms(2)]]
  have "well_paired [text_item ''assistant'' t]" for t by simp
  with p show ?thesis
    using assms(1)
    by (auto simp: CompactHistory_def Let_def intro!: well_paired_append split: option.splits if_splits prod.splits sum.splits)
qed

lemma compact_step_facts:
  assumes "compact_step E opts s = (s', err)"
  shows "meSteps (ctMetrics s') = meSteps (ctMetrics s) \<and> ctHookInput s' = ctHookInput s \<and>
     (well_paired (ctHistory s) \<longrightarrow> well_paired (ctHistory s'))"
  using assms
  by (auto simp: compact_step_def dest: compaction_paired split: option.splits prod.splits sum.splits)

lemma hooks_step_facts:
  "hooks_step E ctx opts hooks p s = (s', err) \<Longrightarrow> ctHistory s' = ctHistory s \<and> ctMetrics s' = ctMetrics s"
  by (auto simp: hooks_step_def Let_def split: if_splits prod.splits option.splits)

lemma stream_step_facts:
  assumes "stream_step E p s = (s', r)"
  shows "meSteps (ctMetrics s') \<in> {meSteps (ctMetrics s), meSteps (ctMetrics s) + 1} \<and>
     (r = Continue \<longrightarrow> meSteps (ctMetrics s') = meSteps (ctMetrics s) + 1) \<and>
     (well_paired (ctHistory s) \<longrightarrow> well_paired (ctHistory s'))"
  using assms
  by (auto simp: stream_step_def Let_def dest!: handleResponseStream_facts split: prod.splits sum.splits if_splits)

text \<open>An iteration adds at most one step, and only below the limit.\<close>

lemma call_iteration_facts:
  assumes "call_iteration E ctx opts hooks s = (s', r)"
  shows "meSteps (ctMetrics s') = meSteps (ctMetrics s) \<and> r \<noteq> Continue \<or>
       meSteps (ctMetrics s') = meSteps (ctMetrics s) + 1 \<and>
       (liMaxSteps (roLimits opts) > 0 \<longrightarrow> meSteps (ctMetrics s) < liMaxSteps (roLimits opts))"
    and "well_paired (ctHistory s) \<Longrightarrow> well_paired (ctHistory s')"
proof -
  obtain s1 e1 where s1: "compact_step E opts s = (s1, e1)" by (rule prod.exhaust)
  obtain w x where x: "exceededLimits E (roLimits opts) (roTokenCounter opts) (ctHistory s1)
      (meSteps (ctMetrics s1)) (ctWorld s1) = (w, x)" by (rule prod.exhaust)
  let ?s2 = "s1\<lparr>ctWorld := w\<rparr>"
  obtain s3 e3 where s3: "hooks_step E ctx opts hooks (BuildPrompt ctx (ctHistory s1)) ?s2 = (s3, e3)"
    by (rule prod.exhaust)
  obtain s4 r4 where s4: "stream_step E (BuildPrompt ctx (ctHistory s1)) s3 = (s4, r4)" by (rule prod.exhaust)
  have limit: "liMaxSteps (roLimits opts) > 0 \<longrightarrow> meSteps (ctMetrics s1) < liMaxSteps (roLimits opts)" if "\<not> x"
    using x that by (auto simp: exceededLimits_def Let_def split: if_splits prod.splits)
  have cases: "(s', r) = (case e1 of Some err \<Rightarrow> (s1, Stop (Some err)) | None \<Rightarrow>
      if x then (?s2, Stop (Some ErrBudgetExceeded))
      else case e3 of Some err \<Rightarrow> (s3, Stop (Some err)) | None \<Rightarrow> (s4, r4))"
    using assms s1 x s3 s4 by (auto simp: call_iteration_def Let_def split: option.splits)
  note F = compact_step_facts[OF s1] hooks_step_facts[OF s3] stream_step_facts[OF s4]
  show "meSteps (ctMetrics s') = meSteps (ctMetrics s) \<and> r \<noteq> Continue \<or>
      meSteps (ctMetrics s') = meSteps (ctMetrics s) + 1 \<and>
      (liMaxSteps (roLimits opts) > 0 \<longrightarrow> meSteps (ctMetrics s) < liMaxSteps (roLimits opts))"
    using F limit cases by (auto split: option.splits if_splits)
  show "well_paired (ctHistory s) \<Longrightarrow> well_paired (ctHistory s')"
    using F cases by (auto split: option.splits if_splits)
qed

section \<open>The loop\<close>

lemma call_loop_stop:
  "call_iteration E ctx opts hooks s = (s', Stop err) \<Longrightarrow> call_loop E ctx opts hooks s = Some (s', err)"
  and call_loop_continue:
  "call_iteration E ctx opts hooks s = (s', Continue) \<Longrightarrow> call_loop E ctx opts hooks s = call_loop E ctx opts hooks s'"
  by (subst call_loop.simps, simp)+

lemma call_loop_ends:
  assumes "liMaxSteps (roLimits opts) > 0" "meSteps (ctMetrics s) \<le> liMaxSteps (roLimits opts)"
  shows "\<exists>s' err. call_loop E ctx opts hooks s = Some (s', err) \<and>
     meSteps (ctMetrics s) \<le> meSteps (ctMetrics s') \<and> meSteps (ctMetrics s') \<le> liMaxSteps (roLimits opts)"
  using assms(2)
proof (induction "nat (liMaxSteps (roLimits opts) - meSteps (ctMetrics s))" arbitrary: s rule: less_induct)
  case less
  obtain s1 r where it: "call_iteration E ctx opts hooks s = (s1, r)" by (rule prod.exhaust)
  note F = call_iteration_facts(1)[OF it]
  show ?case
  proof (cases r)
    case Continue
    with F assms(1) have n: "meSteps (ctMetrics s1) = meSteps (ctMetrics s) + 1"
      "meSteps (ctMetrics s) < liMaxSteps (roLimits opts)" by auto
    then obtain s' err where "call_loop E ctx opts hooks s1 = Some (s', err)"
      "meSteps (ctMetrics s1) \<le> meSteps (ctMetrics s')" "meSteps (ctMetrics s') \<le> liMaxSteps (roLimits opts)"
      using less.hyps[of s1] by auto
    then show ?thesis using n call_loop_continue[of E ctx opts hooks s s1] it Continue by auto
  next
    case (Stop err)
    then show ?thesis
      using call_loop_stop[of E ctx opts hooks s s1 err] it F assms(1) less.prems by auto
  qed
qed

text \<open>What an iteration keeps, the loop keeps.\<close>

lemma call_loop_invariant:
  assumes "\<And>s s' r. I s \<Longrightarrow> call_iteration E ctx opts hooks s = (s', r) \<Longrightarrow> I s'"
    and "call_loop E ctx opts hooks s = Some (s', err)" "I s"
  shows "I s'"
proof -
  have "call_loop E' ctx' opts' hooks' s = Some r \<Longrightarrow>
      E' = E \<and> ctx' = ctx \<and> opts' = opts \<and> hooks' = hooks \<longrightarrow> I s \<longrightarrow> I (fst r)" for E' ctx' opts' hooks' s r
  proof (erule call_loop.raw_induct[rotated], intro impI)
    fix loop E' ctx' opts' hooks' s r
    assume IH: "\<And>E' ctx' opts' hooks' s r. loop E' ctx' opts' hooks' s = Some r \<Longrightarrow>
        E' = E \<and> ctx' = ctx \<and> opts' = opts \<and> hooks' = hooks \<longrightarrow> I s \<longrightarrow> I (fst r)"
      and run: "(case call_iteration E' ctx' opts' hooks' s of
          (s', Continue) \<Rightarrow> loop E' ctx' opts' hooks' s' | (s', Stop err) \<Rightarrow> Some (s', err)) = Some r"
      and eq: "E' = E \<and> ctx' = ctx \<and> opts' = opts \<and> hooks' = hooks" "I s"
    obtain s1 step where it: "call_iteration E ctx opts hooks s = (s1, step)" by (rule prod.exhaust)
    then have "I s1" using assms(1) eq(2) by blast
    then show "I (fst r)" using run it eq IH[of E ctx opts hooks s1 r] by (cases step) auto
  qed
  with assms(2,3) show ?thesis by force
qed

lemma call_loop_paired:
  assumes "call_loop E ctx opts hooks s = Some (s', err)" "well_paired (ctHistory s)"
  shows "well_paired (ctHistory s')"
  using assms
  by (rule call_loop_invariant[where I = "\<lambda>s. well_paired (ctHistory s)", rotated])
     (rule call_iteration_facts(2))

section \<open>Recording the prompts\<close>

definition recorded :: "'w provider \<Rightarrow> ('w \<times> prompt list) provider" where
  "recorded P = (\<lambda>(w, seen) p. case P w p of (w', r) \<Rightarrow> ((w', seen @ [p]), r))"

definition observed :: "'w agent_env \<Rightarrow> ('w \<times> prompt list) agent_env" where
  "observed E =
     \<lparr>aeMarshal = aeMarshal E, aeStream = recorded (aeStream E),
      aeExecute = (\<lambda>(w, seen) c. case aeExecute E w c of (w', r) \<Rightarrow> ((w', seen), r)),
      aeElapsed = (\<lambda>(w, seen). case aeElapsed E w of (w', d) \<Rightarrow> ((w', seen), d))\<rparr>"

text \<open>
  The prompts of a call: those of the turn, built from a well-paired history, and those of a
  summary, whose items are what is left of a well-paired list when its oldest items are dropped.
\<close>

definition turn_prompt :: "turn_context \<Rightarrow> prompt \<Rightarrow> bool" where
  "turn_prompt ctx p \<longleftrightarrow> well_paired (prInputItems p) \<and> p = BuildPrompt ctx (prInputItems p)"

definition summary_prompt :: "prompt \<Rightarrow> bool" where
  "summary_prompt p \<longleftrightarrow> prTools p = [] \<and> (\<exists>older. well_paired (older @ prInputItems p))"

lemma trim_oldest_suffix: "suffix (trim_oldest estimate limit xs) xs"
  by (induction xs) (auto intro: suffix_ConsI)

lemma collectSummaryItems_kept:
  "collectSummaryItems h keep = kept_items h (map Not keep)"
  by (induction h keep rule: list_induct2') (auto simp: collectSummaryItems_def)

lemma summary_items_paired:
  assumes "well_paired h"
  shows "well_paired (collectSummaryItems h (keep_flags marshal h counter cfg))"
  unfolding collectSummaryItems_kept
proof (rule well_paired_kept[OF assms])
  fix i call assume "i < length h" "hiContent (h ! i) = ToolCallContent call"
  then show "map Not (keep_flags marshal h counter cfg) ! i \<longleftrightarrow> map Not (keep_flags marshal h counter cfg) ! Suc i"
    using keep_call_iff_output[OF assms] well_paired_call[OF assms] by auto
qed simp

lemma summary_prompts_seen:
  assumes "SummarizeHistory marshal (recorded P) (w, seen) items prompt counter limit = ((w', seen'), r)"
    and "well_paired items"
  shows "\<exists>ps. seen' = seen @ ps \<and> (\<forall>p \<in> set ps. summary_prompt p)"
proof -
  have older: "\<exists>older. well_paired (older @ trimSummaryItems marshal items p counter limit)" for p
  proof -
    have "suffix (trimSummaryItems marshal items p counter limit) items"
      by (simp add: trimSummaryItems_def trim_oldest_suffix)
    then obtain older where "items = older @ trimSummaryItems marshal items p counter limit" by (rule suffixE)
    then show ?thesis using assms(2) by metis
  qed
  show ?thesis
    using assms(1) older
    by (auto simp: SummarizeHistory_def Let_def recorded_def summary_prompt_def
        split: if_splits prod.splits sum.splits)
qed

lemma compaction_prompts_seen:
  assumes "CompactHistory marshal (recorded P) (w, seen) h counter cfg = ((w', seen'), r)" "well_paired h"
  shows "\<exists>ps. seen' = seen @ ps \<and> (\<forall>p \<in> set ps. summary_prompt p)"
proof -
  let ?cfg = "NormalizeCompactionConfig cfg" and ?old = "filterSummaryItems h"
  let ?items = "collectSummaryItems ?old (keep_flags marshal ?old counter ?cfg)"
  obtain w2 seen2 r2 where s: "SummarizeHistory marshal (recorded P) (w, seen) ?items (ccSummaryPrompt ?cfg) counter
      (ccHardLimit ?cfg) = ((w2, seen2), r2)" by (metis prod.exhaust)
  note S = summary_prompts_seen[OF s summary_items_paired[OF filterSummaryItems_paired[OF assms(2)]]]
  have "seen' = seen \<or> seen' = seen2"
    using assms(1) s unfolding CompactHistory_def Let_def
    by (auto split: option.splits if_splits sum.splits prod.splits)
  with S show ?thesis by auto
qed

definition observed_hook :: "'w call_hook \<Rightarrow> ('w \<times> prompt list) call_hook" where
  "observed_hook h =
     \<lparr>hkBefore = (\<lambda>(w, seen) input. case hkBefore h w input of (w', e) \<Rightarrow> ((w', seen), e)),
      hkAfter = (\<lambda>(w, seen) input res. case hkAfter h w input res of (w', e) \<Rightarrow> ((w', seen), e))\<rparr>"

lemma observed_before_hooks:
  "callBeforeHooks (map observed_hook hooks) input (w, seen) = ((w', seen'), err) \<Longrightarrow> seen' = seen"
  by (induction hooks arbitrary: w) (auto simp: observed_hook_def split: prod.splits option.splits)

lemma observed_after_hooks: "snd (callAfterHooks (map observed_hook hooks) input res (w, seen)) = seen"
  by (induction hooks arbitrary: w)
     (auto simp: callAfterHooks_def observed_hook_def split: prod.splits)

lemma observed_sel [simp]:
  "aeMarshal (observed E) = aeMarshal E" "aeStream (observed E) = recorded (aeStream E)"
  by (simp_all add: observed_def)

lemma observed_elapsed: "aeElapsed (observed E) (w, seen) = ((w', seen'), d) \<Longrightarrow> seen' = seen"
  by (auto simp: observed_def split: prod.splits)

lemma observed_execute: "aeExecute (observed E) (w, seen) c = ((w', seen'), d) \<Longrightarrow> seen' = seen"
  by (auto simp: observed_def split: prod.splits)

lemma observed_stream:
  "handleResponseStream (aeExecute (observed E)) es ending (w, seen) h m needs = ((w', seen'), rest) \<Longrightarrow>
   seen' = seen"
proof (induction es arbitrary: w h m needs)
  case Nil
  then show ?case by (cases ending) auto
next
  case (Cons e es)
  show ?case
  proof (cases e)
    case (StreamEventToolCall c)
    obtain w1 seen1 result where ex: "aeExecute (observed E) (w, seen) (call_id h c) = ((w1, seen1), result)"
      by (metis prod.exhaust)
    then have "seen1 = seen" by (rule observed_execute)
    then show ?thesis using Cons.IH[of w1] Cons.prems StreamEventToolCall ex by (simp add: Let_def)
  qed (use Cons in auto)
qed

definition prompts_ok :: "turn_context \<Rightarrow> ('w \<times> prompt list) call_state \<Rightarrow> bool" where
  "prompts_ok ctx s \<longleftrightarrow>
     well_paired (ctHistory s) \<and>
     (\<forall>p \<in> set (snd (ctWorld s)). turn_prompt ctx p \<or> summary_prompt p)"

lemma compact_step_prompts:
  assumes "compact_step (observed E) opts s = (s', err)" "prompts_ok ctx s"
  shows "prompts_ok ctx s'"
proof (cases "roTokenCounter opts")
  case None
  then show ?thesis using assms by (simp add: compact_step_def)
next
  case (Some f)
  obtain w seen where w: "ctWorld s = (w, seen)" by (rule prod.exhaust)
  obtain w1 seen1 r where c: "CompactHistory (aeMarshal E) (recorded (aeStream E)) (w, seen) (ctHistory s) (Some f)
      (roCompaction opts) = ((w1, seen1), r)" by (metis prod.exhaust)
  have wp: "well_paired (ctHistory s)" using assms(2) by (simp add: prompts_ok_def)
  obtain ps where "seen1 = seen @ ps" "\<forall>p \<in> set ps. summary_prompt p"
    using compaction_prompts_seen[OF c wp] by blast
  moreover have "snd (ctWorld s') = seen1"
    using assms(1) Some w c by (auto simp: compact_step_def split: sum.splits option.splits prod.splits)
  moreover have "well_paired (ctHistory s')" using compact_step_facts[OF assms(1)] wp by blast
  ultimately show ?thesis using assms(2) w by (auto simp: prompts_ok_def)
qed

lemma call_iteration_prompts:
  assumes "call_iteration (observed E) ctx opts (map observed_hook hooks) s = (s', r)" "prompts_ok ctx s"
  shows "prompts_ok ctx s'"
proof -
  let ?hooks = "map observed_hook hooks"
  obtain s1 e1 where s1: "compact_step (observed E) opts s = (s1, e1)" by (rule prod.exhaust)
  note ok1 = compact_step_prompts[OF s1 assms(2)]
  obtain w1 seen1 where w1: "ctWorld s1 = (w1, seen1)" by (rule prod.exhaust)
  obtain w seen x where x: "exceededLimits (observed E) (roLimits opts) (roTokenCounter opts) (ctHistory s1)
      (meSteps (ctMetrics s1)) (ctWorld s1) = ((w, seen), x)" by (metis prod.exhaust)
  have "seen = seen1"
    using x w1 by (auto simp: exceededLimits_def Let_def dest: observed_elapsed split: if_splits prod.splits)
  then have ok2: "prompts_ok ctx (s1\<lparr>ctWorld := (w, seen)\<rparr>)" using ok1 w1 by (simp add: prompts_ok_def)
  let ?s2 = "s1\<lparr>ctWorld := (w, seen)\<rparr>" and ?p = "BuildPrompt ctx (ctHistory s1)"
  obtain s3 e3 where s3: "hooks_step (observed E) ctx opts ?hooks ?p ?s2 = (s3, e3)" by (rule prod.exhaust)
  have "snd (ctWorld s3) = seen" "ctHistory s3 = ctHistory s1"
    using s3 by (auto simp: hooks_step_def Let_def dest: observed_before_hooks split: if_splits prod.splits option.splits)
  then have ok3: "prompts_ok ctx s3" using ok2 by (simp add: prompts_ok_def)
  have ok4: "prompts_ok ctx s4" if s4: "stream_step (observed E) ?p s3 = (s4, r4)" for s4 r4
  proof -
    have wp: "well_paired (ctHistory s1)" using ok1 by (simp add: prompts_ok_def)
    have turn: "turn_prompt ctx ?p"
      using wp by (simp add: turn_prompt_def BuildPrompt_def Let_def)
    obtain w3 seen3 where w3: "ctWorld s3 = (w3, seen3)" by (rule prod.exhaust)
    obtain w4 a where a: "aeStream E w3 ?p = (w4, a)" by (rule prod.exhaust)
    have "snd (ctWorld s4) = seen3 @ [?p]"
      using s4 w3 a by (auto simp: stream_step_def recorded_def Let_def dest: observed_stream
          split: sum.splits prod.splits)
    moreover have "well_paired (ctHistory s4)"
      using stream_step_facts[OF s4] ok3 by (simp add: prompts_ok_def)
    ultimately show ?thesis using ok3 w3 turn by (auto simp: prompts_ok_def)
  qed
  obtain s4 r4 where s4: "stream_step (observed E) ?p s3 = (s4, r4)" by (rule prod.exhaust)
  have "(s', r) = (case e1 of Some err \<Rightarrow> (s1, Stop (Some err)) | None \<Rightarrow>
      if x then (?s2, Stop (Some ErrBudgetExceeded))
      else case e3 of Some err \<Rightarrow> (s3, Stop (Some err)) | None \<Rightarrow> (s4, r4))"
    using assms(1) s1 x s3 s4 by (auto simp: call_iteration_def Let_def split: option.splits)
  then show ?thesis using ok1 ok2 ok3 ok4[OF s4] by (auto split: option.splits if_splits)
qed

lemma call_loop_prompts:
  assumes "call_loop (observed E) ctx opts (map observed_hook hooks) s = Some (s', err)" "prompts_ok ctx s"
  shows "prompts_ok ctx s'"
  using assms by (rule call_loop_invariant[where I = "prompts_ok ctx", rotated]) (rule call_iteration_prompts)

lemma finalize_prompts:
  "snd (fst (finalizeMetrics (observed E) opts h m (w, seen))) = seen"
  by (auto simp: finalizeMetrics_def Let_def dest: observed_elapsed split: prod.splits)

lemma BuildInitialContext_paired: "well_paired (BuildInitialContext ctx)"
  by (simp add: BuildInitialContext_def)

end
