(* ===== verification/Agent_Theorems.thy ===== *)
theory Agent_Theorems
  imports Agent_Run
begin

text \<open>
  The properties of the agent, with an example world: a script of streamed answers, a tool that
  always answers \<open>ok\<close>, a clock that stands still, and a counter of four characters a token.
\<close>

section \<open>An example\<close>

definition ex_marshal :: marshal_args where "ex_marshal a = Inl ''{}''"

definition ex_result :: call_result where
  "ex_result = \<lparr>crTool = ''search'', crOutput = ''ok'', crOutputBytes = 2, crTruncated = False,
     crStartedAt = 0, crFinishedAt = 0, crDuration = 0, crError = []\<rparr>"

fun ex_stream :: "stream_event list list provider" where
  "ex_stream [] p = ([], Inr ''no streams configured'')"
| "ex_stream (es # script) p = (script, Inl (es, None))"

definition ex_env :: "stream_event list list agent_env" where
  "ex_env = \<lparr>aeMarshal = ex_marshal, aeStream = ex_stream, aeExecute = (\<lambda>w c. (w, ex_result)),
             aeElapsed = (\<lambda>w. (w, 0))\<rparr>"

definition ex_policy :: sandbox_policy where
  "ex_policy = \<lparr>spMode = [], spNetworkAccess = [], spWritableRoots = [], spShell = []\<rparr>"

definition ex_context :: turn_context where
  "ex_context = \<lparr>txModel = ''m'',
     txModelFamily = \<lparr>mfBaseInstructionsTemplate = ''base'', mfNeedsSpecialApplyPatchInstructions = False,
                      mfSupportsParallelToolCalls = False\<rparr>,
     txTools = [], txApprovalPolicy = [], txSandboxPolicy = ex_policy, txCWD = ''/repo'',
     txDeveloperInstructions = ''be brief'', txUserInstructions = [], txBaseInstructionsOverride = [],
     txOutputSchema = [], txFeatures = \<lparr>ffParallelTools = False, ffSkillsEnabled = False\<rparr>,
     txVerbose = False\<rparr>"

definition ex_session :: session where
  "ex_session = \<lparr>snCtx = ex_context, snHistory = BuildInitialContext ex_context\<rparr>"

definition ex_compaction :: compaction_config where
  "ex_compaction = \<lparr>ccSoftLimit = 5, ccHardLimit = 100, ccSummaryPrompt = ''sum up'',
     ccRecentUserTokenBudget = 2, ccRecentToolOutputLimit = 1\<rparr>"

definition ex_options :: run_options where
  "ex_options = \<lparr>roTokenCounter = Some (ApproxTokenCount ex_marshal), roCompaction = ex_compaction,
     roLimits = \<lparr>liMaxSteps = 4, liMaxSeconds = 0, liMaxTokens = 0\<rparr>\<rparr>"

definition ex_call :: "string \<Rightarrow> tool_call" where
  "ex_call i = \<lparr>tcID = i, tcName = ''search'', tcArgs = None\<rparr>"

definition ex_pair :: "string \<Rightarrow> history_item list" where
  "ex_pair i =
     [\<lparr>hiRole = ''assistant'', hiContent = ToolCallContent (ex_call i)\<rparr>,
      \<lparr>hiRole = ''tool'', hiContent = ToolOutputContent \<lparr>toToolCallID = i, toResult = ex_result\<rparr>\<rparr>]"

definition ex_history :: "history_item list" where
  "ex_history =
     [text_item ''developer'' ''be brief'', text_item ''user'' ''first question'',
      text_item ''assistant'' ''first answer''] @ ex_pair ''a'' @
     [text_item ''user'' ''second question''] @ ex_pair ''b''"

section \<open>Compaction\<close>



section \<open>Termination\<close>

text \<open>C36. A call of the agent with a step limit returns, whatever the provider, the tools, the
  hooks and the clock do: it takes at most as many model turns as the limit, and its failure reason
  says whether it succeeded, ran out of its budget or failed.\<close>

theorem agent_call_terminates:
  assumes "liMaxSteps (roLimits opts) > 0"
  shows "\<exists>w' session' result err. RunCall E session userText opts hooks w = Some (w', session', result, err) \<and>
     0 \<le> meSteps (arMetrics result) \<and> meSteps (arMetrics result) \<le> liMaxSteps (roLimits opts) \<and>
     arOutput result = latestAssistantMessage (snHistory session') \<and>
     arFailureReason result =
       (if err = None then '''' else if err = Some ErrBudgetExceeded then ''budget_exceeded'' else ''runtime_error'')"
proof -
  have "meSteps (ctMetrics (call_start w session userText)) = 0" by (simp add: call_start_def zero_metrics_def)
  then obtain s err where s: "call_loop E (snCtx session) opts hooks (call_start w session userText) = Some (s, err)"
    "0 \<le> meSteps (ctMetrics s)" "meSteps (ctMetrics s) \<le> liMaxSteps (roLimits opts)"
    using call_loop_ends[OF assms, of "call_start w session userText" E "snCtx session" hooks] assms by auto
  obtain w1 m where f: "finalizeMetrics E opts (ctHistory s) (ctMetrics s) (ctWorld s) = (w1, m)" by (rule prod.exhaust)
  then have m: "meSteps m = meSteps (ctMetrics s)"
    by (auto simp: finalizeMetrics_def Let_def split: prod.splits option.splits)
  have reason: "failureReasonForError err =
      (if err = None then '''' else if err = Some ErrBudgetExceeded then ''budget_exceeded'' else ''runtime_error'')"
    by (cases err) (auto simp: failureReasonForError_def split: call_error.splits)
  show ?thesis
    unfolding RunCall_def using s f m reason by (simp add: Let_def)
qed

theorem agent_call_terminates_witness:
  "\<exists>w' session' result err.
     RunCall ex_env ex_session ''q'' ex_options [] [[StreamEventToolCall (ex_call ''a'')]] =
       Some (w', session', result, err) \<and> meSteps (arMetrics result) \<le> 4"
proof -
  have l: "liMaxSteps (roLimits ex_options) > 0" "liMaxSteps (roLimits ex_options) = 4" by (simp_all add: ex_options_def)
  show ?thesis
    using agent_call_terminates[OF l(1), of ex_env ex_session "''q''" "[]" "[[StreamEventToolCall (ex_call ''a'')]]"] l(2)
    by auto
qed

section \<open>Prompts\<close>



end
