(* ===== verification/Agent_Findings.thy ===== *)
theory Agent_Findings
  imports Agent_Theorems
begin

text \<open>
  Behaviours of the agent that are easy to overlook, each shown on the model.
\<close>

section \<open>The output of a call that ran out of its budget\<close>

text \<open>
  A call that compacts its history and then exceeds a limit reports the summary as its output: the
  summary is the last text of the assistant in the history.
\<close>

lemma latestAssistantMessage_summary:
  "latestAssistantMessage (h @ [text_item ''assistant'' t]) = t"
  by (simp add: latestAssistantMessage_def historyText_def)

definition tight_options :: run_options where
  "tight_options = ex_options\<lparr>roLimits := \<lparr>liMaxSteps = 1, liMaxSeconds = 0, liMaxTokens = 0\<rparr>,
     roCompaction := ex_compaction\<lparr>ccSoftLimit := 65\<rparr>\<rparr>"

lemma summary_is_reported_as_output:
  "map_option (\<lambda>(w, s, result, err). (arOutput result, arFailureReason result))
     (case call_iteration ex_env ex_context tight_options []
        (call_start [[StreamEventMessage (replicate 40 CHR ''x''), StreamEventToolCall (ex_call ''a'')],
                     [StreamEventMessage ''s'']] ex_session ''q'') of
        (s1, _) \<Rightarrow> (case call_iteration ex_env ex_context tight_options [] s1 of
           (s2, Stop err) \<Rightarrow>
             Some (ctWorld s2, ex_session,
               \<lparr>arOutput = latestAssistantMessage (ctHistory s2), arMetrics = ctMetrics s2,
                arFailureReason = failureReasonForError err\<rparr>, err)
         | (s2, Continue) \<Rightarrow> None)) =
   Some (SummaryPrefix @ ''s'', ''budget_exceeded'')"
  by code_simp

section \<open>Trimming the input of a summary\<close>

text \<open>
  The oldest items are dropped one by one, so a tool call can be dropped while its output stays:
  the prompt of the summary then starts with a tool message that answers no call.
\<close>

lemma trimming_orphans_output:
  "well_paired (ex_pair ''a'')"
  "trimSummaryItems ex_marshal (ex_pair ''a'') ''sum up'' (Some (ApproxTokenCount ex_marshal)) 2 = tl (ex_pair ''a'')"
  "\<not> well_paired (tl (ex_pair ''a''))"
  by code_simp+

section \<open>A call without limits\<close>

text \<open>
  With no limit of steps, seconds or tokens a call over a model that always asks for a tool does
  not return.
\<close>

fun tireless :: "unit provider" where
  "tireless w p = (w, Inl ([StreamEventToolCall (ex_call ''a'')], None))"

definition tireless_env :: "unit agent_env" where
  "tireless_env = \<lparr>aeMarshal = ex_marshal, aeStream = tireless, aeExecute = (\<lambda>w c. (w, ex_result)),
                   aeElapsed = (\<lambda>w. (w, 0))\<rparr>"

definition unlimited :: run_options where
  "unlimited = \<lparr>roTokenCounter = None, roCompaction = ex_compaction,
     roLimits = \<lparr>liMaxSteps = 0, liMaxSeconds = 0, liMaxTokens = 0\<rparr>\<rparr>"

lemma tireless_continues: "\<exists>s'. call_iteration tireless_env ctx unlimited [] s = (s', Continue)"
  by (simp add: call_iteration_def compact_step_def exceededLimits_def hooks_step_def stream_step_def
      unlimited_def tireless_env_def Let_def split: prod.split)

lemma tireless_never_returns: "call_loop tireless_env ctx unlimited [] s = None"
proof (rule ccontr)
  assume "call_loop tireless_env ctx unlimited [] s \<noteq> None"
  then obtain r where "call_loop tireless_env ctx unlimited [] s = Some r" by auto
  then have "tireless_env = tireless_env \<and> unlimited = unlimited \<and> [] = ([] :: unit call_hook list) \<longrightarrow> False"
  proof (rule call_loop.raw_induct[where P = "\<lambda>E ctx opts hooks s r.
      E = tireless_env \<and> opts = unlimited \<and> hooks = [] \<longrightarrow> False", rotated], intro impI)
    fix loop E ctx opts hooks s r
    assume IH: "\<And>E ctx opts hooks s r. loop E ctx opts hooks s = Some r \<Longrightarrow>
        E = tireless_env \<and> opts = unlimited \<and> hooks = [] \<longrightarrow> False"
      and run: "(case call_iteration E ctx opts hooks s of
          (s', Continue) \<Rightarrow> loop E ctx opts hooks s' | (s', Stop err) \<Rightarrow> Some (s', err)) = Some r"
      and eq: "E = tireless_env \<and> opts = unlimited \<and> hooks = []"
    obtain s' where "call_iteration tireless_env ctx unlimited [] s = (s', Continue)"
      using tireless_continues by blast
    then show False using run eq IH by fastforce
  qed
  then show False by simp
qed

lemma unlimited_call_never_returns: "RunCall tireless_env session userText unlimited [] w = None"
  by (simp add: RunCall_def tireless_never_returns)

section \<open>Compaction that compacts nothing\<close>

text \<open>
  With the default policy for tool outputs (all of those after the last user message) a call whose
  history is one question and its tool calls keeps everything: it is over the limit before and
  after, and is compacted again at every step.
\<close>

definition busy_history :: "history_item list" where
  "busy_history = text_item ''user'' ''question'' # concat (replicate 10 (ex_pair ''a''))"

lemma compaction_without_effect:
  "map_prod id (map_sum (map_option (\<lambda>(h, stats). (h, csBeforeTokens stats, csAfterTokens stats))) id)
     (CompactHistory ex_marshal ex_stream [] busy_history (Some (ApproxTokenCount ex_marshal))
        (ex_compaction\<lparr>ccRecentToolOutputLimit := 0\<rparr>)) =
   ([], Inl (Some (busy_history, 27, 27)))"
  by code_simp

end
