(* ===== verification/Go_Path.thy ===== *)
theory Go_Path
  imports Go_Text
begin

text \<open>
  The functions of \<open>path/filepath\<close> that the program calls, on a Unix system, as their documentation
  describes them: a path is cleaned component by component.
\<close>

section \<open>Clean\<close>

definition slash :: char where "slash = CHR ''/''"

definition IsAbs :: "string \<Rightarrow> bool" where
  "IsAbs p \<longleftrightarrow> prefix [slash] p"

text \<open>
  The components of a cleaned path: empty ones and dots go, a double dot takes the component before
  it away, and at the start it stays unless the path is rooted.  The result is built in reverse.
\<close>

fun clean_parts :: "bool \<Rightarrow> string list \<Rightarrow> string list \<Rightarrow> string list" where
  "clean_parts rooted acc [] = rev acc"
| "clean_parts rooted acc (x # xs) =
     (if x = [] \<or> x = ''.'' then clean_parts rooted acc xs
      else if x = ''..'' then
        (case acc of
           [] \<Rightarrow> clean_parts rooted (if rooted then [] else [x]) xs
         | y # ys \<Rightarrow> clean_parts rooted (if y = ''..'' then x # acc else ys) xs)
      else clean_parts rooted (x # acc) xs)"

definition parts :: "string \<Rightarrow> string list" where
  "parts p = clean_parts (IsAbs p) [] (split_byte slash p)"

definition unparts :: "bool \<Rightarrow> string list \<Rightarrow> string" where
  "unparts rooted xs =
     (if rooted then slash # join [slash] xs
      else if xs = [] then ''.'' else join [slash] xs)"

definition Clean :: "string \<Rightarrow> string" where
  "Clean p = unparts (IsAbs p) (parts p)"

text \<open>\<open>filepath.Join\<close> of two elements, and \<open>filepath.Rel\<close>.\<close>

definition Join :: "string \<Rightarrow> string \<Rightarrow> string" where
  "Join a b =
     (if a = [] \<and> b = [] then []
      else if a = [] then Clean b
      else if b = [] then Clean a
      else Clean (a @ slash # b))"

fun strip_common :: "string list \<Rightarrow> string list \<Rightarrow> string list \<times> string list" where
  "strip_common (x # xs) (y # ys) = (if x = y then strip_common xs ys else (x # xs, y # ys))"
| "strip_common xs ys = (xs, ys)"

definition Rel :: "string \<Rightarrow> string \<Rightarrow> string + string" where
  "Rel base targ =
     (if IsAbs base \<noteq> IsAbs targ then Inr (''Rel: can't make '' @ targ @ '' relative to '' @ base)
      else
        let (b, t) = strip_common (parts base) (parts targ) in
        if b \<noteq> [] \<and> hd b = ''..'' then Inr (''Rel: can't make '' @ targ @ '' relative to '' @ base)
        else Inl (unparts False (map (\<lambda>_. ''..'') b @ t)))"

section \<open>Cleaned components\<close>

text \<open>A name is a component other than the dots; a cleaned path is some double dots and then names.\<close>

definition is_name :: "string \<Rightarrow> bool" where
  "is_name x \<longleftrightarrow> x \<noteq> [] \<and> x \<noteq> ''.'' \<and> x \<noteq> ''..'' \<and> slash \<notin> set x"

definition cleaned :: "string list \<Rightarrow> bool" where
  "cleaned xs \<longleftrightarrow> (\<exists>k ys. xs = replicate k ''..'' @ ys \<and> (\<forall>y \<in> set ys. is_name y))"

lemma split_byte_no_sep: "x \<in> set (split_byte c s) \<Longrightarrow> c \<notin> set x"
proof (induction s arbitrary: x)
  case (Cons a s)
  obtain y ys where "split_byte c s = y # ys" using split_byte_nonempty by (metis list.exhaust)
  with Cons show ?case by (auto split: if_splits)
qed simp

lemma split_byte_append: "split_byte c (a @ c # b) = split_byte c a @ split_byte c b"
proof (induction a)
  case (Cons x a)
  obtain y ys where "split_byte c a = y # ys" using split_byte_nonempty by (metis list.exhaust)
  with Cons show ?case by auto
qed simp

lemma split_byte_none: "c \<notin> set s \<Longrightarrow> split_byte c s = [s]"
  by (induction s) auto

lemma split_join:
  "xs \<noteq> [] \<Longrightarrow> (\<And>x. x \<in> set xs \<Longrightarrow> c \<notin> set x) \<Longrightarrow> split_byte c (join [c] xs) = xs"
proof (induction xs)
  case (Cons x xs)
  then show ?case by (cases xs) (auto simp: split_byte_none split_byte_append)
qed simp

lemma clean_parts_append_names:
  "\<forall>y \<in> set ys. is_name y \<Longrightarrow> clean_parts r acc (ys @ xs) = clean_parts r (rev ys @ acc) xs"
  by (induction ys arbitrary: acc) (auto simp: is_name_def)

lemma clean_parts_names: "\<forall>y \<in> set ys. is_name y \<Longrightarrow> clean_parts r acc ys = rev acc @ ys"
  using clean_parts_append_names[of ys r acc "[]"] by simp

lemma clean_parts_rooted:
  "\<forall>y \<in> set acc. is_name y \<Longrightarrow> \<forall>x \<in> set xs. slash \<notin> set x \<Longrightarrow>
   y \<in> set (clean_parts True acc xs) \<Longrightarrow> is_name y"
proof (induction xs arbitrary: acc)
  case (Cons x xs)
  show ?case
  proof (cases "x = [] \<or> x = ''.''")
    case False
    show ?thesis
    proof (cases "x = ''..''")
      case True
      show ?thesis
      proof (cases acc)
        case Nil
        with True Cons.prems show ?thesis by (intro Cons.IH[of "[]"]) auto
      next
        case (Cons z zs)
        then have "z \<noteq> ''..''" using Cons.prems(1) by (auto simp: is_name_def)
        with True Cons Cons.prems show ?thesis by (intro Cons.IH[of zs]) auto
      qed
    next
      case not_dots: False
      then have "is_name x" using False Cons.prems(2) by (simp add: is_name_def)
      then show ?thesis using Cons.IH[of "x # acc"] Cons.prems False not_dots by simp
    qed
  qed (use Cons in auto)
qed simp

lemma clean_parts_relative:
  "cleaned (rev acc) \<Longrightarrow> \<forall>x \<in> set xs. slash \<notin> set x \<Longrightarrow> cleaned (clean_parts False acc xs)"
proof (induction xs arbitrary: acc)
  case (Cons x xs)
  obtain k ys where acc: "rev acc = replicate k ''..'' @ ys" "\<forall>y \<in> set ys. is_name y"
    using Cons.prems(1) by (auto simp: cleaned_def)
  consider "x = [] \<or> x = ''.''" | (up) "x = ''..''" | (name) "is_name x"
    using Cons.prems(2) by (auto simp: is_name_def)
  then show ?case
  proof cases
    case up
    show ?thesis
    proof (cases ys rule: rev_cases)
      case Nil
      then have "rev acc = replicate k ''..''" using acc(1) by simp
      then have a: "acc = replicate k ''..''" by (metis rev_replicate rev_rev_ident)
      have "cleaned (rev (replicate (Suc k) ''..''))"
        unfolding cleaned_def by (intro exI[of _ "Suc k"] exI[of _ "[]"]) (simp only: rev_replicate append_Nil2, simp)
      then have "cleaned (clean_parts False (replicate (Suc k) ''..'') xs)"
        using Cons.IH Cons.prems(2) by auto
      then show ?thesis using a up by (cases k) auto
    next
      case (snoc zs z)
      then have "acc = z # rev zs @ rev (replicate k ''..'')"
        using acc(1) by (metis append_assoc rev_append rev_rev_ident rev.simps append_Cons append_Nil)
      moreover have "z \<noteq> ''..''" using acc(2) snoc by (auto simp: is_name_def)
      moreover have "cleaned (rev (rev zs @ rev (replicate k ''..'')))"
        using acc(2) snoc by (auto simp: cleaned_def intro!: exI[of _ k] exI[of _ zs])
      ultimately show ?thesis using up Cons.IH[of "rev zs @ rev (replicate k ''..'')"] Cons.prems(2) by simp
    qed
  next
    case name
    have "cleaned (rev (x # acc))"
      using acc name by (auto simp: cleaned_def intro!: exI[of _ k] exI[of _ "ys @ [x]"])
    then show ?thesis using name Cons.IH[of "x # acc"] Cons.prems(2) by (auto simp: is_name_def)
  qed (use Cons in auto)
qed simp

lemma parts_rooted: "IsAbs p \<Longrightarrow> y \<in> set (parts p) \<Longrightarrow> is_name y"
  unfolding parts_def by (rule clean_parts_rooted[of "[]"]) (auto dest: split_byte_no_sep)

lemma parts_cleaned: "cleaned (parts p)"
proof (cases "IsAbs p")
  case True
  then show ?thesis
    unfolding cleaned_def using parts_rooted[OF True] by (intro exI[of _ 0] exI[of _ "parts p"]) simp
next
  case False
  have "cleaned (rev [])" by (auto simp: cleaned_def intro: exI[of _ 0])
  then show ?thesis
    using False clean_parts_relative[of "[]"] split_byte_no_sep[of _ slash p] by (auto simp: parts_def)
qed

lemma is_name_no_slash: "is_name x \<Longrightarrow> slash \<notin> set x"
  by (simp add: is_name_def)

text \<open>Joining a relative path of names to a rooted path appends its names.\<close>

lemma join_first: "xs \<noteq> [] \<Longrightarrow> \<exists>r. join [c] xs = hd xs @ r"
  by (cases xs; cases "tl xs") auto

lemma parts_Join:
  assumes "IsAbs root" "\<forall>y \<in> set ys. is_name y"
  shows "parts (Join root (unparts False ys)) = parts root @ ys \<and> IsAbs (Join root (unparts False ys))"
proof -
  let ?rel = "unparts False ys"
  have ne: "root \<noteq> []" "?rel \<noteq> []"
  proof -
    show "root \<noteq> []" using assms(1) by (auto simp: IsAbs_def)
    show "?rel \<noteq> []"
    proof (cases ys)
      case (Cons y zs)
      then have "hd ys \<noteq> []" using assms(2) by (auto simp: is_name_def)
      then show ?thesis using join_first[of ys slash] Cons by (auto simp: unparts_def)
    qed (simp add: unparts_def)
  qed
  let ?p = "root @ slash # ?rel"
  have abs: "IsAbs ?p" using assms(1) by (auto simp: IsAbs_def)
  have split_rel: "split_byte slash ?rel = (if ys = [] then [''.''] else ys)"
    using split_join[of ys slash] assms(2) by (auto simp: unparts_def is_name_def split_byte_none slash_def)
  have app: "clean_parts True acc (xs @ zs) = clean_parts True (rev (clean_parts True acc xs)) zs" for acc xs zs
    by (induction True acc xs rule: clean_parts.induct) (auto split: list.splits)
  have "parts ?p = clean_parts True (rev (parts root)) (split_byte slash ?rel)"
    unfolding parts_def using abs assms(1) by (simp add: split_byte_append app)
  also have "\<dots> = parts root @ ys"
    unfolding split_rel using assms(2) clean_parts_names[of ys True "rev (parts root)"] by auto
  finally have p: "parts ?p = parts root @ ys" .
  have names: "\<forall>y \<in> set (parts root @ ys). is_name y" using assms parts_rooted by auto
  have J: "Join root ?rel = slash # join [slash] (parts root @ ys)"
    using ne abs p by (simp add: Join_def Clean_def unparts_def)
  have "parts (slash # join [slash] zs) = zs" if "\<forall>y \<in> set zs. is_name y" for zs
  proof -
    have "split_byte slash (slash # join [slash] zs) = [] # (if zs = [] then [[]] else zs)"
      using split_join[of zs slash] that by (auto simp: is_name_def)
    then show ?thesis
      using that clean_parts_names[of zs True "[]"] by (auto simp: parts_def IsAbs_def)
  qed
  then show ?thesis using J names by (simp add: IsAbs_def)
qed

end
