(* ===== verification/Tools_Runner.thy ===== *)
theory Tools_Runner
  imports Go_Path Agent_Types
begin

text \<open>
  The repository tools (\<open>internal/tools\<close>): \<open>read_file\<close>, \<open>list_dir\<close>, \<open>list_files\<close> and \<open>search\<close> of
  \<open>Runner\<close>, with the confinement of paths to the root and the limits on their output.

  Parameters: the file system as \<open>fileSystem\<close> sees it, ripgrep (\<open>rgRunner\<close>) and the readings of
  the clock.  A file is what can be read of it and the error after that, \<open>None\<close> at its end.  The
  length of an output is not wrapped; the arithmetic on the arguments of \<open>list_dir\<close>, which come
  from a model, is.  \<open>None\<close> as a whole is a panic.
\<close>

section \<open>The runner\<close>

datatype file_kind = FileRegular | FileDirectory | FileSymlink | FileSpecial

record file_system =
  fileStat :: "string \<Rightarrow> bool + string"
  fileOpen :: "string \<Rightarrow> (string \<times> string option) + string"
  fileLstat :: "string \<Rightarrow> file_kind + string"
  fileReadDir :: "string \<Rightarrow> string list + string"

record tool_runner =
  trRoot :: string
  trMaxReadBytes :: go_int
  trMaxOutputBytes :: go_int
  trFS :: file_system
  trRG :: "string \<Rightarrow> string list \<Rightarrow> string + string"

text \<open>\<open>NewRunner\<close>; \<open>abs_of\<close> is \<open>filepath.Abs\<close>.\<close>

definition defaultMaxBytes :: go_int where "defaultMaxBytes = 200 * 1024"

definition NewRunner ::
    "(string \<Rightarrow> string + string) \<Rightarrow> file_system \<Rightarrow> (string \<Rightarrow> string list \<Rightarrow> string + string) \<Rightarrow> string \<Rightarrow>
     tool_runner + string" where
  "NewRunner abs_of fs rg root =
     (if TrimSpace root = [] then Inr ''root is empty''
      else case abs_of root of
        Inr err \<Rightarrow> Inr (''resolve root: '' @ err)
      | Inl absPath \<Rightarrow>
         (case fileStat fs absPath of
            Inr err \<Rightarrow> Inr (''stat root: '' @ err)
          | Inl isDir \<Rightarrow>
              if \<not> isDir then Inr ''root is not a directory''
              else Inl \<lparr>trRoot = absPath, trMaxReadBytes = defaultMaxBytes, trMaxOutputBytes = defaultMaxBytes,
                       trFS = fs, trRG = rg\<rparr>))"

section \<open>Output\<close>

definition truncationMarker :: string where
  "truncationMarker = newline @ ''... [truncated]''"

definition truncateOutput :: "string \<Rightarrow> go_int \<Rightarrow> string \<times> bool" where
  "truncateOutput output maxBytes =
     (if maxBytes \<le> 0 \<or> int (length output) \<le> maxBytes then (output, False)
      else if maxBytes \<le> int (length truncationMarker) then (take (nat maxBytes) truncationMarker, True)
      else (take (nat maxBytes - length truncationMarker) output @ truncationMarker, True))"

definition applyOutputLimit :: "string \<Rightarrow> go_int \<Rightarrow> bool \<Rightarrow> string \<times> bool" where
  "applyOutputLimit output maxBytes truncated =
     (if maxBytes \<le> 0 then (output, truncated)
      else if int (length output) > maxBytes then truncateOutput output maxBytes
      else if truncated then
        (if int (length output + length truncationMarker) \<le> maxBytes
         then (output @ truncationMarker, True)
         else truncateOutput output maxBytes)
      else (output, False))"

text \<open>\<open>finalize\<close>: the output or the error, with the readings of the clock before and after.\<close>

definition finalize ::
    "tool_runner \<Rightarrow> string \<Rightarrow> go_time \<Rightarrow> go_time \<Rightarrow> (string \<times> bool) + string \<Rightarrow> call_result" where
  "finalize r tool start end' res =
     (let (output, truncated, err) =
        (case res of Inl (output, truncated) \<Rightarrow> (output, truncated, []) | Inr err \<Rightarrow> (''error: '' @ err, False, err));
          (output, limited) = applyOutputLimit output (trMaxOutputBytes r) truncated
      in \<lparr>crTool = tool, crOutput = output, crOutputBytes = int (length output), crTruncated = limited,
          crStartedAt = start, crFinishedAt = end', crDuration = Sub end' start, crError = err\<rparr>)"

section \<open>Paths\<close>

definition resolvePath :: "string \<Rightarrow> string \<Rightarrow> (string \<times> string) + string" where
  "resolvePath root path =
     (let trimmed = TrimSpace path in
      if trimmed = [] then Inr ''path is empty''
      else
        let cleaned = Clean trimmed in
        case (if IsAbs cleaned then Rel root cleaned else Inl cleaned) of
          Inr err \<Rightarrow> Inr (''resolve path '' @ quote path @ '': '' @ err)
        | Inl rel \<Rightarrow>
            if rel = ''..'' \<or> HasPrefix rel (''..'' @ [slash]) then Inr (''path '' @ quote path @ '' escapes root'')
            else Inl (rel, Join root rel))"

section \<open>Reading files\<close>

definition normalizeLineRange :: "go_int option \<Rightarrow> go_int option \<Rightarrow> (go_int \<times> go_int) + string" where
  "normalizeLineRange start end' =
     (if start \<noteq> None \<and> the start < 1 then Inr ''start_line must be >= 1''
      else
        let startLine = (case start of None \<Rightarrow> 1 | Some s \<Rightarrow> s) in
        if end' \<noteq> None \<and> the end' < 1 then Inr ''end_line must be >= 1''
        else
          let endLine = (case end' of None \<Rightarrow> 0 | Some e \<Rightarrow> e) in
          if endLine \<noteq> 0 \<and> endLine < startLine then Inr ''end_line must be >= start_line''
          else Inl (startLine, endLine))"

text \<open>
  \<open>ReadString\<close> with the line feed: the text up to and with it, or all that is left with the error or
  the end of the file.
\<close>

definition ReadString :: "string \<Rightarrow> string \<times> string \<times> bool" where
  "ReadString content =
     (let line = takeWhile (\<lambda>c. c \<noteq> CHR 0x0A) content; rest = dropWhile (\<lambda>c. c \<noteq> CHR 0x0A) content in
      case rest of [] \<Rightarrow> (line, [], True) | c # cs \<Rightarrow> (line @ [c], cs, False))"

lemma ReadString_shorter: "ReadString content = (line, rest, False) \<Longrightarrow> length rest < length content"
proof -
  assume r: "ReadString content = (line, rest, False)"
  have "length (dropWhile (\<lambda>c. c \<noteq> CHR 0x0A) content) \<le> length content" by (rule length_dropWhile_le)
  with r show ?thesis by (auto simp: ReadString_def Let_def split: list.splits)
qed

text \<open>The loop: the text built so far, and whether it was cut.\<close>

function read_lines ::
    "go_int \<Rightarrow> go_int \<Rightarrow> go_int \<Rightarrow> string \<Rightarrow> string option \<Rightarrow> string \<Rightarrow> go_int \<Rightarrow> string \<Rightarrow> (string \<times> bool) + string" where
  "read_lines maxRead startLine endLine rel ending content lineNumber out =
     (let (line, rest, eof) = ReadString content in
      if eof \<and> ending \<noteq> None then Inr (''read '' @ rel @ '': '' @ the ending)
      else if line = [] \<and> eof then Inl (out, False)
      else
        let n = lineNumber + 1 in
        if n < startLine then
          (if eof then Inl (out, False) else read_lines maxRead startLine endLine rel ending rest n out)
        else if endLine \<noteq> 0 \<and> n > endLine then Inl (out, False)
        else
          let out' = out @ show_int n @ '':'' @ TrimRight line (CHR 0x0A) @ newline in
          if maxRead > 0 \<and> int (length out') \<ge> maxRead then Inl (out', True)
          else if eof then Inl (out', False)
          else read_lines maxRead startLine endLine rel ending rest n out')"
  by pat_completeness auto
termination
  by (relation "measure (\<lambda>(_, _, _, _, _, content, _, _). length content)")
     (auto dest!: sym[of _ "ReadString _"] ReadString_shorter)

declare read_lines.simps [simp del]

definition readFile ::
    "tool_runner \<Rightarrow> string \<Rightarrow> go_int option \<Rightarrow> go_int option \<Rightarrow> (string \<times> bool) + string" where
  "readFile r path start end' =
     (if TrimSpace path = [] then Inr ''path is required''
      else case normalizeLineRange start end' of
        Inr err \<Rightarrow> Inr err
      | Inl (startLine, endLine) \<Rightarrow>
         (case resolvePath (trRoot r) path of
            Inr err \<Rightarrow> Inr err
          | Inl (rel, absPath) \<Rightarrow>
             (case fileStat (trFS r) absPath of
                Inr err \<Rightarrow> Inr (''stat '' @ rel @ '': '' @ err)
              | Inl isDir \<Rightarrow>
                  if isDir then Inr (rel @ '' is a directory'')
                  else case fileOpen (trFS r) absPath of
                    Inr err \<Rightarrow> Inr (''open '' @ rel @ '': '' @ err)
                  | Inl (content, ending) \<Rightarrow>
                      read_lines (trMaxReadBytes r) startLine endLine rel ending content 0 (rel @ newline))))"

definition ReadFile ::
    "tool_runner \<Rightarrow> go_time \<times> go_time \<Rightarrow> string \<Rightarrow> go_int option \<Rightarrow> go_int option \<Rightarrow> call_result" where
  "ReadFile r clk path start end' = finalize r ''read_file'' (fst clk) (snd clk) (readFile r path start end')"

section \<open>Listing files and searching\<close>

definition unlimited_output :: "string + string \<Rightarrow> (string \<times> bool) + string" where
  "unlimited_output res = (case res of Inl output \<Rightarrow> Inl (output, False) | Inr err \<Rightarrow> Inr err)"

definition normalizeListFilesGlob :: "string \<Rightarrow> string" where
  "normalizeListFilesGlob glob =
     (let trimmed = TrimSpace glob in if trimmed \<in> {[], ''*'', ''**''} then [] else trimmed)"

definition listFiles :: "tool_runner \<Rightarrow> string \<Rightarrow> string + string" where
  "listFiles r glob =
     (let g = normalizeListFilesGlob glob in
      trRG r (trRoot r) (''--files'' # (if g \<noteq> [] then [''-g'', g] else [])))"

definition ListFiles :: "tool_runner \<Rightarrow> go_time \<times> go_time \<Rightarrow> string \<Rightarrow> call_result" where
  "ListFiles r clk glob = finalize r ''list_files'' (fst clk) (snd clk) (unlimited_output (listFiles r glob))"

fun resolve_paths :: "string \<Rightarrow> string list \<Rightarrow> string list + string" where
  "resolve_paths root [] = Inl []"
| "resolve_paths root (p # ps) =
     (case resolvePath root p of
        Inr err \<Rightarrow> Inr err
      | Inl (rel, _) \<Rightarrow> (case resolve_paths root ps of Inr err \<Rightarrow> Inr err | Inl rels \<Rightarrow> Inl (rel # rels)))"

definition search :: "tool_runner \<Rightarrow> string \<Rightarrow> string list \<Rightarrow> string + string" where
  "search r query paths =
     (let query = TrimSpace query in
      if query = [] then Inr ''query is required''
      else case resolve_paths (trRoot r) paths of
        Inr err \<Rightarrow> Inr err
      | Inl rels \<Rightarrow>
          trRG r (trRoot r)
            ([''--no-heading'', ''--line-number'', ''--color'', ''never'', ''--'', query] @ rels))"

definition Search :: "tool_runner \<Rightarrow> go_time \<times> go_time \<Rightarrow> string \<Rightarrow> string list \<Rightarrow> call_result" where
  "Search r clk query paths = finalize r ''search'' (fst clk) (snd clk) (unlimited_output (search r query paths))"

section \<open>Listing directories\<close>

record list_dir_entry =
  leNormalized :: string
  leDepth :: go_int
  leDisplayName :: string

record list_dir_node =
  lnAbs :: string
  lnNormalized :: string
  lnDepth :: go_int

definition at_least_1 :: "string \<Rightarrow> go_int \<Rightarrow> go_int option \<Rightarrow> go_int + string" where
  "at_least_1 name fallback v =
     (case v of None \<Rightarrow> Inl fallback | Some n \<Rightarrow> if n < 1 then Inr (name @ '' must be >= 1'') else Inl n)"

definition normalizeListDirParams ::
    "go_int option \<Rightarrow> go_int option \<Rightarrow> go_int option \<Rightarrow> (go_int \<times> go_int \<times> go_int) + string" where
  "normalizeListDirParams offset limit depth =
     (case at_least_1 ''offset'' 1 offset of
        Inr err \<Rightarrow> Inr err
      | Inl o' \<Rightarrow>
         (case at_least_1 ''limit'' 25 limit of
            Inr err \<Rightarrow> Inr err
          | Inl l \<Rightarrow>
             (case at_least_1 ''depth'' 2 depth of Inr err \<Rightarrow> Inr err | Inl d \<Rightarrow> Inl (o', l, d))))"

definition classifyListDirEntry :: "file_kind \<Rightarrow> string \<times> bool \<times> bool" where
  "classifyListDirEntry kind =
     (case kind of
        FileSymlink \<Rightarrow> (''@'', False, True)
      | FileDirectory \<Rightarrow> (''/'', True, False)
      | FileRegular \<Rightarrow> ([], False, False)
      | FileSpecial \<Rightarrow> (''?'', False, False))"

definition listDirRelPath :: "string \<Rightarrow> string \<Rightarrow> string" where
  "listDirRelPath rootRel normalized = (if normalized = [] then rootRel else Join rootRel normalized)"

definition joinNormalizedPath :: "string \<Rightarrow> string \<Rightarrow> string" where
  "joinNormalizedPath parent name = Join parent name"

text \<open>\<open>utf8.ValidString\<close>: the encodings of Unicode scalar values, and no others.\<close>

definition continuation :: "char \<Rightarrow> bool" where
  "continuation c \<longleftrightarrow> CHR 0x80 \<le> c \<and> c \<le> CHR 0xBF"

fun ValidString :: "string \<Rightarrow> bool" where
  "ValidString [] = True"
| "ValidString (a # s) =
     (if a < CHR 0x80 then ValidString s
      else if CHR 0xC2 \<le> a \<and> a \<le> CHR 0xDF then
        (case s of b # s1 \<Rightarrow> continuation b \<and> ValidString s1 | _ \<Rightarrow> False)
      else if CHR 0xE0 \<le> a \<and> a \<le> CHR 0xEF then
        (case s of
           b # c # s2 \<Rightarrow>
             continuation b \<and> continuation c \<and> (a = CHR 0xE0 \<longrightarrow> CHR 0xA0 \<le> b) \<and>
             (a = CHR 0xED \<longrightarrow> b \<le> CHR 0x9F) \<and> ValidString s2
         | _ \<Rightarrow> False)
      else if CHR 0xF0 \<le> a \<and> a \<le> CHR 0xF4 then
        (case s of
           b # c # d # s3 \<Rightarrow>
             continuation b \<and> continuation c \<and> continuation d \<and> (a = CHR 0xF0 \<longrightarrow> CHR 0x90 \<le> b) \<and>
             (a = CHR 0xF4 \<longrightarrow> b \<le> CHR 0x8F) \<and> ValidString s3
         | _ \<Rightarrow> False)
      else False)"

definition listDirMaxNameBytes :: nat where "listDirMaxNameBytes = 500"

function shrink_valid :: "string \<Rightarrow> string" where
  "shrink_valid s = (if s = [] \<or> ValidString s then s else shrink_valid (butlast s))"
  by pat_completeness auto
termination by (relation "measure length") auto

declare shrink_valid.simps [simp del]

definition truncateListDirName :: "string \<Rightarrow> string" where
  "truncateListDirName name =
     (if length name \<le> listDirMaxNameBytes then name else shrink_valid (take listDirMaxNameBytes name))"

text \<open>The entries of one directory, and the directories below it that are visited later.\<close>

fun dir_batch ::
    "file_system \<Rightarrow> string \<Rightarrow> go_int \<Rightarrow> list_dir_node \<Rightarrow> string list \<Rightarrow>
     (list_dir_entry list \<times> list_dir_node list) + string" where
  "dir_batch fs relRoot maxDepth node [] = Inl ([], [])"
| "dir_batch fs relRoot maxDepth node (name # names) =
     (let absEntry = Join (lnAbs node) name in
      case fileLstat fs absEntry of
        Inr err \<Rightarrow> Inr (''stat '' @ Join (listDirRelPath relRoot (lnNormalized node)) name @ '': '' @ err)
      | Inl kind \<Rightarrow>
          let (suff, isDir, isSymlink) = classifyListDirEntry kind;
              normalized = joinNormalizedPath (lnNormalized node) name in
          (case dir_batch fs relRoot maxDepth node names of
             Inr err \<Rightarrow> Inr err
           | Inl (entries, nodes) \<Rightarrow>
               Inl (\<lparr>leNormalized = normalized, leDepth = lnDepth node,
                     leDisplayName = truncateListDirName name @ suff\<rparr> # entries,
                    (if isDir \<and> \<not> isSymlink \<and> lnDepth node < maxDepth
                     then [\<lparr>lnAbs = absEntry, lnNormalized = normalized, lnDepth = lnDepth node + 1\<rparr>]
                     else []) @ nodes)))"

text \<open>\<open>sort.Slice\<close> by the normalized path; the paths of one listing are distinct.\<close>

definition sort_entries :: "list_dir_entry list \<Rightarrow> list_dir_entry list" where
  "sort_entries es = sort_key leNormalized es"

lemma dir_batch_depth:
  "dir_batch fs relRoot maxDepth node names = Inl (entries, nodes) \<Longrightarrow> n \<in> set nodes \<Longrightarrow>
   lnDepth n = lnDepth node + 1 \<and> lnDepth node < maxDepth"
  by (induction names arbitrary: entries nodes)
     (auto simp: Let_def classifyListDirEntry_def split: sum.splits prod.splits if_splits file_kind.splits)

text \<open>
  The breadth-first traversal.  It ends because a directory is replaced in the queue by directories
  that are one level deeper, and none is visited below the depth.  \<open>cancelled k\<close> is \<open>ctx.Err()\<close> when
  it is asked for the k-th time.
\<close>

definition levels_left :: "go_int \<Rightarrow> list_dir_node \<Rightarrow> nat" where
  "levels_left maxDepth node = nat (maxDepth - lnDepth node)"

function collectListDirEntries ::
    "(nat \<Rightarrow> string option) \<Rightarrow> file_system \<Rightarrow> string \<Rightarrow> go_int \<Rightarrow> nat \<Rightarrow> list_dir_node list \<Rightarrow> list_dir_entry list \<Rightarrow>
     list_dir_entry list + string" where
  "collectListDirEntries cancelled fs relRoot maxDepth k [] entries = Inl entries"
| "collectListDirEntries cancelled fs relRoot maxDepth k (node # queue) entries =
     (case cancelled k of
        Some err \<Rightarrow> Inr err
      | None \<Rightarrow>
         (case fileReadDir fs (lnAbs node) of
            Inr err \<Rightarrow> Inr (''read dir '' @ listDirRelPath relRoot (lnNormalized node) @ '': '' @ err)
          | Inl names \<Rightarrow>
             (case dir_batch fs relRoot maxDepth node names of
                Inr err \<Rightarrow> Inr err
              | Inl (batch, nodes) \<Rightarrow>
                  collectListDirEntries cancelled fs relRoot maxDepth (k + 1) (queue @ nodes)
                    (entries @ sort_entries batch))))"
  by pat_completeness auto
termination
proof (relation "inv_image (mult less_than)
    (\<lambda>(_, _, _, maxDepth, _, queue, _). mset (map (levels_left maxDepth) queue))")
  show "wf (inv_image (mult less_than)
      (\<lambda>(_, _, _, maxDepth, _, queue, _). mset (map (levels_left maxDepth) queue)))"
    by (intro wf_inv_image wf_mult wf_less_than)
next
  fix cancelled :: "nat \<Rightarrow> string option" and fs relRoot maxDepth k node queue and entries :: "list_dir_entry list"
  fix names b batch nodes
  assume "dir_batch fs relRoot maxDepth node names = Inl b" "(batch, nodes) = b"
  then have d: "\<And>n. n \<in> set nodes \<Longrightarrow> lnDepth n = lnDepth node + 1 \<and> lnDepth node < maxDepth"
    using dir_batch_depth by blast
  have "(mset (map (levels_left maxDepth) queue) + mset (map (levels_left maxDepth) nodes),
      mset (map (levels_left maxDepth) queue) + {#levels_left maxDepth node#}) \<in> mult less_than"
  proof (rule one_step_implies_mult)
    show "\<forall>x \<in># mset (map (levels_left maxDepth) nodes).
        \<exists>y \<in># {#levels_left maxDepth node#}. (x, y) \<in> less_than"
    proof
      fix x assume "x \<in># mset (map (levels_left maxDepth) nodes)"
      then obtain n where "n \<in> set nodes" "x = levels_left maxDepth n" by auto
      then have "x < levels_left maxDepth node" using d[of n] by (simp add: levels_left_def)
      then show "\<exists>y \<in># {#levels_left maxDepth node#}. (x, y) \<in> less_than" by simp
    qed
  qed simp
  then show "((cancelled, fs, relRoot, maxDepth, k + 1, queue @ nodes, entries @ sort_entries batch),
      cancelled, fs, relRoot, maxDepth, k, node # queue, entries) \<in>
      inv_image (mult less_than) (\<lambda>(_, _, _, maxDepth, _, queue, _). mset (map (levels_left maxDepth) queue))"
    by (simp add: ac_simps)
qed

definition formatListDirEntry :: "list_dir_entry \<Rightarrow> string" where
  "formatListDirEntry e = replicate (nat ((leDepth e - 1) * 2)) CHR '' '' @ leDisplayName e"

text \<open>A slice expression with a bound that is out of range panics.\<close>

definition formatListDirOutput ::
    "string \<Rightarrow> list_dir_entry list \<Rightarrow> go_int \<Rightarrow> go_int \<Rightarrow> (string + string) option" where
  "formatListDirOutput absPath entries offset limit =
     (let total = int (length entries) in
      if total = 0 then
        Some (if offset > 1 then Inr ''offset exceeds directory entry count'' else Inl (''Absolute path: '' @ absPath))
      else if offset > total then Some (Inr ''offset exceeds directory entry count'')
      else
        let start = offset - 1; end1 = wrap64 (start + limit);
            end' = (if end1 > total then total else end1) in
        if end' < start then None
        else
          let selected = sort_entries (take (nat (end' - start)) (drop (nat start) entries)) in
          Some (Inl (''Absolute path: '' @ absPath @ (if selected \<noteq> [] then newline else []) @
            join newline (map formatListDirEntry selected) @
            (if total > end' then (if selected \<noteq> [] then newline else []) @
               ''More than '' @ show_int limit @ '' entries found.''
             else []))))"

definition listDir ::
    "tool_runner \<Rightarrow> (nat \<Rightarrow> string option) \<Rightarrow> string \<Rightarrow> go_int option \<Rightarrow> go_int option \<Rightarrow> go_int option \<Rightarrow>
     (string + string) option" where
  "listDir r cancelled path offset limit depth =
     (case cancelled 0 of
        Some err \<Rightarrow> Some (Inr err)
      | None \<Rightarrow>
         (case normalizeListDirParams offset limit depth of
            Inr err \<Rightarrow> Some (Inr err)
          | Inl (o', l, d) \<Rightarrow>
             (case resolvePath (trRoot r) path of
                Inr err \<Rightarrow> Some (Inr err)
              | Inl (rel, absPath) \<Rightarrow>
                 (case fileStat (trFS r) absPath of
                    Inr err \<Rightarrow> Some (Inr (''stat '' @ rel @ '': '' @ err))
                  | Inl isDir \<Rightarrow>
                      if \<not> isDir then Some (Inr ''path is not a directory'')
                      else case collectListDirEntries cancelled (trFS r) rel d 1
                             [\<lparr>lnAbs = absPath, lnNormalized = [], lnDepth = 1\<rparr>] [] of
                        Inr err \<Rightarrow> Some (Inr err)
                      | Inl entries \<Rightarrow> formatListDirOutput absPath entries o' l))))"

definition ListDir ::
    "tool_runner \<Rightarrow> go_time \<times> go_time \<Rightarrow> (nat \<Rightarrow> string option) \<Rightarrow> string \<Rightarrow> go_int option \<Rightarrow> go_int option \<Rightarrow>
     go_int option \<Rightarrow> call_result option" where
  "ListDir r clk cancelled path offset limit depth =
     map_option (\<lambda>res. finalize r ''list_dir'' (fst clk) (snd clk) (unlimited_output res))
       (listDir r cancelled path offset limit depth)"

end
