(* ===== verification/Agent_Tools.thy ===== *)
theory Agent_Tools
  imports Tools_Runner
begin

text \<open>
  The dispatch of tool calls (\<open>tool_args.go\<close>, \<open>tool_executor.go\<close> of \<open>internal/agent\<close>) to the
  repository tools, and what it guarantees: the tools only look at paths under the root, and no
  output is longer than the limit.

  \<open>json.Unmarshal\<close> of a raw argument into a string, a list of strings or an integer is a parameter;
  as documented, JSON's null leaves the zero value.
\<close>

section \<open>Arguments\<close>

record json_decoders =
  jdString :: "string \<Rightarrow> string option"
  jdStrings :: "string \<Rightarrow> string list option"
  jdInt :: "string \<Rightarrow> go_int option"

definition OptionalString :: "json_decoders \<Rightarrow> tool_args \<Rightarrow> string \<Rightarrow> (string \<times> bool) + string" where
  "OptionalString J args key =
     (case map_of args key of
        None \<Rightarrow> Inl ([], False)
      | Some raw \<Rightarrow>
          if TrimSpace raw = ''null'' then Inl ([], False)
          else case jdString J raw of
            None \<Rightarrow> Inr (key @ '' must be a string'')
          | Some v \<Rightarrow> Inl (TrimSpace v, True))"

definition RequiredString :: "json_decoders \<Rightarrow> tool_args \<Rightarrow> string \<Rightarrow> string + string" where
  "RequiredString J args key =
     (case OptionalString J args key of
        Inr err \<Rightarrow> Inr err
      | Inl (v, ok) \<Rightarrow> if \<not> ok \<or> TrimSpace v = [] then Inr (key @ '' is required'') else Inl v)"

definition OptionalStringSlice :: "json_decoders \<Rightarrow> tool_args \<Rightarrow> string \<Rightarrow> string list + string" where
  "OptionalStringSlice J args key =
     (case map_of args key of
        None \<Rightarrow> Inl []
      | Some raw \<Rightarrow>
         (case jdStrings J raw of None \<Rightarrow> Inr (key @ '' must be a list of strings'') | Some v \<Rightarrow> Inl v))"

definition OptionalInt :: "json_decoders \<Rightarrow> tool_args \<Rightarrow> string \<Rightarrow> go_int option + string" where
  "OptionalInt J args key =
     (case map_of args key of
        None \<Rightarrow> Inl None
      | Some raw \<Rightarrow>
         (case jdInt J raw of None \<Rightarrow> Inr (key @ '' must be an integer'') | Some v \<Rightarrow> Inl (Some v)))"

section \<open>The executor\<close>

definition errorResult :: "go_time \<Rightarrow> string \<Rightarrow> string \<Rightarrow> call_result" where
  "errorResult now name message =
     \<lparr>crTool = name, crOutput = ''error: '' @ message, crOutputBytes = int (length (''error: '' @ message)),
      crTruncated = False, crStartedAt = now, crFinishedAt = now, crDuration = 0, crError = message\<rparr>"

text \<open>
  \<open>Execute\<close>: the runner is the pointer, \<open>clk\<close> the two readings of the clock, and \<open>None\<close> a panic.  A
  nil argument map reads as an empty one.
\<close>

definition Execute ::
    "json_decoders \<Rightarrow> tool_runner option \<Rightarrow> go_time \<times> go_time \<Rightarrow> (nat \<Rightarrow> string option) \<Rightarrow> tool_call \<Rightarrow>
     call_result option" where
  "Execute J runner clk cancelled c =
     (let args = (case tcArgs c of None \<Rightarrow> [] | Some a \<Rightarrow> a);
          fail = (\<lambda>err. Some (errorResult (fst clk) (tcName c) err)) in
      case runner of
        None \<Rightarrow> fail ''tool runner is not configured''
      | Some r \<Rightarrow>
          if tcName c = ''list_files'' then
            (case OptionalString J args ''glob'' of
               Inr err \<Rightarrow> fail err
             | Inl (glob, _) \<Rightarrow> Some (ListFiles r clk glob))
          else if tcName c = ''list_dir'' then
            (case RequiredString J args ''path'' of
               Inr err \<Rightarrow> fail err
             | Inl path \<Rightarrow>
            (case OptionalInt J args ''offset'' of
               Inr err \<Rightarrow> fail err
             | Inl offset \<Rightarrow>
            (case OptionalInt J args ''limit'' of
               Inr err \<Rightarrow> fail err
             | Inl limit \<Rightarrow>
            (case OptionalInt J args ''depth'' of
               Inr err \<Rightarrow> fail err
             | Inl depth \<Rightarrow> ListDir r clk cancelled path offset limit depth))))
          else if tcName c = ''search'' then
            (case RequiredString J args ''query'' of
               Inr err \<Rightarrow> fail err
             | Inl query \<Rightarrow>
            (case OptionalStringSlice J args ''paths'' of
               Inr err \<Rightarrow> fail err
             | Inl paths \<Rightarrow> Some (Search r clk query paths)))
          else if tcName c = ''read_file'' then
            (case RequiredString J args ''path'' of
               Inr err \<Rightarrow> fail err
             | Inl path \<Rightarrow>
            (case OptionalInt J args ''start_line'' of
               Inr err \<Rightarrow> fail err
             | Inl startLine \<Rightarrow>
            (case OptionalInt J args ''end_line'' of
               Inr err \<Rightarrow> fail err
             | Inl endLine \<Rightarrow> Some (ReadFile r clk path startLine endLine))))
          else fail (''unknown tool '' @ quote (tcName c)))"

section \<open>Paths under the root\<close>

definition under :: "string \<Rightarrow> string \<Rightarrow> bool" where
  "under root p \<longleftrightarrow> IsAbs p \<and> prefix (parts root) (parts p)"

lemma cleaned_inside:
  assumes "cleaned ys" "unparts False ys \<noteq> ''..''" "\<not> prefix (''..'' @ [slash]) (unparts False ys)"
  shows "\<forall>y \<in> set ys. is_name y"
proof -
  obtain k zs where k: "ys = replicate k ''..'' @ zs" "\<forall>z \<in> set zs. is_name z"
    using assms(1) by (auto simp: cleaned_def)
  have "k = 0"
  proof (rule ccontr)
    assume "k \<noteq> 0"
    then obtain rest where ys: "ys = ''..'' # rest" using k(1) by (cases k) auto
    show False using assms(2,3) by (cases rest) (auto simp: ys unparts_def)
  qed
  with k show ?thesis by simp
qed

lemma strip_common_suffix: "suffix (snd (strip_common xs ys)) ys"
  by (induction xs ys rule: strip_common.induct) (auto intro: suffix_ConsI)

lemma strip_common_names: "y \<in> set (snd (strip_common xs ys)) \<Longrightarrow> y \<in> set ys"
  using set_mono_suffix[OF strip_common_suffix[of xs ys]] by blast

lemma resolvePath_parts:
  assumes "resolvePath root path = Inl (rel, absPath)" "IsAbs root"
  shows "\<exists>ys. rel = unparts False ys \<and> (\<forall>y \<in> set ys. is_name y) \<and> absPath = Join root rel"
proof -
  let ?c = "Clean (TrimSpace path)"
  have r: "(if IsAbs ?c then Rel root ?c else Inl ?c) = Inl rel" "rel \<noteq> ''..''" "\<not> prefix (''..'' @ [slash]) rel"
    "absPath = Join root rel"
    using assms(1) by (auto simp: resolvePath_def Let_def split: if_splits sum.splits)
  have "\<exists>ys. rel = unparts False ys \<and> cleaned ys"
  proof (cases "IsAbs ?c")
    case True
    obtain b t where s: "strip_common (parts root) (parts ?c) = (b, t)" by (rule prod.exhaust)
    have "rel = unparts False (map (\<lambda>_. ''..'') b @ t)"
      using r(1) True s by (auto simp: Rel_def split: if_splits)
    moreover have "cleaned (map (\<lambda>_. ''..'') b @ t)"
      unfolding cleaned_def
    proof (intro exI conjI ballI)
      show "map (\<lambda>_. ''..'') b @ t = replicate (length b) ''..'' @ t" by (simp add: map_replicate_const)
      fix y assume "y \<in> set t"
      then show "is_name y" using strip_common_names[of y "parts root" "parts ?c"] s parts_rooted[OF True] by simp
    qed
    ultimately show ?thesis by blast
  next
    case False
    then have "\<not> IsAbs (TrimSpace path)" by (auto simp: Clean_def unparts_def IsAbs_def)
    then have "rel = unparts False (parts (TrimSpace path))" using r(1) False by (simp add: Clean_def)
    then show ?thesis using parts_cleaned by blast
  qed
  then obtain ys where "rel = unparts False ys" "cleaned ys" by blast
  with r(2,3,4) cleaned_inside[of ys] show ?thesis by blast
qed

lemma resolvePath_under:
  assumes "resolvePath root path = Inl (rel, absPath)" "IsAbs root"
  shows "under root absPath"
  using resolvePath_parts[OF assms] parts_Join[OF assms(2)] by (auto simp: under_def)

lemma Join_under:
  assumes "under root p" "is_name name"
  shows "under root (Join p name)"
proof -
  have "name = unparts False [name]" by (simp add: unparts_def)
  then have "parts (Join p name) = parts p @ [name]" "IsAbs (Join p name)"
    using parts_Join[of p "[name]"] assms by (auto simp: under_def)
  with assms(1) show ?thesis by (auto simp: under_def prefix_def)
qed

section \<open>Only paths under the root matter\<close>

text \<open>Two file systems that agree below the root, and name their entries by plain names.\<close>

definition agree_under :: "string \<Rightarrow> file_system \<Rightarrow> file_system \<Rightarrow> bool" where
  "agree_under root fs1 fs2 \<longleftrightarrow>
     (\<forall>p. under root p \<longrightarrow>
        fileStat fs1 p = fileStat fs2 p \<and> fileOpen fs1 p = fileOpen fs2 p \<and>
        fileLstat fs1 p = fileLstat fs2 p \<and> fileReadDir fs1 p = fileReadDir fs2 p)"

definition plain_names :: "file_system \<Rightarrow> bool" where
  "plain_names fs \<longleftrightarrow> (\<forall>p names. fileReadDir fs p = Inl names \<longrightarrow> (\<forall>n \<in> set names. is_name n))"

definition on_files :: "tool_runner \<Rightarrow> file_system \<Rightarrow> tool_runner" where
  "on_files r fs = r\<lparr>trFS := fs\<rparr>"

lemma on_files_sel [simp]:
  "trRoot (on_files r fs) = trRoot r" "trFS (on_files r fs) = fs" "trRG (on_files r fs) = trRG r"
  "trMaxReadBytes (on_files r fs) = trMaxReadBytes r" "trMaxOutputBytes (on_files r fs) = trMaxOutputBytes r"
  by (simp_all add: on_files_def)

lemma readFile_confined:
  assumes "agree_under (trRoot r) fs1 fs2" "IsAbs (trRoot r)"
  shows "readFile (on_files r fs1) path start end' = readFile (on_files r fs2) path start end'"
proof (cases "resolvePath (trRoot r) path")
  case (Inl a)
  then obtain rel p where rp: "resolvePath (trRoot r) path = Inl (rel, p)" by (cases a) auto
  have e: "fileStat fs1 p = fileStat fs2 p" "fileOpen fs1 p = fileOpen fs2 p"
    using assms(1) resolvePath_under[OF rp assms(2)] by (auto simp: agree_under_def)
  show ?thesis unfolding readFile_def on_files_sel rp sum.case prod.case e by (rule refl)
next
  case (Inr err)
  show ?thesis unfolding readFile_def on_files_sel Inr sum.case by (rule refl)
qed

lemma dir_batch_confined:
  assumes "agree_under root fs1 fs2" "under root (lnAbs node)" "\<forall>n \<in> set names. is_name n"
  shows "dir_batch fs1 relRoot maxDepth node names = dir_batch fs2 relRoot maxDepth node names \<and>
     (\<forall>entries nodes. dir_batch fs1 relRoot maxDepth node names = Inl (entries, nodes) \<longrightarrow>
        (\<forall>n \<in> set nodes. under root (lnAbs n)))"
  using assms(3)
proof (induction names)
  case (Cons name names)
  have u: "under root (Join (lnAbs node) name)" using Join_under[OF assms(2)] Cons.prems by simp
  then have "fileLstat fs1 (Join (lnAbs node) name) = fileLstat fs2 (Join (lnAbs node) name)"
    using assms(1) by (auto simp: agree_under_def)
  then show ?case
    using Cons u by (auto simp: Let_def split: sum.splits prod.splits if_splits)
qed simp

lemma collect_confined:
  assumes "agree_under root fs1 fs2" "plain_names fs1" "\<forall>n \<in> set queue. under root (lnAbs n)"
  shows "collectListDirEntries cancelled fs1 relRoot maxDepth k queue entries =
     collectListDirEntries cancelled fs2 relRoot maxDepth k queue entries"
  using assms
proof (induction cancelled fs1 relRoot maxDepth k queue entries rule: collectListDirEntries.induct)
  case (2 cancelled fs1 relRoot maxDepth k node queue entries)
  have u: "under root (lnAbs node)" using "2.prems"(3) by simp
  then have rd: "fileReadDir fs1 (lnAbs node) = fileReadDir fs2 (lnAbs node)"
    using "2.prems"(1) by (auto simp: agree_under_def)
  show ?case
  proof (cases "cancelled k")
    case None
    show ?thesis
    proof (cases "fileReadDir fs1 (lnAbs node)")
      case (Inl names)
      then have "\<forall>n \<in> set names. is_name n" using "2.prems"(2) by (auto simp: plain_names_def)
      note B = dir_batch_confined[OF "2.prems"(1) u this, of relRoot maxDepth]
      show ?thesis
      proof (cases "dir_batch fs1 relRoot maxDepth node names")
        case b: (Inl a)
        obtain batch nodes where a: "a = (batch, nodes)" by (rule prod.exhaust)
        have "\<forall>n \<in> set (queue @ nodes). under root (lnAbs n)" using B b a "2.prems"(3) by auto
        then have "collectListDirEntries cancelled fs1 relRoot maxDepth (k + 1) (queue @ nodes) (entries @ sort_entries batch) =
            collectListDirEntries cancelled fs2 relRoot maxDepth (k + 1) (queue @ nodes) (entries @ sort_entries batch)"
          using "2.IH"[OF None Inl b] a "2.prems"(1,2) by simp
        moreover have "dir_batch fs2 relRoot maxDepth node names = Inl (batch, nodes)" using B b a by simp
        ultimately show ?thesis using None Inl rd b a by simp
      next
        case (Inr err)
        moreover from this have "dir_batch fs2 relRoot maxDepth node names = Inr err" using B by simp
        ultimately show ?thesis using None Inl rd by simp
      qed
    next
      case (Inr err)
      then show ?thesis using None rd by simp
    qed
  qed simp
qed simp

lemma listDir_confined:
  assumes "agree_under (trRoot r) fs1 fs2" "plain_names fs1" "IsAbs (trRoot r)"
  shows "listDir (on_files r fs1) cancelled path offset limit depth = listDir (on_files r fs2) cancelled path offset limit depth"
proof (cases "resolvePath (trRoot r) path")
  case (Inl a)
  then obtain rel p where rp: "resolvePath (trRoot r) path = Inl (rel, p)" by (cases a) auto
  note u = resolvePath_under[OF rp assms(3)]
  then have st: "fileStat fs1 p = fileStat fs2 p" using assms(1) by (auto simp: agree_under_def)
  have c: "collectListDirEntries cancelled fs1 rel d 1 [\<lparr>lnAbs = p, lnNormalized = [], lnDepth = 1\<rparr>] [] =
      collectListDirEntries cancelled fs2 rel d 1 [\<lparr>lnAbs = p, lnNormalized = [], lnDepth = 1\<rparr>] []" for d
    by (rule collect_confined[OF assms(1,2)]) (simp add: u)
  show ?thesis unfolding listDir_def on_files_sel rp sum.case prod.case st c by (rule refl)
next
  case (Inr err)
  show ?thesis unfolding listDir_def on_files_sel Inr sum.case by (rule refl)
qed

section \<open>Output limits\<close>

lemma truncateOutput_length:
  "maxBytes > 0 \<Longrightarrow> int (length (fst (truncateOutput output maxBytes))) \<le> maxBytes"
  by (auto simp: truncateOutput_def)

lemma applyOutputLimit_length:
  "maxBytes > 0 \<Longrightarrow> int (length (fst (applyOutputLimit output maxBytes truncated))) \<le> maxBytes"
  using truncateOutput_length[of maxBytes "output"] by (auto simp: applyOutputLimit_def)

lemma finalize_facts:
  "crOutputBytes (finalize r tool s e res) = int (length (crOutput (finalize r tool s e res)))"
  "trMaxOutputBytes r > 0 \<Longrightarrow> int (length (crOutput (finalize r tool s e res))) \<le> trMaxOutputBytes r"
  "crError (finalize r tool s e res) = (case res of Inl _ \<Rightarrow> [] | Inr err \<Rightarrow> err)"
  using applyOutputLimit_length[of "trMaxOutputBytes r"]
  by (auto simp: finalize_def Let_def split: sum.split prod.split) (metis fst_conv)+

end
