(* ===== verification/Tools_Theorems.thy ===== *)
theory Tools_Theorems
  imports Agent_Tools
begin

text \<open>
  The property of the repository tools, with an example: a root with a file and a directory, beside
  a file outside it that two file systems disagree on.
\<close>

section \<open>Confinement\<close>

definition tool_names :: "string set" where
  "tool_names = {''list_files'', ''list_dir'', ''search'', ''read_file''}"

lemma argument_errors_short:
  "OptionalString J args key = Inr err \<Longrightarrow> length err \<le> length key + 26"
  "RequiredString J args key = Inr err \<Longrightarrow> length err \<le> length key + 26"
  "OptionalStringSlice J args key = Inr err \<Longrightarrow> length err \<le> length key + 26"
  "OptionalInt J args key = Inr err \<Longrightarrow> length err \<le> length key + 26"
  by (auto simp: OptionalString_def RequiredString_def OptionalStringSlice_def OptionalInt_def
      split: option.splits if_splits sum.splits prod.splits)

lemma errorResult_facts:
  "crOutputBytes (errorResult now name err) = int (length (crOutput (errorResult now name err)))"
  "length err \<le> 57 \<Longrightarrow> length (crOutput (errorResult now name err)) \<le> 64"
  by (simp_all add: errorResult_def)

text \<open>A result that reports its own length and stays within a limit.\<close>

definition bounded_result :: "go_int \<Rightarrow> call_result \<Rightarrow> bool" where
  "bounded_result n res \<longleftrightarrow> crOutputBytes res = int (length (crOutput res)) \<and> crOutputBytes res \<le> n"

lemma bounded_error: "length err \<le> 57 \<Longrightarrow> n \<ge> 64 \<Longrightarrow> bounded_result n (errorResult now name err)"
  using errorResult_facts(1)[of now name err] errorResult_facts(2)[of err now name] by (simp add: bounded_result_def)

lemma bounded_finalize: "trMaxOutputBytes r > 0 \<Longrightarrow> trMaxOutputBytes r \<le> n \<Longrightarrow> bounded_result n (finalize r tool s e res)"
  using finalize_facts(1,2)[of r tool s e res] by (simp add: bounded_result_def)

lemma Execute_bounded:
  assumes "trMaxOutputBytes r > 0" "tcName c \<in> tool_names" "Execute J (Some r) clk cancelled c = Some res"
  shows "bounded_result (max 64 (trMaxOutputBytes r)) res"
proof -
  have f: "bounded_result (max 64 (trMaxOutputBytes r)) (finalize r tool s e x)" for tool s e x
    by (rule bounded_finalize[OF assms(1)]) simp
  have g: "length err \<le> length key + 26 \<Longrightarrow> length key \<le> 10 \<Longrightarrow>
      bounded_result (max 64 (trMaxOutputBytes r)) (errorResult now name err)" for err key now name
    by (rule bounded_error) auto
  note e = g[OF argument_errors_short(1)] g[OF argument_errors_short(2)] g[OF argument_errors_short(3)]
    g[OF argument_errors_short(4)]
  consider "tcName c = ''list_files''" | "tcName c = ''list_dir''" | "tcName c = ''search''" | "tcName c = ''read_file''"
    using assms(2) by (auto simp: tool_names_def)
  then show ?thesis
    using assms(3)
    by cases (auto simp: Execute_def Let_def ListFiles_def ListDir_def Search_def ReadFile_def f
        split: sum.splits prod.splits intro: e)
qed

lemma Execute_confined:
  assumes "agree_under (trRoot r) fs1 fs2" "plain_names fs1" "IsAbs (trRoot r)"
  shows "Execute J (Some (on_files r fs1)) clk cancelled c = Execute J (Some (on_files r fs2)) clk cancelled c"
proof -
  have fin: "finalize (on_files r fs1) = finalize (on_files r fs2)"
    by (simp add: fun_eq_iff finalize_def)
  have 1: "ListFiles (on_files r fs1) = ListFiles (on_files r fs2)"
    by (simp add: fun_eq_iff ListFiles_def listFiles_def fin)
  have "search (on_files r fs1) = search (on_files r fs2)"
    unfolding fun_eq_iff search_def on_files_sel by simp
  then have 2: "Search (on_files r fs1) = Search (on_files r fs2)"
    by (simp add: fun_eq_iff Search_def fin)
  have 3: "ReadFile (on_files r fs1) = ReadFile (on_files r fs2)"
    by (simp add: fun_eq_iff ReadFile_def fin readFile_confined[OF assms(1,3)])
  have 4: "ListDir (on_files r fs1) = ListDir (on_files r fs2)"
    by (simp add: fun_eq_iff ListDir_def fin listDir_confined[OF assms])
  show ?thesis unfolding Execute_def option.case 1 2 3 4 by (rule refl)
qed


definition ex_files :: "string \<Rightarrow> file_system" where
  "ex_files secret =
     \<lparr>fileStat = (\<lambda>p. if p = ''/r'' \<or> p = ''/r/d'' then Inl True
                    else if p = ''/r/a'' \<or> p = ''/secret'' then Inl False else Inr ''no such file''),
      fileOpen = (\<lambda>p. if p = ''/r/a'' then Inl (''one'' @ newline @ ''two'', None)
                    else if p = ''/secret'' then Inl (secret, None) else Inr ''no such file''),
      fileLstat = (\<lambda>p. if p = ''/r/d'' then Inl FileDirectory
                     else if p = ''/r/a'' then Inl FileRegular else Inr ''no such file''),
      fileReadDir = (\<lambda>p. if p = ''/r'' then Inl [''d'', ''a''] else if p = ''/r/d'' then Inl []
                       else Inr ''no such file'')\<rparr>"

definition ex_runner :: tool_runner where
  "ex_runner = \<lparr>trRoot = ''/r'', trMaxReadBytes = 100, trMaxOutputBytes = 100, trFS = ex_files [],
                trRG = (\<lambda>dir args. Inl ''hit'')\<rparr>"

definition ex_json :: json_decoders where
  "ex_json = \<lparr>jdString = Some, jdStrings = (\<lambda>s. Some [s]), jdInt = (\<lambda>s. Some 0)\<rparr>"

definition ex_read :: "string \<Rightarrow> tool_call" where
  "ex_read path = \<lparr>tcID = ''c'', tcName = ''read_file'', tcArgs = Some [(''path'', path)]\<rparr>"

lemma ex_files_agree: "agree_under ''/r'' (ex_files s) (ex_files t)"
proof -
  have "\<not> under ''/r'' ''/secret''" by code_simp
  then show ?thesis by (auto simp: agree_under_def ex_files_def)
qed

lemma ex_files_plain: "plain_names (ex_files s)"
  by (auto simp: plain_names_def ex_files_def is_name_def slash_def split: if_splits)


lemma ex_reads:
  "map_option crOutput (Execute ex_json (Some ex_runner) (0, 1) (\<lambda>_. None) (ex_read ''./a'')) =
     Some (''a'' @ newline @ ''1:one'' @ newline @ ''2:two'' @ newline)"
  "map_option crOutput (Execute ex_json (Some ex_runner) (0, 1) (\<lambda>_. None) (ex_read ''../secret'')) =
     Some (''error: path '' @ quote ''../secret'' @ '' escapes root'')"
  "map_option crOutput (ListDir ex_runner (0, 1) (\<lambda>_. None) ''.'' None None None) =
     Some (''Absolute path: /r'' @ newline @ ''a'' @ newline @ ''d/'')"
  by code_simp+

section \<open>Findings\<close>

text \<open>
  A page of \<open>list_dir\<close> whose limit is the largest integer overflows the end of the slice and
  panics; the limit comes from the model.
\<close>

lemma list_dir_limit_overflow:
  "ListDir ex_runner (0, 1) (\<lambda>_. None) ''.'' (Some 2) (Some (2 ^ 63 - 1)) None = None"
  by code_simp

text \<open>
  JSON's null as an optional integer is the integer zero and is refused, while an optional string
  that is null counts as absent.
\<close>

lemma null_integer_refused:
  "OptionalString ex_json [(''glob'', ''null'')] ''glob'' = Inl ([], False)"
  "OptionalInt ex_json [(''offset'', ''null'')] ''offset'' = Inl (Some 0)"
  "at_least_1 ''offset'' 1 (Some 0) = Inr ''offset must be >= 1''"
  by code_simp+

end
