(* ===== verification/Question.thy ===== *)
theory Question
  imports Go_Text
begin

text \<open>
  Question specifications and answers (\<open>internal/question\<close>): the validation of a specification and
  the extraction of the trailing answer from the output of the agent.

  Parameters: \<open>lower\<close> is \<open>strings.ToLower\<close> (all of Unicode), \<open>xml\<close> is \<open>xml.Unmarshal\<close> of an answer
  element, with its character data or its error, and the JSON and YAML decoders of a specification
  answer the documents of a file one after the other.
\<close>

section \<open>Specifications\<close>

record question =
  quID :: string
  quPrompt :: string
  quAnswers :: "string list"
  quCorrectAnswers :: "string list"

record question_spec =
  qsVersion :: go_int
  qsQuestions :: "question list"

text \<open>An issue is a field and a message.\<close>

type_synonym issue = "string \<times> string"

definition NormalizeAnswerText :: "(string \<Rightarrow> string) \<Rightarrow> string \<Rightarrow> string" where
  "NormalizeAnswerText lower v = lower (TrimSpace v)"

definition indexed :: "string \<Rightarrow> nat \<Rightarrow> string" where
  "indexed name i = name @ ''['' @ decimal i @ '']''"

definition normalizeStringSlice :: "string list \<Rightarrow> string list" where
  "normalizeStringSlice vs = map TrimSpace vs"

definition answer_issues :: "string \<Rightarrow> string list \<Rightarrow> issue list" where
  "answer_issues pre answers =
     (if answers = [] then [(pre @ ''.answers'', ''must include at least one entry'')]
      else concat (map (\<lambda>(i, a). if a = [] then [(indexed (pre @ ''.answers'') i, ''is required'')] else [])
             (enumerate 0 answers)))"

definition correct_issues :: "(string \<Rightarrow> string) \<Rightarrow> string \<Rightarrow> string list \<Rightarrow> string list \<Rightarrow> issue list" where
  "correct_issues lower pre answers correct =
     (if correct = [] then [(pre @ ''.correct_answers'', ''must include at least one entry'')]
      else
        let answerSet = map (NormalizeAnswerText lower) (filter (\<lambda>a. a \<noteq> []) answers) in
        concat (map (\<lambda>(i, c).
            if c = [] then [(indexed (pre @ ''.correct_answers'') i, ''is required'')]
            else if NormalizeAnswerText lower c \<notin> set answerSet
            then [(indexed (pre @ ''.correct_answers'') i, ''unknown answer '' @ quote c)]
            else [])
          (enumerate 0 correct)))"

text \<open>One question: its normal form and its issues, with the ids seen before it.\<close>

definition normalize_question :: "question \<Rightarrow> question" where
  "normalize_question q =
     \<lparr>quID = TrimSpace (quID q), quPrompt = TrimSpace (quPrompt q),
      quAnswers = normalizeStringSlice (quAnswers q),
      quCorrectAnswers = normalizeStringSlice (quCorrectAnswers q)\<rparr>"

definition question_issues :: "(string \<Rightarrow> string) \<Rightarrow> nat \<Rightarrow> string list \<Rightarrow> question \<Rightarrow> issue list" where
  "question_issues lower i seen q =
     (let pre = indexed ''questions'' i in
      (if quID q \<noteq> [] \<and> quID q \<in> set seen then [(pre @ ''.id'', ''duplicate id '' @ quote (quID q))] else []) @
      (if quPrompt q = [] then [(pre @ ''.question'', ''is required'')] else []) @
      answer_issues pre (quAnswers q) @
      correct_issues lower pre (quAnswers q) (quCorrectAnswers q))"

fun questions_issues :: "(string \<Rightarrow> string) \<Rightarrow> nat \<Rightarrow> string list \<Rightarrow> question list \<Rightarrow> issue list" where
  "questions_issues lower i seen [] = []"
| "questions_issues lower i seen (q # qs) =
     question_issues lower i seen q @
     questions_issues lower (i + 1) (if quID q \<noteq> [] then quID q # seen else seen) qs"

text \<open>\<open>NormalizeSpec\<close>: the normal form, or all issues in the order they are found.\<close>

definition NormalizeSpec :: "(string \<Rightarrow> string) \<Rightarrow> question_spec \<Rightarrow> question_spec + issue list" where
  "NormalizeSpec lower spec =
     (let qs = map normalize_question (qsQuestions spec);
          issues =
            (if qsVersion spec = 0 then [(''version'', ''is required'')]
             else if qsVersion spec \<noteq> 1 then [(''version'', ''unsupported version '' @ show_int (qsVersion spec))]
             else []) @
            (if qs = [] then [(''questions'', ''must include at least one entry'')] else []) @
            questions_issues lower 0 [] qs
      in if issues \<noteq> [] then Inr issues else Inl (spec\<lparr>qsQuestions := qs\<rparr>))"

definition ValidationError_Error :: "issue list \<Rightarrow> string" where
  "ValidationError_Error issues =
     (if issues = [] then []
      else ''question spec validation failed: '' @ join ''; '' (map (\<lambda>(field, msg). field @ '': '' @ msg) issues))"

section \<open>Loading\<close>

text \<open>
  A decoder reads the first document into a specification and then looks for another: the second
  answer is \<open>None\<close> at the end of the file, \<open>Some None\<close> for another document and otherwise an error.
\<close>

record spec_decoder =
  sdFirst :: "string \<Rightarrow> question_spec + string"
  sdNext :: "string \<Rightarrow> string option option"

definition decode_spec :: "string \<Rightarrow> spec_decoder \<Rightarrow> string \<Rightarrow> question_spec + string" where
  "decode_spec kind D content =
     (case sdFirst D content of
        Inr err \<Rightarrow> Inr (''parse '' @ kind @ '': '' @ err)
      | Inl spec \<Rightarrow>
         (case sdNext D content of
            None \<Rightarrow> Inl spec
          | Some None \<Rightarrow> Inr (''parse '' @ kind @ '': multiple documents are not supported'')
          | Some (Some err) \<Rightarrow> Inr (''parse '' @ kind @ '': '' @ err)))"

text \<open>\<open>filepath.Ext\<close>: from the last dot of the last element on.\<close>

definition file_ext :: "string \<Rightarrow> string" where
  "file_ext path =
     (let tail = takeWhile (\<lambda>c. c \<noteq> CHR ''.'' \<and> c \<noteq> CHR ''/'') (rev path);
          rest = dropWhile (\<lambda>c. c \<noteq> CHR ''.'' \<and> c \<noteq> CHR ''/'') (rev path)
      in case rest of [] \<Rightarrow> [] | c # _ \<Rightarrow> if c = CHR ''.'' then c # rev tail else [])"

definition parseSpec :: "(string \<Rightarrow> string) \<Rightarrow> spec_decoder \<Rightarrow> spec_decoder \<Rightarrow> string \<Rightarrow> string \<Rightarrow> question_spec + string" where
  "parseSpec lower json yaml content path =
     (if lower (file_ext path) = ''.json'' then decode_spec ''json'' json content
      else decode_spec ''yaml'' yaml content)"

definition LoadSpec ::
    "(string \<Rightarrow> string) \<Rightarrow> spec_decoder \<Rightarrow> spec_decoder \<Rightarrow> (string \<Rightarrow> string + string) \<Rightarrow> string \<Rightarrow>
     question_spec + string" where
  "LoadSpec lower json yaml readFile path =
     (case readFile path of
        Inr err \<Rightarrow> Inr (''read question spec: '' @ err)
      | Inl content \<Rightarrow>
         (case parseSpec lower json yaml content path of
            Inr err \<Rightarrow> Inr err
          | Inl spec \<Rightarrow>
             (case NormalizeSpec lower spec of
                Inr issues \<Rightarrow> Inr (ValidationError_Error issues)
              | Inl normalized \<Rightarrow> Inl normalized)))"

section \<open>Answers\<close>

record parsed_answer =
  paRaw :: string
  paNormalized :: string

definition ErrMissingAnswer :: string where "ErrMissingAnswer = ''missing <answer> block''"
definition ErrTrailingText :: string where "ErrTrailingText = ''trailing content after </answer>''"
definition ErrEmptyAnswer :: string where "ErrEmptyAnswer = ''empty answer text''"

definition open_tag :: string where "open_tag = ''<answer>''"
definition close_tag :: string where "close_tag = ''</answer>''"

definition ExtractTrailingAnswerXML :: "string \<Rightarrow> string + string" where
  "ExtractTrailingAnswerXML output =
     (let trimmed = TrimSpace output in
      if trimmed = [] then Inr ErrMissingAnswer
      else case LastIndex trimmed close_tag of
        None \<Rightarrow> Inr ErrMissingAnswer
      | Some e \<Rightarrow>
          if int e \<noteq> int (length trimmed) - int (length close_tag) then Inr ErrTrailingText
          else case LastIndex trimmed open_tag of
            None \<Rightarrow> Inr ErrMissingAnswer
          | Some s \<Rightarrow> if s > e then Inr ErrMissingAnswer else Inl (drop s trimmed))"

definition ParseAnswerXML ::
    "(string \<Rightarrow> string) \<Rightarrow> (string \<Rightarrow> string + string) \<Rightarrow> string \<Rightarrow> parsed_answer + string" where
  "ParseAnswerXML lower xml fragment =
     (let fragment = TrimSpace fragment in
      if fragment = [] then Inr ErrMissingAnswer
      else case xml fragment of
        Inr err \<Rightarrow> Inr (''parse answer xml: '' @ err)
      | Inl chardata \<Rightarrow>
          let text = TrimSpace chardata in
          if text = [] then Inr ErrEmptyAnswer
          else Inl \<lparr>paRaw = text, paNormalized = NormalizeAnswerText lower text\<rparr>)"

definition ParseAnswerFromOutput ::
    "(string \<Rightarrow> string) \<Rightarrow> (string \<Rightarrow> string + string) \<Rightarrow> string \<Rightarrow> parsed_answer + string" where
  "ParseAnswerFromOutput lower xml output =
     (case ExtractTrailingAnswerXML output of
        Inr err \<Rightarrow> Inr err
      | Inl fragment \<Rightarrow> ParseAnswerXML lower xml fragment)"

section \<open>A trailing answer is found\<close>

lemma TrimSpace_end:
  assumes "trim_left s = s" "trailing_space s = 0"
  shows "TrimSpace s = s"
  using assms by (simp add: TrimSpace_def trim_right.simps)

lemma ends_with_close_tag: "trailing_space (s @ close_tag) = 0"
proof -
  have "\<not> suffix w (s @ close_tag)" if "w \<in> set space_codes" for w
  proof
    assume "suffix w (s @ close_tag)"
    moreover have "w \<noteq> []" using that by (rule space_codes_nonempty)
    ultimately have "last w = last (s @ close_tag)" by (metis last_appendR suffix_def)
    moreover have "last w \<noteq> CHR ''>''" using that by (auto simp: space_codes_def)
    ultimately show False by (simp add: close_tag_def)
  qed
  then show ?thesis by (simp add: trailing_space_0)
qed

lemma trim_left_suffix: "suffix (trim_left s) s"
proof (induction s rule: trim_left.induct)
  case (1 s)
  show ?case
  proof (cases "leading_space s = 0 \<or> s = []")
    case True
    then show ?thesis by (auto simp: trim_left.simps[of s])
  next
    case False
    then have "suffix (trim_left (drop (leading_space s) s)) (drop (leading_space s) s)" using 1 by simp
    moreover have "suffix (drop (leading_space s) s) s" by (rule suffix_drop)
    ultimately show ?thesis using False by (auto simp: trim_left.simps[of s] intro: suffix_order.trans)
  qed
qed

text \<open>What is trimmed away at the left of a text before a tag leaves the tag alone.\<close>

lemma space_not_tag: "w \<in> set space_codes \<Longrightarrow> CHR ''<'' \<notin> set w"
  by (auto simp: space_codes_def)

lemma trim_left_before_tag:
  "\<exists>pre'. trim_left (pre @ CHR ''<'' # rest) = pre' @ CHR ''<'' # rest"
proof (induction "length pre" arbitrary: pre rule: less_induct)
  case less
  let ?s = "pre @ CHR ''<'' # rest"
  show ?case
  proof (cases "leading_space ?s = 0")
    case True
    then show ?thesis by (subst trim_left.simps) auto
  next
    case False
    then obtain w where f: "find (\<lambda>w. prefix w ?s) space_codes = Some w"
      by (auto simp: leading_space_def split: option.splits)
    have w: "w \<in> set space_codes" "prefix w ?s" using find_SomeD[OF f] by auto
    have ls: "leading_space ?s = length w" using f by (simp add: leading_space_def)
    have wp: "prefix w pre"
    proof (rule ccontr)
      assume "\<not> prefix w pre"
      then have "prefix (pre @ [CHR ''<'']) w"
        using w(2) by (auto simp: prefix_append prefix_Cons)
      then show False using space_not_tag[OF w(1)] by (auto simp: prefix_def)
    qed
    have "w \<noteq> []" using w(1) by (rule space_codes_nonempty)
    then have "length (drop (length w) pre) < length pre" using wp by (auto simp: prefix_def)
    from less[OF this] obtain pre' where
      "trim_left (drop (length w) pre @ CHR ''<'' # rest) = pre' @ CHR ''<'' # rest" by blast
    moreover have "drop (length w) ?s = drop (length w) pre @ CHR ''<'' # rest"
      using wp by (auto simp: prefix_def)
    ultimately show ?thesis using ls False by (subst trim_left.simps) auto
  qed
qed

lemma prefix_inside_none:
  assumes "c \<notin> set (tl sub)" "sub = c # cs" "prefix sub (drop i (sub @ t))" "0 < i" "i < length sub"
  shows False
proof -
  have "drop i (sub @ t) = drop i sub @ t" using assms(5) by simp
  then have "hd (drop i (sub @ t)) = sub ! i" using assms(5) by (simp add: hd_drop_conv_nth)
  moreover have "hd (drop i (sub @ t)) = c" using assms(2,3) by (auto simp: prefix_def)
  moreover have "sub ! i = tl sub ! (i - 1)" using assms(2,4,5) by (simp add: nth_tl)
  moreover have "tl sub ! (i - 1) \<in> set (tl sub)" using assms(2,4,5) by (intro nth_mem) auto
  ultimately show False using assms(1) by simp
qed

lemma trailing_answer_found:
  assumes "CHR ''<'' \<notin> set t"
  shows "ExtractTrailingAnswerXML (pre @ open_tag @ t @ close_tag) = Inl (open_tag @ t @ close_tag)"
proof -
  obtain pre' where l: "trim_left (pre @ open_tag @ t @ close_tag) = pre' @ open_tag @ t @ close_tag"
    using trim_left_before_tag[of pre "tl open_tag @ t @ close_tag"] by (auto simp: open_tag_def)
  let ?s = "pre' @ open_tag @ t @ close_tag"
  have trim: "TrimSpace (pre @ open_tag @ t @ close_tag) = ?s"
    using ends_with_close_tag[of "pre' @ open_tag @ t"] unfolding TrimSpace_def l
    by (subst trim_right.simps) simp
  have lt: "\<And>s i. prefix (CHR ''<'' # s) (drop i u) \<Longrightarrow> i < length u \<and> u ! i = CHR ''<''" for u
    by (metis Cons_eq_appendI drop_eq_Nil2 hd_drop_conv_nth leI list.sel(1) not_Cons_self2 prefix_Nil prefix_def list.distinct(1))
  have close: "LastIndex ?s close_tag = Some (length (pre' @ open_tag @ t))"
  proof -
    have "LastIndex ((pre' @ open_tag @ t) @ close_tag) close_tag = Some (length (pre' @ open_tag @ t))"
    proof (rule LastIndex_append)
      fix i assume i: "0 < i" "i \<le> length close_tag"
      show "\<not> prefix close_tag (drop i close_tag)"
        using i prefix_length_le[of close_tag "drop i close_tag"] by (auto simp: close_tag_def)
    qed simp
    then show ?thesis by simp
  qed
  have opn: "LastIndex ?s open_tag = Some (length pre')"
  proof (rule LastIndex_append)
    fix i assume i: "0 < i" "i \<le> length (open_tag @ t @ close_tag)"
    show "\<not> prefix open_tag (drop i (open_tag @ t @ close_tag))"
    proof
      assume p: "prefix open_tag (drop i (open_tag @ t @ close_tag))"
      have "i < length (open_tag @ t @ close_tag)" and at: "(open_tag @ t @ close_tag) ! i = CHR ''<''"
        using lt[of "''answer>''" i "open_tag @ t @ close_tag"] p by (auto simp: open_tag_def)
      have "i \<ge> length open_tag"
      proof (rule ccontr)
        assume "\<not> i \<ge> length open_tag"
        then have "i < length open_tag" by simp
        have tag: "CHR ''<'' \<notin> set (tl open_tag)" "open_tag = CHR ''<'' # ''answer>''"
          by (simp_all add: open_tag_def)
        show False by (rule prefix_inside_none[OF tag p i(1)]) fact
      qed
      moreover have "i \<ge> length open_tag + length t"
      proof (rule ccontr)
        assume "\<not> i \<ge> length open_tag + length t"
        then have "(open_tag @ t @ close_tag) ! i = t ! (i - length open_tag)" "i - length open_tag < length t"
          using \<open>i \<ge> length open_tag\<close> by (auto simp: nth_append)
        then show False using at assms by (metis nth_mem)
      qed
      ultimately obtain j where j: "i = length open_tag + length t + j" by (metis le_Suc_ex)
      then have "prefix open_tag (drop j close_tag)" using p by simp
      moreover have "\<not> prefix open_tag (drop j close_tag)"
        by (cases "j < length close_tag") (auto simp: close_tag_def open_tag_def less_Suc_eq numeral_eq_Suc drop_Cons' split: if_splits)
      ultimately show False by blast
    qed
  qed simp
  show ?thesis
    unfolding ExtractTrailingAnswerXML_def trim Let_def close opn by (simp add: close_tag_def)
qed

end
