(* ===== verification/Config.thy ===== *)
theory Config
  imports Go_Path Limiter Question
begin

text \<open>
  The configuration of the evaluation tool: its schema (\<open>internal/spec/types.go\<close>), the defaults,
  the validation and the ordering of tasks (\<open>internal/config\<close>), and the choice of the rate limiter
  it asks for (\<open>internal/ratelimit/limiter.go\<close>, \<open>pkg/ratelimiter/local/client.go\<close>).

  Parameters: \<open>parse\<close> is the YAML decoder, \<open>stat\<close> is \<open>os.Stat\<close> (\<open>None\<close> an error, otherwise
  whether the path is a directory), \<open>lower\<close> is \<open>strings.ToLower\<close>.  A temperature is never
  calculated with and is kept as its text.
\<close>

section \<open>The schema\<close>

record agent_config =
  agID :: string
  agType :: string
  agProvider :: string
  agModel :: string
  agMaxSteps :: go_int
  agTemperature :: string

record task_budget =
  tbMaxTokens :: go_int
  tbMaxSeconds :: go_int
  tbMaxSteps :: go_int

record task_compaction =
  tpMaxTokens :: go_int
  tpSummaryPrompt :: string
  tpSummaryPromptFile :: string
  tpRecentUserTokenBudget :: go_int
  tpRecentToolOutputLimit :: go_int

record task_config =
  tkID :: string
  tkType :: string
  tkAgent :: string
  tkModel :: string
  tkQuestionsFile :: string
  tkBudget :: task_budget
  tkCompaction :: task_compaction
  tkConcurrency :: go_int

record rate_limiter_config =
  rcMode :: string
  rcBaseURL :: string
  rcLimits :: "limit_state list option"
  rcLimitsPath :: string
  rcWorkers :: go_int
  rcRequestTimeoutMs :: go_int
  rcMaxOutputTokens :: uint64
  rcBatchSize :: go_int
  rcBatchFlushMs :: go_int

record cogni_config =
  cfVersion :: go_int
  cfOutputDir :: string
  cfSetupCommands :: "string list"
  cfAgents :: "agent_config list"
  cfDefaultAgent :: string
  cfRateLimiter :: rate_limiter_config
  cfTasks :: "task_config list"

section \<open>Defaults\<close>

definition normalizeRateLimiter :: "rate_limiter_config \<Rightarrow> rate_limiter_config" where
  "normalizeRateLimiter c =
     c\<lparr>rcMode := (if TrimSpace (rcMode c) = [] then ''disabled'' else rcMode c),
       rcWorkers := (if rcWorkers c = 0 then 1 else rcWorkers c),
       rcRequestTimeoutMs := (if rcRequestTimeoutMs c = 0 then 2000 else rcRequestTimeoutMs c),
       rcMaxOutputTokens := (if rcMaxOutputTokens c = 0 then 2048 else rcMaxOutputTokens c),
       rcBatchSize := (if rcBatchSize c = 0 then 128 else rcBatchSize c),
       rcBatchFlushMs := (if rcBatchFlushMs c = 0 then 2 else rcBatchFlushMs c)\<rparr>"

definition Normalize :: "cogni_config \<Rightarrow> cogni_config" where
  "Normalize cfg =
     (let c1 = cfg\<lparr>cfRateLimiter := normalizeRateLimiter (cfRateLimiter cfg)\<rparr>;
          c2 = (if cfDefaultAgent c1 = [] \<and> length (cfAgents c1) = 1
                then c1\<lparr>cfDefaultAgent := agID (hd (cfAgents c1))\<rparr> else c1)
      in c2\<lparr>cfTasks := map (\<lambda>t. if tkAgent t = [] then t\<lparr>tkAgent := cfDefaultAgent c2\<rparr> else t) (cfTasks c2)\<rparr>)"

section \<open>Validation\<close>

abbreviation issue_if :: "bool \<Rightarrow> string \<Rightarrow> string \<Rightarrow> issue list" where
  "issue_if b field msg \<equiv> if b then [(field, msg)] else []"

text \<open>The issues of the agents and, in the order they are met, the ids that are known.\<close>

fun agents_scan :: "nat \<Rightarrow> string list \<Rightarrow> agent_config list \<Rightarrow> issue list \<times> string list" where
  "agents_scan i ids [] = ([], ids)"
| "agents_scan i ids (a # as) =
     (let pre = indexed ''agents'' i; aid = TrimSpace (agID a);
          id_issues = (if aid = [] then [(pre @ ''.id'', ''is required'')]
                       else if aid \<in> set ids then [(''agents.id'', ''duplicate id '' @ quote aid)] else []);
          ids' = (if aid \<noteq> [] \<and> aid \<notin> set ids then aid # ids else ids);
          own = id_issues @
            (if agType a = [] then [(pre @ ''.type'', ''is required'')]
             else if agType a \<noteq> ''builtin'' then [(pre @ ''.type'', ''unsupported type '' @ quote (agType a))] else []) @
            issue_if (TrimSpace (agProvider a) = []) (pre @ ''.provider'') ''is required'' @
            issue_if (TrimSpace (agModel a) = []) (pre @ ''.model'') ''is required'' @
            issue_if (agMaxSteps a < 0) (pre @ ''.max_steps'') ''must be >= 0'';
          (rest, known) = agents_scan (i + 1) ids' as
      in (own @ rest, known))"

definition validateAgents :: "cogni_config \<Rightarrow> issue list \<times> string list" where
  "validateAgents cfg =
     (let (issues, ids) = agents_scan 0 [] (cfAgents cfg) in
      (issue_if (cfAgents cfg = []) ''agents'' ''at least one agent is required'' @ issues, ids))"

definition validateDefaultAgent :: "cogni_config \<Rightarrow> string list \<Rightarrow> issue list" where
  "validateDefaultAgent cfg ids =
     (let d = TrimSpace (cfDefaultAgent cfg) in
      if d = [] then [(''default_agent'', ''is required'')]
      else issue_if (d \<notin> set ids) ''default_agent'' (''unknown agent '' @ quote d))"

definition validateRateLimiter :: "(string \<Rightarrow> string) \<Rightarrow> rate_limiter_config \<Rightarrow> issue list" where
  "validateRateLimiter lower c =
     (let mode = lower (TrimSpace (rcMode c)); path = TrimSpace (rcLimitsPath c) in
      (if mode = [] \<or> mode = ''disabled'' then []
       else if mode = ''remote'' then
         issue_if (TrimSpace (rcBaseURL c) = []) ''rate_limiter.base_url'' ''is required when mode is remote''
       else if mode = ''embedded'' then
         (if path = [] \<and> rcLimits c = None
          then [(''rate_limiter.limits'', ''or limits_path is required when mode is embedded'')]
          else issue_if (path \<noteq> [] \<and> rcLimits c \<noteq> None) ''rate_limiter.limits''
                 ''cannot be set with limits_path when mode is embedded'')
       else [(''rate_limiter.mode'', ''must be one of disabled, remote, embedded'')]) @
      issue_if (rcWorkers c < 1) ''rate_limiter.workers'' ''must be >= 1'' @
      issue_if (rcBatchSize c < 1) ''rate_limiter.batch.size'' ''must be >= 1'' @
      issue_if (rcBatchFlushMs c < 1) ''rate_limiter.batch.flush_ms'' ''must be >= 1'' @
      issue_if (rcRequestTimeoutMs c < 1) ''rate_limiter.request_timeout_ms'' ''must be >= 1'')"

text \<open>A file that is named must be there and be no directory; the message quotes \<open>shown\<close>.\<close>

definition file_issues :: "(string \<Rightarrow> bool option) \<Rightarrow> string \<Rightarrow> string \<Rightarrow> string \<Rightarrow> string \<Rightarrow> issue list" where
  "file_issues stat baseDir field path shown =
     (let full = (if IsAbs path then path else Join baseDir path) in
      case stat full of
        None \<Rightarrow> [(field, ''file not found at '' @ quote shown)]
      | Some isDir \<Rightarrow> issue_if isDir field (''path '' @ quote shown @ '' is a directory''))"

definition validateQuestionTask :: "(string \<Rightarrow> bool option) \<Rightarrow> string \<Rightarrow> string \<Rightarrow> task_config \<Rightarrow> issue list" where
  "validateQuestionTask stat baseDir pre t =
     (let file = TrimSpace (tkQuestionsFile t) in
      if file = [] then [(pre @ ''.questions_file'', ''is required'')]
      else file_issues stat baseDir (pre @ ''.questions_file'') file file)"

definition task_issues ::
    "(string \<Rightarrow> bool option) \<Rightarrow> string \<Rightarrow> string list \<Rightarrow> nat \<Rightarrow> string list \<Rightarrow> task_config \<Rightarrow> issue list" where
  "task_issues stat baseDir agentIDs i seen t =
     (let pre = indexed ''tasks'' i; tid = TrimSpace (tkID t); kind = TrimSpace (tkType t);
          b = tkBudget t; c = tkCompaction t in
      (if tid = [] then [(pre @ ''.id'', ''is required'')]
       else issue_if (tid \<in> set seen) ''tasks.id'' (''duplicate id '' @ quote tid)) @
      (if kind = [] then [(pre @ ''.type'', ''is required'')]
       else issue_if (kind \<noteq> ''question_eval'') (pre @ ''.type'') (''unsupported type '' @ quote (tkType t))) @
      (if tkConcurrency t \<noteq> 0 then
         issue_if (tkConcurrency t < 1) (pre @ ''.concurrency'') ''must be >= 1'' @
         issue_if (kind \<noteq> [] \<and> kind \<noteq> ''question_eval'') (pre @ ''.concurrency'')
           ''is only valid for question_eval tasks''
       else []) @
      (if TrimSpace (tkAgent t) = [] then [(pre @ ''.agent'', ''is required'')]
       else issue_if (tkAgent t \<notin> set agentIDs) (pre @ ''.agent'') (''unknown agent '' @ quote (tkAgent t))) @
      issue_if (tbMaxTokens b < 0) (pre @ ''.budget.max_tokens'') ''must be >= 0'' @
      issue_if (tbMaxSeconds b < 0) (pre @ ''.budget.max_seconds'') ''must be >= 0'' @
      issue_if (tbMaxSteps b < 0) (pre @ ''.budget.max_steps'') ''must be >= 0'' @
      issue_if (tpMaxTokens c < 0) (pre @ ''.compaction.max_tokens'') ''must be >= 0'' @
      issue_if (tpRecentUserTokenBudget c < 0) (pre @ ''.compaction.recent_user_token_budget'') ''must be >= 0'' @
      issue_if (tpRecentToolOutputLimit c < 0) (pre @ ''.compaction.recent_tool_output_limit'') ''must be >= 0'' @
      issue_if (TrimSpace (tpSummaryPrompt c) \<noteq> [] \<and> TrimSpace (tpSummaryPromptFile c) \<noteq> [])
        (pre @ ''.compaction.summary_prompt'') ''cannot be set with summary_prompt_file'' @
      (if TrimSpace (tpSummaryPromptFile c) \<noteq> []
       then file_issues stat baseDir (pre @ ''.compaction.summary_prompt_file'') (tpSummaryPromptFile c)
              (tpSummaryPromptFile c)
       else []) @
      (if kind = ''question_eval'' then validateQuestionTask stat baseDir pre t else []))"

fun validateTasks ::
    "(string \<Rightarrow> bool option) \<Rightarrow> string \<Rightarrow> string list \<Rightarrow> nat \<Rightarrow> string list \<Rightarrow> task_config list \<Rightarrow> issue list" where
  "validateTasks stat baseDir agentIDs i seen [] = []"
| "validateTasks stat baseDir agentIDs i seen (t # ts) =
     task_issues stat baseDir agentIDs i seen t @
     validateTasks stat baseDir agentIDs (i + 1)
       (if TrimSpace (tkID t) \<noteq> [] then TrimSpace (tkID t) # seen else seen) ts"

definition Validate :: "(string \<Rightarrow> string) \<Rightarrow> (string \<Rightarrow> bool option) \<Rightarrow> cogni_config \<Rightarrow> string \<Rightarrow> issue list" where
  "Validate lower stat cfg baseDir0 =
     (let baseDir = (if baseDir0 = [] then ''.'' else baseDir0);
          (agent_issues, ids) = validateAgents cfg in
      (if cfVersion cfg = 0 then [(''version'', ''is required'')]
       else issue_if (cfVersion cfg \<noteq> 1) ''version'' (''unsupported version '' @ show_int (cfVersion cfg))) @
      issue_if (TrimSpace (cfOutputDir cfg) = []) ''repo.output_dir'' ''is required'' @
      agent_issues @ validateDefaultAgent cfg ids @ validateRateLimiter lower (cfRateLimiter cfg) @
      validateTasks stat baseDir ids 0 [] (cfTasks cfg))"

definition config_error :: "issue list \<Rightarrow> string" where
  "config_error issues =
     (if issues = [] then ''config validation failed''
      else join [CHR 0x0A] (map (\<lambda>(field, msg). field @ '': '' @ msg) issues))"

text \<open>\<open>ParseConfig\<close>: the decoder answers the first document and what it finds after it.\<close>

definition ParseConfig ::
    "(string \<Rightarrow> cogni_config + string) \<Rightarrow> (string \<Rightarrow> string option option) \<Rightarrow> string \<Rightarrow> cogni_config + string" where
  "ParseConfig first nextDoc content =
     (case first content of
        Inr err \<Rightarrow> Inr (''parse config: '' @ err)
      | Inl cfg \<Rightarrow>
         (case nextDoc content of
            None \<Rightarrow> Inl cfg
          | Some None \<Rightarrow> Inr ''parse config: multiple YAML documents are not supported''
          | Some (Some err) \<Rightarrow> Inr (''parse config: '' @ err)))"

definition Load ::
    "(string \<Rightarrow> string) \<Rightarrow> (string \<Rightarrow> bool option) \<Rightarrow> (string \<Rightarrow> cogni_config + string) \<Rightarrow>
     (string \<Rightarrow> string option option) \<Rightarrow> (string \<Rightarrow> string + string) \<Rightarrow> (string \<Rightarrow> string) \<Rightarrow> string \<Rightarrow>
     cogni_config + string" where
  "Load lower stat first nextDoc readFile rootOf path =
     (case readFile path of
        Inr err \<Rightarrow> Inr (''read config: '' @ err)
      | Inl content \<Rightarrow>
         (case ParseConfig first nextDoc content of
            Inr err \<Rightarrow> Inr err
          | Inl cfg0 \<Rightarrow>
              let cfg = Normalize cfg0; issues = Validate lower stat cfg (rootOf path) in
              if issues \<noteq> [] then Inr (config_error issues) else Inl cfg))"

section \<open>The order of tasks\<close>

fun unknown_ids :: "string list \<Rightarrow> string list \<Rightarrow> string list \<Rightarrow> string list" where
  "unknown_ids known seen [] = rev seen"
| "unknown_ids known seen (x # xs) =
     (let i = TrimSpace x in
      unknown_ids known (if i \<noteq> [] \<and> i \<notin> set known \<and> i \<notin> set seen then i # seen else seen) xs)"

definition OrderedTasks :: "cogni_config \<Rightarrow> string list \<Rightarrow> task_config list + string" where
  "OrderedTasks cfg selectedIDs =
     (if selectedIDs = [] then Inl (cfTasks cfg)
      else
        let selected = filter (\<lambda>i. i \<noteq> []) (map TrimSpace selectedIDs);
            unknown = unknown_ids (map tkID (cfTasks cfg)) [] selectedIDs in
        if unknown \<noteq> [] then Inr (''unknown task ids: '' @ join '', '' unknown)
        else Inl (filter (\<lambda>t. tkID t \<in> set selected) (cfTasks cfg)))"

section \<open>The rate limiter of a run\<close>

definition ResolveTaskWorkers :: "cogni_config \<Rightarrow> task_config \<Rightarrow> go_int" where
  "ResolveTaskWorkers cfg t =
     (if tkConcurrency t > 0 then tkConcurrency t
      else if rcWorkers (cfRateLimiter cfg) > 0 then rcWorkers (cfRateLimiter cfg) else 1)"

definition MaxOutputTokens_of :: "cogni_config \<Rightarrow> task_config \<Rightarrow> uint64" where
  "MaxOutputTokens_of cfg t =
     (if tbMaxTokens (tkBudget t) > 0 then word_of_int (tbMaxTokens (tkBudget t))
      else if rcMaxOutputTokens (cfRateLimiter cfg) > 0 then rcMaxOutputTokens (cfRateLimiter cfg)
      else 2048)"

text \<open>
  The limiter that is built: the one that allows everything, an HTTP client with its address and
  timeout, or a local client on a backend; the last two behind a batcher of a size and an interval
  when the size exceeds one.
\<close>

datatype limiter_choice =
    UseNoop
  | UseRemote string duration "(go_int \<times> duration) option"
  | UseEmbedded memory_backend "(go_int \<times> duration) option"

definition wrapBatcher :: "rate_limiter_config \<Rightarrow> (go_int \<times> duration) option" where
  "wrapBatcher c =
     (if rcBatchSize c > 1 then Some (rcBatchSize c, dur (rcBatchFlushMs c) Millisecond) else None)"

definition NewMemoryLimiterFromStates :: "memory_backend \<Rightarrow> limit_state list \<Rightarrow> memory_backend" where
  "NewMemoryLimiterFromStates fresh states = applyStates fresh states"

definition NewMemoryLimiterFromFile ::
    "memory_backend \<Rightarrow> (string \<Rightarrow> limit_state list + string) \<Rightarrow> go_error \<Rightarrow> limit_key list \<Rightarrow> disk \<Rightarrow> string \<Rightarrow>
     memory_backend + string" where
  "NewMemoryLimiterFromFile fresh dec readErr order d path =
     (case registry_Load dec readErr Map.empty path d of
        (_, Some err) \<Rightarrow> Inr err
      | (reg, None) \<Rightarrow> Inl (NewMemoryLimiterFromStates fresh (registry_List order reg)))"

definition resolveLimitsPath :: "string \<Rightarrow> string \<Rightarrow> string" where
  "resolveLimitsPath repoRoot limitsPath =
     (if IsAbs limitsPath \<or> TrimSpace repoRoot = [] then limitsPath else Join repoRoot limitsPath)"

text \<open>\<open>statErr\<close> is the error of \<open>os.Stat\<close> on a path, \<open>from_file\<close> the client of a limits file.\<close>

definition buildEmbeddedLimiter ::
    "memory_backend \<Rightarrow> (string \<Rightarrow> go_error) \<Rightarrow> (string \<Rightarrow> memory_backend + string) \<Rightarrow> rate_limiter_config \<Rightarrow> string \<Rightarrow>
     limiter_choice + string" where
  "buildEmbeddedLimiter fresh statErr from_file c repoRoot =
     (let path = TrimSpace (rcLimitsPath c) in
      if path = [] \<and> rcLimits c = None
      then Inr ''rate limiter limits or limits_path is required for embedded mode''
      else if path \<noteq> [] \<and> rcLimits c \<noteq> None
      then Inr ''rate limiter limits cannot be set with limits_path for embedded mode''
      else case rcLimits c of
        Some states \<Rightarrow> Inl (UseEmbedded (NewMemoryLimiterFromStates fresh states) (wrapBatcher c))
      | None \<Rightarrow>
          let full = resolveLimitsPath repoRoot path in
          (case statErr full of
             Some err \<Rightarrow> Inr (''read limits file: '' @ err)
           | None \<Rightarrow>
              (case from_file full of
                 Inr err \<Rightarrow> Inr err
               | Inl m \<Rightarrow> Inl (UseEmbedded m (wrapBatcher c)))))"

text \<open>\<open>buildRemoteLimiter\<close>: an HTTP client of the address with the timeout of a request.\<close>

definition buildRemoteLimiter :: "rate_limiter_config \<Rightarrow> limiter_choice + string" where
  "buildRemoteLimiter c =
     (if TrimSpace (rcBaseURL c) = [] then Inr ''rate limiter base_url is required for remote mode''
      else Inl (UseRemote (rcBaseURL c) (dur (rcRequestTimeoutMs c) Millisecond) (wrapBatcher c)))"

definition BuildLimiter ::
    "(string \<Rightarrow> string) \<Rightarrow> memory_backend \<Rightarrow> (string \<Rightarrow> go_error) \<Rightarrow> (string \<Rightarrow> memory_backend + string) \<Rightarrow>
     cogni_config \<Rightarrow> string \<Rightarrow> limiter_choice + string" where
  "BuildLimiter lower fresh statErr from_file cfg repoRoot =
     (let c = cfRateLimiter cfg; mode = lower (TrimSpace (rcMode c)) in
      if mode = [] \<or> mode = ''disabled'' then Inl UseNoop
      else if mode = ''remote'' then buildRemoteLimiter c
      else if mode = ''embedded'' then buildEmbeddedLimiter fresh statErr from_file c repoRoot
      else Inr (''unsupported rate limiter mode '' @ quote (rcMode c)))"

end
