(* ===== verification/Runner_Plan.thy ===== *)
theory Runner_Plan
  imports Complex_Main Config Agent_Call
begin

text \<open>
  The frame of an evaluation run (\<open>internal/runner\<close>): task selectors (\<open>selectors.go\<close>), the plan of
  tasks, agents and models (\<open>run_plan.go\<close>, \<open>run_types.go\<close>), the compaction settings, session and
  prompt of a question (\<open>compaction_config.go\<close>, \<open>session.go\<close>, \<open>question_prompt.go\<close>,
  \<open>question_eval_helpers.go\<close>), the tool definitions (\<open>run_tools.go\<close>), the setup commands
  (\<open>run_setup.go\<close>), the results and their summary (\<open>results.go\<close>, \<open>results_question.go\<close>,
  \<open>run_summary.go\<close>), and the names of the outputs (\<open>output.go\<close>, \<open>run_paths.go\<close>, \<open>run_id.go\<close>).

  A ratio of two counts is kept as the exact rational the program rounds to a \<open>float64\<close>, a number of
  seconds as the duration it is converted from.
\<close>

section \<open>Selectors\<close>

record task_selector =
  slTaskID :: string
  slAgentID :: string

text \<open>\<open>strings.SplitN(s, "@", 2)\<close>: what precedes the first separator, and the rest if there is one.\<close>

definition split_at :: "string \<Rightarrow> string \<times> string option" where
  "split_at s =
     (takeWhile (\<lambda>c. c \<noteq> CHR ''@'') s,
      case dropWhile (\<lambda>c. c \<noteq> CHR ''@'') s of [] \<Rightarrow> None | _ # after \<Rightarrow> Some after)"

definition parse_selector :: "string \<Rightarrow> string \<Rightarrow> task_selector + string" where
  "parse_selector input trimmed =
     (let bad = Inr (''invalid selector '' @ quote input) in
      if count_byte CHR ''@'' trimmed > 1 then bad
      else
        let (before, rest) = split_at trimmed; taskID = TrimSpace before in
        if taskID = [] then bad
        else case rest of
          None \<Rightarrow> Inl \<lparr>slTaskID = taskID, slAgentID = []\<rparr>
        | Some after \<Rightarrow>
            let agentID = TrimSpace after in
            if agentID = [] then bad else Inl \<lparr>slTaskID = taskID, slAgentID = agentID\<rparr>)"

fun ParseSelectors :: "string list \<Rightarrow> task_selector list + string" where
  "ParseSelectors [] = Inl []"
| "ParseSelectors (input # inputs) =
     (let trimmed = TrimSpace input in
      if trimmed = [] then ParseSelectors inputs
      else case parse_selector input trimmed of
        Inr err \<Rightarrow> Inr err
      | Inl selector \<Rightarrow>
         (case ParseSelectors inputs of
            Inr err \<Rightarrow> Inr err
          | Inl selectors \<Rightarrow> Inl (selector # selectors)))"

fun selector_error :: "string list \<Rightarrow> string list \<Rightarrow> task_selector list \<Rightarrow> go_error" where
  "selector_error taskIDs agentIDs [] = None"
| "selector_error taskIDs agentIDs (s # rest) =
     (if slTaskID s \<notin> set taskIDs then Some (''unknown task id '' @ quote (slTaskID s))
      else if slAgentID s \<noteq> [] \<and> slAgentID s \<notin> set agentIDs
      then Some (''unknown agent id '' @ quote (slAgentID s))
      else selector_error taskIDs agentIDs rest)"

definition ValidateSelectors :: "cogni_config \<Rightarrow> task_selector list \<Rightarrow> go_error" where
  "ValidateSelectors cfg selectors =
     (if selectors = [] then None
      else selector_error (map tkID (cfTasks cfg)) (map agID (cfAgents cfg)) selectors)"

section \<open>The plan\<close>

record task_run =
  trnTask :: task_config
  trnAgent :: agent_config
  trnModel :: string
  trnAgentID :: string

text \<open>The maps the plan looks agents up in: a later entry with the same key replaces an earlier one.\<close>

definition agent_by_id :: "agent_config list \<Rightarrow> string \<rightharpoonup> agent_config" where
  "agent_by_id agents = foldl (\<lambda>m a. m(agID a \<mapsto> a)) Map.empty agents"

definition selected_agent :: "task_selector list \<Rightarrow> string \<rightharpoonup> string" where
  "selected_agent selectors =
     foldl (\<lambda>m s. if slAgentID s \<noteq> [] then m(slTaskID s \<mapsto> slAgentID s) else m) Map.empty selectors"

definition run_agent_id :: "cogni_config \<Rightarrow> task_selector list \<Rightarrow> string \<Rightarrow> task_config \<Rightarrow> string" where
  "run_agent_id cfg selectors override t =
     (if override \<noteq> [] then override
      else case selected_agent selectors (tkID t) of
        Some a \<Rightarrow> a
      | None \<Rightarrow> if tkAgent t \<noteq> [] then tkAgent t else cfDefaultAgent cfg)"

fun plan_runs :: "(string \<rightharpoonup> agent_config) \<Rightarrow> (task_config \<Rightarrow> string) \<Rightarrow> task_config list \<Rightarrow> task_run list + string" where
  "plan_runs agents agent_id [] = Inl []"
| "plan_runs agents agent_id (t # ts) =
     (case agents (agent_id t) of
        None \<Rightarrow> Inr (''unknown agent id '' @ quote (agent_id t))
      | Some a \<Rightarrow>
         (case plan_runs agents agent_id ts of
            Inr err \<Rightarrow> Inr err
          | Inl runs \<Rightarrow>
              Inl (\<lparr>trnTask = t, trnAgent = a,
                    trnModel = (if TrimSpace (tkModel t) = [] then agModel a else tkModel t),
                    trnAgentID = agent_id t\<rparr> # runs)))"

definition planTaskRuns :: "cogni_config \<Rightarrow> task_selector list \<Rightarrow> string \<Rightarrow> task_run list + string" where
  "planTaskRuns cfg selectors override =
     (case ValidateSelectors cfg selectors of
        Some err \<Rightarrow> Inr err
      | None \<Rightarrow>
         (case OrderedTasks cfg (map slTaskID selectors) of
            Inr err \<Rightarrow> Inr err
          | Inl tasks \<Rightarrow> plan_runs (agent_by_id (cfAgents cfg)) (run_agent_id cfg selectors override) tasks))"

section \<open>What a question is asked with\<close>

definition resolveQuestionsFile :: "string \<Rightarrow> string \<Rightarrow> string" where
  "resolveQuestionsFile repoRoot questionsFile =
     (if TrimSpace questionsFile = [] \<or> IsAbs questionsFile then questionsFile
      else Join repoRoot questionsFile)"

definition isCorrectAnswer :: "(string \<Rightarrow> string) \<Rightarrow> string \<Rightarrow> string list \<Rightarrow> bool" where
  "isCorrectAnswer lower normalized correctAnswers \<longleftrightarrow>
     (\<exists>candidate \<in> set correctAnswers. NormalizeAnswerText lower candidate = normalized)"

definition buildQuestionPrompt :: "question \<Rightarrow> string" where
  "buildQuestionPrompt item =
     ''Answer the question about the repository.'' @ newline @
     ''You may include reasoning, but the final output must end with:'' @ newline @
     ''<answer>...</answer>'' @ newline @
     ''Do not add any text after </answer>.'' @ newline @ newline @
     ''Question:'' @ newline @ quPrompt item @ newline @ newline @ ''Answer choices:'' @ newline @
     concat (map (\<lambda>answer. ''- '' @ answer @ newline) (quAnswers item))"

definition newSession :: "task_run \<Rightarrow> string \<Rightarrow> tool_definition list \<Rightarrow> bool \<Rightarrow> session" where
  "newSession task repoRoot toolsDefs verbose =
     (let ctx = \<lparr>txModel = trnModel task, txModelFamily = \<lparr>mfBaseInstructionsTemplate = [],
                   mfNeedsSpecialApplyPatchInstructions = False, mfSupportsParallelToolCalls = False\<rparr>,
                 txTools = toolsDefs, txApprovalPolicy = [],
                 txSandboxPolicy = \<lparr>spMode = [], spNetworkAccess = [], spWritableRoots = [], spShell = []\<rparr>,
                 txCWD = repoRoot, txDeveloperInstructions = [], txUserInstructions = [],
                 txBaseInstructionsOverride = [], txOutputSchema = [],
                 txFeatures = \<lparr>ffParallelTools = False, ffSkillsEnabled = False\<rparr>, txVerbose = verbose\<rparr>
      in \<lparr>snCtx = ctx, snHistory = BuildInitialContext ctx\<rparr>)"

definition buildCompactionConfig ::
    "(string \<Rightarrow> string + string) \<Rightarrow> task_config \<Rightarrow> string \<Rightarrow> compaction_config + string" where
  "buildCompactionConfig readFile t repoRoot =
     (let c = tkCompaction t;
          file = tpSummaryPromptFile c;
          prompt = (if TrimSpace file = [] then Inl (TrimSpace (tpSummaryPrompt c))
                    else case readFile (if IsAbs file then file else Join repoRoot file) of
                      Inr err \<Rightarrow> Inr (''read compaction summary prompt: '' @ err)
                    | Inl content \<Rightarrow> Inl (TrimSpace content))
      in case prompt of
           Inr err \<Rightarrow> Inr err
         | Inl p \<Rightarrow>
             Inl (NormalizeCompactionConfig
               \<lparr>ccSoftLimit = tpMaxTokens c, ccHardLimit = tbMaxTokens (tkBudget t), ccSummaryPrompt = p,
                ccRecentUserTokenBudget = tpRecentUserTokenBudget c,
                ccRecentToolOutputLimit = tpRecentToolOutputLimit c\<rparr>))"

definition limitOrDefault :: "go_int \<Rightarrow> go_int \<Rightarrow> go_int" where
  "limitOrDefault limit fallback = (if limit > 0 then limit else if fallback > 0 then fallback else 0)"

definition defaultToolDefinitions :: "tool_definition list" where
  "defaultToolDefinitions =
     [\<lparr>defName = ''list_files'',
       defDescription = ''List files in the repository. The glob argument follows .gitignore rules. Equivalent to `rg --files -g {glob}`'',
       defParameters = Some (ObjectSchema [(''glob'', StringSchema)] [] (Some False))\<rparr>,
      \<lparr>defName = ''list_dir'',
       defDescription = ''List directory entries in the repository with depth limits and pagination'',
       defParameters = Some (ObjectSchema
         [(''path'', StringSchema), (''offset'', IntegerSchema), (''limit'', IntegerSchema), (''depth'', IntegerSchema)]
         [''path''] (Some False))\<rparr>,
      \<lparr>defName = ''search'', defDescription = ''Search for a query string in files'',
       defParameters = Some (ObjectSchema
         [(''query'', StringSchema), (''paths'', ArraySchema StringSchema)] [''query''] (Some False))\<rparr>,
      \<lparr>defName = ''read_file'', defDescription = ''Read a file from the repository'',
       defParameters = Some (ObjectSchema
         [(''path'', StringSchema), (''start_line'', IntegerSchema), (''end_line'', IntegerSchema)]
         [''path''] (Some False))\<rparr>]"

text \<open>The setup commands, run one after the other by \<open>runner\<close> until one fails.\<close>

fun runSetupCommands :: "('w \<Rightarrow> string \<Rightarrow> string \<Rightarrow> 'w \<times> go_error) \<Rightarrow> string \<Rightarrow> string list \<Rightarrow> 'w \<Rightarrow> 'w \<times> go_error" where
  "runSetupCommands runner dir [] w = (w, None)"
| "runSetupCommands runner dir (command # commands) w =
     (if TrimSpace command = [] then runSetupCommands runner dir commands w
      else case runner w dir command of
        (w', Some err) \<Rightarrow> (w', Some err)
      | (w', None) \<Rightarrow> runSetupCommands runner dir commands w')"

section \<open>Results\<close>

record question_result =
  qrID :: string
  qrQuestion :: string
  qrAnswers :: "string list"
  qrCorrectAnswers :: "string list"
  qrAgentAnswer :: string
  qrCorrect :: bool
  qrParseError :: string
  qrRunError :: string
  qrTokensTotal :: go_int
  qrWallTime :: duration
  qrAgentSteps :: go_int
  qrToolCalls :: "string \<rightharpoonup> go_int"
  qrCompactions :: go_int
  qrLastSummaryTokens :: go_int

record question_summary =
  qsQuestionsTotal :: go_int
  qsQuestionsCorrect :: go_int
  qsQuestionsIncorrect :: go_int
  qsAccuracy :: rat

record question_eval =
  qeQuestionsFile :: string
  qeQuestions :: "question_result list"
  qeSummary :: question_summary

record task_result =
  taTaskID :: string
  taType :: string
  taStatus :: string
  taFailureReason :: "string option"
  taQuestionEval :: "question_eval option"

record run_summary =
  rsTasksTotal :: go_int
  rsTasksPassed :: go_int
  rsTasksFailed :: go_int
  rsPassRate :: rat
  rsTokensTotal :: go_int
  rsQuestionsTotal :: go_int
  rsQuestionsCorrect :: go_int
  rsQuestionsIncorrect :: go_int
  rsQuestionAccuracy :: rat

record agent_info =
  aiID :: string
  aiType :: string
  aiProvider :: string
  aiModel :: string
  aiTemperature :: string
  aiMaxSteps :: go_int
  aiToolingVersion :: string

record repo_metadata =
  rmName :: string
  rmVCS :: string
  rmCommit :: string
  rmBranch :: string
  rmDirty :: bool

record run_results =
  rrRunID :: string
  rrRepo :: repo_metadata
  rrAgents :: "agent_info list"
  rrStartedAt :: go_time
  rrFinishedAt :: go_time
  rrTasks :: "task_result list"
  rrSummary :: run_summary

definition ratio :: "go_int \<Rightarrow> go_int \<Rightarrow> rat" where
  "ratio n d = (if d > 0 then of_int n / of_int d else 0)"

text \<open>What the loop of \<open>summarize\<close> adds for one task; the counts are below the width of an \<open>int\<close>.\<close>

definition summarize_task :: "run_summary \<Rightarrow> task_result \<Rightarrow> run_summary" where
  "summarize_task s t =
     (let s1 = (if taStatus t = ''pass'' then s\<lparr>rsTasksPassed := rsTasksPassed s + 1\<rparr>
                else if taStatus t = ''fail'' then s\<lparr>rsTasksFailed := rsTasksFailed s + 1\<rparr> else s)
      in case taQuestionEval t of
           None \<Rightarrow> s1
         | Some e \<Rightarrow>
             s1\<lparr>rsTokensTotal := foldl (\<lambda>n q. n + qrTokensTotal q) (rsTokensTotal s1) (qeQuestions e),
                rsQuestionsTotal := rsQuestionsTotal s1 + qsQuestionsTotal (qeSummary e),
                rsQuestionsCorrect := rsQuestionsCorrect s1 + qsQuestionsCorrect (qeSummary e),
                rsQuestionsIncorrect := rsQuestionsIncorrect s1 + qsQuestionsIncorrect (qeSummary e)\<rparr>)"

definition summarize :: "task_result list \<Rightarrow> run_summary" where
  "summarize tasks =
     (let s = foldl summarize_task
                \<lparr>rsTasksTotal = int (length tasks), rsTasksPassed = 0, rsTasksFailed = 0, rsPassRate = 0,
                 rsTokensTotal = 0, rsQuestionsTotal = 0, rsQuestionsCorrect = 0,
                 rsQuestionsIncorrect = 0, rsQuestionAccuracy = 0\<rparr> tasks
      in s\<lparr>rsPassRate := ratio (rsTasksPassed s) (rsTasksTotal s),
           rsQuestionAccuracy := ratio (rsQuestionsCorrect s) (rsQuestionsTotal s)\<rparr>)"

section \<open>Outputs\<close>

record output_paths =
  opRoot :: string
  opCommit :: string
  opRunID :: string

definition NewOutputPaths :: "string \<Rightarrow> string \<Rightarrow> string \<Rightarrow> output_paths + string" where
  "NewOutputPaths outRoot commit runID =
     (if TrimSpace outRoot = [] then Inr ''output root is empty''
      else if TrimSpace commit = [] then Inr ''commit is empty''
      else if TrimSpace runID = [] then Inr ''run ID is empty''
      else Inl \<lparr>opRoot = outRoot, opCommit = commit, opRunID = runID\<rparr>)"

text \<open>\<open>filepath.Join\<close> of any number of elements.\<close>

definition JoinAll :: "string list \<Rightarrow> string" where
  "JoinAll elems =
     (let named = filter (\<lambda>e. e \<noteq> []) elems in if named = [] then [] else Clean (join [slash] named))"

definition RunDir :: "output_paths \<Rightarrow> string" where
  "RunDir p = JoinAll [opRoot p, opCommit p, opRunID p]"

definition ResultsPath :: "output_paths \<Rightarrow> string" where "ResultsPath p = Join (RunDir p) ''results.json''"
definition ReportPath :: "output_paths \<Rightarrow> string" where "ReportPath p = Join (RunDir p) ''report.html''"
definition LogsDir :: "output_paths \<Rightarrow> string" where "LogsDir p = Join (RunDir p) ''logs''"

definition resolveOutputDir :: "string \<Rightarrow> string \<Rightarrow> string" where
  "resolveOutputDir repoRoot outputDir =
     (if outputDir = [] \<or> IsAbs outputDir then outputDir else Join repoRoot outputDir)"

text \<open>
  A run id: the UTC time, formatted by \<open>fmt\<close>, and the hexadecimal digits of six random bytes.
  \<open>random\<close> is \<open>io.ReadFull\<close> on the reader.
\<close>

definition runIDSuffixBytes :: nat where "runIDSuffixBytes = 6"

definition EncodeToString :: "string \<Rightarrow> string" where
  "EncodeToString bytes = concat (map (\<lambda>c. [hex_digit (of_char c div 16), hex_digit (of_char c mod 16)]) bytes)"

definition FormatRunID :: "(go_time \<Rightarrow> string) \<Rightarrow> go_time \<Rightarrow> string \<Rightarrow> string" where
  "FormatRunID fmt now tail = fmt now @ ''-'' @ tail"

definition NewRunIDWithRand ::
    "(go_time \<Rightarrow> string) \<Rightarrow> go_time \<Rightarrow> (nat \<Rightarrow> string + string) option \<Rightarrow> string + string" where
  "NewRunIDWithRand fmt now r =
     (case r of
        None \<Rightarrow> Inr ''random reader is nil''
      | Some random \<Rightarrow>
         (case random runIDSuffixBytes of
            Inr err \<Rightarrow> Inr (''read random bytes: '' @ err)
          | Inl buf \<Rightarrow> Inl (FormatRunID fmt now (EncodeToString buf))))"

end
