(* ===== verification/Runner_Events.thy ===== *)
theory Runner_Events
  imports Runner_Plan Scheduler
begin

text \<open>
  The events of a run (\<open>internal/runner\<close>: \<open>observer.go\<close>, \<open>question_observer.go\<close>,
  \<open>tool_observer.go\<close>): the observer's callbacks, the bridge from the jobs of the scheduler to the
  questions of a task, and the executor that reports the tools it runs.

  An observer acts on the state of the world \<open>'w\<close>; a pointer that may be nil is an option.  The
  clock is a parameter that reads the time from the world.
\<close>

section \<open>Events\<close>

datatype question_event_type =
    QuestionQueued | QuestionScheduled | QuestionReserving | QuestionWaitingRateLimit
  | QuestionWaitingLimitDecreasing | QuestionWaitingLimiterError | QuestionRunning | QuestionParsing
  | QuestionCorrect | QuestionIncorrect | QuestionParseError | QuestionBudgetExceeded
  | QuestionRuntimeError | QuestionSkipped | QuestionToolStart | QuestionToolFinish

record question_event =
  veTaskID :: string
  veQuestionIndex :: go_int
  veQuestionID :: string
  veQuestionText :: string
  veType :: question_event_type
  veRetryAfterMs :: go_int
  veToolName :: string
  veToolDuration :: duration
  veToolError :: string
  veTokens :: go_int
  veWallTime :: duration
  veError :: string
  veEmittedAt :: go_time

record event_options =
  eoEventType :: question_event_type
  eoRetryAfterMs :: go_int
  eoToolName :: string
  eoToolDuration :: duration
  eoToolError :: string
  eoTokens :: go_int
  eoWallTime :: duration
  eoError :: string
  eoEmittedAt :: go_time

text \<open>The options that set the type and leave the other fields zero.\<close>

definition event_of :: "question_event_type \<Rightarrow> event_options" where
  "event_of t = \<lparr>eoEventType = t, eoRetryAfterMs = 0, eoToolName = [], eoToolDuration = 0, eoToolError = [],
                 eoTokens = 0, eoWallTime = 0, eoError = [], eoEmittedAt = zero_time\<rparr>"

record 'w run_observer =
  obOnRunStart :: "string \<Rightarrow> string \<Rightarrow> 'w \<Rightarrow> 'w"
  obOnTaskStart :: "string \<Rightarrow> string \<Rightarrow> string \<Rightarrow> string \<Rightarrow> string \<Rightarrow> 'w \<Rightarrow> 'w"
  obOnQuestionEvent :: "question_event \<Rightarrow> 'w \<Rightarrow> 'w"
  obOnTaskEnd :: "string \<Rightarrow> string \<Rightarrow> string option \<Rightarrow> 'w \<Rightarrow> 'w"
  obOnRunEnd :: "run_results \<Rightarrow> 'w \<Rightarrow> 'w"

type_synonym 'w clock = "'w \<Rightarrow> 'w \<times> go_time"

section \<open>The observer of the jobs of a task\<close>

record 'w job_observer =
  joObserver :: "'w run_observer"
  joTaskID :: string
  joQuestions :: "question list"
  joJobIndex :: "string \<rightharpoonup> go_int"

definition newQuestionJobObserver ::
    "'w run_observer option \<Rightarrow> string \<Rightarrow> question list \<Rightarrow> 'w job_observer option" where
  "newQuestionJobObserver observer taskID questions =
     (case observer of
        None \<Rightarrow> None
      | Some ob \<Rightarrow> Some \<lparr>joObserver = ob, joTaskID = taskID, joQuestions = questions, joJobIndex = Map.empty\<rparr>)"

definition Emit :: "'w clock \<Rightarrow> 'w job_observer option \<Rightarrow> go_int \<Rightarrow> event_options \<Rightarrow> 'w \<Rightarrow> 'w" where
  "Emit now observer index opts w =
     (case observer of
        None \<Rightarrow> w
      | Some ob \<Rightarrow>
          if index < 0 \<or> index \<ge> int (length (joQuestions ob)) then w
          else
            let item = joQuestions ob ! nat index;
                (w', emittedAt) = (if IsZero (eoEmittedAt opts) then now w else (w, eoEmittedAt opts))
            in obOnQuestionEvent (joObserver ob)
                 \<lparr>veTaskID = joTaskID ob, veQuestionIndex = index, veQuestionID = quID item,
                  veQuestionText = quPrompt item, veType = eoEventType opts,
                  veRetryAfterMs = eoRetryAfterMs opts, veToolName = eoToolName opts,
                  veToolDuration = eoToolDuration opts, veToolError = eoToolError opts,
                  veTokens = eoTokens opts, veWallTime = eoWallTime opts, veError = eoError opts,
                  veEmittedAt = emittedAt\<rparr> w')"

definition EmitQueuedAll :: "'w clock \<Rightarrow> 'w job_observer option \<Rightarrow> 'w \<Rightarrow> 'w" where
  "EmitQueuedAll now observer w =
     (case observer of
        None \<Rightarrow> w
      | Some ob \<Rightarrow>
          foldl (\<lambda>w i. Emit now observer (int i) (event_of QuestionQueued) w) w [0..<length (joQuestions ob)])"

definition RegisterJob :: "'w job_observer option \<Rightarrow> string \<Rightarrow> go_int \<Rightarrow> 'w job_observer option" where
  "RegisterJob observer jobID index =
     (case observer of
        None \<Rightarrow> None
      | Some ob \<Rightarrow> Some (ob\<lparr>joJobIndex := (joJobIndex ob)(jobID \<mapsto> index)\<rparr>))"

definition emitByJob :: "'w clock \<Rightarrow> 'w job_observer option \<Rightarrow> string \<Rightarrow> event_options \<Rightarrow> 'w \<Rightarrow> 'w" where
  "emitByJob now observer jobID opts w =
     (case observer of
        None \<Rightarrow> w
      | Some ob \<Rightarrow>
         (case joJobIndex ob jobID of None \<Rightarrow> w | Some index \<Rightarrow> Emit now observer index opts w))"

definition OnReserveStart :: "'w clock \<Rightarrow> 'w job_observer option \<Rightarrow> job \<Rightarrow> 'w \<Rightarrow> 'w" where
  "OnReserveStart now observer j w = emitByJob now observer (JJobID j) (event_of QuestionReserving) w"

definition OnReserveDenied :: "'w clock \<Rightarrow> 'w job_observer option \<Rightarrow> job \<Rightarrow> reserve_response \<Rightarrow> 'w \<Rightarrow> 'w" where
  "OnReserveDenied now observer j res w =
     emitByJob now observer (JJobID j)
       ((event_of (if HasPrefix (Error res) ''limit_decreasing'' then QuestionWaitingLimitDecreasing
                   else QuestionWaitingRateLimit))
        \<lparr>eoRetryAfterMs := RetryAfterMs res, eoError := Error res\<rparr>) w"

definition OnReserveError :: "'w clock \<Rightarrow> 'w job_observer option \<Rightarrow> job \<Rightarrow> go_error \<Rightarrow> 'w \<Rightarrow> 'w" where
  "OnReserveError now observer j err w =
     (case err of
        None \<Rightarrow> w
      | Some e \<Rightarrow> emitByJob now observer (JJobID j) ((event_of QuestionWaitingLimiterError)\<lparr>eoError := e\<rparr>) w)"

section \<open>Observed tools\<close>

definition observed_Execute ::
    "'w clock \<Rightarrow> 'w job_observer option \<Rightarrow> go_int \<Rightarrow> ('w \<Rightarrow> tool_call \<Rightarrow> 'w \<times> call_result) \<Rightarrow>
     'w \<Rightarrow> tool_call \<Rightarrow> 'w \<times> call_result" where
  "observed_Execute now observer index inner w call =
     (let w1 = Emit now observer index ((event_of QuestionToolStart)\<lparr>eoToolName := tcName call\<rparr>) w;
          (w2, start) = now w1;
          (w3, result) = inner w2 call;
          (w4, d) = (if crDuration result \<le> 0 then let (w4, t) = now w3 in (w4, t - start)
                     else (w3, crDuration result));
          w5 = Emit now observer index
                 ((event_of QuestionToolFinish)\<lparr>eoToolName := tcName call, eoToolDuration := d,
                                               eoToolError := crError result\<rparr>) w4
      in (w5, result))"

definition newObservedToolExecutor ::
    "'w clock \<Rightarrow> 'w job_observer option \<Rightarrow> go_int \<Rightarrow> ('w \<Rightarrow> tool_call \<Rightarrow> 'w \<times> call_result) \<Rightarrow>
     'w \<Rightarrow> tool_call \<Rightarrow> 'w \<times> call_result" where
  "newObservedToolExecutor now observer index inner =
     (case observer of None \<Rightarrow> inner | Some _ \<Rightarrow> observed_Execute now observer index inner)"

end
