(* ===== verification/Runner_Eval.thy ===== *)
theory Runner_Eval
  imports Runner_Events
begin

text \<open>
  The evaluation of a question task (\<open>internal/runner\<close>: \<open>question_eval_jobs.go\<close>,
  \<open>question_eval.go\<close>): one job per question, run in order or concurrently by the scheduler, the
  grading of an answer, and the status of the task.

  The scheduler with its limiter is the parameter \<open>sched_env\<close>: for one job after the other, the
  world in which an admitted job is executed, and for jobs submitted together, the order in which
  they finish with the world each of them finds.  Verbose logging only writes and is left out, with
  the writers it locks.  \<open>None\<close> is a job, and so a task, that does not return.
\<close>

section \<open>Environments\<close>

record 'w eval_env =
  evMarshal :: marshal_args
  evNow :: "'w clock"
  evLower :: "string \<Rightarrow> string"
  evXml :: "string \<Rightarrow> string + string"
  evJsonSpec :: spec_decoder
  evYamlSpec :: spec_decoder
  evReadFile :: "string \<Rightarrow> string + string"

type_synonym 'w executor = "'w \<Rightarrow> tool_call \<Rightarrow> 'w \<times> call_result"
type_synonym 'w provider_factory = "'w \<Rightarrow> agent_config \<Rightarrow> string \<Rightarrow> 'w \<times> ('w provider + string)"

record 'w sched_env =
  scAdmit :: "'w job_observer option \<Rightarrow> job \<Rightarrow> 'w \<Rightarrow> 'w option"
  scSchedule :: "'w job_observer option \<Rightarrow> job list \<Rightarrow> 'w \<Rightarrow> ('w \<times> (nat \<times> 'w) list) option"
  scShutdown :: "'w \<Rightarrow> 'w \<times> go_error"

text \<open>\<open>questionJobDeps\<close> without the writers.\<close>

record 'w job_deps =
  jdRepoRoot :: string
  jdTask :: task_run
  jdToolDefs :: "tool_definition list"
  jdExecutor :: "'w executor"
  jdProviderFactory :: "'w provider_factory"
  jdTokenCounter :: "(history_item list \<Rightarrow> go_int) option"
  jdCompaction :: compaction_config
  jdVerbose :: bool
  jdMaxOutputTokens :: uint64
  jdObserver :: "'w job_observer option"

record question_job_result =
  jrIndex :: go_int
  jrResult :: question_result
  jrCorrect :: bool
  jrRuntimeError :: bool
  jrBudgetExceeded :: bool
  jrActualTokens :: uint64
  jrRunErr :: "call_error option"

section \<open>One question\<close>

definition call_error_text :: "call_error \<Rightarrow> string" where
  "call_error_text err = (case err of ErrBudgetExceeded \<Rightarrow> ''budget_exceeded'' | CallErr msg \<Rightarrow> msg)"

definition buildQuestionResult :: "question \<Rightarrow> run_metrics \<Rightarrow> call_error option \<Rightarrow> question_result" where
  "buildQuestionResult item m runErr =
     \<lparr>qrID = quID item, qrQuestion = quPrompt item, qrAnswers = quAnswers item,
      qrCorrectAnswers = quCorrectAnswers item, qrAgentAnswer = [], qrCorrect = False, qrParseError = [],
      qrRunError = (case runErr of None \<Rightarrow> [] | Some err \<Rightarrow> call_error_text err),
      qrTokensTotal = meTokens m, qrWallTime = meWallTime m, qrAgentSteps = meSteps m,
      qrToolCalls = meToolCalls m, qrCompactions = meCompactions m,
      qrLastSummaryTokens = meLastSummaryTokens m\<rparr>"

text \<open>The options of an event that reports the tokens and the time of a call.\<close>

definition metric_event :: "question_event_type \<Rightarrow> string \<Rightarrow> run_metrics \<Rightarrow> event_options" where
  "metric_event t err m = (event_of t)\<lparr>eoError := err, eoTokens := meTokens m, eoWallTime := meWallTime m\<rparr>"

text \<open>From the answer of the call on: the outcome and the last event of the question.\<close>

definition job_verdict ::
    "'w eval_env \<Rightarrow> go_int \<Rightarrow> question \<Rightarrow> agent_result \<Rightarrow> call_error option \<Rightarrow> question_job_result \<times> event_options" where
  "job_verdict E index item callResult runErr =
     (let m = arMetrics callResult;
          base = \<lparr>jrIndex = index, jrResult = buildQuestionResult item m runErr, jrCorrect = False,
                  jrRuntimeError = False, jrBudgetExceeded = False,
                  jrActualTokens = word_of_int (meTokens m), jrRunErr = runErr\<rparr>
      in case runErr of
           Some ErrBudgetExceeded \<Rightarrow>
             (base\<lparr>jrBudgetExceeded := True\<rparr>,
              metric_event QuestionBudgetExceeded (call_error_text ErrBudgetExceeded) m)
         | Some (CallErr msg) \<Rightarrow> (base\<lparr>jrRuntimeError := True\<rparr>, metric_event QuestionRuntimeError msg m)
         | None \<Rightarrow>
            (case ParseAnswerFromOutput (evLower E) (evXml E) (arOutput callResult) of
               Inr err \<Rightarrow>
                 (base\<lparr>jrResult := (jrResult base)\<lparr>qrParseError := err\<rparr>\<rparr>, metric_event QuestionParseError err m)
             | Inl answer \<Rightarrow>
                 let answered = (jrResult base)\<lparr>qrAgentAnswer := paRaw answer\<rparr> in
                 if isCorrectAnswer (evLower E) (paNormalized answer) (quCorrectAnswers item)
                 then (base\<lparr>jrResult := answered\<lparr>qrCorrect := True\<rparr>, jrCorrect := True\<rparr>,
                       metric_event QuestionCorrect [] m)
                 else (base\<lparr>jrResult := answered\<rparr>, metric_event QuestionIncorrect [] m)))"

definition job_options :: "'w job_deps \<Rightarrow> run_options" where
  "job_options deps =
     (let t = trnTask (jdTask deps) in
      \<lparr>roTokenCounter = jdTokenCounter deps, roCompaction = jdCompaction deps,
       roLimits = \<lparr>liMaxSteps = limitOrDefault (tbMaxSteps (tkBudget t)) (agMaxSteps (trnAgent (jdTask deps))),
                   liMaxSeconds = dur (tbMaxSeconds (tkBudget t)) Second,
                   liMaxTokens = tbMaxTokens (tkBudget t)\<rparr>\<rparr>)"

text \<open>The environment of the call: \<open>start\<close> is the reading of the clock it begins with.\<close>

definition job_env :: "'w eval_env \<Rightarrow> 'w job_deps \<Rightarrow> go_int \<Rightarrow> 'w provider \<Rightarrow> go_time \<Rightarrow> 'w agent_env" where
  "job_env E deps index provider start =
     \<lparr>aeMarshal = evMarshal E, aeStream = provider,
      aeExecute = newObservedToolExecutor (evNow E) (jdObserver deps) index (jdExecutor deps),
      aeElapsed = (\<lambda>w. let (w', t) = evNow E w in (w', t - start))\<rparr>"

definition executeQuestionJob ::
    "'w eval_env \<Rightarrow> 'w job_deps \<Rightarrow> go_int \<Rightarrow> question \<Rightarrow> string \<Rightarrow> 'w \<Rightarrow> ('w \<times> question_job_result) option" where
  "executeQuestionJob E deps index item promptText w0 =
     (let emit = Emit (evNow E) (jdObserver deps) index;
          w1 = emit (event_of QuestionRunning) w0
      in case jdProviderFactory deps w1 (trnAgent (jdTask deps)) (trnModel (jdTask deps)) of
           (w2, Inr err) \<Rightarrow>
             Some (emit ((event_of QuestionRuntimeError)\<lparr>eoError := err\<rparr>) w2,
                   \<lparr>jrIndex = index, jrResult = buildQuestionResult item zero_metrics (Some (CallErr err)),
                    jrCorrect = False, jrRuntimeError = True, jrBudgetExceeded = False,
                    jrActualTokens = 0, jrRunErr = Some (CallErr err)\<rparr>)
         | (w2, Inl provider) \<Rightarrow>
             let session = newSession (jdTask deps) (jdRepoRoot deps) (jdToolDefs deps) (jdVerbose deps);
                 (w3, start) = evNow E w2
             in case RunCall (job_env E deps index provider start) session promptText (job_options deps) [] w3 of
                  None \<Rightarrow> None
                | Some (w4, _, callResult, runErr) \<Rightarrow>
                    let w5 = emit (event_of QuestionParsing) w4;
                        (jr, last_event) = job_verdict E index item callResult runErr
                    in Some (emit last_event w5, jr))"

section \<open>The questions of a task\<close>

record job_tally =
  jtResults :: "question_result list"
  jtCorrect :: go_int
  jtRuntimeError :: bool
  jtBudgetExceeded :: bool

definition count_job :: "job_tally \<Rightarrow> question_job_result \<Rightarrow> job_tally" where
  "count_job t jr =
     t\<lparr>jtCorrect := (if jrCorrect jr then jtCorrect t + 1 else jtCorrect t),
       jtRuntimeError := (if jrRuntimeError jr then True else jtRuntimeError t),
       jtBudgetExceeded := (if jrBudgetExceeded jr then True else jtBudgetExceeded t)\<rparr>"

text \<open>The loop bodies: the sequential one appends a result, the concurrent one stores it at its index.\<close>

definition append_job :: "job_tally \<Rightarrow> question_job_result \<Rightarrow> job_tally" where
  "append_job t jr = count_job (t\<lparr>jtResults := jtResults t @ [jrResult jr]\<rparr>) jr"

definition store_job :: "job_tally \<Rightarrow> question_job_result \<Rightarrow> job_tally" where
  "store_job t jr = count_job (t\<lparr>jtResults := (jtResults t)[nat (jrIndex jr) := jrResult jr]\<rparr>) jr"

definition empty_tally :: "question_result list \<Rightarrow> job_tally" where
  "empty_tally results = \<lparr>jtResults = results, jtCorrect = 0, jtRuntimeError = False, jtBudgetExceeded = False\<rparr>"

definition zero_question :: question where
  "zero_question = \<lparr>quID = [], quPrompt = [], quAnswers = [], quCorrectAnswers = []\<rparr>"

definition zero_result :: question_result where
  "zero_result = buildQuestionResult zero_question zero_metrics None"

definition question_job :: "'w job_deps \<Rightarrow> nat \<Rightarrow> question \<Rightarrow> job" where
  "question_job deps index item =
     \<lparr>JJobID = tkID (trnTask (jdTask deps)) @ ''-'' @ show_int (int index + 1), JLeaseID = [], JTenantID = [],
      JProvider = agProvider (trnAgent (jdTask deps)), JModel = trnModel (jdTask deps),
      JPrompt = buildQuestionPrompt item, JMaxOutputTokens = jdMaxOutputTokens deps,
      JWantDailyBudget = False, JExecute = True\<rparr>"

text \<open>Registering a job and reporting it as scheduled, before it is submitted.\<close>

definition announce_job :: "'w eval_env \<Rightarrow> 'w job_deps \<Rightarrow> nat \<Rightarrow> question \<Rightarrow> 'w \<Rightarrow> 'w job_deps \<times> 'w" where
  "announce_job E deps index item w =
     (let deps' = deps\<lparr>jdObserver := RegisterJob (jdObserver deps) (JJobID (question_job deps index item)) (int index)\<rparr>
      in (deps', Emit (evNow E) (jdObserver deps') (int index) (event_of QuestionScheduled) w))"

fun sequential_jobs ::
    "'w eval_env \<Rightarrow> 'w sched_env \<Rightarrow> 'w job_deps \<Rightarrow> nat \<Rightarrow> question list \<Rightarrow> job_tally \<Rightarrow> 'w \<Rightarrow> ('w \<times> job_tally) option" where
  "sequential_jobs E S deps index [] t w = Some (w, t)"
| "sequential_jobs E S deps index (item # rest) t w =
     (let (deps', w1) = announce_job E deps index item w in
      case scAdmit S (jdObserver deps') (question_job deps index item) w1 of
        None \<Rightarrow> None
      | Some w2 \<Rightarrow>
         (case executeQuestionJob E deps' (int index) item (buildQuestionPrompt item) w2 of
            None \<Rightarrow> None
          | Some (w3, jr) \<Rightarrow> sequential_jobs E S deps' (index + 1) rest (append_job t jr) w3))"

definition runQuestionJobsSequential ::
    "'w eval_env \<Rightarrow> 'w sched_env \<Rightarrow> question list \<Rightarrow> 'w job_deps \<Rightarrow> 'w \<Rightarrow> ('w \<times> job_tally) option" where
  "runQuestionJobsSequential E S questions deps w = sequential_jobs E S deps 0 questions (empty_tally []) w"

text \<open>The submission loop, and what the result channel delivers for an order of finishing.\<close>

fun submit_jobs ::
    "'w eval_env \<Rightarrow> 'w job_deps \<Rightarrow> nat \<Rightarrow> question list \<Rightarrow> 'w \<Rightarrow> 'w job_deps \<times> job list \<times> 'w" where
  "submit_jobs E deps index [] w = (deps, [], w)"
| "submit_jobs E deps index (item # rest) w =
     (let (deps1, w1) = announce_job E deps index item w;
          (deps2, jobs, w2) = submit_jobs E deps1 (index + 1) rest w1
      in (deps2, question_job deps index item # jobs, w2))"

fun arrivals ::
    "'w eval_env \<Rightarrow> 'w job_deps \<Rightarrow> question list \<Rightarrow> (nat \<times> 'w) list \<Rightarrow> question_job_result list option" where
  "arrivals E deps questions [] = Some []"
| "arrivals E deps questions ((i, w) # rest) =
     (case executeQuestionJob E deps (int i) (questions ! i) (buildQuestionPrompt (questions ! i)) w of
        None \<Rightarrow> None
      | Some (_, jr) \<Rightarrow> map_option (\<lambda>jrs. jr # jrs) (arrivals E deps questions rest))"

definition collect_jobs :: "nat \<Rightarrow> question_job_result list \<Rightarrow> job_tally" where
  "collect_jobs n jrs =
     foldl store_job (empty_tally (replicate n zero_result)) jrs"

definition runQuestionJobsConcurrent ::
    "'w eval_env \<Rightarrow> 'w sched_env \<Rightarrow> question list \<Rightarrow> 'w job_deps \<Rightarrow> 'w \<Rightarrow> ('w \<times> job_tally) option" where
  "runQuestionJobsConcurrent E S questions deps w =
     (let (deps', jobs, w1) = submit_jobs E deps 0 questions w in
      case scSchedule S (jdObserver deps') jobs w1 of
        None \<Rightarrow> None
      | Some (w2, order) \<Rightarrow>
         (case arrivals E deps' questions order of
            None \<Rightarrow> None
          | Some jrs \<Rightarrow> Some (w2, collect_jobs (length questions) jrs)))"

section \<open>The task\<close>

definition question_summary_of :: "job_tally \<Rightarrow> question_summary" where
  "question_summary_of t =
     (let n = int (length (jtResults t)) in
      \<lparr>qsQuestionsTotal = n, qsQuestionsCorrect = jtCorrect t, qsQuestionsIncorrect = n - jtCorrect t,
       qsAccuracy = ratio (jtCorrect t) n\<rparr>)"

definition task_status :: "job_tally \<Rightarrow> bool \<Rightarrow> string \<times> string option" where
  "task_status t runtimeError =
     (if runtimeError then (''error'', Some ''runtime_error'')
      else if jtBudgetExceeded t then (''fail'', Some ''budget_exceeded'')
      else if jtCorrect t = int (length (jtResults t)) then (''pass'', None)
      else (''fail'', Some ''incorrect_answers''))"

definition error_task :: "task_run \<Rightarrow> string \<Rightarrow> task_result" where
  "error_task task reason =
     \<lparr>taTaskID = tkID (trnTask task), taType = tkType (trnTask task), taStatus = ''error'',
      taFailureReason = Some reason, taQuestionEval = None\<rparr>"

definition runQuestionTask ::
    "'w eval_env \<Rightarrow> string \<Rightarrow> cogni_config \<Rightarrow> task_run \<Rightarrow> (go_int \<Rightarrow> 'w sched_env) \<Rightarrow> tool_definition list \<Rightarrow>
     'w executor \<Rightarrow> 'w provider_factory \<Rightarrow> (history_item list \<Rightarrow> go_int) option \<Rightarrow> bool \<Rightarrow>
     'w run_observer option \<Rightarrow> 'w \<Rightarrow> ('w \<times> task_result) option" where
  "runQuestionTask E repoRoot cfg task limiter toolDefs executor providerFactory tokenCounter verbose observer w =
     (let t = trnTask task in
      case LoadSpec (evLower E) (evJsonSpec E) (evYamlSpec E) (evReadFile E)
             (resolveQuestionsFile repoRoot (tkQuestionsFile t)) of
        Inr _ \<Rightarrow> Some (w, error_task task ''invalid_questions_file'')
      | Inl questionSpec \<Rightarrow>
          let questions = qsQuestions questionSpec in
          if questions = [] then Some (w, error_task task ''no_questions'')
          else case buildCompactionConfig (evReadFile E) t repoRoot of
            Inr _ \<Rightarrow> Some (w, error_task task ''runtime_error'')
          | Inl compactionConfig \<Rightarrow>
              let jobObserver = newQuestionJobObserver observer (tkID t) questions;
                  w1 = EmitQueuedAll (evNow E) jobObserver w;
                  workers = ResolveTaskWorkers cfg t;
                  S = limiter workers;
                  deps = \<lparr>jdRepoRoot = repoRoot, jdTask = task, jdToolDefs = toolDefs, jdExecutor = executor,
                          jdProviderFactory = providerFactory, jdTokenCounter = tokenCounter,
                          jdCompaction = compactionConfig, jdVerbose = verbose,
                          jdMaxOutputTokens = MaxOutputTokens_of cfg t, jdObserver = jobObserver\<rparr>;
                  run = (if workers \<le> 1 then runQuestionJobsSequential E S questions deps w1
                         else runQuestionJobsConcurrent E S questions deps w1)
              in case run of
                   None \<Rightarrow> None
                 | Some (w2, tally) \<Rightarrow>
                     let (w3, shutdownErr) = scShutdown S w2;
                         (status, reason) = task_status tally (jtRuntimeError tally \<or> shutdownErr \<noteq> None)
                     in Some (w3, \<lparr>taTaskID = tkID t, taType = tkType t, taStatus = status,
                                  taFailureReason = reason,
                                  taQuestionEval = Some \<lparr>qeQuestionsFile = tkQuestionsFile t,
                                                         qeQuestions = jtResults tally,
                                                         qeSummary = question_summary_of tally\<rparr>\<rparr>))"

end
