(* ===== verification/Runner_Run.thy ===== *)
theory Runner_Run
  imports Runner_Eval
begin

text \<open>
  A whole run (\<open>internal/runner\<close>: \<open>run.go\<close>, \<open>output_writer.go\<close>): the tasks of the plan one after
  the other, the results, and the files they are written to.

  The dependencies are the ones \<open>Run\<close> has after replacing those that are nil, the token counter apart; the tool runner and
  its executor are one factory.  The map of the agents that were used is the list of its entries,
  and \<open>rdMapOrder\<close> is the order Go iterates it in.
\<close>

section \<open>Running\<close>

record 'w run_params =
  rpRepoRoot :: string
  rpOutputDir :: string
  rpAgentOverride :: string
  rpSelectors :: "task_selector list"
  rpVerbose :: bool
  rpObserver :: "'w run_observer option"

record 'w run_deps =
  rdEnv :: "'w eval_env"
  rdRepoRootResolver :: "'w \<Rightarrow> string \<Rightarrow> 'w \<times> (string + string)"
  rdRepoMetadataLoader :: "'w \<Rightarrow> string \<Rightarrow> 'w \<times> (repo_metadata + string)"
  rdSetupRunner :: "'w \<Rightarrow> string \<Rightarrow> string \<Rightarrow> 'w \<times> go_error"
  rdRunID :: "'w \<Rightarrow> 'w \<times> (string + string)"
  rdProviderFactory :: "'w provider_factory"
  rdExecutorFactory :: "'w \<Rightarrow> string \<Rightarrow> 'w \<times> ('w executor + string)"
  rdLimiterFactory :: "'w \<Rightarrow> cogni_config \<Rightarrow> string \<Rightarrow> 'w \<times> ((go_int \<Rightarrow> 'w sched_env) + string)"
  rdTokenCounter :: "(history_item list \<Rightarrow> go_int) option"
  rdMapOrder :: "(string \<times> agent_config) list \<Rightarrow> (string \<times> agent_config) list"

definition counter_of :: "'w run_deps \<Rightarrow> history_item list \<Rightarrow> go_int" where
  "counter_of D = (case rdTokenCounter D of None \<Rightarrow> ApproxTokenCount (evMarshal (rdEnv D)) | Some f \<Rightarrow> f)"

text \<open>The defaults of two dependencies: \<open>getwd\<close> is the working directory, \<open>discover\<close> the search of the VCS root.\<close>

definition resolveRepoRoot ::
    "(string + string) \<Rightarrow> ('w \<Rightarrow> string \<Rightarrow> 'w \<times> (string + string)) \<Rightarrow> 'w \<Rightarrow> string \<Rightarrow> 'w \<times> (string + string)" where
  "resolveRepoRoot getwd discover w repoRoot =
     (if TrimSpace repoRoot = [] then
        (case getwd of Inr err \<Rightarrow> (w, Inr err) | Inl wd \<Rightarrow> discover w wd)
      else discover w repoRoot)"

definition ensureRunID ::
    "('w \<Rightarrow> 'w \<times> (string + string)) option \<Rightarrow> ('w \<Rightarrow> 'w \<times> (string + string)) \<Rightarrow> 'w \<Rightarrow> 'w \<times> (string + string)" where
  "ensureRunID generator newRunID w = (case generator of Some g \<Rightarrow> g w | None \<Rightarrow> newRunID w)"

definition observe :: "'w run_observer option \<Rightarrow> ('w run_observer \<Rightarrow> 'w \<Rightarrow> 'w) \<Rightarrow> 'w \<Rightarrow> 'w" where
  "observe observer f w = (case observer of None \<Rightarrow> w | Some ob \<Rightarrow> f ob w)"

definition use_agent :: "agent_config \<Rightarrow> (string \<times> agent_config) list \<Rightarrow> (string \<times> agent_config) list" where
  "use_agent a used = filter (\<lambda>(i, _). i \<noteq> agID a) used @ [(agID a, a)]"

type_synonym run_progress = "task_result list \<times> (string \<times> agent_config) list"

text \<open>The loop over the tasks: \<open>None\<close> when one does not return, otherwise the results or an error.\<close>

fun run_tasks ::
    "('w \<Rightarrow> task_run \<Rightarrow> ('w \<times> task_result) option) \<Rightarrow> 'w run_observer option \<Rightarrow> task_run list \<Rightarrow> run_progress \<Rightarrow> 'w \<Rightarrow>
     ('w \<times> (run_progress + string)) option" where
  "run_tasks run_one observer [] progress w = Some (w, Inl progress)"
| "run_tasks run_one observer (task # rest) (results, used) w =
     (let t = trnTask task;
          used' = use_agent (trnAgent task) used;
          w1 = observe observer (\<lambda>ob. obOnTaskStart ob (tkID t) (tkType t) (tkQuestionsFile t)
                                         (trnAgentID task) (trnModel task)) w
      in if tkType t \<noteq> ''question_eval'' then Some (w1, Inr (''unsupported task type '' @ quote (tkType t)))
         else case run_one w1 task of
           None \<Rightarrow> None
         | Some (w2, result) \<Rightarrow>
             run_tasks run_one observer rest (results @ [result], used')
               (observe observer (\<lambda>ob. obOnTaskEnd ob (tkID t) (taStatus result) (taFailureReason result)) w2))"

definition agent_info_of :: "agent_config \<Rightarrow> agent_info" where
  "agent_info_of a = \<lparr>aiID = agID a, aiType = agType a, aiProvider = agProvider a, aiModel = agModel a,
                      aiTemperature = agTemperature a, aiMaxSteps = agMaxSteps a,
                      aiToolingVersion = ''cogni/0.1.0''\<rparr>"

text \<open>From the plan on: the limiter, the tools, the tasks and the results.\<close>

definition run_plan ::
    "'w run_deps \<Rightarrow> cogni_config \<Rightarrow> 'w run_params \<Rightarrow> string \<Rightarrow> repo_metadata \<Rightarrow> string \<Rightarrow> go_time \<Rightarrow> task_run list \<Rightarrow> 'w \<Rightarrow>
     ('w \<times> (run_results + string)) option" where
  "run_plan D cfg params repoRoot repoMeta runID startedAt taskRuns w =
     (case rdLimiterFactory D w cfg repoRoot of
        (w1, Inr err) \<Rightarrow> Some (w1, Inr err)
      | (w1, Inl limiter) \<Rightarrow>
         (case rdExecutorFactory D w1 repoRoot of
            (w2, Inr err) \<Rightarrow> Some (w2, Inr err)
          | (w2, Inl executor) \<Rightarrow>
              let run_one = (\<lambda>w task. runQuestionTask (rdEnv D) repoRoot cfg task limiter defaultToolDefinitions
                                         executor (rdProviderFactory D) (Some (counter_of D)) (rpVerbose params)
                                         (rpObserver params) w)
              in case run_tasks run_one (rpObserver params) taskRuns ([], []) w2 of
                   None \<Rightarrow> None
                 | Some (w3, Inr err) \<Rightarrow> Some (w3, Inr err)
                 | Some (w3, Inl (results, used)) \<Rightarrow>
                     let (w4, finishedAt) = evNow (rdEnv D) w3;
                         out = \<lparr>rrRunID = runID, rrRepo = repoMeta,
                                rrAgents = map (\<lambda>(_, a). agent_info_of a) (rdMapOrder D used),
                                rrStartedAt = startedAt, rrFinishedAt = finishedAt, rrTasks = results,
                                rrSummary = summarize results\<rparr>
                     in Some (observe (rpObserver params) (\<lambda>ob. obOnRunEnd ob out) w4, Inl out)))"

definition Run ::
    "'w run_deps \<Rightarrow> cogni_config \<Rightarrow> 'w run_params \<Rightarrow> 'w \<Rightarrow> ('w \<times> (run_results + string)) option" where
  "Run D cfg params w =
     (case rdRepoRootResolver D w (rpRepoRoot params) of
        (w1, Inr err) \<Rightarrow> Some (w1, Inr err)
      | (w1, Inl repoRoot) \<Rightarrow>
         (case rdRepoMetadataLoader D w1 repoRoot of
            (w2, Inr err) \<Rightarrow> Some (w2, Inr err)
          | (w2, Inl repoMeta) \<Rightarrow>
             (case runSetupCommands (rdSetupRunner D) repoRoot (cfSetupCommands cfg) w2 of
                (w3, Some err) \<Rightarrow> Some (w3, Inr err)
              | (w3, None) \<Rightarrow>
                 (case rdRunID D w3 of
                    (w4, Inr err) \<Rightarrow> Some (w4, Inr err)
                  | (w4, Inl runID) \<Rightarrow>
                      let w5 = observe (rpObserver params) (\<lambda>ob. obOnRunStart ob runID (rmName repoMeta)) w4;
                          (w6, startedAt) = evNow (rdEnv D) w5
                      in case planTaskRuns cfg (rpSelectors params) (rpAgentOverride params) of
                           Inr err \<Rightarrow> Some (w6, Inr err)
                         | Inl taskRuns \<Rightarrow>
                             run_plan D cfg params repoRoot repoMeta runID startedAt taskRuns w6))))"

section \<open>Writing the outputs\<close>

record 'w out_files =
  ofMkdirAll :: "'w \<Rightarrow> string \<Rightarrow> 'w \<times> go_error"
  ofWriteFile :: "'w \<Rightarrow> string \<Rightarrow> string \<Rightarrow> 'w \<times> go_error"
  ofMarshal :: "run_results \<Rightarrow> string + string"
  ofRender :: "run_results \<Rightarrow> string + string"

text \<open>\<open>filepath.Base\<close> of a path that ends in a name.\<close>

definition base_name :: "string \<Rightarrow> string" where
  "base_name path = rev (takeWhile (\<lambda>c. c \<noteq> slash) (rev path))"

definition writeJSON :: "'w out_files \<Rightarrow> string \<Rightarrow> run_results \<Rightarrow> 'w \<Rightarrow> 'w \<times> go_error" where
  "writeJSON F path results w =
     (case ofMarshal F results of
        Inr err \<Rightarrow> (w, Some (''marshal json: '' @ err))
      | Inl payload \<Rightarrow>
         (case ofWriteFile F w path payload of
            (w', None) \<Rightarrow> (w', None)
          | (w', Some err) \<Rightarrow> (w', Some (''write '' @ base_name path @ '': '' @ err))))"

definition writePlaceholderReport :: "'w out_files \<Rightarrow> string \<Rightarrow> run_results \<Rightarrow> 'w \<Rightarrow> 'w \<times> go_error" where
  "writePlaceholderReport F path results w =
     (case ofRender F results of
        Inr err \<Rightarrow> (w, Some (''render report: '' @ err))
      | Inl content \<Rightarrow>
         (case ofWriteFile F w path content of
            (w', None) \<Rightarrow> (w', None)
          | (w', Some err) \<Rightarrow> (w', Some (''write report: '' @ err))))"

definition WriteRunOutputs :: "'w out_files \<Rightarrow> run_results \<Rightarrow> string \<Rightarrow> 'w \<Rightarrow> 'w \<times> (output_paths + string)" where
  "WriteRunOutputs F results outputDir w =
     (if outputDir = [] then (w, Inr ''output directory is required'')
      else case NewOutputPaths outputDir (rmCommit (rrRepo results)) (rrRunID results) of
        Inr err \<Rightarrow> (w, Inr err)
      | Inl paths \<Rightarrow>
         (case ofMkdirAll F w (RunDir paths) of
            (w1, Some err) \<Rightarrow> (w1, Inr (''create output dir: '' @ err))
          | (w1, None) \<Rightarrow>
             (case writeJSON F (ResultsPath paths) results w1 of
                (w2, Some err) \<Rightarrow> (w2, Inr err)
              | (w2, None) \<Rightarrow>
                 (case writePlaceholderReport F (ReportPath paths) results w2 of
                    (w3, Some err) \<Rightarrow> (w3, Inr err)
                  | (w3, None) \<Rightarrow>
                     (case ofMkdirAll F w3 (LogsDir paths) of
                        (w4, Some err) \<Rightarrow> (w4, Inr (''create logs dir: '' @ err))
                      | (w4, None) \<Rightarrow> (w4, Inl paths))))))"

text \<open>\<open>RunAndWrite\<close>: the results, if there are any, with the paths or the error.\<close>

definition RunAndWrite ::
    "'w run_deps \<Rightarrow> 'w out_files \<Rightarrow> cogni_config \<Rightarrow> 'w run_params \<Rightarrow> 'w \<Rightarrow>
     ('w \<times> run_results option \<times> (output_paths + string)) option" where
  "RunAndWrite D F cfg params w =
     (case rdRepoRootResolver D w (rpRepoRoot params) of
        (w1, Inr err) \<Rightarrow> Some (w1, None, Inr err)
      | (w1, Inl repoRoot) \<Rightarrow>
         (case Run D cfg (params\<lparr>rpRepoRoot := repoRoot\<rparr>) w1 of
            None \<Rightarrow> None
          | Some (w2, Inr err) \<Rightarrow> Some (w2, None, Inr err)
          | Some (w2, Inl results) \<Rightarrow>
              let dir = (if TrimSpace (rpOutputDir params) = [] then cfOutputDir cfg else rpOutputDir params);
                  (w3, out) = WriteRunOutputs F results (resolveOutputDir repoRoot dir) w2
              in Some (w3, Some results, out)))"

end
