(* ===== verification/Runner_Lemmas.thy ===== *)
theory Runner_Lemmas
  imports Runner_Run Agent_Run "HOL-Library.Multiset"
begin

text \<open>
  Lemmas on the evaluation of a task: a job returns and its outcome describes its question, the
  tally of the sequential and of the concurrent loop is the tally of the outcomes in the order of
  the questions, whatever order they arrive in, and the plan finds the agents it names.
\<close>

section \<open>A job\<close>

definition about :: "question \<Rightarrow> question_result \<Rightarrow> bool" where
  "about item r \<longleftrightarrow> qrID r = quID item \<and> qrQuestion r = quPrompt item \<and> qrAnswers r = quAnswers item \<and>
     qrCorrectAnswers r = quCorrectAnswers item"

definition job_of :: "go_int \<Rightarrow> question \<Rightarrow> question_job_result \<Rightarrow> bool" where
  "job_of i item jr \<longleftrightarrow> jrIndex jr = i \<and> about item (jrResult jr) \<and> jrCorrect jr = qrCorrect (jrResult jr) \<and>
     (jrCorrect jr \<longrightarrow> \<not> jrRuntimeError jr \<and> \<not> jrBudgetExceeded jr) \<and>
     (jrBudgetExceeded jr \<longrightarrow> qrRunError (jrResult jr) = ''budget_exceeded'') \<and>
     (\<not> jrRuntimeError jr \<and> \<not> jrBudgetExceeded jr \<longrightarrow> qrRunError (jrResult jr) = [])"

lemma buildQuestionResult_about [simp]: "about item (buildQuestionResult item m err)"
  by (simp add: about_def buildQuestionResult_def)

lemma job_verdict_of: "job_of i item (fst (job_verdict E i item result err))"
  by (auto simp: job_verdict_def Let_def job_of_def about_def buildQuestionResult_def call_error_text_def
      split: option.split call_error.split sum.split)

lemma RunCall_returns:
  assumes "liMaxSteps (roLimits opts) > 0"
  shows "\<exists>w' session' result err. RunCall E session userText opts hooks w = Some (w', session', result, err)"
proof -
  have "meSteps (ctMetrics (call_start w session userText)) \<le> liMaxSteps (roLimits opts)"
    using assms by (simp add: call_start_def zero_metrics_def)
  from call_loop_ends[OF assms this, of E "snCtx session" hooks] obtain s err
    where "call_loop E (snCtx session) opts hooks (call_start w session userText) = Some (s, err)" by blast
  then show ?thesis by (simp add: RunCall_def Let_def split: prod.split)
qed

definition step_limit :: "task_run \<Rightarrow> go_int" where
  "step_limit task = limitOrDefault (tbMaxSteps (tkBudget (trnTask task))) (agMaxSteps (trnAgent task))"

lemma executeQuestionJob_returns:
  assumes "step_limit (jdTask deps) > 0"
  shows "\<exists>w' jr. executeQuestionJob E deps i item p w = Some (w', jr) \<and> job_of i item jr"
proof -
  let ?w1 = "Emit (evNow E) (jdObserver deps) i (event_of QuestionRunning) w"
  obtain w2 r where f: "jdProviderFactory deps ?w1 (trnAgent (jdTask deps)) (trnModel (jdTask deps)) = (w2, r)"
    by (rule prod.exhaust)
  show ?thesis
  proof (cases r)
    case (Inr err)
    have "job_of i item \<lparr>jrIndex = i, jrResult = buildQuestionResult item zero_metrics (Some (CallErr err)),
        jrCorrect = False, jrRuntimeError = True, jrBudgetExceeded = False,
        jrActualTokens = 0, jrRunErr = Some (CallErr err)\<rparr>"
      by (auto simp: job_of_def) (simp add: buildQuestionResult_def)
    then show ?thesis using f Inr by (simp add: executeQuestionJob_def Let_def)
  next
    case (Inl provider)
    obtain w3 start where n: "evNow E w2 = (w3, start)" by (rule prod.exhaust)
    have "liMaxSteps (roLimits (job_options deps)) > 0"
      using assms by (simp add: job_options_def Let_def step_limit_def)
    from RunCall_returns[OF this, of "job_env E deps i provider start"
        "newSession (jdTask deps) (jdRepoRoot deps) (jdToolDefs deps) (jdVerbose deps)" p "[]" w3]
    obtain w4 s result err where c: "RunCall (job_env E deps i provider start)
        (newSession (jdTask deps) (jdRepoRoot deps) (jdToolDefs deps) (jdVerbose deps)) p (job_options deps) [] w3
        = Some (w4, s, result, err)" by blast
    obtain jr final where v: "job_verdict E i item result err = (jr, final)" by (rule prod.exhaust)
    then have "job_of i item jr" using job_verdict_of[of i item E result err] by simp
    then show ?thesis using f Inl n c v by (simp add: executeQuestionJob_def Let_def)
  qed
qed

section \<open>Tallies\<close>

text \<open>The reference: the tally of a list of outcomes.\<close>

definition tally_of :: "question_job_result list \<Rightarrow> job_tally" where
  "tally_of jrs = \<lparr>jtResults = map jrResult jrs, jtCorrect = int (length (filter jrCorrect jrs)),
                   jtRuntimeError = (\<exists>jr \<in> set jrs. jrRuntimeError jr),
                   jtBudgetExceeded = (\<exists>jr \<in> set jrs. jrBudgetExceeded jr)\<rparr>"

lemma append_job_tally: "append_job (tally_of xs) jr = tally_of (xs @ [jr])"
  by (auto simp: append_job_def count_job_def tally_of_def)

lemma empty_tally_of: "empty_tally [] = tally_of []"
  by (simp add: empty_tally_def tally_of_def)

text \<open>What the outcomes of a list of questions, from an index on, look like.\<close>

definition jobs_of :: "nat \<Rightarrow> question list \<Rightarrow> question_job_result list \<Rightarrow> bool" where
  "jobs_of n items jrs \<longleftrightarrow> length jrs = length items \<and> (\<forall>k < length items. job_of (int (n + k)) (items ! k) (jrs ! k))"

lemma jobs_of_Nil [simp]: "jobs_of n [] []"
  by (simp add: jobs_of_def)

lemma jobs_of_Cons:
  assumes "job_of (int n) item jr" "jobs_of (n + 1) items jrs"
  shows "jobs_of n (item # items) (jr # jrs)"
  unfolding jobs_of_def
proof (intro conjI allI impI)
  fix k assume "k < length (item # items)"
  then show "job_of (int (n + k)) ((item # items) ! k) ((jr # jrs) ! k)"
    using assms by (cases k) (auto simp: jobs_of_def add_ac)
qed (use assms in \<open>simp add: jobs_of_def\<close>)

lemma announce_job_task: "announce_job E deps i item w = (deps', w') \<Longrightarrow> jdTask deps' = jdTask deps"
  by (auto simp: announce_job_def Let_def)

lemma sequential_jobs_tally:
  assumes "step_limit (jdTask deps) > 0" and "\<And>obs j w. scAdmit S obs j w \<noteq> None"
  shows "\<exists>w' jrs. sequential_jobs E S deps n items (tally_of before) w = Some (w', tally_of (before @ jrs)) \<and> jobs_of n items jrs"
  using assms(1)
proof (induction items arbitrary: n deps before w)
  case Nil
  then show ?case by (intro exI[of _ w] exI[of _ "[]"]) simp
next
  case (Cons item items)
  obtain deps' w1 where a: "announce_job E deps n item w = (deps', w1)" by (rule prod.exhaust)
  obtain w2 where w2: "scAdmit S (jdObserver deps') (question_job deps n item) w1 = Some w2"
    using assms(2) by blast
  have lim: "step_limit (jdTask deps') > 0" using Cons.prems announce_job_task[OF a] by simp
  obtain w3 jr where j: "executeQuestionJob E deps' (int n) item (buildQuestionPrompt item) w2 = Some (w3, jr)"
    "job_of (int n) item jr" using executeQuestionJob_returns[OF lim] by blast
  obtain w' jrs where r: "sequential_jobs E S deps' (n + 1) items (tally_of (before @ [jr])) w3 =
      Some (w', tally_of ((before @ [jr]) @ jrs))" "jobs_of (n + 1) items jrs"
    using Cons.IH[OF lim, of "n + 1" "before @ [jr]" w3] by blast
  have "sequential_jobs E S deps n (item # items) (tally_of before) w = Some (w', tally_of (before @ jr # jrs))"
    using a w2 j(1) r(1) by (simp add: append_job_tally)
  then show ?case using jobs_of_Cons[OF j(2) r(2)] by blast
qed

section \<open>The order of arrival\<close>

lemma store_counts:
  "jtCorrect (foldl store_job t jrs) = jtCorrect t + int (length (filter jrCorrect jrs)) \<and>
   (jtRuntimeError (foldl store_job t jrs) \<longleftrightarrow> jtRuntimeError t \<or> (\<exists>jr \<in> set jrs. jrRuntimeError jr)) \<and>
   (jtBudgetExceeded (foldl store_job t jrs) \<longleftrightarrow> jtBudgetExceeded t \<or> (\<exists>jr \<in> set jrs. jrBudgetExceeded jr)) \<and>
   length (jtResults (foldl store_job t jrs)) = length (jtResults t)"
  by (induction jrs arbitrary: t) (auto simp: store_job_def count_job_def)

lemma store_job_results: "jtResults (store_job t jr) = (jtResults t)[nat (jrIndex jr) := jrResult jr]"
  by (simp add: store_job_def count_job_def)

lemma store_untouched:
  "k \<notin> (\<lambda>jr. nat (jrIndex jr)) ` set jrs \<Longrightarrow> jtResults (foldl store_job t jrs) ! k = jtResults t ! k"
  by (induction jrs arbitrary: t) (auto simp: store_job_results)

lemma store_at_index:
  assumes "distinct (map (\<lambda>jr. nat (jrIndex jr)) jrs)" "jr \<in> set jrs" "nat (jrIndex jr) < length (jtResults t)"
  shows "jtResults (foldl store_job t jrs) ! nat (jrIndex jr) = jrResult jr"
  using assms
proof (induction jrs arbitrary: t)
  case (Cons x jrs)
  show ?case
  proof (cases "jr = x")
    case True
    then have "nat (jrIndex x) \<notin> (\<lambda>jr. nat (jrIndex jr)) ` set jrs" using Cons.prems(1) by auto
    then show ?thesis using True Cons.prems(3) store_untouched[of "nat (jrIndex x)" jrs "store_job t x"]
      by (simp add: store_job_results)
  next
    case False
    then show ?thesis using Cons.IH[of "store_job t x"] Cons.prems by (simp add: store_job_results)
  qed
qed simp

lemma collect_jobs_sorted:
  assumes "mset (map jrIndex jrs) = mset (map int [0..<n])"
  shows "collect_jobs n jrs = tally_of (sort_key jrIndex jrs) \<and> map jrIndex (sort_key jrIndex jrs) = map int [0..<n]"
proof -
  let ?s = "sort_key jrIndex jrs" and ?t = "foldl store_job (empty_tally (replicate n zero_result)) jrs"
  have "sorted (map int [0..<n])" by (simp add: sorted_map mono_def)
  moreover have "mset (map jrIndex ?s) = mset (map int [0..<n])" using assms by simp
  ultimately have idx: "map jrIndex ?s = map int [0..<n]"
    by (metis properties_for_sort sorted_sort_id sorted_sort_key)
  have len: "length ?s = n" using arg_cong[OF idx, of length] by simp
  have "jtResults ?t = map jrResult ?s"
  proof (rule nth_equalityI)
    show "length (jtResults ?t) = length (map jrResult ?s)"
      using store_counts[of "empty_tally (replicate n zero_result)" jrs] len by (simp add: empty_tally_def)
  next
    fix k assume "k < length (jtResults ?t)"
    then have k: "k < n" using store_counts[of "empty_tally (replicate n zero_result)" jrs] by (simp add: empty_tally_def)
    have ik: "jrIndex (?s ! k) = int k" using arg_cong[OF idx, of "\<lambda>xs. xs ! k"] k len by simp
    have "mset (map (\<lambda>jr. nat (jrIndex jr)) jrs) = mset (map nat (map jrIndex jrs))" by (simp add: comp_def)
    also have "\<dots> = mset (map nat (map int [0..<n]))" using assms by (metis mset_map)
    also have "\<dots> = mset [0..<n]" by (simp add: comp_def)
    finally have "distinct (map (\<lambda>jr. nat (jrIndex jr)) jrs)" by (metis distinct_upt mset_eq_imp_distinct_iff)
    moreover have "?s ! k \<in> set jrs" using k len by (metis nth_mem set_sort)
    ultimately have "jtResults ?t ! nat (jrIndex (?s ! k)) = jrResult (?s ! k)"
      by (rule store_at_index) (use k ik in \<open>simp add: empty_tally_def\<close>)
    then show "jtResults ?t ! k = map jrResult ?s ! k" using ik k len by simp
  qed
  moreover have "length (filter jrCorrect ?s) = length (filter jrCorrect jrs)" by (metis mset_filter mset_sort size_mset)
  moreover have "set ?s = set jrs" by simp
  ultimately have "collect_jobs n jrs = tally_of ?s"
    using store_counts[of "empty_tally (replicate n zero_result)" jrs]
    unfolding collect_jobs_def tally_of_def by (intro job_tally.equality) (simp_all add: empty_tally_def)
  then show ?thesis using idx by blast
qed

lemma submit_jobs_facts:
  "submit_jobs E deps n items w = (deps', jobs, w') \<Longrightarrow> jdTask deps' = jdTask deps \<and> length jobs = length items"
proof (induction items arbitrary: n deps w deps' jobs w')
  case (Cons item items)
  obtain deps1 w1 where a: "announce_job E deps n item w = (deps1, w1)" by (rule prod.exhaust)
  obtain deps2 jobs2 w2 where r: "submit_jobs E deps1 (n + 1) items w1 = (deps2, jobs2, w2)" by (metis prod.exhaust)
  show ?case using Cons.IH[OF r] Cons.prems a r announce_job_task[OF a] by auto
qed simp

lemma arrivals_returns:
  assumes "step_limit (jdTask deps) > 0"
  shows "\<exists>jrs. arrivals E deps items order = Some jrs \<and> map jrIndex jrs = map (int \<circ> fst) order \<and>
     (\<forall>jr \<in> set jrs. job_of (jrIndex jr) (items ! nat (jrIndex jr)) jr)"
proof (induction order)
  case (Cons x rest)
  obtain i w where x: "x = (i, w)" by (rule prod.exhaust)
  obtain w' jr where "executeQuestionJob E deps (int i) (items ! i) (buildQuestionPrompt (items ! i)) w = Some (w', jr)"
    "job_of (int i) (items ! i) jr" using executeQuestionJob_returns[OF assms] by blast
  moreover from this(2) have "jrIndex jr = int i" by (simp add: job_of_def)
  ultimately show ?case using Cons x by auto
qed simp

text \<open>A schedule finishes every submitted job exactly once.\<close>

definition finishes_all :: "'w sched_env \<Rightarrow> bool" where
  "finishes_all S \<longleftrightarrow> (\<forall>obs j w. scAdmit S obs j w \<noteq> None) \<and>
     (\<forall>obs jobs w. \<exists>w' order. scSchedule S obs jobs w = Some (w', order) \<and> mset (map fst order) = mset [0..<length jobs])"

lemma runQuestionJobs_tally:
  assumes "step_limit (jdTask deps) > 0" "finishes_all S"
  shows "\<exists>w' jrs. (if sequential then runQuestionJobsSequential E S items deps w
                  else runQuestionJobsConcurrent E S items deps w) = Some (w', tally_of jrs) \<and> jobs_of 0 items jrs"
proof (cases sequential)
  case True
  then show ?thesis
    using sequential_jobs_tally[of deps S E 0 items "[]" w] assms
    by (simp add: runQuestionJobsSequential_def empty_tally_of finishes_all_def)
next
  case False
  obtain deps' jobs w1 where s: "submit_jobs E deps 0 items w = (deps', jobs, w1)" by (metis prod.exhaust)
  note sf = submit_jobs_facts[OF s]
  obtain w2 order where o: "scSchedule S (jdObserver deps') jobs w1 = Some (w2, order)"
    "mset (map fst order) = mset [0..<length jobs]" using assms(2) unfolding finishes_all_def by meson
  have "step_limit (jdTask deps') > 0" using assms(1) sf by simp
  from arrivals_returns[OF this, of E items order] obtain jrs where
    j: "arrivals E deps' items order = Some jrs" "map jrIndex jrs = map (int \<circ> fst) order"
    "\<forall>jr \<in> set jrs. job_of (jrIndex jr) (items ! nat (jrIndex jr)) jr" by blast
  have "mset (map jrIndex jrs) = image_mset int (mset (map fst order))" using j(2) by (metis list.map_comp mset_map)
  then have "mset (map jrIndex jrs) = mset (map int [0..<length items])" using o(2) sf by simp
  note c = collect_jobs_sorted[OF this]
  have len: "length (sort_key jrIndex jrs) = length items" using arg_cong[OF conjunct2[OF c], of length] by simp
  have "jobs_of 0 items (sort_key jrIndex jrs)"
    unfolding jobs_of_def
  proof (intro conjI allI impI len)
    fix k assume k: "k < length items"
    then have "jrIndex (sort_key jrIndex jrs ! k) = int k"
      using arg_cong[OF conjunct2[OF c], of "\<lambda>xs. xs ! k"] len by simp
    moreover have "sort_key jrIndex jrs ! k \<in> set jrs" using k len by (metis nth_mem set_sort)
    ultimately show "job_of (int (0 + k)) (items ! k) (sort_key jrIndex jrs ! k)" using j(3) by fastforce
  qed
  moreover have "runQuestionJobsConcurrent E S items deps w = Some (w2, tally_of (sort_key jrIndex jrs))"
    using s o(1) j(1) c by (simp add: runQuestionJobsConcurrent_def)
  ultimately show ?thesis using False by auto
qed

end
