(* ===== verification/Runner_Theorems.thy ===== *)
theory Runner_Theorems
  imports Runner_Lemmas
begin

text \<open>
  The properties of an evaluation: the result of a task, whatever order its questions finish in,
  and the grading of an answer, with an example world in which a model answers at once.
\<close>

section \<open>Accepted questions\<close>

lemma NormalizeSpec_questions:
  assumes "NormalizeSpec lower spec = Inl s"
  shows "qsQuestions s \<noteq> [] \<and> questions_issues lower 0 [] (qsQuestions s) = []"
  using assms by (auto simp: NormalizeSpec_def Let_def split: if_splits)

lemma questions_issues_each:
  "questions_issues lower i seen qs = [] \<Longrightarrow> q \<in> set qs \<Longrightarrow>
   correct_issues lower (indexed ''questions'' j) (quAnswers q) (quCorrectAnswers q) = [] \<or>
   (\<exists>k. correct_issues lower (indexed ''questions'' k) (quAnswers q) (quCorrectAnswers q) = [])"
  by (induction qs arbitrary: i seen) (auto simp: question_issues_def Let_def)

lemma correct_issues_none:
  assumes "correct_issues lower pre answers correct = []"
  shows "correct \<noteq> [] \<and> (\<forall>c \<in> set correct. \<exists>a \<in> set answers. NormalizeAnswerText lower a = NormalizeAnswerText lower c)"
proof -
  have "correct \<noteq> []" using assms by (auto simp: correct_issues_def)
  moreover have "\<exists>a \<in> set answers. NormalizeAnswerText lower a = NormalizeAnswerText lower c" if c: "c \<in> set correct" for c
  proof -
    obtain i where "i < length correct" "correct ! i = c" using c by (auto simp: in_set_conv_nth)
    then have "(i, c) \<in> set (enumerate 0 correct)" by (simp add: in_set_enumerate_eq)
    then have "NormalizeAnswerText lower c \<in> NormalizeAnswerText lower ` {a \<in> set answers. a \<noteq> []}"
      using assms \<open>correct \<noteq> []\<close> by (fastforce simp: correct_issues_def Let_def split: if_splits)
    then show ?thesis by auto
  qed
  ultimately show ?thesis by blast
qed

lemma LoadSpec_accepts:
  assumes "LoadSpec lower json yaml readFile path = Inl spec"
  shows "qsQuestions spec \<noteq> [] \<and> (\<forall>q \<in> set (qsQuestions spec). quCorrectAnswers q \<noteq> [] \<and>
     (\<forall>c \<in> set (quCorrectAnswers q). \<exists>a \<in> set (quAnswers q). NormalizeAnswerText lower a = NormalizeAnswerText lower c))"
proof -
  obtain s where n: "NormalizeSpec lower s = Inl spec"
    using assms by (auto simp: LoadSpec_def split: sum.splits)
  note q = NormalizeSpec_questions[OF n]
  show ?thesis using q questions_issues_each[OF conjunct2[OF q]] correct_issues_none by blast
qed

section \<open>The result of a task\<close>

lemma jobs_of_results:
  assumes "jobs_of 0 items jrs"
  shows "length (map jrResult jrs) = length items \<and>
     (\<forall>i < length items. about (items ! i) (map jrResult jrs ! i)) \<and>
     int (length (filter jrCorrect jrs)) = int (length (filter qrCorrect (map jrResult jrs)))"
proof -
  have "jrCorrect jr = qrCorrect (jrResult jr)" if "jr \<in> set jrs" for jr
    using that assms by (auto simp: in_set_conv_nth jobs_of_def job_of_def)
  then have "filter jrCorrect jrs = filter (qrCorrect \<circ> jrResult) jrs" by (auto intro: filter_cong)
  then show ?thesis using assms by (auto simp: jobs_of_def job_of_def filter_map)
qed

lemma jobs_of_each: "jobs_of n items jrs \<Longrightarrow> jr \<in> set jrs \<Longrightarrow> \<exists>i item. job_of i item jr"
  by (auto simp: jobs_of_def in_set_conv_nth)

lemma task_status_meaning:
  assumes "jobs_of 0 items jrs" "task_status (tally_of jrs) (jtRuntimeError (tally_of jrs) \<or> failed) = (status, reason)"
  shows "(status = ''pass'' \<longrightarrow> (\<forall>r \<in> set (map jrResult jrs). qrCorrect r)) \<and>
     ((\<forall>r \<in> set (map jrResult jrs). qrCorrect r) \<longrightarrow> (status, reason) = (''pass'', None) \<or>
        failed \<and> (status, reason) = (''error'', Some ''runtime_error'')) \<and>
     (reason = Some ''incorrect_answers'' \<longrightarrow> (\<forall>r \<in> set (map jrResult jrs). qrRunError r = []) \<and>
        (\<exists>r \<in> set (map jrResult jrs). \<not> qrCorrect r)) \<and>
     (reason = Some ''budget_exceeded'' \<longrightarrow> (\<exists>r \<in> set (map jrResult jrs). qrRunError r = ''budget_exceeded''))"
proof -
  note J = jobs_of_each[OF assms(1)]
  have all: "int (length (filter jrCorrect jrs)) = int (length jrs) \<longleftrightarrow> (\<forall>jr \<in> set jrs. qrCorrect (jrResult jr))"
  proof -
    have "length (filter jrCorrect jrs) = length jrs \<longleftrightarrow> (\<forall>jr \<in> set jrs. jrCorrect jr)"
      by (metis filter_id_conv length_filter_less order_less_irrefl)
    then show ?thesis using J by (auto simp: job_of_def)
  qed
  have none: "qrRunError (jrResult jr) = []" if "jr \<in> set jrs" "\<not> jrRuntimeError jr" "\<not> jrBudgetExceeded jr" for jr
    using J[OF that(1)] that(2,3) by (auto simp: job_of_def)
  have budget: "qrRunError (jrResult jr) = ''budget_exceeded''" if "jr \<in> set jrs" "jrBudgetExceeded jr" for jr
    using J[OF that(1)] that(2) by (auto simp: job_of_def)
  have good: "\<not> jrRuntimeError jr \<and> \<not> jrBudgetExceeded jr" if "jr \<in> set jrs" "qrCorrect (jrResult jr)" for jr
    using J[OF that(1)] that(2) by (auto simp: job_of_def)
  show ?thesis
    using assms(2) all none budget good
    by (auto simp: task_status_def tally_of_def split: if_splits)
qed


section \<open>An example\<close>

text \<open>Two yes-or-no questions, two workers that finish in reverse order, and a model that says yes.\<close>

definition rx_question :: "string \<Rightarrow> string \<Rightarrow> question" where
  "rx_question i c = \<lparr>quID = i, quPrompt = ''is it?'', quAnswers = [''Yes'', ''No''], quCorrectAnswers = [c]\<rparr>"

definition rx_spec :: question_spec where
  "rx_spec = \<lparr>qsVersion = 1, qsQuestions = [rx_question ''a'' ''Yes'', rx_question ''b'' ''No'']\<rparr>"

definition rx_env :: "unit eval_env" where
  "rx_env = \<lparr>evMarshal = (\<lambda>a. Inl ''{}''), evNow = (\<lambda>w. (w, 0)), evLower = (\<lambda>s. s),
     evXml = (\<lambda>f. Inl (take (length f - 17) (drop 8 f))),
     evJsonSpec = \<lparr>sdFirst = (\<lambda>s. Inl rx_spec), sdNext = (\<lambda>s. None)\<rparr>,
     evYamlSpec = \<lparr>sdFirst = (\<lambda>s. Inl rx_spec), sdNext = (\<lambda>s. None)\<rparr>, evReadFile = (\<lambda>p. Inl [])\<rparr>"

definition rx_agent :: agent_config where
  "rx_agent = \<lparr>agID = ''a'', agType = ''builtin'', agProvider = ''openrouter'', agModel = ''m'', agMaxSteps = 5, agTemperature = ''0''\<rparr>"

definition rx_task :: task_config where
  "rx_task = \<lparr>tkID = ''t'', tkType = ''question_eval'', tkAgent = ''a'', tkModel = [], tkQuestionsFile = ''q.json'',
     tkBudget = \<lparr>tbMaxTokens = 0, tbMaxSeconds = 0, tbMaxSteps = 0\<rparr>,
     tkCompaction = \<lparr>tpMaxTokens = 0, tpSummaryPrompt = [], tpSummaryPromptFile = [],
                     tpRecentUserTokenBudget = 0, tpRecentToolOutputLimit = 0\<rparr>, tkConcurrency = 2\<rparr>"

definition rx_config :: cogni_config where
  "rx_config = \<lparr>cfVersion = 1, cfOutputDir = ''out'', cfSetupCommands = [], cfAgents = [rx_agent],
     cfDefaultAgent = ''a'',
     cfRateLimiter = \<lparr>rcMode = [], rcBaseURL = [], rcLimits = None, rcLimitsPath = [], rcWorkers = 0,
                      rcRequestTimeoutMs = 0, rcMaxOutputTokens = 0, rcBatchSize = 0, rcBatchFlushMs = 0\<rparr>,
     cfTasks = [rx_task]\<rparr>"

definition rx_run :: task_run where
  "rx_run = \<lparr>trnTask = rx_task, trnAgent = rx_agent, trnModel = ''m'', trnAgentID = ''a''\<rparr>"

definition rx_sched :: "unit sched_env" where
  "rx_sched = \<lparr>scAdmit = (\<lambda>ob j w. Some w),
     scSchedule = (\<lambda>ob js w. Some (w, map (\<lambda>i. (i, ())) (rev [0..<length js]))), scShutdown = (\<lambda>w. (w, None))\<rparr>"

definition rx_factory :: "unit provider_factory" where
  "rx_factory w a m = (w, Inl (\<lambda>w p. (w, Inl ([StreamEventMessage ''So: <answer>Yes</answer>''], None))))"

definition rx_executor :: "unit executor" where
  "rx_executor w c = (w, \<lparr>crTool = [], crOutput = [], crOutputBytes = 0, crTruncated = False, crStartedAt = 0,
                          crFinishedAt = 0, crDuration = 0, crError = []\<rparr>)"

lemma rx_loads:
  "LoadSpec (evLower rx_env) (evJsonSpec rx_env) (evYamlSpec rx_env) (evReadFile rx_env)
     (resolveQuestionsFile ''/r'' (tkQuestionsFile (trnTask rx_run))) = Inl rx_spec"
  by code_simp

lemma rx_compaction: "\<exists>c. buildCompactionConfig (evReadFile rx_env) (trnTask rx_run) ''/r'' = Inl c"
proof -
  have "TrimSpace [] = []" by code_simp
  then show ?thesis by (simp add: buildCompactionConfig_def rx_env_def rx_run_def rx_task_def)
qed

lemma rx_finishes: "finishes_all rx_sched"
proof -
  have "map fst (map (\<lambda>i. (i, ())) xs) = xs" for xs :: "nat list" by (simp add: comp_def)
  then have m: "mset (map fst (map (\<lambda>i. (i, ())) (rev [0..<n]))) = mset [0..<n]" for n by (metis mset_rev)
  show ?thesis
    unfolding finishes_all_def
  proof (intro conjI allI)
    fix ob js and w :: unit
    show "\<exists>w' order. scSchedule rx_sched ob js w = Some (w', order) \<and> mset (map fst order) = mset [0..<length js]"
      by (rule exI[of _ w], rule exI[of _ "map (\<lambda>i. (i, ())) (rev [0..<length js])"])
        (simp only: m rx_sched_def sched_env.simps simp_thms)
  qed (simp add: rx_sched_def)
qed


section \<open>Grading\<close>

text \<open>C40. An answer is graded as the question file asks: when the call of a question ends without
  an error and its output ends in \<open><answer>t</answer>\<close>, whatever precedes it, for a text \<open>t\<close> that XML
  leaves alone and that is not blank, the result records \<open>t\<close> trimmed, no error, and is correct exactly
  when \<open>t\<close> is one of the correct answers of the question up to case and surrounding space.  For a
  question of an accepted file a correct answer is then one of the listed choices, and some choice
  is graded correct.\<close>

theorem answer_graded:
  assumes "jdProviderFactory deps (Emit (evNow E) (jdObserver deps) i (event_of QuestionRunning) w)
             (trnAgent (jdTask deps)) (trnModel (jdTask deps)) = (w2, Inl provider)"
    and "evNow E w2 = (w3, start)"
    and "RunCall (job_env E deps i provider start)
           (newSession (jdTask deps) (jdRepoRoot deps) (jdToolDefs deps) (jdVerbose deps)) p (job_options deps) [] w3 =
           Some (w4, session, result, None)"
    and "arOutput result = pre @ ''<answer>'' @ t @ ''</answer>''" "CHR ''<'' \<notin> set t"
    and "evXml E (''<answer>'' @ t @ ''</answer>'') = Inl t" "TrimSpace t \<noteq> []"
    and "LoadSpec (evLower E) json yaml readFile path = Inl spec" "item \<in> set (qsQuestions spec)"
  shows "\<exists>w' jr. executeQuestionJob E deps i item p w = Some (w', jr) \<and>
     qrAgentAnswer (jrResult jr) = TrimSpace t \<and> qrParseError (jrResult jr) = [] \<and> qrRunError (jrResult jr) = [] \<and>
     jrCorrect jr = qrCorrect (jrResult jr) \<and>
     (qrCorrect (jrResult jr) \<longleftrightarrow>
        (\<exists>c \<in> set (quCorrectAnswers item). NormalizeAnswerText (evLower E) c = NormalizeAnswerText (evLower E) (TrimSpace t))) \<and>
     (qrCorrect (jrResult jr) \<longrightarrow>
        (\<exists>a \<in> set (quAnswers item). NormalizeAnswerText (evLower E) a = NormalizeAnswerText (evLower E) (TrimSpace t))) \<and>
     (\<exists>a \<in> set (quAnswers item). NormalizeAnswerText (evLower E) a \<in> NormalizeAnswerText (evLower E) ` set (quCorrectAnswers item))"
proof -
  have "ExtractTrailingAnswerXML (arOutput result) = Inl (''<answer>'' @ t @ ''</answer>'')"
    using trailing_answer_found[OF assms(5), of pre] assms(4) by (simp add: open_tag_def close_tag_def)
  moreover have "TrimSpace (''<answer>'' @ t @ ''</answer>'') = ''<answer>'' @ t @ ''</answer>''"
  proof (rule TrimSpace_end)
    show "trailing_space (''<answer>'' @ t @ ''</answer>'') = 0"
      using ends_with_close_tag[of "''<answer>'' @ t"] by (simp add: close_tag_def)
  qed (simp add: trim_left.simps leading_space_def space_codes_def)
  ultimately have answer: "ParseAnswerFromOutput (evLower E) (evXml E) (arOutput result) =
      Inl \<lparr>paRaw = TrimSpace t, paNormalized = NormalizeAnswerText (evLower E) (TrimSpace t)\<rparr>"
    using assms(6,7) by (simp add: ParseAnswerFromOutput_def ParseAnswerXML_def Let_def)
  obtain jr final where v: "job_verdict E i item result None = (jr, final)" by (rule prod.exhaust)
  have jr: "qrAgentAnswer (jrResult jr) = TrimSpace t" "qrParseError (jrResult jr) = []" "qrRunError (jrResult jr) = []"
    "jrCorrect jr = qrCorrect (jrResult jr)"
    "qrCorrect (jrResult jr) \<longleftrightarrow> (\<exists>c \<in> set (quCorrectAnswers item).
       NormalizeAnswerText (evLower E) c = NormalizeAnswerText (evLower E) (TrimSpace t))"
    using v answer
    by (auto simp: job_verdict_def Let_def isCorrectAnswer_def buildQuestionResult_def split: if_splits)
  have run: "executeQuestionJob E deps i item p w =
      Some (Emit (evNow E) (jdObserver deps) i final (Emit (evNow E) (jdObserver deps) i (event_of QuestionParsing) w4), jr)"
    using assms(1-3) v by (simp add: executeQuestionJob_def Let_def)
  have spec: "quCorrectAnswers item \<noteq> []"
    "\<forall>c \<in> set (quCorrectAnswers item). \<exists>a \<in> set (quAnswers item).
       NormalizeAnswerText (evLower E) a = NormalizeAnswerText (evLower E) c"
    using LoadSpec_accepts[OF assms(8)] assms(9) by blast+
  then obtain c a where "c \<in> set (quCorrectAnswers item)" "a \<in> set (quAnswers item)"
    "NormalizeAnswerText (evLower E) a = NormalizeAnswerText (evLower E) c" by (metis list.set_intros(1) neq_Nil_conv)
  then show ?thesis using run jr spec(2) by (metis image_eqI)
qed

text \<open>A model that answers at once: a call with a step limit and no other ends with its answer.\<close>

lemma RunCall_answers:
  assumes "\<And>w pr. aeStream E w pr = (w, Inl ([StreamEventMessage msg], None))" "\<And>w. aeElapsed E w = (w, 0)"
    and "roTokenCounter opts = None" "liMaxSteps (roLimits opts) > 0" "liMaxSeconds (roLimits opts) = 0"
  shows "\<exists>session' result. RunCall E session p opts [] w = Some (w, session', result, None) \<and> arOutput result = msg"
proof -
  have steps: "\<not> liMaxSteps (roLimits opts) \<le> 0" using assms(4) by simp
  have "call_loop E (snCtx session) opts [] (call_start w session p) =
      Some (\<lparr>ctWorld = w, ctHistory = (snHistory session @ [text_item ''user'' p]) @ [text_item ''assistant'' msg],
            ctMetrics = zero_metrics\<lparr>meSteps := 1\<rparr>,
            ctHookInput = Some \<lparr>ciPrompt = BuildPrompt (snCtx session) (snHistory session @ [text_item ''user'' p]),
                                ciToolDefs = txTools (snCtx session), ciLimits = roLimits opts\<rparr>\<rparr>, None)"
    by (subst call_loop.simps)
      (simp add: call_iteration_def compact_step_def exceededLimits_def hooks_step_def stream_step_def assms steps
        Let_def call_start_def zero_metrics_def)
  then show ?thesis
    using assms by (simp add: RunCall_def finalizeMetrics_def callAfterHooks_def latestAssistantMessage_def historyText_def)
qed

definition rx_deps :: "unit job_deps" where
  "rx_deps = \<lparr>jdRepoRoot = ''/r'', jdTask = rx_run, jdToolDefs = [], jdExecutor = rx_executor,
     jdProviderFactory = rx_factory, jdTokenCounter = None,
     jdCompaction = \<lparr>ccSoftLimit = 0, ccHardLimit = 0, ccSummaryPrompt = [], ccRecentUserTokenBudget = 0, ccRecentToolOutputLimit = 0\<rparr>,
     jdVerbose = False, jdMaxOutputTokens = 0, jdObserver = None\<rparr>"

theorem answer_graded_witness:
  "\<exists>w' jr. executeQuestionJob rx_env rx_deps 0 (rx_question ''a'' ''Yes'') ''q'' () = Some (w', jr) \<and>
     jrCorrect jr \<and> qrAgentAnswer (jrResult jr) = ''Yes''"
proof -
  let ?provider = "\<lambda>w (p :: prompt). (w :: unit, Inl ([StreamEventMessage ''So: <answer>Yes</answer>''], None) :: agent_stream + string)"
  let ?session = "newSession (jdTask rx_deps) (jdRepoRoot rx_deps) (jdToolDefs rx_deps) (jdVerbose rx_deps)"
  have factory: "jdProviderFactory rx_deps (Emit (evNow rx_env) (jdObserver rx_deps) 0 (event_of QuestionRunning) ())
      (trnAgent (jdTask rx_deps)) (trnModel (jdTask rx_deps)) = ((), Inl ?provider)"
    by (simp add: rx_deps_def rx_factory_def)
  have clock: "evNow rx_env () = ((), 0)" by (simp add: rx_env_def)
  have lim: "liMaxSteps (roLimits (job_options rx_deps)) > 0" "liMaxSeconds (roLimits (job_options rx_deps)) = 0"
    by code_simp+
  obtain session result where call: "RunCall (job_env rx_env rx_deps 0 ?provider 0) ?session ''q'' (job_options rx_deps) [] ()
      = Some ((), session, result, None)" and out: "arOutput result = ''So: <answer>Yes</answer>''"
    using RunCall_answers[of "job_env rx_env rx_deps 0 ?provider 0" "''So: <answer>Yes</answer>''" "job_options rx_deps" ?session "''q''" "()"]
      lim by (auto simp: job_env_def rx_env_def job_options_def rx_deps_def Let_def)
  have ends: "arOutput result = ''So: '' @ ''<answer>'' @ ''Yes'' @ ''</answer>''" using out by simp
  have plain: "CHR ''<'' \<notin> set ''Yes''" by simp
  have xml: "evXml rx_env (''<answer>'' @ ''Yes'' @ ''</answer>'') = Inl ''Yes''" by code_simp
  have trim: "TrimSpace ''Yes'' = ''Yes''" by code_simp
  have item: "rx_question ''a'' ''Yes'' \<in> set (qsQuestions rx_spec)" by (simp add: rx_spec_def)
  obtain w' jr where r: "executeQuestionJob rx_env rx_deps 0 (rx_question ''a'' ''Yes'') ''q'' () = Some (w', jr)"
    "qrAgentAnswer (jrResult jr) = TrimSpace ''Yes''" "jrCorrect jr = qrCorrect (jrResult jr)"
    "qrCorrect (jrResult jr) \<longleftrightarrow> (\<exists>c \<in> set (quCorrectAnswers (rx_question ''a'' ''Yes'')).
       NormalizeAnswerText (evLower rx_env) c = NormalizeAnswerText (evLower rx_env) (TrimSpace ''Yes''))"
    using answer_graded[OF factory clock call ends plain xml _ rx_loads item] trim by auto
  then show ?thesis using trim by (auto simp: rx_question_def)
qed

end
