(* ===== verification/Runner_Findings.thy ===== *)
theory Runner_Findings
  imports Runner_Theorems
begin

text \<open>
  A configuration that validation accepts and the plan of a run: with ids that carry no surrounding
  space every task is planned with its agent, in the order of the file; validation trims ids and
  types before it compares them and the plan does not, so that padded ones are accepted and then
  refused.
\<close>

section \<open>Accepted configurations are planned\<close>

lemma agents_scan_ids: "set (snd (agents_scan i ids agents)) \<subseteq> set ids \<union> (TrimSpace \<circ> agID) ` set agents"
proof (induction agents arbitrary: i ids)
  case (Cons a agents)
  let ?ids = "if TrimSpace (agID a) \<noteq> [] \<and> TrimSpace (agID a) \<notin> set ids then TrimSpace (agID a) # ids else ids"
  have "snd (agents_scan i ids (a # agents)) = snd (agents_scan (i + 1) ?ids agents)"
    by (simp add: Let_def split: prod.split)
  then show ?case using Cons.IH[of "i + 1" ?ids] by (auto split: if_splits)
qed simp

lemma validateTasks_each:
  "validateTasks stat dir ids i seen ts = [] \<Longrightarrow> t \<in> set ts \<Longrightarrow> tkAgent t \<in> set ids \<and> tkAgent t \<noteq> []"
proof (induction ts arbitrary: i seen)
  case (Cons x ts)
  show ?case
  proof (cases "t = x")
    case True
    have "task_issues stat dir ids i seen x = []" using Cons.prems(1) by simp
    then have "TrimSpace (tkAgent x) \<noteq> [] \<and> tkAgent x \<in> set ids"
      unfolding task_issues_def Let_def append_is_Nil_conv by (metis list.distinct(1))
    moreover have "TrimSpace [] = []" by code_simp
    ultimately show ?thesis using True by metis
  next
    case False
    have "validateTasks stat dir ids (i + 1)
        (if TrimSpace (tkID x) \<noteq> [] then TrimSpace (tkID x) # seen else seen) ts = []"
      using Cons.prems(1) by simp
    from Cons.IH[OF this] show ?thesis using False Cons.prems(2) by simp
  qed
qed simp

lemma agent_by_id_finds: "a \<in> set agents \<Longrightarrow> \<exists>b. agent_by_id agents (agID a) = Some b"
proof -
  have "dom (foldl (\<lambda>m a. m(agID a \<mapsto> a)) m agents) = dom m \<union> agID ` set agents" for m
    by (induction agents arbitrary: m) auto
  from this[of Map.empty] show "a \<in> set agents \<Longrightarrow> ?thesis" unfolding agent_by_id_def by (auto simp: dom_def)
qed

lemma plan_runs_finds:
  "(\<And>t. t \<in> set ts \<Longrightarrow> agents (f t) \<noteq> None) \<Longrightarrow> \<exists>runs. plan_runs agents f ts = Inl runs \<and> map trnTask runs = ts \<and> map trnAgentID runs = map f ts"
proof (induction ts)
  case (Cons t ts)
  then obtain runs a where "plan_runs agents f ts = Inl runs" "map trnTask runs = ts" "map trnAgentID runs = map f ts"
    "agents (f t) = Some a" by (metis list.set_intros(1,2) not_Some_eq)
  then show ?case by auto
qed simp

lemma accepted_config_planned:
  assumes "Validate lower stat cfg dir = []" "\<And>a. a \<in> set (cfAgents cfg) \<Longrightarrow> TrimSpace (agID a) = agID a"
  shows "\<exists>runs. planTaskRuns cfg [] [] = Inl runs \<and> map trnTask runs = cfTasks cfg \<and>
     map trnAgentID runs = map tkAgent (cfTasks cfg)"
proof -
  obtain issues ids where va: "validateAgents cfg = (issues, ids)" by (rule prod.exhaust)
  have "validateTasks stat (if dir = [] then ''.'' else dir) ids 0 [] (cfTasks cfg) = []"
    using assms(1) va by (simp add: Validate_def Let_def)
  note each = validateTasks_each[OF this]
  have ids: "set ids \<subseteq> agID ` set (cfAgents cfg)"
    using agents_scan_ids[of 0 "[]" "cfAgents cfg"] va assms(2)
    by (auto simp: validateAgents_def Let_def split: prod.splits)
  have agent: "run_agent_id cfg [] [] t = tkAgent t" if "t \<in> set (cfTasks cfg)" for t
    using each[OF that] by (simp add: run_agent_id_def selected_agent_def)
  have "\<exists>runs. plan_runs (agent_by_id (cfAgents cfg)) (run_agent_id cfg [] []) (cfTasks cfg) = Inl runs \<and>
      map trnTask runs = cfTasks cfg \<and> map trnAgentID runs = map (run_agent_id cfg [] []) (cfTasks cfg)"
  proof (rule plan_runs_finds)
    fix t assume t: "t \<in> set (cfTasks cfg)"
    then obtain a where "a \<in> set (cfAgents cfg)" "agID a = tkAgent t" using each[OF t] ids by auto
    then show "agent_by_id (cfAgents cfg) (run_agent_id cfg [] [] t) \<noteq> None"
      using agent_by_id_finds[of a "cfAgents cfg"] agent[OF t] by auto
  qed
  then show ?thesis
    using agent by (auto simp: planTaskRuns_def ValidateSelectors_def OrderedTasks_def cong: map_cong)
qed

section \<open>Padded ids and types\<close>

text \<open>
  The agent \<open> a \<close> passes validation under the id \<open>a\<close> that the default and the task name; the plan
  looks for \<open>a\<close> and does not find it.
\<close>

definition padded_config :: cogni_config where
  "padded_config = Normalize (rx_config\<lparr>cfAgents := [rx_agent\<lparr>agID := '' a ''\<rparr>]\<rparr>)"

lemma padded_agent_unknown:
  "Validate (\<lambda>s. s) (\<lambda>p. Some False) padded_config ''/r'' = []"
  "planTaskRuns padded_config [] [] = Inr (''unknown agent id '' @ quote ''a'')"
  by code_simp+

text \<open>A padded type is accepted too, and the run stops at the task, without the results before it.\<close>

definition padded_task :: cogni_config where
  "padded_task = Normalize (rx_config\<lparr>cfTasks := [rx_task, rx_task\<lparr>tkID := ''u'', tkType := '' question_eval ''\<rparr>]\<rparr>)"

lemma padded_type_accepted: "Validate (\<lambda>s. s) (\<lambda>p. Some False) padded_task ''/r'' = []"
  by code_simp

lemma padded_type_stops_run:
  assumes "tkType (trnTask bad) = '' question_eval ''" "run_one (observe observer f w) good = Some (w', result)"
    and "tkType (trnTask good) = ''question_eval''"
    and "f = (\<lambda>ob. obOnTaskStart ob (tkID (trnTask good)) (tkType (trnTask good)) (tkQuestionsFile (trnTask good))
                       (trnAgentID good) (trnModel good))"
  shows "\<exists>w''. run_tasks run_one observer [good, bad] ([], []) w =
     Some (w'', Inr (''unsupported task type '' @ quote '' question_eval ''))"
  using assms(1,3) by (simp add: Let_def assms(2)[unfolded assms(3,4)])

section \<open>An empty question list\<close>

text \<open>The branch for a task without questions is never taken: loading refuses such a file.\<close>

lemma no_questions_unreachable:
  "LoadSpec lower json yaml readFile path = Inl spec \<Longrightarrow> qsQuestions spec \<noteq> []"
  by (rule conjunct1[OF LoadSpec_accepts])

end
