(* ===== verification/Go_Duration.thy ===== *)
theory Go_Duration
  imports Go_Text
begin

text \<open>
  More of Go's standard library for the live view: \<open>Duration.Round\<close> and \<open>Duration.String\<close> of
  package \<open>time\<close>, and \<open>strings.Fields\<close>.
\<close>

section \<open>Rounding\<close>

text \<open>Halves are rounded away from zero; a result beyond the range of a duration saturates.\<close>

definition Round :: "duration \<Rightarrow> duration \<Rightarrow> duration" where
  "Round d m =
     (if m \<le> 0 then d
      else
        let r = \<bar>d\<bar> mod m; down = \<bar>d\<bar> - r;
            rounded = (if 2 * r < m then down else down + m)
        in if d < 0 then max (- (2 ^ 63)) (- rounded) else min (2 ^ 63 - 1) rounded)"

lemma Round_near: "0 \<le> d \<Longrightarrow> 0 < m \<Longrightarrow> d + m < 2 ^ 63 \<Longrightarrow> m dvd Round d m \<and> 2 * \<bar>Round d m - d\<bar> \<le> m"
proof -
  assume d: "0 \<le> d" and m: "0 < m" and r: "d + m < 2 ^ 63"
  have b: "0 \<le> d mod m" "d mod m < m" "m dvd d - d mod m" "d mod m \<le> d"
    using d m by (auto simp: zmod_le_nonneg_dividend)
  show ?thesis
  proof (cases "2 * (d mod m) < m")
    case True
    moreover have "d - d mod m \<le> 2 ^ 63 - 1" using b(1) m r by linarith
    ultimately have "Round d m = d - d mod m" using d m by (simp add: Round_def Let_def)
    then show ?thesis using True b by simp
  next
    case False
    have "Round d m = d - d mod m + m" using False b d m r by (simp add: Round_def Let_def)
    moreover have "m dvd d - d mod m + m" using b(3) by (rule dvd_add) simp
    ultimately show ?thesis using False b by simp
  qed
qed

section \<open>Text\<close>

text \<open>A fraction of a number of digits, without trailing zeros and without a point when it is zero.\<close>

definition padded :: "nat \<Rightarrow> nat \<Rightarrow> string" where
  "padded width v = replicate (width - length (decimal v)) CHR ''0'' @ decimal v"

definition fraction :: "nat \<Rightarrow> nat \<Rightarrow> string" where
  "fraction width v =
     (let digits = TrimRight (padded width v) CHR ''0'' in if v = 0 then [] else CHR ''.'' # digits)"

definition Duration_String :: "duration \<Rightarrow> string" where
  "Duration_String d =
     (let u = nat \<bar>d\<bar>;
          body =
            (if u = 0 then ''0s''
             else if u < 10 ^ 3 then decimal u @ ''ns''
             else if u < 10 ^ 6 then decimal (u div 10 ^ 3) @ fraction 3 (u mod 10 ^ 3) @ [CHR 0xC2, CHR 0xB5, CHR ''s'']
             else if u < 10 ^ 9 then decimal (u div 10 ^ 6) @ fraction 6 (u mod 10 ^ 6) @ ''ms''
             else
               let secs = u div 10 ^ 9; mins = secs div 60; hours = mins div 60 in
               (if hours > 0 then decimal hours @ ''h'' else []) @
               (if mins > 0 then decimal (mins mod 60) @ ''m'' else []) @
               decimal (secs mod 60) @ fraction 9 (u mod 10 ^ 9) @ ''s'')
      in if d < 0 then CHR ''-'' # body else body)"

lemma Duration_String_examples:
  "Duration_String 0 = ''0s''" "Duration_String (1500 * Millisecond) = ''1.5s''"
  "Duration_String (3600 * Second) = ''1h0m0s''" "Duration_String (- 100 * Millisecond) = ''-100ms''"
  by (simp_all add: Duration_String_def fraction_def padded_def decimal.simps TrimRight_def digit_def
      Millisecond_def Second_def char_of_def bit_iff_odd)

section \<open>Fields\<close>

text \<open>The word a string starts with and what follows it.\<close>

fun take_word :: "string \<Rightarrow> string \<times> string" where
  "take_word [] = ([], [])"
| "take_word (c # cs) =
     (if leading_space (c # cs) > 0 then ([], c # cs)
      else case take_word cs of (w, rest) \<Rightarrow> (c # w, rest))"

lemma take_word_append: "take_word s = (w, rest) \<Longrightarrow> s = w @ rest"
  by (induction s arbitrary: w rest) (auto split: if_splits prod.splits)

lemma take_word_nonempty: "leading_space s = 0 \<Longrightarrow> s \<noteq> [] \<Longrightarrow> take_word s = (w, rest) \<Longrightarrow> w \<noteq> []"
  by (cases s) (auto split: prod.splits)

lemma trim_left_length: "length (trim_left s) \<le> length s"
proof (induction s rule: trim_left.induct)
  case (1 s)
  then show ?case by (subst trim_left.simps) force
qed

function Fields :: "string \<Rightarrow> string list" where
  "Fields s =
     (let t = trim_left s in
      if t = [] then [] else case take_word t of (w, rest) \<Rightarrow> w # Fields rest)"
  by pat_completeness auto
termination
proof (relation "measure length")
  fix s t w rest assume t: "t = trim_left s" and ne: "t \<noteq> []" and w: "(w, rest) = take_word t"
  have "w \<noteq> []" using take_word_nonempty[of t w rest] trim_left_done[of s] t ne w by auto
  moreover have "t = w @ rest" using take_word_append[of t w rest] w by simp
  ultimately show "(rest, s) \<in> measure length" using trim_left_length[of s] t by (cases w) auto
qed simp

declare Fields.simps [simp del]

end
