(* ===== verification/Live_State.thy ===== *)
theory Live_State
  imports Runner_Events Go_Duration
begin

text \<open>
  The state of the live console view (\<open>internal/ui/live\<close>: \<open>state.go\<close>, \<open>events.go\<close>, \<open>reducer.go\<close>,
  \<open>observer.go\<close>): the rows of a task's questions, the reducer of question events, the counts, and
  the queue of events between the run and the view.

  \<open>Reduce\<close> writes into the slice of rows it is given, which its callers replace by the result.
\<close>

section \<open>State\<close>

record tool_status =
  tsName :: string
  tsState :: string
  tsDuration :: duration
  tsError :: string
  tsStartedAt :: go_time
  tsFinishedAt :: go_time

record question_row =
  rwIndex :: go_int
  rwID :: string
  rwText :: string
  rwStatus :: question_event_type
  rwTool :: tool_status
  rwHasTool :: bool
  rwRetryCount :: go_int
  rwRetryAfterMs :: go_int
  rwStartedAt :: go_time
  rwFinishedAt :: go_time
  rwTokens :: go_int
  rwError :: string

record status_counts =
  scQueued :: go_int
  scScheduled :: go_int
  scReserving :: go_int
  scWaiting :: go_int
  scRunning :: go_int
  scParsing :: go_int
  scDone :: go_int
  scCorrect :: go_int
  scIncorrect :: go_int
  scParseError :: go_int
  scBudgetExceeded :: go_int
  scRuntimeError :: go_int
  scSkipped :: go_int

record live_state =
  lsRunID :: string
  lsRepo :: string
  lsTaskID :: string
  lsQuestionsFile :: string
  lsAgentID :: string
  lsModel :: string
  lsStartedAt :: go_time
  lsLastEvent :: string
  lsRows :: "question_row list"
  lsCounts :: status_counts

definition zero_counts :: status_counts where
  "zero_counts = \<lparr>scQueued = 0, scScheduled = 0, scReserving = 0, scWaiting = 0, scRunning = 0, scParsing = 0,
     scDone = 0, scCorrect = 0, scIncorrect = 0, scParseError = 0, scBudgetExceeded = 0, scRuntimeError = 0,
     scSkipped = 0\<rparr>"

definition zero_tool :: tool_status where
  "zero_tool = \<lparr>tsName = [], tsState = [], tsDuration = 0, tsError = [], tsStartedAt = zero_time, tsFinishedAt = zero_time\<rparr>"

definition zero_state :: live_state where
  "zero_state = \<lparr>lsRunID = [], lsRepo = [], lsTaskID = [], lsQuestionsFile = [], lsAgentID = [], lsModel = [],
     lsStartedAt = zero_time, lsLastEvent = [], lsRows = [], lsCounts = zero_counts\<rparr>"

definition queued_row :: "nat \<Rightarrow> question_row" where
  "queued_row i = \<lparr>rwIndex = int i, rwID = [], rwText = [], rwStatus = QuestionQueued, rwTool = zero_tool,
     rwHasTool = False, rwRetryCount = 0, rwRetryAfterMs = 0, rwStartedAt = zero_time, rwFinishedAt = zero_time,
     rwTokens = 0, rwError = []\<rparr>"

section \<open>Messages\<close>

definition formatDuration :: "duration \<Rightarrow> string" where
  "formatDuration d = (if d \<le> 0 then ''0s'' else Duration_String (Round d (100 * Millisecond)))"

definition formatRetryAfter :: "go_int \<Rightarrow> string" where
  "formatRetryAfter ms = (if ms \<le> 0 then [] else formatDuration (dur ms Millisecond))"

definition formatLastEvent :: "question_event \<Rightarrow> string" where
  "formatLastEvent e =
     (let q = ''Q'' @ show_int (veQuestionIndex e + 1) in
      case veType e of
        QuestionWaitingRateLimit \<Rightarrow>
          if veRetryAfterMs e > 0 then q @ '' rate limited (retry in '' @ formatRetryAfter (veRetryAfterMs e) @ '')''
          else q @ '' rate limited''
      | QuestionWaitingLimitDecreasing \<Rightarrow> q @ '' limit decreasing''
      | QuestionWaitingLimiterError \<Rightarrow> q @ '' limiter error (retrying)''
      | QuestionToolStart \<Rightarrow> q @ '' tool '' @ veToolName e @ '' started''
      | QuestionToolFinish \<Rightarrow>
          if veToolError e \<noteq> [] then q @ '' tool '' @ veToolName e @ '' error ('' @ veToolError e @ '')''
          else q @ '' tool '' @ veToolName e @ '' finished ('' @ formatDuration (veToolDuration e) @ '')''
      | QuestionRuntimeError \<Rightarrow> q @ '' runtime error: '' @ veError e
      | QuestionBudgetExceeded \<Rightarrow> q @ '' budget exceeded''
      | QuestionParseError \<Rightarrow> q @ '' parse error: '' @ veError e
      | QuestionCorrect \<Rightarrow> q @ '' completed''
      | QuestionIncorrect \<Rightarrow> q @ '' completed''
      | _ \<Rightarrow> [])"

section \<open>The reducer\<close>

definition isTerminalStatus :: "question_event_type \<Rightarrow> bool" where
  "isTerminalStatus s \<longleftrightarrow> s \<in> {QuestionCorrect, QuestionIncorrect, QuestionParseError, QuestionBudgetExceeded,
                               QuestionRuntimeError, QuestionSkipped}"

definition isWaitingStatus :: "question_event_type \<Rightarrow> bool" where
  "isWaitingStatus s \<longleftrightarrow> s \<in> {QuestionWaitingRateLimit, QuestionWaitingLimitDecreasing, QuestionWaitingLimiterError}"

definition ensureRow :: "live_state \<Rightarrow> question_event \<Rightarrow> live_state" where
  "ensureRow s e =
     (if veQuestionIndex e < 0 \<or> veQuestionIndex e < int (length (lsRows s)) then s
      else s\<lparr>lsRows := lsRows s @ map queued_row [length (lsRows s)..<nat (veQuestionIndex e) + 1]\<rparr>)"

definition row_event :: "question_row \<Rightarrow> question_event \<Rightarrow> question_row" where
  "row_event row0 e =
     (let row = row0\<lparr>rwID := (if rwID row0 = [] then veQuestionID e else rwID row0),
                     rwText := (if rwText row0 = [] then veQuestionText e else rwText row0)\<rparr>
      in if veType e = QuestionToolStart then
           row\<lparr>rwTool := zero_tool\<lparr>tsName := veToolName e, tsState := ''running'', tsStartedAt := veEmittedAt e\<rparr>,
               rwHasTool := True\<rparr>
         else if veType e = QuestionToolFinish then
           (let d = (if veToolDuration e \<le> 0 \<and> \<not> IsZero (tsStartedAt (rwTool row)) \<and> \<not> IsZero (veEmittedAt e)
                     then Sub (veEmittedAt e) (tsStartedAt (rwTool row)) else veToolDuration e)
            in row\<lparr>rwTool := \<lparr>tsName = veToolName e, tsState = ''done'', tsDuration = d, tsError = veToolError e,
                              tsStartedAt = tsStartedAt (rwTool row), tsFinishedAt = veEmittedAt e\<rparr>,
                   rwHasTool := True\<rparr>)
         else
           (let row1 = row\<lparr>rwStatus := veType e, rwRetryAfterMs := veRetryAfterMs e,
                           rwRetryCount := (if isWaitingStatus (veType e) then rwRetryCount row + 1 else rwRetryCount row),
                           rwStartedAt := (if veType e = QuestionRunning \<and> IsZero (rwStartedAt row)
                                           then veEmittedAt e else rwStartedAt row)\<rparr>
            in if isTerminalStatus (veType e) then
                 row1\<lparr>rwFinishedAt := (if IsZero (veEmittedAt e) then rwFinishedAt row1 else veEmittedAt e),
                      rwTokens := veTokens e, rwError := veError e\<rparr>
               else row1))"

definition applyQuestionEvent :: "live_state \<Rightarrow> question_event \<Rightarrow> live_state" where
  "applyQuestionEvent s e =
     (let i = veQuestionIndex e in
      if i < 0 \<or> i \<ge> int (length (lsRows s)) then s
      else s\<lparr>lsRows := (lsRows s)[nat i := row_event (lsRows s ! nat i) e]\<rparr>)"

definition count_status :: "status_counts \<Rightarrow> question_row \<Rightarrow> status_counts" where
  "count_status c row =
     (case rwStatus row of
        QuestionQueued \<Rightarrow> c\<lparr>scQueued := scQueued c + 1\<rparr>
      | QuestionScheduled \<Rightarrow> c\<lparr>scScheduled := scScheduled c + 1\<rparr>
      | QuestionReserving \<Rightarrow> c\<lparr>scReserving := scReserving c + 1\<rparr>
      | QuestionWaitingRateLimit \<Rightarrow> c\<lparr>scWaiting := scWaiting c + 1\<rparr>
      | QuestionWaitingLimitDecreasing \<Rightarrow> c\<lparr>scWaiting := scWaiting c + 1\<rparr>
      | QuestionWaitingLimiterError \<Rightarrow> c\<lparr>scWaiting := scWaiting c + 1\<rparr>
      | QuestionRunning \<Rightarrow> c\<lparr>scRunning := scRunning c + 1\<rparr>
      | QuestionParsing \<Rightarrow> c\<lparr>scParsing := scParsing c + 1\<rparr>
      | QuestionCorrect \<Rightarrow> c\<lparr>scDone := scDone c + 1, scCorrect := scCorrect c + 1\<rparr>
      | QuestionIncorrect \<Rightarrow> c\<lparr>scDone := scDone c + 1, scIncorrect := scIncorrect c + 1\<rparr>
      | QuestionParseError \<Rightarrow> c\<lparr>scDone := scDone c + 1, scParseError := scParseError c + 1\<rparr>
      | QuestionBudgetExceeded \<Rightarrow> c\<lparr>scDone := scDone c + 1, scBudgetExceeded := scBudgetExceeded c + 1\<rparr>
      | QuestionRuntimeError \<Rightarrow> c\<lparr>scDone := scDone c + 1, scRuntimeError := scRuntimeError c + 1\<rparr>
      | QuestionSkipped \<Rightarrow> c\<lparr>scDone := scDone c + 1, scSkipped := scSkipped c + 1\<rparr>
      | QuestionToolStart \<Rightarrow> c
      | QuestionToolFinish \<Rightarrow> c)"

definition recount :: "question_row list \<Rightarrow> status_counts" where
  "recount rows = foldl count_status zero_counts rows"

definition Reduce :: "live_state \<Rightarrow> question_event \<Rightarrow> live_state" where
  "Reduce s e =
     (let s1 = applyQuestionEvent (ensureRow s e) e;
          s2 = s1\<lparr>lsCounts := recount (lsRows s1)\<rparr>;
          message = formatLastEvent e
      in if message \<noteq> [] then s2\<lparr>lsLastEvent := message\<rparr> else s2)"

section \<open>The queue of events\<close>

datatype live_event =
    EventRunStart string string
  | EventTaskStart string string string string
  | EventQuestion question_event
  | EventTaskEnd string string "string option"
  | EventRunEnd

text \<open>The buffered channel: what waits in it, and whether it is closed.\<close>

record controller =
  coEvents :: "live_event list"
  coClosed :: bool

definition event_buffer :: nat where "event_buffer = 256"

definition Start :: controller where "Start = \<lparr>coEvents = [], coClosed = False\<rparr>"

definition Close :: "controller \<Rightarrow> controller" where "Close c = c\<lparr>coClosed := True\<rparr>"

text \<open>\<open>send\<close> does not block: with a full buffer the event is dropped.  \<open>None\<close> is the panic on a closed channel.\<close>

definition send :: "live_event \<Rightarrow> controller \<Rightarrow> controller option" where
  "send e c =
     (if coClosed c then None
      else if length (coEvents c) < event_buffer then Some (c\<lparr>coEvents := coEvents c @ [e]\<rparr>)
      else Some c)"

definition live_OnRunStart :: "string \<Rightarrow> string \<Rightarrow> controller \<Rightarrow> controller option" where
  "live_OnRunStart runID repo = send (EventRunStart runID repo)"

definition live_OnTaskStart :: "string \<Rightarrow> string \<Rightarrow> string \<Rightarrow> string \<Rightarrow> string \<Rightarrow> controller \<Rightarrow> controller option" where
  "live_OnTaskStart taskID taskType questionsFile agentID model = send (EventTaskStart taskID questionsFile agentID model)"

definition live_OnQuestionEvent :: "question_event \<Rightarrow> controller \<Rightarrow> controller option" where
  "live_OnQuestionEvent e = send (EventQuestion e)"

definition live_OnTaskEnd :: "string \<Rightarrow> string \<Rightarrow> string option \<Rightarrow> controller \<Rightarrow> controller option" where
  "live_OnTaskEnd taskID status reason = send (EventTaskEnd taskID status reason)"

definition live_OnRunEnd :: "controller \<Rightarrow> controller option" where
  "live_OnRunEnd c = map_option Close (send EventRunEnd c)"

end
