(* ===== verification/Live_View.thy ===== *)
theory Live_View
  imports Live_State
begin

text \<open>
  The rendering of the live console view (\<open>internal/ui/live\<close>: \<open>format.go\<close>, \<open>render.go\<close>, \<open>table.go\<close>,
  \<open>model.go\<close>).  The styling of lipgloss is the parameter \<open>paint\<close>, from a colour and a text to the
  styled text; of the table widget the model keeps what is set, and its drawing is a parameter.
\<close>

type_synonym paint = "string \<Rightarrow> string \<Rightarrow> string"

section \<open>Cells\<close>

definition pad2 :: "go_int \<Rightarrow> string" where
  "pad2 v = (if v \<ge> 10 then show_int v else ''0'' @ show_int v)"

definition formatIndex :: "go_int \<Rightarrow> string" where
  "formatIndex index = ''Q'' @ pad2 (index + 1)"

definition formatQuestionID :: "question_row \<Rightarrow> string" where
  "formatQuestionID row = (if rwID row \<noteq> [] then rwID row else formatIndex (rwIndex row))"

definition text_limit :: nat where "text_limit = 80"

definition formatQuestionText :: "string \<Rightarrow> string" where
  "formatQuestionText t =
     (let normalized = join '' '' (Fields t) in
      if normalized = [] then []
      else if length normalized \<le> text_limit then normalized
      else take (text_limit - 3) normalized @ ''...'')"

text \<open>The text of the status constants of \<open>observer.go\<close>.\<close>

definition event_type_text :: "question_event_type \<Rightarrow> string" where
  "event_type_text s =
     (case s of
        QuestionQueued \<Rightarrow> ''queued'' | QuestionScheduled \<Rightarrow> ''scheduled'' | QuestionReserving \<Rightarrow> ''reserving''
      | QuestionWaitingRateLimit \<Rightarrow> ''waiting_rate_limit''
      | QuestionWaitingLimitDecreasing \<Rightarrow> ''waiting_limit_decreasing''
      | QuestionWaitingLimiterError \<Rightarrow> ''waiting_limiter_error''
      | QuestionRunning \<Rightarrow> ''running'' | QuestionParsing \<Rightarrow> ''parsing'' | QuestionCorrect \<Rightarrow> ''correct''
      | QuestionIncorrect \<Rightarrow> ''incorrect'' | QuestionParseError \<Rightarrow> ''parse_error''
      | QuestionBudgetExceeded \<Rightarrow> ''budget_exceeded'' | QuestionRuntimeError \<Rightarrow> ''runtime_error''
      | QuestionSkipped \<Rightarrow> ''skipped'' | QuestionToolStart \<Rightarrow> ''tool_start'' | QuestionToolFinish \<Rightarrow> ''tool_finish'')"

definition statusLabel :: "question_event_type \<Rightarrow> string" where
  "statusLabel s =
     (case s of
        QuestionQueued \<Rightarrow> ''queued'' | QuestionScheduled \<Rightarrow> ''scheduled'' | QuestionReserving \<Rightarrow> ''reserving''
      | QuestionRunning \<Rightarrow> ''running'' | QuestionParsing \<Rightarrow> ''parsing'' | QuestionCorrect \<Rightarrow> ''correct''
      | QuestionIncorrect \<Rightarrow> ''incorrect'' | QuestionSkipped \<Rightarrow> ''skipped''
      | _ \<Rightarrow> event_type_text s)"

definition formatPrimaryStatus :: "question_row \<Rightarrow> string" where
  "formatPrimaryStatus row =
     (case rwStatus row of
        QuestionWaitingRateLimit \<Rightarrow>
          if rwRetryAfterMs row > 0 then ''waiting rate limit ('' @ formatRetryAfter (rwRetryAfterMs row) @ '')''
          else ''waiting rate limit''
      | QuestionWaitingLimitDecreasing \<Rightarrow> ''waiting limit decreasing''
      | QuestionWaitingLimiterError \<Rightarrow> ''waiting limiter error''
      | QuestionParseError \<Rightarrow> ''parse error''
      | QuestionBudgetExceeded \<Rightarrow> ''budget exceeded''
      | QuestionRuntimeError \<Rightarrow> ''runtime error''
      | s \<Rightarrow> statusLabel s)"

definition stylize :: "paint \<Rightarrow> string \<Rightarrow> bool \<Rightarrow> string \<Rightarrow> string" where
  "stylize paint t noColor color = (if noColor then t else paint color t)"

definition statusStyle :: "question_event_type \<Rightarrow> string" where
  "statusStyle s =
     (case s of
        QuestionCorrect \<Rightarrow> ''42'' | QuestionIncorrect \<Rightarrow> ''220''
      | QuestionParseError \<Rightarrow> ''196'' | QuestionBudgetExceeded \<Rightarrow> ''196'' | QuestionRuntimeError \<Rightarrow> ''196''
      | QuestionWaitingRateLimit \<Rightarrow> ''39'' | QuestionWaitingLimitDecreasing \<Rightarrow> ''39'' | QuestionWaitingLimiterError \<Rightarrow> ''39''
      | QuestionRunning \<Rightarrow> ''33'' | QuestionParsing \<Rightarrow> ''201''
      | QuestionQueued \<Rightarrow> ''246'' | QuestionScheduled \<Rightarrow> ''246'' | QuestionReserving \<Rightarrow> ''246'' | QuestionSkipped \<Rightarrow> ''246''
      | _ \<Rightarrow> ''244'')"

definition stylizeStatus :: "paint \<Rightarrow> string \<Rightarrow> question_event_type \<Rightarrow> bool \<Rightarrow> string" where
  "stylizeStatus paint t s noColor = stylize paint t noColor (statusStyle s)"

definition stylizeTool :: "paint \<Rightarrow> string \<Rightarrow> bool \<Rightarrow> string" where
  "stylizeTool paint t noColor = stylize paint t noColor ''244''"

definition formatToolStatus :: "paint \<Rightarrow> question_row \<Rightarrow> go_time \<Rightarrow> bool \<Rightarrow> string" where
  "formatToolStatus paint row now noColor =
     (let tool = rwTool row; label = ''tool:'' @ tsName tool in
      if \<not> rwHasTool row \<or> tsName tool = [] then []
      else
        let label' =
          (if tsState tool = ''running'' then
             (if \<not> IsZero (tsStartedAt tool) then label @ '' running '' @ formatDuration (Sub now (tsStartedAt tool))
              else label @ '' running'')
           else if tsState tool = ''done'' then
             (if tsError tool \<noteq> [] then label @ '' error''
              else if tsDuration tool > 0 then label @ '' done '' @ formatDuration (tsDuration tool)
              else label @ '' done'')
           else label @ '' '' @ tsState tool)
        in stylizeTool paint label' noColor)"

definition formatStatus :: "paint \<Rightarrow> question_row \<Rightarrow> go_time \<Rightarrow> bool \<Rightarrow> string" where
  "formatStatus paint row now noColor =
     (let primary = stylizeStatus paint (formatPrimaryStatus row) (rwStatus row) noColor;
          tool = formatToolStatus paint row now noColor
      in if tool = [] then primary else primary @ '' | '' @ tool)"

definition elapsed_text :: "go_time \<Rightarrow> go_time \<Rightarrow> string" where
  "elapsed_text until since = Duration_String (Round (Sub until since) (100 * Millisecond))"

definition formatRowDuration :: "question_row \<Rightarrow> go_time \<Rightarrow> string" where
  "formatRowDuration row now =
     (if \<not> IsZero (rwFinishedAt row) \<and> \<not> IsZero (rwStartedAt row) then elapsed_text (rwFinishedAt row) (rwStartedAt row)
      else if \<not> IsZero (rwStartedAt row) then elapsed_text now (rwStartedAt row)
      else [])"

definition formatTokens :: "go_int \<Rightarrow> string" where
  "formatTokens n = (if n \<le> 0 then ''n/a'' else show_int n)"

definition formatRetries :: "go_int \<Rightarrow> string" where
  "formatRetries n = (if n \<le> 0 then [] else show_int n)"

definition formatTaskEnd :: "string \<Rightarrow> string \<Rightarrow> string option \<Rightarrow> string" where
  "formatTaskEnd taskID status reason =
     (case reason of
        Some r \<Rightarrow> ''Task '' @ taskID @ '' '' @ status @ '' ('' @ r @ '')''
      | None \<Rightarrow> ''Task '' @ taskID @ '' '' @ status)"

section \<open>The table\<close>

definition defaultColumns :: "(string \<times> go_int) list" where
  "defaultColumns = [(''ID'', 4), (''Question'', 60), (''Status'', 24), (''Time'', 9), (''Tokens'', 8), (''Retries'', 7)]"

definition columnsForWidth :: "go_int \<Rightarrow> (string \<times> go_int) list" where
  "columnsForWidth width =
     (if width \<le> 0 then defaultColumns
      else
        let statusWidth = (if width \<le> 100 then 18 else if width \<ge> 140 then 30 else 24);
            fixedWidth = 4 + statusWidth + 9 + 8 + 7 + 5;
            questionWidth = (if width - fixedWidth < 1 then 1 else width - fixedWidth);
            questionWidth = (if questionWidth < 10 \<and> width \<ge> fixedWidth + 10 then 10 else questionWidth)
        in [(''ID'', 4), (''Question'', questionWidth), (''Status'', statusWidth), (''Time'', 9), (''Tokens'', 8), (''Retries'', 7)])"

definition rowsForState :: "paint \<Rightarrow> live_state \<Rightarrow> go_time \<Rightarrow> bool \<Rightarrow> string list list" where
  "rowsForState paint s now noColor =
     map (\<lambda>row. [formatQuestionID row, formatQuestionText (rwText row), formatStatus paint row now noColor,
                 formatRowDuration row now, formatTokens (rwTokens row), formatRetries (rwRetryCount row)]) (lsRows s)"

section \<open>The lines\<close>

definition renderHeader :: "paint \<Rightarrow> live_state \<Rightarrow> go_time \<Rightarrow> bool \<Rightarrow> string" where
  "renderHeader paint s now noColor =
     (let elapsed = (if IsZero (lsStartedAt s) then [] else elapsed_text now (lsStartedAt s));
          line = ''Run '' @ lsRunID s @ (if lsRepo s \<noteq> [] then '' | Repo: '' @ lsRepo s else []) @
                 (if elapsed \<noteq> [] then '' | Elapsed: '' @ elapsed else [])
      in stylize paint line noColor ''33'')"

definition renderSummary :: "paint \<Rightarrow> live_state \<Rightarrow> bool \<Rightarrow> string" where
  "renderSummary paint s noColor =
     (let c = lsCounts s in
      stylize paint
        (''Total: '' @ show_int (int (length (lsRows s))) @
         '' | Queued: '' @ show_int (scQueued c) @ '' Scheduled: '' @ show_int (scScheduled c) @
         '' Reserving: '' @ show_int (scReserving c) @ '' Waiting: '' @ show_int (scWaiting c) @
         '' Running: '' @ show_int (scRunning c) @ '' Parsing: '' @ show_int (scParsing c) @
         '' Done: '' @ show_int (scDone c) @ '' | Correct: '' @ show_int (scCorrect c) @
         '' Incorrect: '' @ show_int (scIncorrect c) @ '' ParseErr: '' @ show_int (scParseError c) @
         '' Budget: '' @ show_int (scBudgetExceeded c) @ '' Error: '' @ show_int (scRuntimeError c) @
         '' Skipped: '' @ show_int (scSkipped c)) noColor ''242'')"

definition renderTaskLine :: "paint \<Rightarrow> live_state \<Rightarrow> bool \<Rightarrow> string" where
  "renderTaskLine paint s noColor =
     (if lsTaskID s = [] then []
      else stylize paint
        (''Task '' @ lsTaskID s @ (if lsQuestionsFile s \<noteq> [] then '' | '' @ lsQuestionsFile s else []) @
         (if lsAgentID s \<noteq> [] \<or> lsModel s \<noteq> [] then '' | '' @ lsAgentID s @ '' / '' @ lsModel s else []) @
         (if lsRows s \<noteq> [] then '' | Progress: '' @ show_int (scDone (lsCounts s)) @ ''/'' @ show_int (int (length (lsRows s)))
          else [])) noColor ''240'')"

definition renderFooter :: "paint \<Rightarrow> live_state \<Rightarrow> bool \<Rightarrow> string" where
  "renderFooter paint s noColor =
     stylize paint
       (''Last event: '' @ (if lsLastEvent s = [] then ''(none)'' else lsLastEvent s) @ '' | Ctrl+C to stop'') noColor ''244''"

section \<open>The model\<close>

record live_model =
  lmState :: live_state
  lmColumns :: "(string \<times> go_int) list"
  lmRows :: "string list list"
  lmWidth :: go_int
  lmHeight :: go_int
  lmTick :: duration
  lmNow :: go_time
  lmNoColor :: bool

datatype live_msg = WindowSizeMsg go_int go_int | EventMsg live_event | TickMsg go_time | QuitMsg | OtherMsg
datatype live_cmd = NoCmd | WaitForEvent | Tick duration

definition NewModel :: "go_int \<Rightarrow> go_int \<Rightarrow> go_time \<Rightarrow> bool \<Rightarrow> duration \<Rightarrow> live_model" where
  "NewModel width height now noColor interval =
     \<lparr>lmState = zero_state, lmColumns = defaultColumns, lmRows = [], lmWidth = width, lmHeight = height,
      lmTick = (if interval \<le> 0 then 200 * Millisecond else interval), lmNow = now, lmNoColor = noColor\<rparr>"

text \<open>\<open>clk\<close> is the reading of the clock at a run start.\<close>

definition state_event :: "go_time \<Rightarrow> live_state \<Rightarrow> live_event \<Rightarrow> live_state" where
  "state_event clk s e =
     (case e of
        EventRunStart runID repo \<Rightarrow>
          s\<lparr>lsRunID := runID, lsRepo := repo, lsStartedAt := (if IsZero (lsStartedAt s) then clk else lsStartedAt s)\<rparr>
      | EventTaskStart taskID questionsFile agentID model \<Rightarrow>
          s\<lparr>lsTaskID := taskID, lsQuestionsFile := questionsFile, lsAgentID := agentID, lsModel := model,
            lsRows := [], lsCounts := zero_counts, lsLastEvent := []\<rparr>
      | EventQuestion q \<Rightarrow> Reduce s q
      | EventTaskEnd taskID status reason \<Rightarrow> s\<lparr>lsLastEvent := formatTaskEnd taskID status reason\<rparr>
      | EventRunEnd \<Rightarrow> s)"

definition applyEvent :: "paint \<Rightarrow> go_time \<Rightarrow> live_model \<Rightarrow> live_event \<Rightarrow> live_model" where
  "applyEvent paint clk m e =
     (if e = EventRunEnd then m
      else
        let s = state_event clk (lmState m) e in
        m\<lparr>lmState := s, lmRows := rowsForState paint s (lmNow m) (lmNoColor m)\<rparr>)"

definition Update :: "paint \<Rightarrow> go_time \<Rightarrow> live_model \<Rightarrow> live_msg \<Rightarrow> live_model \<times> live_cmd" where
  "Update paint clk m msg =
     (case msg of
        WindowSizeMsg w h \<Rightarrow>
          (m\<lparr>lmWidth := w, lmHeight := (if h - 4 > 1 then h - 4 else 1), lmColumns := columnsForWidth w\<rparr>, NoCmd)
      | EventMsg e \<Rightarrow> (applyEvent paint clk m e, WaitForEvent)
      | TickMsg t \<Rightarrow> (m\<lparr>lmNow := t\<rparr>, Tick (lmTick m))
      | _ \<Rightarrow> (m, NoCmd))"

definition Init :: "live_model \<Rightarrow> live_cmd list" where
  "Init m = [WaitForEvent, Tick (lmTick m)]"

text \<open>What the command \<open>WaitForEvent\<close> delivers: \<open>None\<close> while it blocks, and the end of the program once
  the channel is closed and empty.\<close>

definition waitForEvent :: "controller \<Rightarrow> (live_msg \<times> controller) option" where
  "waitForEvent c =
     (case coEvents c of
        e # rest \<Rightarrow> Some (EventMsg e, c\<lparr>coEvents := rest\<rparr>)
      | [] \<Rightarrow> if coClosed c then Some (QuitMsg, c) else None)"

text \<open>\<open>draw\<close> is the table widget's rendering, \<open>stack\<close> the vertical joining of blocks.\<close>

definition View :: "paint \<Rightarrow> (live_model \<Rightarrow> string) \<Rightarrow> (string list \<Rightarrow> string) \<Rightarrow> live_model \<Rightarrow> string" where
  "View paint draw stack m =
     stack [renderHeader paint (lmState m) (lmNow m) (lmNoColor m), renderSummary paint (lmState m) (lmNoColor m),
            renderTaskLine paint (lmState m) (lmNoColor m), draw m, renderFooter paint (lmState m) (lmNoColor m)]"

end
