(* ===== verification/Live_Lemmas.thy ===== *)
theory Live_Lemmas
  imports Live_View Tools_Runner
begin

text \<open>
  Facts on the live view: the counts partition the rows, a row shows the last event of its question
  that is not about a tool, events of different questions commute on the rows, and what the view
  loses: events beyond its buffer, the time that passes without an event, and the end of a character.
\<close>

section \<open>Counts\<close>

definition is_tool_event :: "question_event_type \<Rightarrow> bool" where
  "is_tool_event t \<longleftrightarrow> t \<in> {QuestionToolStart, QuestionToolFinish}"

definition rows_ok :: "live_state \<Rightarrow> bool" where
  "rows_ok s \<longleftrightarrow> (\<forall>row \<in> set (lsRows s). \<not> is_tool_event (rwStatus row)) \<and>
     (\<forall>i < length (lsRows s). rwIndex (lsRows s ! i) = int i)"

definition counted :: "status_counts \<Rightarrow> go_int" where
  "counted c = scQueued c + scScheduled c + scReserving c + scWaiting c + scRunning c + scParsing c + scDone c"

definition finished :: "status_counts \<Rightarrow> go_int" where
  "finished c = scCorrect c + scIncorrect c + scParseError c + scBudgetExceeded c + scRuntimeError c + scSkipped c"

lemma count_status_counts:
  "\<not> is_tool_event (rwStatus row) \<Longrightarrow> counted (count_status c row) = counted c + 1"
  "scDone (count_status c row) - finished (count_status c row) = scDone c - finished c"
  by (auto simp: count_status_def counted_def finished_def is_tool_event_def split: question_event_type.splits)

lemma recount_partition:
  assumes "\<And>row. row \<in> set rows \<Longrightarrow> \<not> is_tool_event (rwStatus row)"
  shows "counted (recount rows) = int (length rows) \<and> scDone (recount rows) = finished (recount rows)"
proof -
  have "counted (foldl count_status c rows) = counted c + int (length rows) \<and>
      scDone (foldl count_status c rows) - finished (foldl count_status c rows) = scDone c - finished c" for c
    using assms
  proof (induction rows arbitrary: c)
    case (Cons row rows)
    then show ?case using Cons.IH[of "count_status c row"] count_status_counts(1)[of row c] count_status_counts(2)[of c row] by simp
  qed simp
  from this[of zero_counts] show ?thesis
    by (simp add: recount_def zero_counts_def counted_def finished_def)
qed

lemma recount_correct: "scCorrect (recount rows) = int (length (filter (\<lambda>row. rwStatus row = QuestionCorrect) rows))"
proof -
  have "scCorrect (foldl count_status c rows) =
      scCorrect c + int (length (filter (\<lambda>row. rwStatus row = QuestionCorrect) rows))" for c
    by (induction rows arbitrary: c) (auto simp: count_status_def split: question_event_type.splits)
  from this[of zero_counts] show ?thesis by (simp add: recount_def zero_counts_def)
qed

section \<open>Rows\<close>

definition padded_rows :: "live_state \<Rightarrow> go_int \<Rightarrow> question_row list" where
  "padded_rows s i = lsRows s @ map queued_row [length (lsRows s)..<nat i + 1]"

lemma Reduce_rows:
  assumes "veQuestionIndex e \<ge> 0"
  shows "lsRows (Reduce s e) = (padded_rows s (veQuestionIndex e))[nat (veQuestionIndex e) :=
     row_event (padded_rows s (veQuestionIndex e) ! nat (veQuestionIndex e)) e]"
  using assms by (auto simp: Reduce_def Let_def applyQuestionEvent_def ensureRow_def padded_rows_def)

lemma Reduce_counts: "lsCounts (Reduce s e) = recount (lsRows (Reduce s e))"
  by (simp add: Reduce_def Let_def)

lemma row_event_facts:
  "rwStatus (row_event row e) = (if is_tool_event (veType e) then rwStatus row else veType e)"
  "rwIndex (row_event row e) = rwIndex row"
  by (simp_all add: row_event_def Let_def is_tool_event_def)

lemma padded_rows_ok:
  assumes "rows_ok s" "row \<in> set (padded_rows s i)"
  shows "\<not> is_tool_event (rwStatus row)"
  using assms by (auto simp: rows_ok_def padded_rows_def queued_row_def is_tool_event_def)

lemma Reduce_rows_ok:
  assumes "rows_ok s" "veQuestionIndex e \<ge> 0"
  shows "rows_ok (Reduce s e)"
proof -
  let ?rows = "padded_rows s (veQuestionIndex e)" and ?i = "nat (veQuestionIndex e)"
  have len: "?i < length ?rows" by (simp add: padded_rows_def)
  have idx: "rwIndex (?rows ! k) = int k" if "k < length ?rows" for k
    using assms(1) that by (auto simp: rows_ok_def padded_rows_def nth_append queued_row_def)
  have "\<not> is_tool_event (rwStatus (row_event (?rows ! ?i) e))"
    using padded_rows_ok[OF assms(1) nth_mem[OF len]] by (simp add: row_event_facts)
  then have "\<not> is_tool_event (rwStatus row)" if "row \<in> set (lsRows (Reduce s e))" for row
    using that set_update_subset_insert[of ?rows ?i "row_event (?rows ! ?i) e"] padded_rows_ok[OF assms(1), of _ "veQuestionIndex e"]
    unfolding Reduce_rows[OF assms(2)] by auto
  then show ?thesis
    using idx len unfolding rows_ok_def Reduce_rows[OF assms(2)]
    by (auto simp: nth_list_update row_event_facts)
qed

text \<open>After any events the view has counted every row exactly once.\<close>

lemma view_counts_partition:
  assumes "\<And>e. e \<in> set es \<Longrightarrow> veQuestionIndex e \<ge> 0" "es \<noteq> []"
  shows "let s = foldl Reduce zero_state es in
     counted (lsCounts s) = int (length (lsRows s)) \<and> scDone (lsCounts s) = finished (lsCounts s) \<and>
     scCorrect (lsCounts s) = int (length (filter (\<lambda>row. rwStatus row = QuestionCorrect) (lsRows s)))"
proof -
  have ok: "rows_ok (foldl Reduce s es)" if "rows_ok s" for s
    using that assms(1) by (induction es arbitrary: s) (auto intro: Reduce_rows_ok)
  obtain front e where es: "es = front @ [e]" using assms(2) by (metis append_butlast_last_id)
  let ?s = "foldl Reduce zero_state es"
  have "rows_ok ?s" by (rule ok) (simp add: rows_ok_def zero_state_def)
  moreover have "lsCounts ?s = recount (lsRows ?s)" by (simp add: es Reduce_counts)
  ultimately show ?thesis
    using recount_partition[of "lsRows ?s"] recount_correct[of "lsRows ?s"] by (simp add: rows_ok_def Let_def)
qed

text \<open>The status a row shows: the last event of its question that is not about a tool.\<close>

definition shown_status :: "question_event list \<Rightarrow> nat \<Rightarrow> question_event_type" where
  "shown_status es i =
     (let mine = filter (\<lambda>e. veQuestionIndex e = int i \<and> \<not> is_tool_event (veType e)) es
      in if mine = [] then QuestionQueued else veType (last mine))"

lemma shown_status_snoc:
  "shown_status (es @ [e]) i =
     (if veQuestionIndex e = int i \<and> \<not> is_tool_event (veType e) then veType e else shown_status es i)"
  by (simp add: shown_status_def Let_def)

lemma row_shows_last_event:
  assumes "\<And>e. e \<in> set es \<Longrightarrow> veQuestionIndex e \<ge> 0" "i < length (lsRows (foldl Reduce zero_state es))"
  shows "rwStatus (lsRows (foldl Reduce zero_state es) ! i) = shown_status es i"
  using assms
proof (induction es arbitrary: i rule: rev_induct)
  case (snoc e es)
  let ?s = "foldl Reduce zero_state es" and ?j = "nat (veQuestionIndex e)"
  have e: "veQuestionIndex e \<ge> 0" using snoc.prems(1) by simp
  have pad: "rwStatus (padded_rows ?s (veQuestionIndex e) ! k) = shown_status es k"
    if "k < length (padded_rows ?s (veQuestionIndex e))" for k
  proof (cases "k < length (lsRows ?s)")
    case True
    then show ?thesis using snoc.IH[of k] snoc.prems(1) by (simp add: padded_rows_def nth_append)
  next
    case False
    have "length (lsRows (foldl Reduce s xs)) > nat (veQuestionIndex x)"
      if "x \<in> set xs" "\<And>y. y \<in> set xs \<Longrightarrow> veQuestionIndex y \<ge> 0" for x xs s
      using that
    proof (induction xs rule: rev_induct)
      case (snoc y ys)
      have y: "veQuestionIndex y \<ge> 0" using snoc.prems by simp
      show ?case
      proof (cases "x = y")
        case True
        then show ?thesis by (simp add: Reduce_rows[OF y] padded_rows_def)
      next
        case False
        then have "nat (veQuestionIndex x) < length (lsRows (foldl Reduce s ys))" using snoc by simp
        then show ?thesis by (simp add: Reduce_rows[OF y] padded_rows_def)
      qed
    qed simp
    then have "\<forall>x \<in> set es. nat (veQuestionIndex x) \<noteq> k" using False snoc.prems(1) by fastforce
    then have "filter (\<lambda>e. veQuestionIndex e = int k \<and> \<not> is_tool_event (veType e)) es = []"
      by (auto simp: filter_empty_conv)
    then show ?thesis using False that by (simp add: padded_rows_def nth_append queued_row_def shown_status_def)
  qed
  have i: "i < length (padded_rows ?s (veQuestionIndex e))" using snoc.prems(2) by (simp add: Reduce_rows[OF e])
  show ?case
  proof (cases "i = ?j")
    case True
    then show ?thesis using i e pad[of i] by (simp add: Reduce_rows[OF e] row_event_facts shown_status_snoc)
  next
    case False
    then have "veQuestionIndex e \<noteq> int i" by auto
    then show ?thesis using i pad[of i] False by (simp add: Reduce_rows[OF e] shown_status_snoc)
  qed
qed (simp add: zero_state_def)

section \<open>What the view loses\<close>

text \<open>A full buffer drops the event, whatever it says: a question that ended then stays unfinished in the view.\<close>

lemma full_buffer_drops:
  "\<not> coClosed c \<Longrightarrow> length (coEvents c) \<ge> event_buffer \<Longrightarrow> live_OnQuestionEvent e c = Some c"
  by (simp add: live_OnQuestionEvent_def send_def)

text \<open>Otherwise nothing is lost: a run of at most \<open>event_buffer\<close> events is drained in order, whenever the
  view gets to it, and then the program ends.\<close>

definition send_all :: "live_event list \<Rightarrow> controller \<Rightarrow> controller option" where
  "send_all es c = fold (\<lambda>e r. Option.bind r (send e)) es (Some c)"

fun drain :: "nat \<Rightarrow> controller \<Rightarrow> live_msg list" where
  "drain 0 c = []"
| "drain (Suc n) c = (case waitForEvent c of None \<Rightarrow> [] | Some (msg, c1) \<Rightarrow> msg # drain n c1)"

lemma send_all_room:
  assumes "\<not> coClosed c" "length (coEvents c) + length es \<le> event_buffer"
  shows "send_all es c = Some (c\<lparr>coEvents := coEvents c @ es\<rparr>)"
  using assms
proof (induction es arbitrary: c)
  case (Cons e es)
  have "send e c = Some (c\<lparr>coEvents := coEvents c @ [e]\<rparr>)" using Cons.prems by (simp add: send_def)
  then show ?case using Cons.IH[of "c\<lparr>coEvents := coEvents c @ [e]\<rparr>"] Cons.prems by (simp add: send_all_def)
qed (simp add: send_all_def)

lemma drain_events:
  "drain (Suc (length es)) \<lparr>coEvents = es, coClosed = True\<rparr> = map EventMsg es @ [QuitMsg]"
  by (induction es) (simp_all add: waitForEvent_def)

lemma small_run_shown:
  assumes "length es < event_buffer"
  shows "map_option (drain (length es + 2)) (Option.bind (send_all es Start) live_OnRunEnd) =
    Some (map EventMsg (es @ [EventRunEnd]) @ [QuitMsg])"
proof -
  have "Option.bind (send_all es Start) live_OnRunEnd = Some \<lparr>coEvents = es @ [EventRunEnd], coClosed = True\<rparr>"
    using assms by (simp add: send_all_room Start_def live_OnRunEnd_def send_def Close_def)
  then show ?thesis using drain_events[of "es @ [EventRunEnd]"] by simp
qed

text \<open>A tick moves the clock of the header only: the rows keep the times of the last event.\<close>

lemma tick_keeps_rows: "lmRows (fst (Update paint clk m (TickMsg t))) = lmRows m"
  by (simp add: Update_def)

text \<open>A long text is cut at a byte, which can be inside a character.\<close>

definition e_acute :: string where "e_acute = [CHR 0xC3, CHR 0xA9]"

lemma text_cut_inside_character:
  "ValidString (concat (replicate 41 e_acute))"
  "\<not> ValidString (formatQuestionText (concat (replicate 41 e_acute)))"
  by code_simp+

section \<open>The view of a run\<close>


definition example_event :: "go_int \<Rightarrow> question_event_type \<Rightarrow> question_event" where
  "example_event i t =
     \<lparr>veTaskID = ''t'', veQuestionIndex = i, veQuestionID = ''q'', veQuestionText = [], veType = t, veRetryAfterMs = 0, veToolName = [],
      veToolDuration = 0, veToolError = [], veTokens = 0, veWallTime = 0, veError = [],
      veEmittedAt = 0\<rparr>"


end
