(* ===== verification/Verbose.thy ===== *)
theory Verbose
  imports Agent_Call Go_Duration Go_Path
begin

text \<open>
  The verbose log (\<open>internal/agent/call\<close>: \<open>verbose_constants.go\<close>, \<open>verbose_palette.go\<close>,
  \<open>verbose_format.go\<close>, \<open>verbose_output.go\<close>; \<open>internal/runner\<close>: \<open>verbose.go\<close>, \<open>locked_writer.go\<close>).

  A writer is what its dynamic type says: nothing, a file or another value with a descriptor, a
  plain one, or a locked writer around another.  The log is the sequence of writes that reach the
  innermost writers.  The environment variables and the terminal test are parameters; the second
  package has its own copies of the palette functions.
\<close>

section \<open>Writers\<close>

datatype io_writer =
    NilWriter
  | FileWriter nat
  | FdWriter nat
  | PlainWriter nat
  | LockedWriter io_writer

fun innermost :: "io_writer \<Rightarrow> io_writer" where
  "innermost (LockedWriter w) = innermost w"
| "innermost w = w"

type_synonym writes = "(io_writer \<times> string) list"

definition Write :: "io_writer \<Rightarrow> string \<Rightarrow> writes \<Rightarrow> writes" where
  "Write w s out = out @ [(innermost w, s)]"

definition wrapVerboseWriters :: "go_int \<Rightarrow> io_writer \<Rightarrow> io_writer \<Rightarrow> io_writer \<times> io_writer" where
  "wrapVerboseWriters workers verboseWriter verboseLogWriter =
     (if workers \<le> 1 then (verboseWriter, verboseLogWriter)
      else (if verboseWriter \<noteq> NilWriter then LockedWriter verboseWriter else verboseWriter,
            if verboseLogWriter \<noteq> NilWriter then LockedWriter verboseLogWriter else verboseLogWriter))"

section \<open>Palettes\<close>

record term_env =
  teGetenv :: "string \<Rightarrow> string"
  teIsTerminal :: "nat \<Rightarrow> bool"

definition shouldUseStyling :: "term_env \<Rightarrow> io_writer \<Rightarrow> bool" where
  "shouldUseStyling te w =
     (if w = NilWriter then False
      else if teGetenv te ''NO_COLOR'' \<noteq> [] \<or> teGetenv te ''TERM'' = ''dumb'' then False
      else if teGetenv te ''CLICOLOR'' = ''0'' then False
      else case w of FileWriter fd \<Rightarrow> teIsTerminal te fd | FdWriter fd \<Rightarrow> teIsTerminal te fd | _ \<Rightarrow> False)"

definition paletteFor :: "term_env \<Rightarrow> io_writer \<Rightarrow> bool \<Rightarrow> bool" where
  "paletteFor te w noColor = (if noColor then False else shouldUseStyling te w)"

datatype verbose_style =
    styleDefault | styleDim | styleHeadingPrompt | styleHeadingOutput | styleHeadingToolCall
  | styleHeadingToolResult | styleHeadingMetrics | styleHeadingTask | styleHeadingError

definition ansi :: "string \<Rightarrow> string" where "ansi code = CHR 0x1B # ''['' @ code @ ''m''"

definition palette_apply :: "bool \<Rightarrow> verbose_style \<Rightarrow> string \<Rightarrow> string" where
  "palette_apply enabled style t =
     (if \<not> enabled then t
      else let bold = (\<lambda>colour. ansi ''1'' @ ansi colour @ t @ ansi ''0'') in
        case style of
          styleDefault \<Rightarrow> t
        | styleDim \<Rightarrow> ansi ''2'' @ ansi ''90'' @ t @ ansi ''0''
        | styleHeadingPrompt \<Rightarrow> bold ''36''
        | styleHeadingOutput \<Rightarrow> bold ''35''
        | styleHeadingToolCall \<Rightarrow> bold ''33''
        | styleHeadingToolResult \<Rightarrow> bold ''32''
        | styleHeadingMetrics \<Rightarrow> bold ''34''
        | styleHeadingTask \<Rightarrow> bold ''36''
        | styleHeadingError \<Rightarrow> bold ''31'')"

section \<open>Truncation\<close>

definition verbosePrefix :: string where "verbosePrefix = ''[verbose]''"
definition verboseInlineTruncationMarker :: string where "verboseInlineTruncationMarker = ''... [truncated]''"
definition verboseTruncationMarker :: string where
  "verboseTruncationMarker = newline @ verboseInlineTruncationMarker"
definition verboseToolOutputMaxLines :: go_int where "verboseToolOutputMaxLines = 5"

definition truncateVerboseWithLimit :: "string \<Rightarrow> go_int \<Rightarrow> string \<Rightarrow> string" where
  "truncateVerboseWithLimit value maxBytes marker =
     (if maxBytes \<le> 0 \<or> int (length value) \<le> maxBytes then value
      else if maxBytes \<le> int (length marker) then take (nat maxBytes) marker
      else take (nat maxBytes - length marker) value @ marker)"

definition truncateVerboseInlineWithLimit :: "string \<Rightarrow> go_int \<Rightarrow> string \<Rightarrow> string" where
  "truncateVerboseInlineWithLimit value maxBytes marker =
     (if maxBytes \<le> 0 \<or> int (length value) \<le> maxBytes then value
      else if maxBytes \<le> int (length marker) then take (nat maxBytes) marker
      else take (nat maxBytes - length marker) value @ marker)"

abbreviation text_lines :: "string \<Rightarrow> string list" where "text_lines \<equiv> split_byte (CHR 0x0A)"

definition limitOutputLines :: "string \<Rightarrow> go_int \<Rightarrow> string" where
  "limitOutputLines value maxLines =
     (if maxLines \<le> 0 then value
      else
        let trimmed = TrimRight value (CHR 0x0A) in
        if TrimSpace trimmed = [] then []
        else
          let ls = text_lines trimmed in
          if int (length ls) \<le> maxLines then join newline ls
          else
            let shown = take (nat maxLines) ls; final = nat maxLines - 1 in
            join newline (shown[final := (if TrimSpace (shown ! final) = [] then verboseInlineTruncationMarker
                                          else shown ! final @ '' '' @ verboseInlineTruncationMarker)]))"

definition indentLines :: "string \<Rightarrow> string \<Rightarrow> string" where
  "indentLines value pre = join newline (map (\<lambda>line. pre @ line) (text_lines value))"

section \<open>Formatting\<close>

record format_limits =
  flMaxBytes :: go_int
  flToolOutputMaxLines :: go_int
  flTrimTrailingNewline :: bool

definition formatArgs :: "marshal_args \<Rightarrow> tool_args \<Rightarrow> string" where
  "formatArgs marshal args =
     (if args = [] then ''{}'' else case marshal args of Inl payload \<Rightarrow> payload | Inr _ \<Rightarrow> ''<invalid args>'')"

definition show_bool :: "bool \<Rightarrow> string" where "show_bool b = (if b then ''true'' else ''false'')"

definition args_of :: "tool_call \<Rightarrow> tool_args" where
  "args_of call = (case tcArgs call of None \<Rightarrow> [] | Some a \<Rightarrow> a)"

definition formatHistoryItemWithLimits :: "marshal_args \<Rightarrow> format_limits \<Rightarrow> history_item \<Rightarrow> string" where
  "formatHistoryItemWithLimits marshal limits item =
     (case hiContent item of
        HistoryText t \<Rightarrow> ''- '' @ hiRole item @ '': '' @ t @ newline
      | ToolCallContent call \<Rightarrow>
          ''- '' @ hiRole item @ '': tool_call id='' @ tcID call @ '' name='' @ tcName call @ '' args='' @
          formatArgs marshal (args_of call) @ newline
      | ToolOutputContent out \<Rightarrow>
          let r = toResult out;
              head = ''- '' @ hiRole item @ '': tool_output call_id='' @ toToolCallID out @ '' tool='' @ crTool r @
                     '' bytes='' @ show_int (crOutputBytes r) @ '' truncated='' @ show_bool (crTruncated r) @
                     '' error='' @ crError r @ newline;
              raw = (if flTrimTrailingNewline limits then TrimRight (crOutput r) (CHR 0x0A) else crOutput r)
          in if raw \<noteq> [] then
               head @ indentLines (truncateVerboseInlineWithLimit (limitOutputLines raw (flToolOutputMaxLines limits))
                                     (flMaxBytes limits) verboseInlineTruncationMarker) ''  '' @ newline
             else head)"

definition formatPromptWithLimits :: "marshal_args \<Rightarrow> format_limits \<Rightarrow> prompt \<Rightarrow> string" where
  "formatPromptWithLimits marshal limits p =
     (let body =
        (if TrimSpace (prInstructions p) \<noteq> [] then ''instructions:'' @ newline @ prInstructions p @ newline else []) @
        (if prTools p \<noteq> [] then ''tools: '' @ join '', '' (map defName (prTools p)) @ newline else []) @
        (if TrimSpace (prOutputSchema p) \<noteq> [] then ''output_schema:'' @ newline @ prOutputSchema p @ newline else []) @
        (if prInputItems p \<noteq> []
         then ''input_items:'' @ newline @ concat (map (formatHistoryItemWithLimits marshal limits) (prInputItems p))
         else [])
      in if flTrimTrailingNewline limits then TrimRight body (CHR 0x0A) else body)"

section \<open>Sinks\<close>

record verbose_sink =
  vsWriter :: io_writer
  vsNoColor :: bool
  vsMaxBytes :: go_int
  vsToolOutputMaxLines :: go_int

record verbose_options =
  voVerbose :: bool
  voWriter :: io_writer
  voLogWriter :: io_writer
  voNoColor :: bool

text \<open>\<open>limit\<close> is \<open>verboseMaxBytes\<close>, the default output limit of the tools.\<close>

definition collectVerboseSinks :: "go_int \<Rightarrow> verbose_options \<Rightarrow> verbose_sink list" where
  "collectVerboseSinks limit opts =
     (if voVerbose opts \<and> voWriter opts \<noteq> NilWriter
      then [\<lparr>vsWriter = voWriter opts, vsNoColor = voNoColor opts, vsMaxBytes = limit,
             vsToolOutputMaxLines = verboseToolOutputMaxLines\<rparr>] else []) @
     (if voLogWriter opts \<noteq> NilWriter
      then [\<lparr>vsWriter = voLogWriter opts, vsNoColor = True, vsMaxBytes = 0, vsToolOutputMaxLines = 0\<rparr>] else [])"

definition verbose_line :: "bool \<Rightarrow> verbose_style \<Rightarrow> string \<Rightarrow> string" where
  "verbose_line enabled style line =
     (if enabled then palette_apply enabled styleDim verbosePrefix else verbosePrefix) @ '' '' @
     palette_apply enabled style line @ newline"

definition writeVerboseLine :: "io_writer \<Rightarrow> bool \<Rightarrow> verbose_style \<Rightarrow> string \<Rightarrow> writes \<Rightarrow> writes" where
  "writeVerboseLine w enabled style line = Write w (verbose_line enabled style line)"

definition sink_palette :: "term_env \<Rightarrow> verbose_sink \<Rightarrow> bool" where
  "sink_palette te sink = paletteFor te (vsWriter sink) (vsNoColor sink)"

definition call_logVerbose :: "term_env \<Rightarrow> go_int \<Rightarrow> verbose_options \<Rightarrow> verbose_style \<Rightarrow> string \<Rightarrow> writes \<Rightarrow> writes" where
  "call_logVerbose te limit opts style message out =
     foldl (\<lambda>out sink. writeVerboseLine (vsWriter sink) (sink_palette te sink) style message out) out
       (collectVerboseSinks limit opts)"

text \<open>A header, then a body that has been cut for the sink, one line each.\<close>

definition write_block ::
    "term_env \<Rightarrow> verbose_sink \<Rightarrow> verbose_style \<Rightarrow> verbose_style \<Rightarrow> string \<Rightarrow> string \<Rightarrow> writes \<Rightarrow> writes" where
  "write_block te sink headerStyle bodyStyle header trimmed out =
     (let w = vsWriter sink; palette = sink_palette te sink; out1 = writeVerboseLine w palette headerStyle header out in
      if TrimSpace trimmed = [] then out1
      else foldl (\<lambda>out line. writeVerboseLine w palette bodyStyle line out) out1 (text_lines trimmed))"

definition logVerboseBlock ::
    "term_env \<Rightarrow> go_int \<Rightarrow> verbose_options \<Rightarrow> string \<Rightarrow> string \<Rightarrow> verbose_style \<Rightarrow> verbose_style \<Rightarrow> writes \<Rightarrow> writes" where
  "logVerboseBlock te limit opts header body headerStyle bodyStyle out =
     foldl (\<lambda>out sink. write_block te sink headerStyle bodyStyle header
              (truncateVerboseWithLimit body (vsMaxBytes sink) verboseTruncationMarker) out) out
       (collectVerboseSinks limit opts)"

definition logVerboseToolOutput :: "term_env \<Rightarrow> go_int \<Rightarrow> verbose_options \<Rightarrow> string \<Rightarrow> string \<Rightarrow> writes \<Rightarrow> writes" where
  "logVerboseToolOutput te limit opts header body out =
     foldl (\<lambda>out sink. write_block te sink styleHeadingToolResult styleDefault header
              (truncateVerboseInlineWithLimit (limitOutputLines body (vsToolOutputMaxLines sink)) (vsMaxBytes sink)
                 verboseInlineTruncationMarker) out) out
       (collectVerboseSinks limit opts)"

definition sink_limits :: "verbose_sink \<Rightarrow> format_limits" where
  "sink_limits sink = \<lparr>flMaxBytes = vsMaxBytes sink, flToolOutputMaxLines = vsToolOutputMaxLines sink,
     flTrimTrailingNewline = (vsMaxBytes sink > 0)\<rparr>"

definition logVerbosePrompt ::
    "term_env \<Rightarrow> go_int \<Rightarrow> marshal_args \<Rightarrow> verbose_options \<Rightarrow> prompt \<Rightarrow> go_int \<Rightarrow> writes \<Rightarrow> writes" where
  "logVerbosePrompt te limit marshal opts p step out =
     foldl (\<lambda>out sink. write_block te sink styleHeadingPrompt styleDim (''LLM prompt (step '' @ show_int step @ '')'')
              (truncateVerboseWithLimit (formatPromptWithLimits marshal (sink_limits sink) p) (vsMaxBytes sink)
                 verboseTruncationMarker) out) out
       (collectVerboseSinks limit opts)"

section \<open>What the call loop logs\<close>

definition log_message :: "term_env \<Rightarrow> go_int \<Rightarrow> verbose_options \<Rightarrow> string \<Rightarrow> writes \<Rightarrow> writes" where
  "log_message te limit opts message =
     logVerboseBlock te limit opts ''LLM output'' message styleHeadingOutput styleDefault"

definition log_tool_call :: "term_env \<Rightarrow> go_int \<Rightarrow> marshal_args \<Rightarrow> verbose_options \<Rightarrow> tool_call \<Rightarrow> writes \<Rightarrow> writes" where
  "log_tool_call te limit marshal opts call =
     call_logVerbose te limit opts styleHeadingToolCall
       (''Tool call id='' @ tcID call @ '' name='' @ tcName call @ '' args='' @ formatArgs marshal (args_of call))"

definition log_tool_result :: "term_env \<Rightarrow> go_int \<Rightarrow> verbose_options \<Rightarrow> tool_call \<Rightarrow> call_result \<Rightarrow> writes \<Rightarrow> writes" where
  "log_tool_result te limit opts call r =
     logVerboseToolOutput te limit opts
       (''Tool result id='' @ tcID call @ '' name='' @ crTool r @ '' duration='' @ Duration_String (crDuration r) @
        '' bytes='' @ show_int (crOutputBytes r) @ '' truncated='' @ show_bool (crTruncated r) @
        '' error='' @ crError r) (crOutput r)"

definition log_compaction :: "term_env \<Rightarrow> go_int \<Rightarrow> verbose_options \<Rightarrow> go_int \<Rightarrow> go_int \<Rightarrow> go_int \<Rightarrow> writes \<Rightarrow> writes" where
  "log_compaction te limit opts before after summary =
     call_logVerbose te limit opts styleHeadingMetrics
       (''Compaction tokens='' @ show_int before @ ''->'' @ show_int after @ '' summary_tokens='' @ show_int summary)"

section \<open>The log of a run\<close>

datatype run_style = runDefault | styleTask | styleMetrics | styleError

definition run_sinks :: "bool \<Rightarrow> io_writer \<Rightarrow> io_writer \<Rightarrow> bool \<Rightarrow> (io_writer \<times> bool) list" where
  "run_sinks enabled w logWriter noColor =
     (if enabled \<and> w \<noteq> NilWriter then [(w, noColor)] else []) @ (if logWriter \<noteq> NilWriter then [(logWriter, True)] else [])"

definition run_shouldUseStyling :: "term_env \<Rightarrow> io_writer \<Rightarrow> bool" where
  "run_shouldUseStyling te w =
     (if w = NilWriter then False
      else if teGetenv te ''NO_COLOR'' \<noteq> [] \<or> teGetenv te ''TERM'' = ''dumb'' then False
      else if teGetenv te ''CLICOLOR'' = ''0'' then False
      else case w of FileWriter fd \<Rightarrow> teIsTerminal te fd | FdWriter fd \<Rightarrow> teIsTerminal te fd | _ \<Rightarrow> False)"

definition run_paletteFor :: "term_env \<Rightarrow> io_writer \<Rightarrow> bool \<Rightarrow> bool" where
  "run_paletteFor te w noColor = (if noColor then False else run_shouldUseStyling te w)"

definition run_prefix :: "bool \<Rightarrow> string \<Rightarrow> string" where
  "run_prefix enabled t = (if \<not> enabled then t else ansi ''2'' @ ansi ''90'' @ t @ ansi ''0'')"

definition run_apply :: "bool \<Rightarrow> run_style \<Rightarrow> string \<Rightarrow> string" where
  "run_apply enabled style t =
     (if \<not> enabled then t
      else case style of
          runDefault \<Rightarrow> t
        | styleTask \<Rightarrow> ansi ''1'' @ ansi ''34'' @ t @ ansi ''0''
        | styleMetrics \<Rightarrow> ansi ''1'' @ ansi ''32'' @ t @ ansi ''0''
        | styleError \<Rightarrow> ansi ''1'' @ ansi ''31'' @ t @ ansi ''0'')"

definition run_logVerbose ::
    "term_env \<Rightarrow> bool \<Rightarrow> io_writer \<Rightarrow> io_writer \<Rightarrow> bool \<Rightarrow> run_style \<Rightarrow> string \<Rightarrow> writes \<Rightarrow> writes" where
  "run_logVerbose te enabled w logWriter noColor style message out =
     foldl (\<lambda>out (w, noColor).
         let palette = run_paletteFor te w noColor in
         Write w (run_prefix palette verbosePrefix @ '' '' @ run_apply palette style message @ newline) out)
       out (run_sinks enabled w logWriter noColor)"

text \<open>\<open>keys\<close> are the keys of the map in the order it is iterated.\<close>

definition formatToolCounts :: "string list \<Rightarrow> (string \<rightharpoonup> go_int) \<Rightarrow> string" where
  "formatToolCounts keys counts =
     (if keys = [] then ''none''
      else join '' '' (map (\<lambda>k. k @ ''='' @ show_int (case counts k of None \<Rightarrow> 0 | Some n \<Rightarrow> n)) (sort keys)))"

text \<open>
  Facts on the verbose log: truncated text keeps its limit and its beginning, tool output is cut to
  a number of lines, a log file receives every line, tool counts do not depend on the order of the
  map, and locked writers change nothing but the colours, which they lose.
\<close>

section \<open>Truncation\<close>

lemma truncated_length:
  "maxBytes > 0 \<Longrightarrow> int (length (truncateVerboseWithLimit value maxBytes marker)) \<le> maxBytes"
  by (auto simp: truncateVerboseWithLimit_def min_def)

lemma truncated_cases:
  assumes "maxBytes > int (length marker)"
  shows "truncateVerboseWithLimit value maxBytes marker = value \<or>
    (\<exists>kept. prefix kept value \<and> truncateVerboseWithLimit value maxBytes marker = kept @ marker)"
  using assms take_is_prefix[of "nat maxBytes - length marker" "value"] by (auto simp: truncateVerboseWithLimit_def)

lemma inline_same: "truncateVerboseInlineWithLimit = truncateVerboseWithLimit"
  by (intro ext) (simp add: truncateVerboseInlineWithLimit_def truncateVerboseWithLimit_def)

lemma marker_one_line: "CHR 0x0A \<notin> set verboseInlineTruncationMarker"
  by code_simp

lemma text_lines_join:
  assumes "ls \<noteq> []" "\<And>l. l \<in> set ls \<Longrightarrow> CHR 0x0A \<notin> set l"
  shows "text_lines (join newline ls) = ls"
  using assms by (intro split_join) auto

lemma limited_lines:
  assumes "maxLines > 0"
  shows "int (length (text_lines (limitOutputLines value maxLines))) \<le> maxLines"
proof -
  let ?ls = "text_lines (TrimRight value (CHR 0x0A))"
  let ?shown = "take (nat maxLines) ?ls"
  have no: "CHR 0x0A \<notin> set l" if "l \<in> set ?shown" for l
    using split_byte_no_sep in_set_takeD[OF that] by fast
  have upd: "text_lines (join newline (?shown[k := x])) = ?shown[k := x]" if "CHR 0x0A \<notin> set x" for k x
    by (rule text_lines_join) (use assms no that set_update_subset_insert[of ?shown k x] in auto)
  have kept: "CHR 0x0A \<notin> set (?shown ! (nat maxLines - 1) @ '' '' @ verboseInlineTruncationMarker)"
    if "\<not> int (length ?ls) \<le> maxLines"
    using no[OF nth_mem, of "nat maxLines - 1"] that assms marker_one_line by simp
  show ?thesis
  proof (cases "int (length ?ls) \<le> maxLines")
    case True
    then show ?thesis using assms by (auto simp: limitOutputLines_def Let_def)
  next
    case False
    then show ?thesis
      using assms upd[OF marker_one_line] upd[OF kept[OF False]] by (auto simp: limitOutputLines_def Let_def)
  qed
qed

section \<open>What is written\<close>

definition plain_lines :: "io_writer \<Rightarrow> string list \<Rightarrow> writes" where
  "plain_lines w ls = map (\<lambda>l. (innermost w, verbosePrefix @ '' '' @ l @ newline)) ls"

lemma write_lines:
  "foldl (\<lambda>out line. writeVerboseLine w False style line out) out ls = out @ plain_lines w ls"
  by (induction ls arbitrary: out)
    (simp_all add: plain_lines_def writeVerboseLine_def Write_def verbose_line_def palette_apply_def)

text \<open>A log file receives the header and every line of the text, uncut and without colours.\<close>

lemma log_file_complete:
  assumes "voLogWriter opts \<noteq> NilWriter" "voVerbose opts = False"
  shows "logVerboseBlock te limit opts header body hs bs out =
    out @ plain_lines (voLogWriter opts) (header # (if TrimSpace body = [] then [] else text_lines body))"
  using assms write_lines[of "voLogWriter opts" hs out "[header]"]
    write_lines[of "voLogWriter opts" bs "out @ plain_lines (voLogWriter opts) [header]" "text_lines body"]
  by (simp add: logVerboseBlock_def collectVerboseSinks_def write_block_def Let_def sink_palette_def paletteFor_def
      truncateVerboseWithLimit_def plain_lines_def)

lemma formatToolCounts_order:
  "mset keys = mset keys' \<Longrightarrow> formatToolCounts keys counts = formatToolCounts keys' counts"
proof -
  assume m: "mset keys = mset keys'"
  then have "sort keys = sort keys'" by (intro properties_for_sort) simp_all
  moreover have "keys = [] \<longleftrightarrow> keys' = []" using m by auto
  ultimately show ?thesis by (simp add: formatToolCounts_def)
qed

section \<open>Locked writers\<close>

lemma run_styling_same: "run_shouldUseStyling = shouldUseStyling" "run_paletteFor = paletteFor"
  by (intro ext, simp add: run_shouldUseStyling_def shouldUseStyling_def)
    (intro ext, simp add: run_paletteFor_def paletteFor_def run_shouldUseStyling_def shouldUseStyling_def)

lemma locked_same_bytes:
  assumes "wrapVerboseWriters workers w l = (w', l')"
  shows "run_logVerbose te enabled w' l' True style message out = run_logVerbose te enabled w l True style message out"
  using assms by (auto simp: wrapVerboseWriters_def run_logVerbose_def run_sinks_def run_paletteFor_def Write_def Let_def split: if_splits)

text \<open>A locked writer hides the descriptor of the terminal: with more than one worker there are no colours.\<close>

lemma workers_lose_colours:
  assumes "shouldUseStyling te w" "workers > 1"
  shows "\<not> paletteFor te (fst (wrapVerboseWriters workers w l)) False"
    and "paletteFor te (fst (wrapVerboseWriters 1 w l)) False"
  using assms by (auto simp: wrapVerboseWriters_def paletteFor_def shouldUseStyling_def)

end
