(* ===== verification/Cli_Flags.thy ===== *)
theory Cli_Flags
  imports Go_Path
begin

text \<open>
  Command line arguments: the parser of the standard library's package \<open>flag\<close> as documented, and the
  reordering of \<open>internal/cli/eval.go\<close>, which lets flags follow the questions file.
\<close>

section \<open>The parser\<close>

datatype flag_value = StrV string | BoolV bool
datatype parse_error = ErrHelp | ParseFailed string

type_synonym flag_defs = "(string \<times> flag_value) list"
type_synonym flag_values = "string \<rightharpoonup> flag_value"

definition ParseBool :: "string \<Rightarrow> bool option" where
  "ParseBool s =
     (if s \<in> {''1'', ''t'', ''T'', ''true'', ''TRUE'', ''True''} then Some True
      else if s \<in> {''0'', ''f'', ''F'', ''false'', ''FALSE'', ''False''} then Some False else None)"

text \<open>\<open>strings.SplitN\<close> at the first equals sign.\<close>

definition split_eq :: "string \<Rightarrow> string \<times> string option" where
  "split_eq s =
     (takeWhile (\<lambda>c. c \<noteq> CHR ''='') s,
      case dropWhile (\<lambda>c. c \<noteq> CHR ''='') s of [] \<Rightarrow> None | _ # v \<Rightarrow> Some v)"

datatype token = Positional | Terminator | BadSyntax | FlagToken string "string option"

definition token_of :: "string \<Rightarrow> token" where
  "token_of s =
     (if length s < 2 \<or> hd s \<noteq> CHR ''-'' then Positional
      else if s = ''--'' then Terminator
      else let name = drop (if s ! 1 = CHR ''-'' then 2 else 1) s in
        if name = [] \<or> hd name = CHR ''-'' \<or> hd name = CHR ''='' then BadSyntax
        else let (n, v) = split_eq name in FlagToken n v)"

text \<open>\<open>FlagSet.Parse\<close>: the values and the arguments that are left, or the error.\<close>

fun Parse :: "flag_defs \<Rightarrow> flag_values \<Rightarrow> string list \<Rightarrow> (flag_values \<times> string list) + parse_error" where
  "Parse defs vals [] = Inl (vals, [])"
| "Parse defs vals (s # rest) =
     (case token_of s of
        Positional \<Rightarrow> Inl (vals, s # rest)
      | Terminator \<Rightarrow> Inl (vals, rest)
      | BadSyntax \<Rightarrow> Inr (ParseFailed (''bad flag syntax: '' @ s))
      | FlagToken name v \<Rightarrow>
         (case map_of defs name of
            None \<Rightarrow> if name = ''help'' \<or> name = ''h'' then Inr ErrHelp
                    else Inr (ParseFailed (''flag provided but not defined: -'' @ name))
          | Some (BoolV _) \<Rightarrow>
             (case v of
                None \<Rightarrow> Parse defs (vals(name \<mapsto> BoolV True)) rest
              | Some x \<Rightarrow>
                 (case ParseBool x of
                    None \<Rightarrow> Inr (ParseFailed (''invalid boolean value '' @ quote x @ '' for -'' @ name @ '': parse error''))
                  | Some b \<Rightarrow> Parse defs (vals(name \<mapsto> BoolV b)) rest))
          | Some (StrV _) \<Rightarrow>
             (case v of
                Some x \<Rightarrow> Parse defs (vals(name \<mapsto> StrV x)) rest
              | None \<Rightarrow>
                 (case rest of
                    [] \<Rightarrow> Inr (ParseFailed (''flag needs an argument: -'' @ name))
                  | x # rest' \<Rightarrow> Parse defs (vals(name \<mapsto> StrV x)) rest'))))"

definition flag_string :: "flag_values \<Rightarrow> string \<Rightarrow> string" where
  "flag_string vals name = (case vals name of Some (StrV s) \<Rightarrow> s | _ \<Rightarrow> [])"

definition flag_bool :: "flag_values \<Rightarrow> string \<Rightarrow> bool" where
  "flag_bool vals name = (case vals name of Some (BoolV b) \<Rightarrow> b | _ \<Rightarrow> False)"

definition parse_flags :: "flag_defs \<Rightarrow> string list \<Rightarrow> (flag_values \<times> string list) + parse_error" where
  "parse_flags defs args = Parse defs (map_of defs) args"

section \<open>Reordering\<close>

definition evalFlagsRequiringValue :: "string list" where
  "evalFlagsRequiringValue = [''spec'', ''agent'', ''output-dir'', ''log'', ''ui'']"

definition evalFlagsWithoutValue :: "string list" where
  "evalFlagsWithoutValue = [''verbose'', ''no-color'']"

definition splitEvalFlag :: "string \<Rightarrow> string \<times> bool" where
  "splitEvalFlag flagToken =
     (let trimmed = dropWhile (\<lambda>c. c = CHR ''-'') flagToken in
      if trimmed = [] then ([], False)
      else case split_eq trimmed of (name, v) \<Rightarrow> (name, v \<noteq> None))"

abbreviation add_flags ::
    "string list \<Rightarrow> (string list \<times> string list) + string \<Rightarrow> (string list \<times> string list) + string" where
  "add_flags fs r \<equiv> (case r of Inr err \<Rightarrow> Inr err | Inl (flags, pos) \<Rightarrow> Inl (fs @ flags, pos))"

text \<open>The flags and the positional arguments, each in order.\<close>

fun split_args :: "string list \<Rightarrow> (string list \<times> string list) + string" where
  "split_args [] = Inl ([], [])"
| "split_args (arg # rest) =
     (if arg = ''--'' then Inl ([], rest)
      else if prefix ''-'' arg \<and> arg \<noteq> ''-'' then
        (case splitEvalFlag arg of (name, inline) \<Rightarrow>
           if name = [] then add_flags [arg] (split_args rest)
           else if name \<in> set evalFlagsRequiringValue \<and> \<not> inline then
             (case rest of
                [] \<Rightarrow> Inr (''flag '' @ arg @ '' requires a value'')
              | v # rest' \<Rightarrow> add_flags [arg, v] (split_args rest'))
           else if name \<notin> set evalFlagsRequiringValue \<and> name \<notin> set evalFlagsWithoutValue \<and> \<not> inline then
             (case rest of
                [] \<Rightarrow> add_flags [arg] (split_args rest)
              | v # rest' \<Rightarrow>
                  if prefix ''-'' v then add_flags [arg] (split_args rest)
                  else add_flags [arg, v] (split_args rest'))
           else add_flags [arg] (split_args rest))
      else case split_args rest of Inr err \<Rightarrow> Inr err | Inl (flags, pos) \<Rightarrow> Inl (flags, arg # pos))"

definition normalizeEvalArgs :: "string list \<Rightarrow> string list + string" where
  "normalizeEvalArgs args = (case split_args args of Inr err \<Rightarrow> Inr err | Inl (flags, pos) \<Rightarrow> Inl (flags @ pos))"

end
