(* ===== verification/Config_Paths.thy ===== *)
theory Config_Paths
  imports Config Go_Path
begin

text \<open>
  Where the configuration is (\<open>internal/config/paths.go\<close>) and how it is created
  (\<open>internal/config/scaffold.go\<close>).  \<open>stat\<close> is \<open>os.Stat\<close>, \<open>getwd\<close> the working directory; the
  writing operations and the YAML template are parameters.
\<close>

section \<open>Paths\<close>

text \<open>\<open>filepath.Dir\<close>, \<open>filepath.Base\<close> and \<open>filepath.Abs\<close> as documented.\<close>

definition Dir :: "string \<Rightarrow> string" where
  "Dir p = Clean (rev (dropWhile (\<lambda>c. c \<noteq> slash) (rev p)))"

definition Base :: "string \<Rightarrow> string" where
  "Base p =
     (if p = [] then ''.''
      else let q = TrimRight p slash in
        if q = [] then [slash] else rev (takeWhile (\<lambda>c. c \<noteq> slash) (rev q)))"

definition Abs :: "string + string \<Rightarrow> string \<Rightarrow> string + string" where
  "Abs getwd p =
     (if IsAbs p then Inl (Clean p)
      else case getwd of Inr err \<Rightarrow> Inr err | Inl wd \<Rightarrow> Inl (Join wd p))"

datatype file_stat = Missing | IsFile | IsDir | StatError string

definition ConfigDirName :: string where "ConfigDirName = ''.cogni''"
definition ConfigFileName :: string where "ConfigFileName = ''config.yml''"
definition DefaultOutputDir :: string where "DefaultOutputDir = ''.cogni/results''"

definition ConfigDir :: "string \<Rightarrow> string" where
  "ConfigDir base = Join base ConfigDirName"

definition ConfigPath :: "string \<Rightarrow> string" where
  "ConfigPath base = Join (ConfigDir base) ConfigFileName"

definition RepoRootFromConfigPath :: "string \<Rightarrow> string" where
  "RepoRootFromConfigPath configPath =
     (let dir = Dir configPath in if Base dir = ConfigDirName then Dir dir else dir)"

section \<open>The search\<close>

text \<open>One directory: \<open>None\<close> when the search goes on in its parent.\<close>

definition config_at :: "(string \<Rightarrow> file_stat) \<Rightarrow> string \<Rightarrow> (string + string) option" where
  "config_at stat dir =
     (let configDir = Join dir ConfigDirName; configPath = Join configDir ConfigFileName in
      case stat configPath of
        IsDir \<Rightarrow> Some (Inr (''config path '' @ quote configPath @ '' is a directory''))
      | IsFile \<Rightarrow> Some (Inl configPath)
      | StatError err \<Rightarrow> Some (Inr (''stat config path '' @ quote configPath @ '': '' @ err))
      | Missing \<Rightarrow>
          if stat configDir = IsDir then Some (Inr (''found '' @ quote configDir @ '' but '' @ ConfigFileName @ '' is missing''))
          else None)"

partial_function (option) search_config :: "(string \<Rightarrow> file_stat) \<Rightarrow> string \<Rightarrow> (string + string) option" where
  "search_config stat dir =
     (case config_at stat dir of
        Some r \<Rightarrow> Some r
      | None \<Rightarrow>
          let parent = Dir dir in
          if parent = dir
          then Some (Inr (''no '' @ Join ConfigDirName ConfigFileName @ '' found in '' @ dir @ '' or parent directories''))
          else search_config stat parent)"

text \<open>\<open>FindConfigPath\<close>: \<open>None\<close> would be a search without end.\<close>

definition FindConfigPath :: "(string \<Rightarrow> file_stat) \<Rightarrow> string + string \<Rightarrow> string \<Rightarrow> (string + string) option" where
  "FindConfigPath stat getwd startDir =
     (case (if TrimSpace startDir = [] then getwd else Inl (TrimSpace startDir)) of
        Inr err \<Rightarrow> Some (Inr (''get working directory: '' @ err))
      | Inl dir \<Rightarrow>
         (case Abs getwd dir of
            Inr err \<Rightarrow> Some (Inr (''resolve start directory: '' @ err))
          | Inl start \<Rightarrow> search_config stat start))"

section \<open>Scaffolding\<close>

fun replace_byte :: "char \<Rightarrow> string \<Rightarrow> string \<Rightarrow> string" where
  "replace_byte c new [] = []"
| "replace_byte c new (x # xs) = (if x = c then new else [x]) @ replace_byte c new xs"

definition sanitizeOutputDir :: "string \<Rightarrow> string + string" where
  "sanitizeOutputDir outputDir =
     (let dir = (if TrimSpace outputDir = [] then DefaultOutputDir else TrimSpace outputDir) in
      if CHR 0x0A \<in> set dir then Inr ''output dir must be a single line''
      else Inl (replace_byte (CHR 0x22) [CHR 0x5C, CHR 0x22] dir))"

text \<open>The starter schema.\<close>

definition defaultSchema :: string where
  \<open>defaultSchema = concat (map (\<lambda>line. line @ [CHR 0x0A])
    [''{'',
     ''  "$schema": "https://json-schema.org/draft/2020-12/schema",'',
     ''  "type": "object",'',
     ''  "required": ["entrypoints", "middleware", "checks", "citations"],'',
     ''  "properties": {'',
     ''    "entrypoints": { "type": "array", "items": { "type": "string" } },'',
     ''    "middleware": { "type": "array", "items": { "type": "string" } },'',
     ''    "checks": { "type": "array", "items": { "type": "string" } },'',
     ''    "citations": {'',
     ''      "type": "array",'',
     ''      "items": {'',
     ''        "type": "object",'',
     ''        "required": ["path", "lines"],'',
     ''        "properties": {'',
     ''          "path": { "type": "string" },'',
     ''          "lines": {'',
     ''            "type": "array",'',
     ''            "minItems": 2,'',
     ''            "maxItems": 2,'',
     ''            "items": { "type": "integer" }'',
     ''          }'',
     ''        }'',
     ''      }'',
     ''    }'',
     ''  }'',
     ''}''])\<close>

record 'w fs_ops =
  fsStat :: "'w \<Rightarrow> string \<Rightarrow> file_stat"
  fsMkdirAll :: "'w \<Rightarrow> string \<Rightarrow> 'w \<times> go_error"
  fsWriteFile :: "'w \<Rightarrow> string \<Rightarrow> string \<Rightarrow> 'w \<times> go_error"

text \<open>A file that must not be there yet.\<close>

definition absent_error :: "string \<Rightarrow> file_stat \<Rightarrow> string \<Rightarrow> go_error" where
  "absent_error what st path =
     (case st of
        IsDir \<Rightarrow> Some (what @ '' path '' @ quote path @ '' is a directory'')
      | IsFile \<Rightarrow> Some (what @ '' file already exists at '' @ quote path)
      | StatError err \<Rightarrow> Some (''stat '' @ what @ '' file: '' @ err)
      | Missing \<Rightarrow> None)"

definition schema_path :: "string \<Rightarrow> string" where
  "schema_path specPath = Join (Join (Dir specPath) ''schemas'') ''auth_flow_summary.schema.json''"

text \<open>\<open>render\<close> is the YAML template.\<close>

definition scaffold_write ::
    "'w fs_ops \<Rightarrow> (string \<Rightarrow> string + string) \<Rightarrow> string \<Rightarrow> string \<Rightarrow> 'w \<Rightarrow> 'w \<times> go_error" where
  "scaffold_write F render specPath dir w =
     (case render dir of
        Inr err \<Rightarrow> (w, Some (''render scaffold config: '' @ err))
      | Inl body \<Rightarrow>
         (case fsWriteFile F w specPath body of
            (w1, Some err) \<Rightarrow> (w1, Some (''write spec file: '' @ err))
          | (w1, None) \<Rightarrow>
             (case fsWriteFile F w1 (schema_path specPath) defaultSchema of
                (w2, Some err) \<Rightarrow> (w2, Some (''write schema file: '' @ err))
              | (w2, None) \<Rightarrow> (w2, None))))"

definition Scaffold ::
    "'w fs_ops \<Rightarrow> (string \<Rightarrow> string + string) \<Rightarrow> string \<Rightarrow> string \<Rightarrow> 'w \<Rightarrow> 'w \<times> go_error" where
  "Scaffold F render specPath outputDir w =
     (if specPath = [] then (w, Some ''spec path is required'')
      else case sanitizeOutputDir outputDir of
        Inr err \<Rightarrow> (w, Some err)
      | Inl dir \<Rightarrow>
         (case absent_error ''spec'' (fsStat F w specPath) specPath of
            Some err \<Rightarrow> (w, Some err)
          | None \<Rightarrow>
             (case fsMkdirAll F w (Join (Dir specPath) ''schemas'') of
                (w1, Some err) \<Rightarrow> (w1, Some (''create schemas dir: '' @ err))
              | (w1, None) \<Rightarrow>
                 (case absent_error ''schema'' (fsStat F w1 (schema_path specPath)) (schema_path specPath) of
                    Some err \<Rightarrow> (w1, Some err)
                  | None \<Rightarrow> scaffold_write F render specPath dir w1))))"

text \<open>
  Facts on the paths of the configuration: the root derived from a configuration path is the root it
  was made from, the upward search ends and finds the nearest directory that decides it, and what
  the scaffold leaves behind.
\<close>

section \<open>Rooted paths\<close>

definition names :: "string list \<Rightarrow> bool" where
  "names xs \<longleftrightarrow> (\<forall>x \<in> set xs. is_name x)"

definition path_of :: "string list \<Rightarrow> string" where
  "path_of xs = unparts True xs"

lemma names_simps [simp]: "names []" "names (x # xs) \<longleftrightarrow> is_name x \<and> names xs" "names (xs @ ys) \<longleftrightarrow> names xs \<and> names ys"
  by (auto simp: names_def)

lemma IsAbs_path_of [simp]: "IsAbs (path_of xs)"
  by (simp add: path_of_def unparts_def IsAbs_def)

lemma split_path_of:
  "names xs \<Longrightarrow> split_byte slash (path_of xs) = [] # (if xs = [] then [[]] else xs)"
  using split_join[of xs slash] by (auto simp: path_of_def unparts_def names_def is_name_def)

lemma parts_path_of [simp]: "names xs \<Longrightarrow> parts (path_of xs) = xs"
  using clean_parts_names[of xs True "[]"] by (auto simp: parts_def split_path_of names_def)

lemma Clean_abs: "IsAbs p \<Longrightarrow> Clean p = path_of (parts p)"
  by (simp add: Clean_def path_of_def)

lemma names_parts: "IsAbs p \<Longrightarrow> names (parts p)"
  using parts_rooted by (simp add: names_def)

lemma Clean_path_of [simp]: "names xs \<Longrightarrow> Clean (path_of xs) = path_of xs"
  by (simp add: Clean_abs)

lemma path_of_inject: "names xs \<Longrightarrow> names ys \<Longrightarrow> path_of xs = path_of ys \<longleftrightarrow> xs = ys"
  using parts_path_of by metis

lemma Join_abs:
  assumes "IsAbs a"
  obtains q where "IsAbs q" "Join a b = Clean q"
proof -
  have "a \<noteq> []" "IsAbs (a @ slash # b)" using assms by (auto simp: IsAbs_def)
  with assms that show thesis by (cases "b = []") (simp_all add: Join_def)
qed

lemma Join_path_of:
  assumes "names xs" "names ys" "ys \<noteq> []"
  shows "Join (path_of xs) (join [slash] ys) = path_of (xs @ ys)"
proof -
  have rel: "unparts False ys = join [slash] ys" using assms by (simp add: unparts_def)
  have J: "parts (Join (path_of xs) (join [slash] ys)) = xs @ ys"
    using parts_Join[of "path_of xs" ys] assms rel by (simp add: names_def)
  obtain q where q: "IsAbs q" "Join (path_of xs) (join [slash] ys) = Clean q"
    using Join_abs[OF IsAbs_path_of] by blast
  show ?thesis
    unfolding q(2) Clean_abs[OF q(1)] using J q names_parts[OF q(1)] by (simp add: Clean_abs)
qed

lemma Join_name: "names xs \<Longrightarrow> is_name x \<Longrightarrow> Join (path_of xs) x = path_of (xs @ [x])"
  using Join_path_of[of xs "[x]"] by simp

lemma path_of_snoc: "path_of (xs @ [x]) = (if xs = [] then [] else path_of xs) @ slash # x"
proof -
  have "join [slash] (xs @ [x]) = (if xs = [] then [] else join [slash] xs @ [slash]) @ x"
    by (induction xs rule: join.induct[of _ "[slash]"]) auto
  then show ?thesis by (simp add: path_of_def unparts_def)
qed

lemma last_part: "slash \<notin> set x \<Longrightarrow> dropWhile (\<lambda>c. c \<noteq> slash) (rev (a @ slash # x)) = slash # rev a"
  "slash \<notin> set x \<Longrightarrow> takeWhile (\<lambda>c. c \<noteq> slash) (rev (a @ slash # x)) = rev x"
  by (simp_all add: dropWhile_append takeWhile_append)

lemma Dir_path_of:
  assumes "names xs" "is_name x"
  shows "Dir (path_of (xs @ [x])) = path_of xs"
proof -
  have "Dir (path_of (xs @ [x])) = Clean ((if xs = [] then [] else path_of xs) @ [slash])"
    using last_part(1)[OF is_name_no_slash[OF assms(2)]] by (simp add: Dir_def path_of_snoc)
  also have "\<dots> = path_of xs"
  proof (cases "xs = []")
    case False
    have app: "clean_parts True acc (ys @ [[]]) = clean_parts True acc ys" for acc ys
      by (induction True acc ys rule: clean_parts.induct) (auto split: list.splits)
    have "IsAbs (path_of xs @ [slash])" by (simp add: path_of_def unparts_def IsAbs_def)
    moreover have "parts (path_of xs @ [slash]) = parts (path_of xs)"
      using calculation by (simp add: parts_def split_byte_append[of slash _ "[]", simplified] app)
    ultimately show ?thesis using False assms by (simp add: Clean_abs)
  qed (simp add: Clean_abs IsAbs_def parts_def)
  finally show ?thesis .
qed

lemma Dir_root: "Dir (path_of []) = path_of []"
  by code_simp

lemma Base_path_of:
  assumes "is_name x"
  shows "Base (path_of (xs @ [x])) = x"
proof -
  have ns: "slash \<notin> set x" "x \<noteq> []" using assms by (auto simp: is_name_def)
  obtain a where p: "path_of (xs @ [x]) = a @ slash # x" by (auto simp: path_of_snoc)
  have "dropWhile (\<lambda>c. c = slash) (rev (a @ slash # x)) = rev (a @ slash # x)"
    using ns by (cases x rule: rev_cases) auto
  then show ?thesis using ns last_part(2)[of x a] by (simp add: Base_def p TrimRight_def)
qed

text \<open>The root derived from a configuration path is the one it was built from.\<close>

lemma config_names: "is_name ConfigDirName" "is_name ConfigFileName" "is_name ''schemas''"
  by (simp_all add: is_name_def ConfigDirName_def ConfigFileName_def slash_def)

lemma ConfigPath_names: "names xs \<Longrightarrow> ConfigPath (path_of xs) = path_of (xs @ [ConfigDirName, ConfigFileName])"
  using Join_name[of xs ConfigDirName] Join_name[of "xs @ [ConfigDirName]" ConfigFileName]
  by (simp add: ConfigPath_def ConfigDir_def config_names)

lemma root_of_config_path:
  assumes "names xs"
  shows "RepoRootFromConfigPath (ConfigPath (path_of xs)) = path_of xs"
  using assms Dir_path_of[of "xs @ [ConfigDirName]" ConfigFileName] Dir_path_of[of xs ConfigDirName]
    Base_path_of[of ConfigDirName xs] config_names
  by (simp add: ConfigPath_names RepoRootFromConfigPath_def Let_def)

section \<open>The search\<close>

definition not_found :: "(string + string)" where
  "not_found = Inr (''no '' @ Join ConfigDirName ConfigFileName @ '' found in '' @ path_of [] @ '' or parent directories'')"

text \<open>The specification: of a directory and the ones above it, the nearest that decides.\<close>

fun nearest :: "(string \<Rightarrow> file_stat) \<Rightarrow> string list \<Rightarrow> string + string" where
  "nearest stat [] = (case config_at stat (path_of []) of Some r \<Rightarrow> r | None \<Rightarrow> not_found)"
| "nearest stat (x # up) = (case config_at stat (path_of (rev (x # up))) of Some r \<Rightarrow> r | None \<Rightarrow> nearest stat up)"

lemma search_nearest: "names xs \<Longrightarrow> search_config stat (path_of xs) = Some (nearest stat (rev xs))"
proof (induction xs rule: rev_induct)
  case Nil
  show ?case by (subst search_config.simps) (simp add: Dir_root not_found_def split: option.splits)
next
  case (snoc x xs)
  then have "Dir (path_of (xs @ [x])) = path_of xs" "path_of xs \<noteq> path_of (xs @ [x])"
    using path_of_inject[of xs "xs @ [x]"] by (auto simp: Dir_path_of)
  then show ?case using snoc by (subst search_config.simps) (simp split: option.splits)
qed

lemma Abs_names:
  assumes "Abs getwd dir = Inl p" "\<And>wd. getwd = Inl wd \<Longrightarrow> IsAbs wd"
  shows "\<exists>xs. names xs \<and> p = path_of xs"
proof -
  have "\<exists>q. IsAbs q \<and> p = Clean q"
  proof (cases "IsAbs dir")
    case False
    then obtain wd where "getwd = Inl wd" "p = Join wd dir" using assms(1) by (auto simp: Abs_def split: sum.splits)
    then show ?thesis using assms(2) Join_abs[of wd dir] by metis
  qed (use assms(1) in \<open>auto simp: Abs_def\<close>)
  then show ?thesis using Clean_abs names_parts by blast
qed

lemma nearest_found:
  assumes "nearest stat up = Inl p" "names up"
  shows "\<exists>k \<le> length up. p = ConfigPath (path_of (rev (drop k up))) \<and> stat p = IsFile \<and>
    (\<forall>j < k. config_at stat (path_of (rev (drop j up))) = None)"
  using assms
proof (induction up)
  case Nil
  then show ?case by (auto simp: config_at_def Let_def ConfigPath_def ConfigDir_def not_found_def split: file_stat.splits if_splits)
next
  case (Cons x up)
  show ?case
  proof (cases "config_at stat (path_of (rev (x # up)))")
    case None
    then obtain k where "k \<le> length up" "p = ConfigPath (path_of (rev (drop k up)))" "stat p = IsFile"
        "\<And>j. j < k \<Longrightarrow> config_at stat (path_of (rev (drop j up))) = None"
      using Cons by auto
    then show ?thesis using None
      by (intro exI[of _ "Suc k"]) (auto simp: less_Suc_eq_0_disj)
  next
    case (Some r)
    then show ?thesis using Cons.prems
      by (intro exI[of _ 0]) (auto simp: config_at_def Let_def ConfigPath_def ConfigDir_def split: file_stat.splits if_splits)
  qed
qed

section \<open>Scaffolding\<close>

text \<open>Nothing that exists is overwritten: the files are written only where there was none.\<close>

lemma scaffold_fresh:
  assumes "Scaffold F render specPath outputDir w = (w', None)"
  shows "fsStat F w specPath = Missing"
    "\<exists>w1. fsMkdirAll F w (Join (Dir specPath) ''schemas'') = (w1, None) \<and> fsStat F w1 (schema_path specPath) = Missing"
  using assms
  by (auto simp: Scaffold_def absent_error_def split: if_splits sum.splits option.splits prod.splits file_stat.splits)

text \<open>A backslash is not escaped, so one at the end takes the closing quote of the YAML scalar with it.\<close>

lemma backslash_kept: "sanitizeOutputDir [CHR ''a'', CHR 0x5C] = Inl [CHR ''a'', CHR 0x5C]"
  by code_simp

section \<open>The configuration that is found\<close>



end
