(* ===== verification/Vcs_Report.thy ===== *)
theory Vcs_Report
  imports Config_Paths Runner_Plan
begin

text \<open>
  Git references (\<open>internal/vcs\<close>: \<open>git.go\<close>, \<open>refs.go\<close>) and the lookup of stored runs
  (\<open>internal/report\<close>: \<open>load.go\<close>).  Running git is a parameter that may change the world; of the
  file system the lookup uses \<open>os.Stat\<close>, \<open>os.ReadDir\<close>, which answers names with whether they are
  directories, and \<open>os.ReadFile\<close>; the JSON decoder is a parameter.
\<close>

section \<open>Git\<close>

type_synonym 'w git = "'w \<Rightarrow> string \<Rightarrow> string list \<Rightarrow> 'w \<times> (string + string)"

text \<open>\<open>execGitRunner.Run\<close>: \<open>exec\<close> answers standard output, standard error and the error of the process.\<close>

definition exec_git :: "('w \<Rightarrow> string \<Rightarrow> string list \<Rightarrow> 'w \<times> string \<times> string \<times> go_error) \<Rightarrow> 'w git" where
  "exec_git exec w dir args =
     (case exec w dir args of
        (w1, out, errOut, Some err) \<Rightarrow>
          (w1, Inr (''git '' @ join '' '' args @ '': '' @ err @ '' ('' @
                    (if TrimSpace errOut = [] then ''no stderr'' else TrimSpace errOut) @ '')''))
      | (w1, out, errOut, None) \<Rightarrow> (w1, Inl (TrimSpace out)))"

definition DiscoverRepoRoot :: "'w git \<Rightarrow> string + string \<Rightarrow> 'w \<Rightarrow> string \<Rightarrow> 'w \<times> (string + string)" where
  "DiscoverRepoRoot git getwd w startDir =
     (case (if TrimSpace startDir = [] then getwd else Inl (TrimSpace startDir)) of
        Inr err \<Rightarrow> (w, Inr (''get working directory: '' @ err))
      | Inl dir \<Rightarrow>
         (case git w dir [''rev-parse'', ''--show-toplevel''] of
            (w1, Inr err) \<Rightarrow> (w1, Inr (''discover git root: '' @ err))
          | (w1, Inl gitRoot) \<Rightarrow> (w1, Inl gitRoot)))"

text \<open>\<open>Repo.Metadata\<close> of a repository with this root.\<close>

definition Metadata :: "'w git \<Rightarrow> 'w \<Rightarrow> string \<Rightarrow> 'w \<times> (repo_metadata + string)" where
  "Metadata git w gitRoot =
     (if TrimSpace gitRoot = [] then (w, Inr ''repo root is empty'')
      else case git w gitRoot [''rev-parse'', ''HEAD''] of
        (w1, Inr err) \<Rightarrow> (w1, Inr (''resolve HEAD: '' @ err))
      | (w1, Inl commit) \<Rightarrow>
         (case git w1 gitRoot [''rev-parse'', ''--abbrev-ref'', ''HEAD''] of
            (w2, Inr err) \<Rightarrow> (w2, Inr (''resolve branch: '' @ err))
          | (w2, Inl branch) \<Rightarrow>
             (case git w2 gitRoot [''status'', ''--porcelain''] of
                (w3, Inr err) \<Rightarrow> (w3, Inr (''check dirty state: '' @ err))
              | (w3, Inl status) \<Rightarrow>
                  (w3, Inl \<lparr>rmName = Base gitRoot, rmVCS = ''git'', rmCommit = commit, rmBranch = branch,
                            rmDirty = (TrimSpace status \<noteq> [])\<rparr>))))"

definition loadRepoMetadata :: "'w git \<Rightarrow> string + string \<Rightarrow> 'w \<Rightarrow> string \<Rightarrow> 'w \<times> (repo_metadata + string)" where
  "loadRepoMetadata git getwd w repoRoot =
     (case DiscoverRepoRoot git getwd w repoRoot of
        (w1, Inr err) \<Rightarrow> (w1, Inr err)
      | (w1, Inl gitRoot) \<Rightarrow> Metadata git w1 gitRoot)"

section \<open>Ranges\<close>

record range_spec =
  rgStart :: string
  rgEnd :: string

record range_result =
  rtStart :: string
  rtEnd :: string
  rtCommits :: "string list"

text \<open>\<open>strings.Count\<close> of a non-empty text, and \<open>strings.SplitN\<close> with two pieces.\<close>

function count_sub :: "string \<Rightarrow> string \<Rightarrow> nat" where
  "count_sub sub s =
     (if s = [] \<or> sub = [] then 0
      else if prefix sub s then Suc (count_sub sub (drop (length sub) s))
      else count_sub sub (tl s))"
  by pat_completeness auto
termination by (relation "measure (\<lambda>(_, s). length s)") auto

declare count_sub.simps [simp del]

fun split_first :: "string \<Rightarrow> string \<Rightarrow> string \<times> string option" where
  "split_first sub [] = ([], if sub = [] then Some [] else None)"
| "split_first sub (x # xs) =
     (if prefix sub (x # xs) then ([], Some (drop (length sub) (x # xs)))
      else case split_first sub xs of (a, b) \<Rightarrow> (x # a, b))"

definition sq :: "string \<Rightarrow> string" where "sq s = [CHR 0x27] @ s @ [CHR 0x27]"

definition ParseRange :: "string \<Rightarrow> range_spec + string" where
  "ParseRange spec =
     (let trimmed = TrimSpace spec in
      if trimmed = [] then Inr ''range is empty''
      else if sublist ''...'' trimmed then Inr (''range must use '' @ sq ''..'' @ '' not '' @ sq ''...'')
      else if count_sub ''..'' trimmed \<noteq> 1 then Inr (''range must contain a single '' @ sq ''..'')
      else
        let (a, b) = split_first ''..'' trimmed;
            start = TrimSpace a; end = TrimSpace (case b of Some t \<Rightarrow> t | None \<Rightarrow> []) in
        if start = [] \<or> end = [] then Inr ''range must include start and end''
        else Inl \<lparr>rgStart = start, rgEnd = end\<rparr>)"

definition ResolveRef :: "'w git \<Rightarrow> 'w \<Rightarrow> string \<Rightarrow> string \<Rightarrow> 'w \<times> (string + string)" where
  "ResolveRef git w repoRoot ref =
     (if TrimSpace ref = [] then (w, Inr ''ref is empty'')
      else case git w repoRoot [''rev-parse'', ''--verify'', ref] of
        (w1, Inr err) \<Rightarrow> (w1, Inr (''resolve ref '' @ quote ref @ '': '' @ err))
      | (w1, Inl commit) \<Rightarrow> (w1, Inl commit))"

definition ResolveRange :: "'w git \<Rightarrow> 'w \<Rightarrow> string \<Rightarrow> range_spec \<Rightarrow> 'w \<times> (range_result + string)" where
  "ResolveRange git w repoRoot spec =
     (case ResolveRef git w repoRoot (rgStart spec) of
        (w1, Inr err) \<Rightarrow> (w1, Inr err)
      | (w1, Inl start) \<Rightarrow>
         (case ResolveRef git w1 repoRoot (rgEnd spec) of
            (w2, Inr err) \<Rightarrow> (w2, Inr err)
          | (w2, Inl end) \<Rightarrow>
             (case git w2 repoRoot [''rev-list'', ''--reverse'', start @ ''..'' @ end] of
                (w3, Inr err) \<Rightarrow>
                  (w3, Inr (''resolve range '' @ rgStart spec @ ''..'' @ rgEnd spec @ '': '' @ err))
              | (w3, Inl revList) \<Rightarrow>
                  (w3, Inl \<lparr>rtStart = start, rtEnd = end,
                            rtCommits = (if TrimSpace revList = [] then [] else split_byte (CHR 0x0A) revList)\<rparr>))))"

section \<open>Stored runs\<close>

record run_files =
  rfStat :: "string \<Rightarrow> file_stat"
  rfReadDir :: "string \<Rightarrow> (string \<times> bool) list + string"
  rfReadFile :: "string \<Rightarrow> string + string"
  rfDecode :: "string \<Rightarrow> run_results + string"

definition LoadResults :: "run_files \<Rightarrow> string \<Rightarrow> run_results + string" where
  "LoadResults F path =
     (case rfReadFile F path of
        Inr err \<Rightarrow> Inr err
      | Inl content \<Rightarrow> rfDecode F content)"

definition findLatestRunDir :: "run_files \<Rightarrow> string \<Rightarrow> string + string" where
  "findLatestRunDir F commitDir =
     (case rfReadDir F commitDir of
        Inr err \<Rightarrow> Inr err
      | Inl entries \<Rightarrow>
          let runIDs = map fst (filter snd entries) in
          if runIDs = [] then Inr (''no runs found in '' @ commitDir)
          else Inl (Join commitDir (last (sort runIDs))))"

fun run_with_id :: "run_files \<Rightarrow> string \<Rightarrow> string \<Rightarrow> (string \<times> bool) list \<Rightarrow> string + string" where
  "run_with_id F outputDir runID [] = Inr (''run '' @ runID @ '' not found'')"
| "run_with_id F outputDir runID ((name, isDir) # entries) =
     (let runDir = JoinAll [outputDir, name, runID] in
      if isDir \<and> rfStat F runDir = IsDir then Inl runDir
      else run_with_id F outputDir runID entries)"

definition findRunByID :: "run_files \<Rightarrow> string \<Rightarrow> string \<Rightarrow> string + string" where
  "findRunByID F outputDir runID =
     (case rfReadDir F outputDir of
        Inr err \<Rightarrow> Inr err
      | Inl entries \<Rightarrow> run_with_id F outputDir runID entries)"

text \<open>The directory of a run and what its results file holds.\<close>

definition run_dir_for :: "run_files \<Rightarrow> string \<Rightarrow> string \<Rightarrow> string \<Rightarrow> string + string" where
  "run_dir_for F outputDir commit ref =
     (if rfStat F (Join outputDir commit) = IsDir then findLatestRunDir F (Join outputDir commit)
      else findRunByID F outputDir ref)"

definition ResolveRun ::
    "'w git \<Rightarrow> run_files \<Rightarrow> 'w \<Rightarrow> string \<Rightarrow> string \<Rightarrow> string \<Rightarrow> 'w \<times> (run_results \<times> string + string)" where
  "ResolveRun git F w outputDir repoRoot ref0 =
     (let ref = TrimSpace ref0 in
      if ref = [] then (w, Inr ''run ref is required'')
      else
        let (w1, commit) =
              (if repoRoot = [] then (w, ref)
               else case ResolveRef git w repoRoot ref of
                 (w1, Inl resolved) \<Rightarrow> (w1, resolved)
               | (w1, Inr _) \<Rightarrow> (w1, ref))
        in case run_dir_for F outputDir commit ref of
             Inr err \<Rightarrow> (w1, Inr err)
           | Inl runDir \<Rightarrow>
              (case LoadResults F (Join runDir ''results.json'') of
                 Inr err \<Rightarrow> (w1, Inr err)
               | Inl results \<Rightarrow> (w1, Inl (results, runDir))))"

text \<open>
  Facts on references and stored runs: ranges of two references are read back, the latest run is
  the one with the greatest name and so, by the form of run ids, of the latest second, and a run
  that was written is found under its commit.
\<close>

section \<open>Ranges\<close>

lemma ParseRange_refs:
  assumes "ParseRange spec = Inl r"
  shows "rgStart r \<noteq> [] \<and> rgEnd r \<noteq> [] \<and> TrimSpace (rgStart r) = rgStart r \<and> TrimSpace (rgEnd r) = rgEnd r"
proof -
  obtain a b where "split_first ''..'' (TrimSpace spec) = (a, b)" by fastforce
  then show ?thesis using assms by (auto simp: ParseRange_def Let_def split: if_splits)
qed

lemma count_sub_append:
  assumes "\<And>k. k < length a \<Longrightarrow> \<not> prefix sub (drop k (a @ b))" "sub \<noteq> []"
  shows "count_sub sub (a @ b) = count_sub sub b"
  using assms
proof (induction a)
  case (Cons x a)
  have "\<not> prefix sub (x # a @ b)" using Cons.prems(1)[of 0] by simp
  moreover have "count_sub sub (a @ b) = count_sub sub b"
    using Cons.prems(1)[of "Suc _"] Cons.prems(2) by (intro Cons.IH) auto
  ultimately show ?case using Cons.prems(2) by (subst count_sub.simps) simp
qed simp

lemma split_first_at:
  assumes "\<And>k. k < length a \<Longrightarrow> \<not> prefix sub (drop k (a @ sub @ b))" "sub \<noteq> []"
  shows "split_first sub (a @ sub @ b) = (a, Some b)"
  using assms
proof (induction a)
  case Nil
  then show ?case by (cases "sub") auto
next
  case (Cons x a)
  have "\<not> prefix sub (x # a @ sub @ b)" using Cons.prems(1)[of 0] by simp
  moreover have "split_first sub (a @ sub @ b) = (a, Some b)"
    using Cons.prems(1)[of "Suc _"] Cons.prems(2) by (intro Cons.IH) auto
  ultimately show ?case by simp
qed

text \<open>A reference: no two dots in a row, and not one at the side of the range operator.\<close>

definition plain_ref :: "string \<Rightarrow> bool" where
  "plain_ref a \<longleftrightarrow> a \<noteq> [] \<and> TrimSpace a = a \<and> hd a \<noteq> CHR ''.'' \<and> last a \<noteq> CHR ''.'' \<and> \<not> sublist ''..'' a"

lemma sublist_drop: "prefix u (drop k s) \<Longrightarrow> sublist u s"
  by (metis append_take_drop_id prefix_def sublist_appendI)

lemma dots_at:
  assumes "plain_ref a" "plain_ref b" "prefix ''..'' (drop k (a @ ''..'' @ b))"
  shows "k = length a"
proof (rule ccontr)
  assume ne: "k \<noteq> length a"
  obtain y bs where b: "b = y # bs" "y \<noteq> CHR ''.''" using assms(2) by (cases b) (auto simp: plain_ref_def)
  consider "k + 1 < length a" | "Suc k = length a" | "k = Suc (length a)" | "k \<ge> length a + 2" using ne by linarith
  then show False
  proof cases
    case 1
    then obtain u v us where "drop k a = u # v # us" by (metis Cons_nth_drop_Suc Suc_eq_plus1 Suc_lessD)
    then show ?thesis using assms 1 sublist_drop[of "''..''" k a] by (auto simp: plain_ref_def)
  next
    case 2
    then have "drop k a = [last a]" by (metis Suc_eq_plus1 append_butlast_last_id append_eq_conv_conj assms(1) diff_Suc_1 length_butlast plain_ref_def)
    then show ?thesis using assms 2 by (auto simp: plain_ref_def)
  next
    case 3
    then show ?thesis using assms(3) b by simp
  next
    case 4
    then have "drop k (a @ ''..'' @ b) = drop (k - length a - 2) b"
      by (simp add: numeral_2_eq_2 drop_Cons' )
    then show ?thesis using assms sublist_drop by (auto simp: plain_ref_def)
  qed
qed

lemma ParseRange_roundtrip:
  assumes "plain_ref a" "plain_ref b" "TrimSpace (a @ ''..'' @ b) = a @ ''..'' @ b"
  shows "ParseRange (a @ ''..'' @ b) = Inl \<lparr>rgStart = a, rgEnd = b\<rparr>"
proof -
  let ?s = "a @ ''..'' @ b"
  note at = dots_at[OF assms(1,2)]
  have before: "\<not> prefix ''..'' (drop k ?s)" if "k < length a" for k using at that by blast
  have "\<not> sublist ''...'' ?s"
  proof
    assume "sublist ''...'' ?s"
    then obtain u v where s: "?s = u @ ''...'' @ v" by (auto simp: sublist_def)
    have "prefix ''..'' (drop (length u) ?s)" "prefix ''..'' (drop (Suc (length u)) ?s)"
      unfolding s by simp_all
    then have "length u = length a" "Suc (length u) = length a" using at by blast+
    then show False by simp
  qed
  moreover have "count_sub ''..'' ?s = 1"
  proof -
    have "count_sub ''..'' ?s = count_sub ''..'' (''..'' @ b)"
      using before by (intro count_sub_append) simp_all
    also have "\<dots> = Suc (count_sub ''..'' b)" by (subst count_sub.simps) simp
    also have "count_sub ''..'' b = count_sub ''..'' (b @ [])" by simp
    also have "\<dots> = count_sub ''..'' []"
      using assms(2) sublist_drop by (intro count_sub_append) (auto simp: plain_ref_def)
    finally show ?thesis by (simp add: count_sub.simps)
  qed
  moreover have "split_first ''..'' ?s = (a, Some b)"
    using before by (intro split_first_at) simp_all
  ultimately show ?thesis using assms by (simp add: ParseRange_def Let_def plain_ref_def)
qed

section \<open>The latest run\<close>

lemma last_sort_max:
  assumes "xs \<noteq> []"
  shows "last (sort xs) \<in> set xs" "x \<in> set xs \<Longrightarrow> x \<le> last (sort (xs :: 'a::linorder list))"
proof -
  have ne: "sort xs \<noteq> []" using assms by (metis set_empty set_sort)
  then show "last (sort xs) \<in> set xs" using last_in_set by fastforce
  assume "x \<in> set xs"
  then obtain i where "i < length (sort xs)" "sort xs ! i = x" by (metis in_set_conv_nth set_sort)
  then show "x \<le> last (sort xs)"
    using sorted_nth_mono[OF sorted_sort, of i "length (sort xs) - 1" xs] ne by (simp add: last_conv_nth)
qed

lemma findLatestRunDir_max:
  assumes "findLatestRunDir F d = Inl p" "rfReadDir F d = Inl entries"
  shows "\<exists>n. p = Join d n \<and> (n, True) \<in> set entries \<and> (\<forall>m. (m, True) \<in> set entries \<longrightarrow> m \<le> n)"
proof -
  let ?ids = "map fst (filter snd entries)"
  have ids: "m \<in> set ?ids \<longleftrightarrow> (m, True) \<in> set entries" for m by force
  have "?ids \<noteq> []" "p = Join d (last (sort ?ids))"
    using assms by (auto simp: findLatestRunDir_def Let_def split: if_splits)
  then show ?thesis using last_sort_max[of ?ids] ids by blast
qed

lemma string_less_append:
  assumes "length a = length b" "a < (b :: string)"
  shows "a @ x < b @ y"
  using assms by (induction a b rule: list_induct2) auto

text \<open>
  A run id begins with its time.  With times of one width whose order is that of their text, the
  greatest name is a run of the latest time; between runs of one second the random digits decide.
\<close>

lemma latest_run_newest:
  assumes "findLatestRunDir F d = Inl p" "rfReadDir F d = Inl entries"
    "\<And>m. (m, True) \<in> set entries \<Longrightarrow> \<exists>tail. m = FormatRunID fmt (time m) tail"
    "\<And>t1 t2. t1 < t2 \<Longrightarrow> fmt t1 < fmt t2" "\<And>t1 t2. length (fmt t1) = length (fmt t2)"
  shows "\<exists>n. p = Join d n \<and> (n, True) \<in> set entries \<and> (\<forall>m. (m, True) \<in> set entries \<longrightarrow> time m \<le> time n)"
proof -
  obtain n where n: "p = Join d n" "(n, True) \<in> set entries" "\<And>m. (m, True) \<in> set entries \<Longrightarrow> m \<le> n"
    using findLatestRunDir_max[OF assms(1,2)] by blast
  have "time m \<le> time n" if "(m, True) \<in> set entries" for m
  proof (rule ccontr)
    assume "\<not> time m \<le> time n"
    then have "n < m"
      using assms(3)[OF n(2)] assms(3)[OF that] string_less_append[OF assms(5) assms(4), of "time n" "time m"]
      by (metis FormatRunID_def not_le)
    then show False using n(3)[OF that] by simp
  qed
  then show ?thesis using n by blast
qed

section \<open>A stored run is found\<close>

lemma RunDir_path_of:
  assumes "names xs" "is_name c" "is_name r"
  shows "RunDir \<lparr>opRoot = path_of xs, opCommit = c, opRunID = r\<rparr> = path_of (xs @ [c, r])"
    and "Join (Join (path_of xs) c) r = path_of (xs @ [c, r])"
proof -
  have ne: "path_of xs \<noteq> []" "c \<noteq> []" "r \<noteq> []" using assms by (auto simp: path_of_def unparts_def is_name_def)
  have "JoinAll [path_of xs, c, r] = Join (path_of xs) (join [slash] [c, r])"
    using ne by (simp add: JoinAll_def Join_def)
  then show "RunDir \<lparr>opRoot = path_of xs, opCommit = c, opRunID = r\<rparr> = path_of (xs @ [c, r])"
    using Join_path_of[of xs "[c, r]"] assms by (simp add: RunDir_def)
  show "Join (Join (path_of xs) c) r = path_of (xs @ [c, r])"
    using Join_name[of xs c] Join_name[of "xs @ [c]" r] assms by simp
qed

lemma stored_run_found:
  assumes "names xs" "is_name c" "is_name r" "TrimSpace c = c"
    and "rfStat F (Join (path_of xs) c) = IsDir"
    and "rfReadDir F (Join (path_of xs) c) = Inl entries"
    and "(r, True) \<in> set entries" "\<And>m. (m, True) \<in> set entries \<Longrightarrow> m \<le> r"
    and "rfReadFile F (ResultsPath \<lparr>opRoot = path_of xs, opCommit = c, opRunID = r\<rparr>) = Inl payload"
    and "rfDecode F payload = Inl results"
  shows "ResolveRun git F w (path_of xs) [] c = (w, Inl (results, RunDir \<lparr>opRoot = path_of xs, opCommit = c, opRunID = r\<rparr>))"
proof -
  let ?ids = "map fst (filter snd entries)"
  have ids: "m \<in> set ?ids \<longleftrightarrow> (m, True) \<in> set entries" for m by force
  then have ne: "?ids \<noteq> []" using assms(7) by (metis empty_iff list.set(1))
  then have "last (sort ?ids) = r"
    using last_sort_max[OF ne] ids assms(7,8) by (meson order.antisym)
  then have "findLatestRunDir F (Join (path_of xs) c) = Inl (path_of (xs @ [c, r]))"
    using assms(6) ne RunDir_path_of(2)[OF assms(1-3)] by (simp add: findLatestRunDir_def Let_def)
  moreover have "c \<noteq> []" using assms(2) by (simp add: is_name_def)
  ultimately show ?thesis
    using assms(4,5,9,10) RunDir_path_of(1)[OF assms(1-3)]
    by (simp add: ResolveRun_def run_dir_for_def LoadResults_def ResultsPath_def Let_def)
qed

text \<open>A reference of two dots leaves the output directory: the lookup then looks at its parent.\<close>

lemma dots_leave_output_dir:
  assumes "names xs" "is_name x"
  shows "Join (path_of (xs @ [x])) ''..'' = path_of xs"
proof -
  have app: "clean_parts True acc (ys @ zs) = clean_parts True (rev (clean_parts True acc ys)) zs" for acc ys zs
    by (induction True acc ys rule: clean_parts.induct) (auto split: list.splits)
  let ?q = "path_of (xs @ [x]) @ slash # ''..''"
  have q: "IsAbs ?q" "path_of (xs @ [x]) \<noteq> []" by (auto simp: path_of_def unparts_def IsAbs_def)
  have "parts ?q = clean_parts True (rev (parts (path_of (xs @ [x])))) [''..'']"
    using q(1) split_byte_none[of slash "''..''"] by (simp add: parts_def split_byte_append app slash_def)
  also have "\<dots> = xs" using assms is_name_def by auto
  finally show ?thesis using q by (simp add: Join_def Clean_abs)
qed

end
