(* ===== verification/Cli.thy ===== *)
theory Cli
  imports Cli_Flags Vcs_Report Runner_Run
begin

text \<open>
  The commands of \<open>cogni\<close> (\<open>internal/cli\<close>): dispatch and help, the prompts and \<open>.gitignore\<close> of
  \<open>init\<close>, and the handlers of \<open>init\<close>, \<open>validate\<close>, \<open>run\<close>, \<open>eval\<close>, \<open>compare\<close>, \<open>report\<close> and \<open>serve\<close>.

  A handler takes the arguments and the world and answers the world, what it wrote on the two
  streams and the exit code; \<open>None\<close> is a handler that does not return, which happens when the
  search for a configuration or a run does not.  What a run itself writes on standard output is not
  part of the text.  The working directory, the clock and the terminal test do not change during a
  command.  Formatting of floating point numbers and the usage text of the flag package are parameters.
\<close>

section \<open>Streams and exit codes\<close>

definition ExitOK :: go_int where "ExitOK = 0"
definition ExitError :: go_int where "ExitError = 1"
definition ExitUsage :: go_int where "ExitUsage = 2"

record console =
  coOut :: string
  coErr :: string

definition say :: "string \<Rightarrow> console \<Rightarrow> console" where
  "say s c = c\<lparr>coOut := coOut c @ s\<rparr>"

definition say_err :: "string \<Rightarrow> console \<Rightarrow> console" where
  "say_err s c = c\<lparr>coErr := coErr c @ s\<rparr>"

abbreviation nl :: string where "nl \<equiv> [CHR 0x0A]"

type_synonym 'w cli_result = "('w \<times> console \<times> go_int) option"
type_synonym 'w handler = "string list \<Rightarrow> 'w \<Rightarrow> console \<Rightarrow> 'w cli_result"

text \<open>A handler that stops with a line on standard error.\<close>

definition stop :: "go_int \<Rightarrow> string \<Rightarrow> 'w \<Rightarrow> console \<Rightarrow> 'w cli_result" where
  "stop code msg w c = Some (w, say_err (msg @ nl) c, code)"

section \<open>Dispatch\<close>

record 'w command =
  cmName :: string
  cmSummary :: string
  cmUsage :: "string list"
  cmRun :: "'w handler"

definition isHelpArg :: "string \<Rightarrow> bool" where
  "isHelpArg arg \<longleftrightarrow> arg \<in> {''-h'', ''--help'', ''help''}"

definition wantsHelp :: "string list \<Rightarrow> bool" where
  "wantsHelp args \<longleftrightarrow> (\<exists>arg \<in> set args. arg \<in> {''-h'', ''--help''})"

definition findCommand :: "'w command list \<Rightarrow> string \<Rightarrow> 'w command option" where
  "findCommand cmds name = find (\<lambda>cmd. cmName cmd = name) cmds"

text \<open>The format \<open>%-8s\<close>.\<close>

definition pad8 :: "string \<Rightarrow> string" where
  "pad8 s = s @ replicate (8 - length s) (CHR '' '')"

definition usage_text :: "'w command list \<Rightarrow> string" where
  "usage_text cmds =
     ''Usage:'' @ nl @ ''  cogni <command> [options]'' @ nl @ nl @ ''Commands:'' @ nl @
     concat (map (\<lambda>cmd. ''  '' @ pad8 (cmName cmd) @ '' '' @ cmSummary cmd @ nl) cmds) @ nl @
     ''Use '' @ [CHR 0x22] @ ''cogni <command> --help'' @ [CHR 0x22] @ '' for more information.'' @ nl"

definition command_usage :: "string \<Rightarrow> string list \<Rightarrow> string" where
  "command_usage summary usage =
     ''Usage:'' @ nl @ concat (map (\<lambda>line. ''  '' @ line @ nl) usage) @
     (if summary \<noteq> [] then nl @ summary @ nl else [])"

definition runNotImplemented :: "string \<Rightarrow> string \<Rightarrow> 'w handler" where
  "runNotImplemented name usage args w c =
     (if wantsHelp args then Some (w, say usage c, ExitOK)
      else stop ExitError (''cogni '' @ name @ '' is not implemented yet'') w c)"

text \<open>\<open>runner\<close> gets the name of the command and its usage text.\<close>

definition command ::
    "string \<Rightarrow> string \<Rightarrow> string list \<Rightarrow> (string \<Rightarrow> string \<Rightarrow> 'w handler) option \<Rightarrow> 'w command" where
  "command name summary usage runner =
     \<lparr>cmName = name, cmSummary = summary, cmUsage = usage,
      cmRun = (case runner of
                 None \<Rightarrow> runNotImplemented name (command_usage summary usage)
               | Some r \<Rightarrow> r name (command_usage summary usage))\<rparr>"

definition RunCli :: "'w command list \<Rightarrow> string list \<Rightarrow> 'w \<Rightarrow> console \<Rightarrow> 'w cli_result" where
  "RunCli cmds args w c =
     (case args of
        [] \<Rightarrow> Some (w, say (usage_text cmds) c, ExitUsage)
      | arg # rest \<Rightarrow>
          if isHelpArg arg then Some (w, say (usage_text cmds) c, ExitOK)
          else case findCommand cmds arg of
            None \<Rightarrow> Some (w, say_err (''Unknown command: '' @ arg @ nl @ nl @ usage_text cmds) c, ExitUsage)
          | Some cmd \<Rightarrow> cmRun cmd rest w c)"

section \<open>Prompts\<close>

text \<open>What is left of the input, and the error a read ends with; \<open>None\<close> is the end of the file.\<close>

record reader =
  rdText :: string
  rdFailure :: go_error

datatype read_end = LineEnd | AtEOF | ReadError string

definition trim_line :: "string \<Rightarrow> string" where
  "trim_line s = rev (dropWhile (\<lambda>c. c = CHR 0x0D \<or> c = CHR 0x0A) (rev s))"

definition readLine :: "reader \<Rightarrow> reader \<times> string \<times> read_end" where
  "readLine r =
     (let line = takeWhile (\<lambda>c. c \<noteq> CHR 0x0A) (rdText r); rest = drop (Suc (length line)) (rdText r) in
      if CHR 0x0A \<in> set (rdText r) then (r\<lparr>rdText := rest\<rparr>, trim_line line, LineEnd)
      else case rdFailure r of
        None \<Rightarrow> (r\<lparr>rdText := []\<rparr>, trim_line line, AtEOF)
      | Some err \<Rightarrow> (r\<lparr>rdText := []\<rparr>, [], ReadError err))"

lemma readLine_shorter: "readLine r = (r', line, LineEnd) \<Longrightarrow> length (rdText r') < length (rdText r)"
  by (cases "rdText r") (auto simp: readLine_def Let_def split: if_splits option.splits)

lemma readLine_step:
  "(r', y) = readLine r \<Longrightarrow> (line, e) = y \<Longrightarrow> e = LineEnd \<Longrightarrow> length (rdText r') < length (rdText r)"
  using readLine_shorter[of r r' line] by simp

function promptString :: "reader \<Rightarrow> console \<Rightarrow> string \<Rightarrow> string \<Rightarrow> reader \<times> console \<times> (string + string)" where
  "promptString r c label dflt =
     (let c1 = say (if dflt \<noteq> [] then label @ '' ['' @ dflt @ '']: '' else label @ '': '') c in
      case readLine r of (r1, line0, e) \<Rightarrow>
        (case e of
           ReadError err \<Rightarrow> (r1, c1, Inr err)
         | _ \<Rightarrow>
             let line = TrimSpace line0 in
             if line = [] \<and> dflt \<noteq> [] then (r1, c1, Inl dflt)
             else if line \<noteq> [] then (r1, c1, Inl line)
             else if e = AtEOF then (r1, c1, Inr (''missing input for '' @ label))
             else promptString r1 c1 label dflt))"
  by pat_completeness auto
termination
  by (relation "measure (\<lambda>(r, _). length (rdText r))") (rule wf_measure, simp (no_asm) only: in_measure prod.case, erule (2) readLine_step, blast)

declare promptString.simps [simp del]

function promptYesNo :: "(string \<Rightarrow> string) \<Rightarrow> reader \<Rightarrow> console \<Rightarrow> string \<Rightarrow> bool \<Rightarrow> reader \<times> console \<times> (bool + string)" where
  "promptYesNo lower r c label defaultYes =
     (let c1 = say (label @ '' ['' @ (if defaultYes then ''Y/n'' else ''y/N'') @ '']: '') c in
      case readLine r of (r1, line0, e) \<Rightarrow>
        (case e of
           ReadError err \<Rightarrow> (r1, c1, Inr err)
         | _ \<Rightarrow>
             let line = TrimSpace (lower line0) in
             if line = [] then (r1, c1, Inl defaultYes)
             else if line \<in> {''y'', ''yes''} then (r1, c1, Inl True)
             else if line \<in> {''n'', ''no''} then (r1, c1, Inl False)
             else if e = AtEOF then (r1, c1, Inr (''invalid response '' @ quote line))
             else promptYesNo lower r1 (say (''Please answer yes or no.'' @ nl) c1) label defaultYes))"
  by pat_completeness auto
termination
  by (relation "measure (\<lambda>(_, r, _). length (rdText r))") (rule wf_measure, simp (no_asm) only: in_measure prod.case, erule (2) readLine_step, blast)

declare promptYesNo.simps [simp del]

section \<open>.gitignore\<close>

definition normalizeGitignorePath :: "string \<Rightarrow> string \<Rightarrow> string + string" where
  "normalizeGitignorePath repoRoot outputDir =
     (if TrimSpace outputDir = [] then Inr ''output dir is required''
      else
        let outside = Inr (''output dir '' @ quote outputDir @ '' is outside the repo root'');
            clean = Clean outputDir;
            finish = (\<lambda>p. let q = TrimPrefix p ''./'' in
                          if q = ''.'' \<or> q = [] \<or> prefix ''..'' q then outside else Inl q)
        in if IsAbs clean then
             (case Rel repoRoot clean of
                Inr err \<Rightarrow> Inr (''resolve output dir: '' @ err)
              | Inl rel \<Rightarrow> if prefix ''..'' rel then outside else finish rel)
           else finish clean)"

text \<open>A read: the content, or whether the file is not there, and the error.\<close>

definition gitignore_text :: "string \<Rightarrow> string \<Rightarrow> string option" where
  "gitignore_text existing entry =
     (if \<exists>line \<in> set (split_byte (CHR 0x0A) existing). TrimSpace line = entry then None
      else Some ((if existing \<noteq> [] \<and> last existing \<noteq> CHR 0x0A then existing @ nl else existing) @ entry @ nl))"

definition addGitignoreEntry ::
    "('w \<Rightarrow> string \<Rightarrow> string + bool \<times> string) \<Rightarrow> ('w \<Rightarrow> string \<Rightarrow> string \<Rightarrow> 'w \<times> go_error) \<Rightarrow>
     'w \<Rightarrow> string \<Rightarrow> string \<Rightarrow> 'w \<times> (bool + string)" where
  "addGitignoreEntry readFile writeFile w repoRoot outputDir =
     (case normalizeGitignorePath repoRoot outputDir of
        Inr err \<Rightarrow> (w, Inr err)
      | Inl entry \<Rightarrow>
          if entry = [] then (w, Inr ''gitignore entry is empty'')
          else
            let path = Join repoRoot ''.gitignore'' in
            (case (case readFile w path of Inl data \<Rightarrow> Inl data
                   | Inr (missing, err) \<Rightarrow> if missing then Inl [] else Inr (''read .gitignore: '' @ err)) of
               Inr err \<Rightarrow> (w, Inr err)
             | Inl existing \<Rightarrow>
                 (case gitignore_text existing entry of
                    None \<Rightarrow> (w, Inl False)
                  | Some updated \<Rightarrow>
                      (case writeFile w path updated of
                         (w1, Some err) \<Rightarrow> (w1, Inr (''write .gitignore: '' @ err))
                       | (w1, None) \<Rightarrow> (w1, Inl True)))))"

section \<open>The mode of the view\<close>

record ui_decision =
  uiLive :: bool
  uiWarning :: string

definition resolveUIMode :: "(string \<Rightarrow> string) \<Rightarrow> bool \<Rightarrow> string \<Rightarrow> bool \<Rightarrow> ui_decision + string" where
  "resolveUIMode lower isTerminal mode verbose =
     (if verbose then Inl \<lparr>uiLive = False, uiWarning = []\<rparr>
      else
        let n = lower (TrimSpace mode); normalized = (if n = [] then ''auto'' else n) in
        if normalized = ''auto'' then Inl \<lparr>uiLive = isTerminal, uiWarning = []\<rparr>
        else if normalized = ''live'' then
          Inl (if isTerminal then \<lparr>uiLive = True, uiWarning = []\<rparr>
               else \<lparr>uiLive = False, uiWarning = ''Live UI requested but stdout is not a TTY; falling back to plain output.''\<rparr>)
        else if normalized = ''plain'' then Inl \<lparr>uiLive = False, uiWarning = []\<rparr>
        else Inr (''invalid ui mode '' @ quote mode @ '' (expected auto|live|plain)''))"

end
