(* ===== verification/Cli_Commands.thy ===== *)
theory Cli_Commands
  imports Cli
begin

text \<open>
  The handlers of the commands (\<open>internal/cli\<close>: \<open>init.go\<close>, \<open>validate.go\<close>, \<open>run.go\<close>, \<open>eval.go\<close>,
  \<open>compare.go\<close>, \<open>report.go\<close>, \<open>serve.go\<close>, \<open>config_path.go\<close>).  The record holds what they call:
  the file system, the YAML decoder, the log file, the live view, git, the stored runs, the run
  itself and the report server.
\<close>

record serve_config =
  svAddr :: string
  svDBPath :: string
  svAssetsBaseURL :: string

record 'w cli_env =
  ceLower :: "string \<Rightarrow> string"
  ceGetwd :: "string + string"
  ceFs :: "'w fs_ops"
  ceRead :: "'w \<Rightarrow> string \<Rightarrow> string + bool \<times> string"
  ceFirst :: "string \<Rightarrow> cogni_config + string"
  ceNext :: "string \<Rightarrow> string option option"
  ceScaffold :: "string \<Rightarrow> string + string"
  ceOpenLog :: "'w \<Rightarrow> string \<Rightarrow> 'w \<times> go_error"
  ceIsTerminal :: bool
  ceStartUI :: "bool \<Rightarrow> 'w \<Rightarrow> 'w \<times> 'w run_observer"
  ceStopUI :: "'w \<Rightarrow> 'w"
  ceRunAndWrite :: "cogni_config \<Rightarrow> 'w run_params \<Rightarrow> 'w \<Rightarrow> ('w \<times> run_results option \<times> (output_paths + string)) option"
  ceGit :: "'w git"
  ceRunFiles :: "'w \<Rightarrow> run_files"
  ceReportHTML :: "run_results list \<Rightarrow> string"
  ceServe :: "serve_config \<Rightarrow> 'w \<Rightarrow> 'w \<times> go_error"
  ceInput :: reader
  ceFixed :: "bool \<Rightarrow> nat \<Rightarrow> rat \<Rightarrow> string"
  ceFlagUsage :: "string \<Rightarrow> string"

section \<open>Shared steps\<close>

definition stat_of :: "'w cli_env \<Rightarrow> 'w \<Rightarrow> string \<Rightarrow> file_stat" where
  "stat_of E w = fsStat (ceFs E) w"

definition resolveSpecPath :: "'w cli_env \<Rightarrow> 'w \<Rightarrow> string \<Rightarrow> (string + string) option" where
  "resolveSpecPath E w specPath =
     (if TrimSpace specPath = [] then FindConfigPath (stat_of E w) (ceGetwd E) []
      else Some (case Abs (ceGetwd E) specPath of
             Inl p \<Rightarrow> Inl p
           | Inr err \<Rightarrow> Inr (''resolve spec path: '' @ err)))"

definition load_config :: "'w cli_env \<Rightarrow> 'w \<Rightarrow> string \<Rightarrow> cogni_config + string" where
  "load_config E w path =
     Load (ceLower E)
       (\<lambda>p. case stat_of E w p of IsFile \<Rightarrow> Some False | IsDir \<Rightarrow> Some True | _ \<Rightarrow> None)
       (ceFirst E) (ceNext E)
       (\<lambda>p. case ceRead E w p of Inl s \<Rightarrow> Inl s | Inr (_, err) \<Rightarrow> Inr err)
       RepoRootFromConfigPath path"

text \<open>A failed parse of flags: the message and the usage text on standard error.\<close>

definition flag_failure :: "'w cli_env \<Rightarrow> string \<Rightarrow> parse_error \<Rightarrow> console \<Rightarrow> console" where
  "flag_failure E name e c =
     say_err ((case e of ErrHelp \<Rightarrow> [] | ParseFailed msg \<Rightarrow> msg @ nl) @ ceFlagUsage E name) c"

text \<open>The log file, opened when a path is given.\<close>

definition open_log :: "'w cli_env \<Rightarrow> string \<Rightarrow> 'w \<Rightarrow> 'w \<times> go_error" where
  "open_log E logPath w =
     (if TrimSpace logPath = [] then (w, None)
      else
        let dir = Dir logPath in
        case (if dir \<noteq> ''.'' then fsMkdirAll (ceFs E) w dir else (w, None)) of
          (w1, Some err) \<Rightarrow> (w1, Some (''Failed to create log directory: '' @ err))
        | (w1, None) \<Rightarrow>
            (case ceOpenLog E w1 logPath of
               (w2, Some err) \<Rightarrow> (w2, Some (''Failed to open log file: '' @ err))
             | (w2, None) \<Rightarrow> (w2, None)))"

definition task_line :: "'w cli_env \<Rightarrow> task_result \<Rightarrow> string" where
  "task_line E t =
     (case taQuestionEval t of
        None \<Rightarrow> []
      | Some e \<Rightarrow>
          let s = qeSummary e in
          ''Question task '' @ taTaskID t @ '' accuracy: '' @ show_int (qsQuestionsCorrect s) @ ''/'' @
          show_int (qsQuestionsTotal s) @ '' ('' @ ceFixed E False 1 (qsAccuracy s * 100) @ ''%)'' @ nl)"

definition run_report :: "'w cli_env \<Rightarrow> run_results \<Rightarrow> output_paths \<Rightarrow> string" where
  "run_report E results paths =
     ''Run '' @ rrRunID results @ '' completed'' @ nl @ concat (map (task_line E) (rrTasks results)) @
     ''Results: '' @ ResultsPath paths @ nl @ ''Report: '' @ ReportPath paths @ nl"

text \<open>From the log file on, \<open>run\<close> and \<open>eval\<close> are the same code; \<open>what\<close> begins the message of a failure.\<close>

definition run_and_report ::
    "'w cli_env \<Rightarrow> string \<Rightarrow> flag_values \<Rightarrow> cogni_config \<Rightarrow> (string \<times> string \<times> task_selector list) \<Rightarrow> 'w \<Rightarrow> console \<Rightarrow> 'w cli_result" where
  "run_and_report E what vals cfg args w c =
     (case args of (repoRoot, override, selectors) \<Rightarrow>
      (case open_log E (flag_string vals ''log'') w of
         (w1, Some err) \<Rightarrow> stop ExitError err w1 c
       | (w1, None) \<Rightarrow>
          (case resolveUIMode (ceLower E) (ceIsTerminal E) (flag_string vals ''ui'') (flag_bool vals ''verbose'') of
             Inr err \<Rightarrow> stop ExitUsage (''Invalid ui mode: '' @ err) w1 c
           | Inl decision \<Rightarrow>
              let c1 = (if uiWarning decision \<noteq> [] then say_err (uiWarning decision @ nl) c else c);
                  (w2, observer) = (if uiLive decision
                                    then (let (w2, ob) = ceStartUI E (flag_bool vals ''no-color'') w1 in (w2, Some ob))
                                    else (w1, None));
                  params = \<lparr>rpRepoRoot = repoRoot, rpOutputDir = flag_string vals ''output-dir'',
                            rpAgentOverride = override, rpSelectors = selectors,
                            rpVerbose = flag_bool vals ''verbose'', rpObserver = observer\<rparr>;
                  halt = (if uiLive decision then ceStopUI E else id)
              in case ceRunAndWrite E cfg params w2 of
                   None \<Rightarrow> None
                 | Some (w3, results, Inr err) \<Rightarrow> stop ExitError (what @ '' failed: '' @ err) (halt w3) c1
                 | Some (w3, results, Inl paths) \<Rightarrow>
                     Some (halt w3, say (case results of None \<Rightarrow> [] | Some r \<Rightarrow> run_report E r paths) c1, ExitOK))))"

section \<open>run\<close>

definition runFlagDefs :: flag_defs where
  "runFlagDefs = [(''spec'', StrV []), (''agent'', StrV []), (''output-dir'', StrV []), (''verbose'', BoolV False),
                  (''log'', StrV []), (''no-color'', BoolV False), (''ui'', StrV ''auto'')]"

definition runRun :: "'w cli_env \<Rightarrow> string \<Rightarrow> string \<Rightarrow> 'w handler" where
  "runRun E name usage args w c =
     (if wantsHelp args then Some (w, say usage c, ExitOK)
      else case parse_flags runFlagDefs args of
        Inr e \<Rightarrow> Some (w, flag_failure E name e c, ExitUsage)
      | Inl (vals, rest) \<Rightarrow>
         (case resolveSpecPath E w (flag_string vals ''spec'') of
            None \<Rightarrow> None
          | Some (Inr err) \<Rightarrow> stop ExitError (''Failed to locate config: '' @ err) w c
          | Some (Inl spec) \<Rightarrow>
             (case load_config E w spec of
                Inr err \<Rightarrow> stop ExitError (''Failed to load config: '' @ err) w c
              | Inl cfg \<Rightarrow>
                 (case ParseSelectors rest of
                    Inr err \<Rightarrow> stop ExitUsage (''Invalid selectors: '' @ err) w c
                  | Inl selectors \<Rightarrow>
                      run_and_report E ''Run'' vals cfg
                        (RepoRootFromConfigPath spec, flag_string vals ''agent'', selectors) w c))))"

section \<open>eval\<close>

definition eval_usage :: string where "eval_usage = ''Usage: cogni eval <questions_file> --agent <id>''"

text \<open>The configuration of an evaluation: one task, and of the rest what is copied.\<close>

definition no_limiter :: rate_limiter_config where
  "no_limiter = \<lparr>rcMode = [], rcBaseURL = [], rcLimits = None, rcLimitsPath = [], rcWorkers = 0,
     rcRequestTimeoutMs = 0, rcMaxOutputTokens = 0, rcBatchSize = 0, rcBatchFlushMs = 0\<rparr>"

definition eval_task :: "string \<Rightarrow> string \<Rightarrow> task_config" where
  "eval_task agent questions =
     \<lparr>tkID = ''question-eval'', tkType = ''question_eval'', tkAgent = agent, tkModel = [], tkQuestionsFile = questions,
      tkBudget = \<lparr>tbMaxTokens = 0, tbMaxSeconds = 0, tbMaxSteps = 0\<rparr>,
      tkCompaction = \<lparr>tpMaxTokens = 0, tpSummaryPrompt = [], tpSummaryPromptFile = [], tpRecentUserTokenBudget = 0,
                      tpRecentToolOutputLimit = 0\<rparr>, tkConcurrency = 0\<rparr>"

definition evalConfig :: "cogni_config \<Rightarrow> string \<Rightarrow> string \<Rightarrow> cogni_config" where
  "evalConfig cfg agent questions =
     Normalize \<lparr>cfVersion = cfVersion cfg, cfOutputDir = cfOutputDir cfg, cfSetupCommands = cfSetupCommands cfg,
                cfAgents = cfAgents cfg, cfDefaultAgent = cfDefaultAgent cfg, cfRateLimiter = no_limiter,
                cfTasks = [eval_task agent questions]\<rparr>"

definition eval_agent :: "flag_values \<Rightarrow> cogni_config \<Rightarrow> string" where
  "eval_agent vals cfg =
     (if TrimSpace (flag_string vals ''agent'') = [] then TrimSpace (cfDefaultAgent cfg)
      else TrimSpace (flag_string vals ''agent''))"

definition eval_with :: "'w cli_env \<Rightarrow> flag_values \<Rightarrow> string \<Rightarrow> string \<Rightarrow> cogni_config \<Rightarrow> 'w \<Rightarrow> console \<Rightarrow> 'w cli_result" where
  "eval_with E vals file spec cfg w c =
     (let agent = eval_agent vals cfg in
      if agent = [] then stop ExitUsage ''Missing --agent (no default_agent configured)'' w c
      else case Abs (ceGetwd E) file of
        Inr err \<Rightarrow> stop ExitError (''Failed to resolve questions file: '' @ err) w c
      | Inl questions \<Rightarrow>
          let cfg1 = evalConfig cfg agent questions; repoRoot = RepoRootFromConfigPath spec;
              issues = Validate (ceLower E)
                (\<lambda>p. case stat_of E w p of IsFile \<Rightarrow> Some False | IsDir \<Rightarrow> Some True | _ \<Rightarrow> None) cfg1 repoRoot
          in if issues \<noteq> [] then stop ExitError (''Invalid eval config: '' @ config_error issues) w c
             else run_and_report E ''Eval'' vals cfg1 (repoRoot, [], []) w c)"

definition runEval :: "'w cli_env \<Rightarrow> string \<Rightarrow> string \<Rightarrow> 'w handler" where
  "runEval E name usage args w c =
     (if wantsHelp args then Some (w, say usage c, ExitOK)
      else case normalizeEvalArgs args of
        Inr err \<Rightarrow> stop ExitUsage (''Invalid eval arguments: '' @ err @ nl @ eval_usage) w c
      | Inl normalized \<Rightarrow>
         (case parse_flags runFlagDefs normalized of
            Inr e \<Rightarrow> Some (w, flag_failure E name e c, ExitUsage)
          | Inl (vals, rest) \<Rightarrow>
              if length rest \<noteq> 1 then stop ExitUsage eval_usage w c
              else case resolveSpecPath E w (flag_string vals ''spec'') of
                None \<Rightarrow> None
              | Some (Inr err) \<Rightarrow> stop ExitError (''Failed to locate config: '' @ err) w c
              | Some (Inl spec) \<Rightarrow>
                 (case load_config E w spec of
                    Inr err \<Rightarrow> stop ExitError (''Failed to load config: '' @ err) w c
                  | Inl cfg \<Rightarrow> eval_with E vals (hd rest) spec cfg w c)))"

section \<open>validate\<close>

definition specFlagDefs :: flag_defs where "specFlagDefs = [(''spec'', StrV [])]"

text \<open>The arguments of \<open>init\<close> and \<open>validate\<close>: the result of an unusable call, or the values.\<close>

definition spec_only ::
    "'w cli_env \<Rightarrow> string \<Rightarrow> string \<Rightarrow> string list \<Rightarrow> 'w \<Rightarrow> console \<Rightarrow> 'w cli_result + flag_values" where
  "spec_only E name usage args w c =
     (case parse_flags specFlagDefs args of
        Inr ErrHelp \<Rightarrow> Inl (Some (w, say usage (flag_failure E name ErrHelp c), ExitOK))
      | Inr (ParseFailed msg) \<Rightarrow>
          Inl (Some (w, say_err (''invalid arguments: '' @ msg @ nl @ usage) (flag_failure E name (ParseFailed msg) c), ExitUsage))
      | Inl (vals, rest) \<Rightarrow>
          if rest \<noteq> []
          then Inl (Some (w, say_err (''unexpected arguments: '' @ join '' '' rest @ nl @ usage) c, ExitUsage))
          else Inr vals)"

definition runValidate :: "'w cli_env \<Rightarrow> string \<Rightarrow> string \<Rightarrow> 'w handler" where
  "runValidate E name usage args w c =
     (if wantsHelp args then Some (w, say usage c, ExitOK)
      else case spec_only E name usage args w c of
        Inl r \<Rightarrow> r
      | Inr vals \<Rightarrow>
         (case resolveSpecPath E w (flag_string vals ''spec'') of
            None \<Rightarrow> None
          | Some (Inr err) \<Rightarrow> stop ExitError (''Validation failed:'' @ nl @ err) w c
          | Some (Inl spec) \<Rightarrow>
             (case load_config E w spec of
                Inr err \<Rightarrow> stop ExitError (''Validation failed:'' @ nl @ err) w c
              | Inl _ \<Rightarrow> Some (w, say (''Config OK'' @ nl) c, ExitOK))))"

section \<open>init\<close>

definition discoverGitRoot :: "'w cli_env \<Rightarrow> 'w \<Rightarrow> string \<Rightarrow> 'w \<times> string" where
  "discoverGitRoot E w startDir =
     (case DiscoverRepoRoot (ceGit E) (ceGetwd E) w startDir of (w1, Inl r) \<Rightarrow> (w1, r) | (w1, Inr _) \<Rightarrow> (w1, []))"

text \<open>The specification file, its directory and the root of the repository, empty without one.\<close>

definition init_target :: "'w cli_env \<Rightarrow> string \<Rightarrow> 'w \<Rightarrow> 'w \<times> (string \<times> string \<times> string + string)" where
  "init_target E specPath w =
     (if specPath = [] then
        (case discoverGitRoot E w [] of (w1, repoRoot) \<Rightarrow>
           (case (if repoRoot = [] then ceGetwd E else Inl repoRoot) of
              Inr err \<Rightarrow> (w1, Inr err)
            | Inl base \<Rightarrow>
                let configDir = Join base ConfigDirName in (w1, Inl (Join configDir ConfigFileName, configDir, repoRoot))))
      else case Abs (ceGetwd E) specPath of
        Inr err \<Rightarrow> (w, Inr err)
      | Inl targ \<Rightarrow>
         (case discoverGitRoot E w (RepoRootFromConfigPath targ) of (w1, repoRoot) \<Rightarrow>
            (w1, Inl (targ, Dir targ, repoRoot))))"

definition init_obstacle :: "(string \<Rightarrow> file_stat) \<Rightarrow> string \<Rightarrow> string \<Rightarrow> go_error" where
  "init_obstacle stat targ configDir =
     (if stat configDir = IsFile then Some (''config directory '' @ quote configDir @ '' is not a directory'')
      else case stat targ of
        IsDir \<Rightarrow> Some (''spec path '' @ quote targ @ '' is a directory'')
      | IsFile \<Rightarrow> Some (''spec file already exists at '' @ quote targ)
      | StatError err \<Rightarrow> Some (''stat spec file: '' @ err)
      | Missing \<Rightarrow> None)"

definition init_write :: "'w cli_env \<Rightarrow> string \<Rightarrow> string \<Rightarrow> string \<Rightarrow> bool \<Rightarrow> 'w \<Rightarrow> console \<Rightarrow> 'w cli_result" where
  "init_write E targ repoRoot outputDir addIgnore w c =
     (case Scaffold (ceFs E) (ceScaffold E) targ outputDir w of
        (w1, Some err) \<Rightarrow> stop ExitError (''Init failed: '' @ err) w1 c
      | (w1, None) \<Rightarrow>
          let c1 = say (''Wrote '' @ targ @ nl @ ''Wrote '' @
                        JoinAll [Dir targ, ''schemas'', ''auth_flow_summary.schema.json''] @ nl) c in
          if \<not> addIgnore then Some (w1, c1, ExitOK)
          else case addGitignoreEntry (ceRead E) (fsWriteFile (ceFs E)) w1 repoRoot outputDir of
            (w2, Inr err) \<Rightarrow> stop ExitError (''Init failed: update .gitignore: '' @ err) w2 c1
          | (w2, Inl updated) \<Rightarrow>
              Some (w2, if updated then say (''Updated '' @ Join repoRoot ''.gitignore'' @ nl) c1 else c1, ExitOK))"

definition init_ask :: "'w cli_env \<Rightarrow> string \<times> string \<times> string \<Rightarrow> 'w \<Rightarrow> console \<Rightarrow> 'w cli_result" where
  "init_ask E targets w c =
     (case targets of (targ, configDir, repoRoot) \<Rightarrow>
      (case promptYesNo (ceLower E) (ceInput E) c (''Initialize Cogni config in '' @ configDir @ ''?'') True of
         (r1, c1, Inr err) \<Rightarrow> stop ExitError (''Init failed: '' @ err) w c1
       | (r1, c1, Inl False) \<Rightarrow> stop ExitError ''Init cancelled.'' w c1
       | (r1, c1, Inl True) \<Rightarrow>
          (case promptString r1 c1 ''Results folder'' DefaultOutputDir of
             (r2, c2, Inr err) \<Rightarrow> stop ExitError (''Init failed: '' @ err) w c2
           | (r2, c2, Inl outputDir) \<Rightarrow>
               if repoRoot = [] then init_write E targ repoRoot outputDir False w c2
               else case promptYesNo (ceLower E) r2 c2 ''Add results folder to .gitignore?'' True of
                 (r3, c3, Inr err) \<Rightarrow> stop ExitError (''Init failed: '' @ err) w c3
               | (r3, c3, Inl answer) \<Rightarrow> init_write E targ repoRoot outputDir answer w c3)))"

definition runInit :: "'w cli_env \<Rightarrow> string \<Rightarrow> string \<Rightarrow> 'w handler" where
  "runInit E name usage args w c =
     (if wantsHelp args then Some (w, say usage c, ExitOK)
      else case spec_only E name usage args w c of
        Inl r \<Rightarrow> r
      | Inr vals \<Rightarrow>
         (case init_target E (TrimSpace (flag_string vals ''spec'')) w of
            (w1, Inr err) \<Rightarrow> stop ExitError (''Init failed: '' @ err) w1 c
          | (w1, Inl (targ, configDir, repoRoot)) \<Rightarrow>
             (case init_obstacle (stat_of E w1) targ configDir of
                Some err \<Rightarrow> stop ExitError (''Init failed: '' @ err) w1 c
              | None \<Rightarrow> init_ask E (targ, configDir, repoRoot) w1 c)))"

section \<open>compare\<close>

text \<open>The directory of the runs and the root of the repository, empty when the directory was given.\<close>

definition resolveInputDir :: "'w cli_env \<Rightarrow> 'w \<Rightarrow> string \<Rightarrow> string \<Rightarrow> (string \<times> string + string) option" where
  "resolveInputDir E w inputDir specPath =
     (if inputDir \<noteq> [] then
        Some (case Abs (ceGetwd E) inputDir of Inr err \<Rightarrow> Inr err | Inl p \<Rightarrow> Inl (p, []))
      else case resolveSpecPath E w specPath of
        None \<Rightarrow> None
      | Some (Inr err) \<Rightarrow> Some (Inr err)
      | Some (Inl spec) \<Rightarrow>
         (case load_config E w spec of
            Inr err \<Rightarrow> Some (Inr err)
          | Inl cfg \<Rightarrow>
              let repoRoot = RepoRootFromConfigPath spec in
              if cfOutputDir cfg = [] then Some (Inr ''repo.output_dir is required'')
              else Some (Inl (if IsAbs (cfOutputDir cfg) then cfOutputDir cfg else Join repoRoot (cfOutputDir cfg),
                              repoRoot))))"

definition compareFlagDefs :: flag_defs where
  "compareFlagDefs = [(''input'', StrV []), (''spec'', StrV []), (''base'', StrV []), (''head'', StrV []), (''range'', StrV [])]"

text \<open>The references to compare: of the range when there is one, which replaces both.\<close>

definition compare_refs ::
    "'w cli_env \<Rightarrow> flag_values \<Rightarrow> string \<Rightarrow> 'w \<Rightarrow> 'w \<times> (string \<times> string + go_int \<times> string)" where
  "compare_refs E vals repoRoot w =
     (if flag_string vals ''range'' = [] then (w, Inl (flag_string vals ''base'', flag_string vals ''head''))
      else case ParseRange (flag_string vals ''range'') of
        Inr err \<Rightarrow> (w, Inr (ExitUsage, ''Invalid range: '' @ err))
      | Inl spec \<Rightarrow>
         (case ResolveRange (ceGit E) w repoRoot spec of
            (w1, Inr err) \<Rightarrow> (w1, Inr (ExitError, ''Range resolution failed: '' @ err))
          | (w1, Inl r) \<Rightarrow> (w1, Inl (rtStart r, rtEnd r))))"

definition summary_line :: "'w cli_env \<Rightarrow> string \<Rightarrow> run_results \<Rightarrow> string" where
  "summary_line E what r =
     what @ '' '' @ rmCommit (rrRepo r) @ '' pass rate '' @ ceFixed E False 2 (rsPassRate (rrSummary r) * 100) @
     ''% tokens '' @ show_int (rsTokensTotal (rrSummary r)) @ nl"

definition compare_text :: "'w cli_env \<Rightarrow> run_results \<Rightarrow> run_results \<Rightarrow> string" where
  "compare_text E base head =
     (let passDelta = rsPassRate (rrSummary head) - rsPassRate (rrSummary base);
          tokenDelta = rsTokensTotal (rrSummary head) - rsTokensTotal (rrSummary base)
      in summary_line E ''Base'' base @ summary_line E ''Head'' head @
         ''Delta pass rate '' @ ceFixed E True 2 (passDelta * 100) @ ''% tokens '' @
         (if tokenDelta \<ge> 0 then ''+'' else []) @ show_int tokenDelta @ nl)"

definition compare_with :: "'w cli_env \<Rightarrow> string \<Rightarrow> string \<Rightarrow> string \<Rightarrow> string \<Rightarrow> 'w \<Rightarrow> console \<Rightarrow> 'w cli_result" where
  "compare_with E outputDir repoRoot baseRef headRef w c =
     (if baseRef = [] then stop ExitUsage ''Missing --base or --range'' w c
      else case ResolveRun (ceGit E) (ceRunFiles E w) w outputDir repoRoot baseRef of
        (w1, Inr err) \<Rightarrow> stop ExitError (''Base run not found: '' @ err) w1 c
      | (w1, Inl (base, _)) \<Rightarrow>
         (case ResolveRun (ceGit E) (ceRunFiles E w1) w1 outputDir repoRoot (if headRef = [] then ''HEAD'' else headRef) of
            (w2, Inr err) \<Rightarrow> stop ExitError (''Head run not found: '' @ err) w2 c
          | (w2, Inl (head, _)) \<Rightarrow> Some (w2, say (compare_text E base head) c, ExitOK)))"

definition runCompare :: "'w cli_env \<Rightarrow> string \<Rightarrow> string \<Rightarrow> 'w handler" where
  "runCompare E name usage args w c =
     (if wantsHelp args then Some (w, say usage c, ExitOK)
      else case parse_flags compareFlagDefs args of
        Inr e \<Rightarrow> Some (w, flag_failure E name e c, ExitUsage)
      | Inl (vals, rest) \<Rightarrow>
         (case resolveInputDir E w (flag_string vals ''input'') (flag_string vals ''spec'') of
            None \<Rightarrow> None
          | Some (Inr err) \<Rightarrow> stop ExitError (''Failed to resolve input: '' @ err) w c
          | Some (Inl (outputDir, repoRoot)) \<Rightarrow>
             (case compare_refs E vals repoRoot w of
                (w1, Inr (code, msg)) \<Rightarrow> stop code msg w1 c
              | (w1, Inl (baseRef, headRef)) \<Rightarrow> compare_with E outputDir repoRoot baseRef headRef w1 c)))"

section \<open>report\<close>

text \<open>The runs of the commits that have one; a warning for each that has none.\<close>

fun collect_runs ::
    "'w cli_env \<Rightarrow> string \<Rightarrow> string \<Rightarrow> string list \<Rightarrow> 'w \<Rightarrow> console \<Rightarrow> 'w \<times> console \<times> run_results list" where
  "collect_runs E outputDir repoRoot [] w c = (w, c, [])"
| "collect_runs E outputDir repoRoot (commit # commits) w c =
     (case ResolveRun (ceGit E) (ceRunFiles E w) w outputDir repoRoot commit of
        (w1, Inr _) \<Rightarrow> collect_runs E outputDir repoRoot commits w1 (say_err (''Warning: missing run for '' @ commit @ nl) c)
      | (w1, Inl (run, _)) \<Rightarrow>
          (case collect_runs E outputDir repoRoot commits w1 c of (w2, c2, runs) \<Rightarrow> (w2, c2, run # runs)))"

definition reportFlagDefs :: flag_defs where
  "reportFlagDefs = [(''input'', StrV []), (''spec'', StrV []), (''range'', StrV []), (''output'', StrV [])]"

definition report_with :: "'w cli_env \<Rightarrow> flag_values \<Rightarrow> string \<Rightarrow> string \<Rightarrow> 'w \<Rightarrow> console \<Rightarrow> 'w cli_result" where
  "report_with E vals outputDir repoRoot w c =
     (case ParseRange (flag_string vals ''range'') of
        Inr err \<Rightarrow> stop ExitUsage (''Invalid range: '' @ err) w c
      | Inl spec \<Rightarrow>
         (case ResolveRange (ceGit E) w repoRoot spec of
            (w1, Inr err) \<Rightarrow> stop ExitError (''Range resolution failed: '' @ err) w1 c
          | (w1, Inl r) \<Rightarrow>
             (case collect_runs E outputDir repoRoot (rtStart r # rtCommits r) w1 c of (w2, c2, runs) \<Rightarrow>
                if runs = [] then stop ExitError ''No runs found for range'' w2 c2
                else
                  let path = (if flag_string vals ''output'' = [] then Join outputDir ''report.html''
                              else flag_string vals ''output'') in
                  case fsWriteFile (ceFs E) w2 path (ceReportHTML E runs) of
                    (w3, Some err) \<Rightarrow> stop ExitError (''Failed to write report: '' @ err) w3 c2
                  | (w3, None) \<Rightarrow> Some (w3, say (''Report written to '' @ path @ nl) c2, ExitOK))))"

definition runReport :: "'w cli_env \<Rightarrow> string \<Rightarrow> string \<Rightarrow> 'w handler" where
  "runReport E name usage args w c =
     (if wantsHelp args then Some (w, say usage c, ExitOK)
      else case parse_flags reportFlagDefs args of
        Inr e \<Rightarrow> Some (w, flag_failure E name e c, ExitUsage)
      | Inl (vals, rest) \<Rightarrow>
          if flag_string vals ''range'' = [] then stop ExitUsage ''Missing --range'' w c
          else case resolveInputDir E w (flag_string vals ''input'') (flag_string vals ''spec'') of
            None \<Rightarrow> None
          | Some (Inr err) \<Rightarrow> stop ExitError (''Failed to resolve input: '' @ err) w c
          | Some (Inl (outputDir, repoRoot)) \<Rightarrow> report_with E vals outputDir repoRoot w c)"

section \<open>serve\<close>

definition serveFlagDefs :: flag_defs where
  "serveFlagDefs = [(''addr'', StrV ''127.0.0.1:5000''), (''assets-base-url'', StrV [])]"

text \<open>\<open>stat_error\<close> is the text of the error of \<open>os.Stat\<close> on a path that cannot be opened.\<close>

definition runServe :: "(file_stat \<Rightarrow> go_error) \<Rightarrow> 'w cli_env \<Rightarrow> string \<Rightarrow> string \<Rightarrow> 'w handler" where
  "runServe stat_error E name usage args w c =
     (if wantsHelp args then Some (w, say usage c, ExitOK)
      else case parse_flags serveFlagDefs args of
        Inr e \<Rightarrow> Some (w, flag_failure E name e c, ExitUsage)
      | Inl (vals, rest) \<Rightarrow>
          (let dbPath = (case rest of [] \<Rightarrow> [] | p # _ \<Rightarrow> p); addr = flag_string vals ''addr'' in
           if dbPath = [] then stop ExitUsage ''Missing <db.duckdb>'' w c
           else if length rest > 1 then stop ExitUsage ''Too many arguments'' w c
           else if addr = [] then stop ExitUsage ''Missing --addr'' w c
           else case stat_error (stat_of E w dbPath) of
             Some err \<Rightarrow> stop ExitError (''Database not found: '' @ err) w c
           | None \<Rightarrow>
              (let c1 = say (''Serving report at http://'' @ addr @ nl) c in
               case ceServe E \<lparr>svAddr = addr, svDBPath = dbPath, svAssetsBaseURL = flag_string vals ''assets-base-url''\<rparr> w of
                 (w1, Some err) \<Rightarrow> stop ExitError (''Server error: '' @ err) w1 c1
               | (w1, None) \<Rightarrow> Some (w1, c1, ExitOK))))"

section \<open>The commands\<close>

definition commands :: "(file_stat \<Rightarrow> go_error) \<Rightarrow> 'w cli_env \<Rightarrow> 'w command list" where
  "commands stat_error E =
    [command ''init'' ''Scaffold .cogni config and schemas'' [''cogni init'', ''cogni init --spec <path>''] (Some (runInit E)),
     command ''validate'' ''Validate .cogni config and schemas'' [''cogni validate [--spec <path>]''] (Some (runValidate E)),
     command ''run'' ''Execute benchmark tasks''
       [''cogni run [task-id|task-id@agent-id]...'', ''cogni run --verbose [task-id|task-id@agent-id]...'',
        ''cogni run --verbose --no-color [task-id|task-id@agent-id]...''] (Some (runRun E)),
     command ''eval'' ''Evaluate a question spec''
       [''cogni eval <questions_file> --agent <id>'', ''cogni eval <questions_file> --agent <id> --verbose'',
        ''cogni eval <questions_file> --agent <id> --no-color''] (Some (runEval E)),
     command ''compare'' ''Compare runs between commits''
       [''cogni compare --base <commit|run-id|ref> [--head <commit|run-id|ref>]'', ''cogni compare --range <start>..<end>'']
       (Some (runCompare E)),
     command ''serve'' ''Serve a browser report from a DuckDB file''
       [''cogni serve <db.duckdb>'', ''cogni serve <db.duckdb> --addr <host:port>'',
        ''cogni serve <db.duckdb> --assets-base-url <url>''] (Some (runServe stat_error E)),
     command ''report'' ''Generate HTML reports'' [''cogni report --range <start>..<end>''] (Some (runReport E))]"

end
