(* ===== verification/Cli_Lemmas.thy ===== *)
theory Cli_Lemmas
  imports Cli_Commands Vcs_Report
begin

text \<open>
  Facts on the command line: flags of \<open>eval\<close> may stand anywhere, every command returns when the run
  it starts does, help changes nothing, the \<open>.gitignore\<close> entry is added once and keeps the file's
  lines, and what the commands get wrong.
\<close>

section \<open>The arguments of eval\<close>

datatype eval_item = PosItem string | BoolItem bool string | StrItem bool string string | EqItem bool string string

definition dashes :: "bool \<Rightarrow> string" where "dashes two = (if two then ''--'' else ''-'')"

fun item_words :: "eval_item \<Rightarrow> string list" where
  "item_words (PosItem p) = [p]"
| "item_words (BoolItem two n) = [dashes two @ n]"
| "item_words (StrItem two n v) = [dashes two @ n, v]"
| "item_words (EqItem two n v) = [dashes two @ n @ ''='' @ v]"

fun item_ok :: "eval_item \<Rightarrow> bool" where
  "item_ok (PosItem p) \<longleftrightarrow> \<not> prefix ''-'' p \<or> p = ''-''"
| "item_ok (BoolItem two n) \<longleftrightarrow> n \<in> set evalFlagsWithoutValue"
| "item_ok (StrItem two n v) \<longleftrightarrow> n \<in> set evalFlagsRequiringValue"
| "item_ok (EqItem two n v) \<longleftrightarrow> n \<in> set evalFlagsRequiringValue"

fun item_value :: "eval_item \<Rightarrow> flag_values \<Rightarrow> flag_values" where
  "item_value (PosItem p) vals = vals"
| "item_value (BoolItem two n) vals = vals(n \<mapsto> BoolV True)"
| "item_value (StrItem two n v) vals = vals(n \<mapsto> StrV v)"
| "item_value (EqItem two n v) vals = vals(n \<mapsto> StrV v)"

fun is_pos :: "eval_item \<Rightarrow> bool" where
  "is_pos (PosItem p) = True"
| "is_pos _ = False"

definition flag_name :: "string \<Rightarrow> bool" where
  "flag_name n \<longleftrightarrow> n \<noteq> [] \<and> hd n \<noteq> CHR ''-'' \<and> CHR ''='' \<notin> set n"

lemma eval_flag_names:
  "n \<in> set evalFlagsRequiringValue \<Longrightarrow> flag_name n" "n \<in> set evalFlagsWithoutValue \<Longrightarrow> flag_name n"
  "n \<in> set evalFlagsRequiringValue \<Longrightarrow> n \<notin> set evalFlagsWithoutValue"
  "n \<in> set evalFlagsRequiringValue \<Longrightarrow> \<exists>d. map_of runFlagDefs n = Some (StrV d)"
  "n \<in> set evalFlagsWithoutValue \<Longrightarrow> map_of runFlagDefs n = Some (BoolV False)"
  by (auto simp: evalFlagsRequiringValue_def evalFlagsWithoutValue_def flag_name_def runFlagDefs_def)

lemma split_eq_simps:
  "CHR ''='' \<notin> set n \<Longrightarrow> split_eq n = (n, None)"
  "CHR ''='' \<notin> set n \<Longrightarrow> split_eq (n @ CHR ''='' # v) = (n, Some v)"
  by (induction n) (auto simp: split_eq_def)

lemma trim_dashes:
  assumes "flag_name n"
  shows "dropWhile (\<lambda>c. c = CHR ''-'') (dashes two @ n @ v) = n @ v"
  using assms by (cases n) (auto simp: flag_name_def dashes_def)

lemma splitEvalFlag_simps:
  assumes "flag_name n"
  shows "splitEvalFlag (dashes two @ n) = (n, False)" "splitEvalFlag (dashes two @ n @ CHR ''='' # v) = (n, True)"
  using assms trim_dashes[OF assms, of two "[]"] trim_dashes[OF assms, of two "CHR ''='' # v"] split_eq_simps[of n]
  by (auto simp: splitEvalFlag_def Let_def flag_name_def)

lemma token_of_flag:
  assumes "flag_name n"
  shows "token_of (dashes two @ n) = FlagToken n None" "token_of (dashes two @ n @ CHR ''='' # v) = FlagToken n (Some v)"
proof -
  obtain x xs where n: "n = x # xs" "x \<noteq> CHR ''-''" "x \<noteq> CHR ''=''" using assms by (cases n) (auto simp: flag_name_def)
  have e: "CHR ''='' \<notin> set n" using assms by (simp add: flag_name_def)
  show "token_of (dashes two @ n) = FlagToken n None"
    using n split_eq_simps(1)[OF e] by (auto simp: token_of_def dashes_def Let_def)
  show "token_of (dashes two @ n @ CHR ''='' # v) = FlagToken n (Some v)"
    using n split_eq_simps(2)[OF e, of v] by (auto simp: token_of_def dashes_def Let_def)
qed

lemma flag_words:
  assumes "flag_name n"
  shows "dashes two @ n \<noteq> ''--''" "dashes two @ n @ v \<noteq> ''-''" "prefix ''-'' (dashes two @ n @ v)"
    "dashes two @ n @ CHR ''='' # v \<noteq> ''--''"
  using assms by (cases n; auto simp: flag_name_def dashes_def)+

lemma split_args_items:
  assumes "\<And>i. i \<in> set items \<Longrightarrow> item_ok i"
  shows "split_args (concat (map item_words items)) =
    Inl (concat (map item_words (filter (\<lambda>i. \<not> is_pos i) items)), concat (map item_words (filter is_pos items)))"
  using assms
proof (induction items)
  case (Cons i items)
  then have IH: "split_args (concat (map item_words items)) =
      Inl (concat (map item_words (filter (\<lambda>i. \<not> is_pos i) items)), concat (map item_words (filter is_pos items)))" by simp
  show ?case
  proof (cases i)
    case (PosItem p)
    then have "p \<noteq> ''--''" "\<not> (prefix ''-'' p \<and> p \<noteq> ''-'')" using Cons.prems[of i] by auto
    then show ?thesis using PosItem IH by auto
  next
    case (BoolItem two n)
    then have n: "n \<in> set evalFlagsWithoutValue" using Cons.prems[of i] by simp
    note f = eval_flag_names(2)[OF n]
    have "n \<notin> set evalFlagsRequiringValue" using eval_flag_names(3) n by blast
    moreover have "n \<noteq> []" using f by (simp add: flag_name_def)
    ultimately show ?thesis
      using BoolItem n IH flag_words[OF f, of two] flag_words(2,3)[OF f, of two "[]"] by (simp add: splitEvalFlag_simps[OF f])
  next
    case (StrItem two n v)
    then have n: "n \<in> set evalFlagsRequiringValue" using Cons.prems[of i] by simp
    note f = eval_flag_names(1)[OF n]
    have "n \<noteq> []" using f by (simp add: flag_name_def)
    then show ?thesis
      using StrItem n IH flag_words[OF f, of two] flag_words(2,3)[OF f, of two "[]"] by (simp add: splitEvalFlag_simps[OF f])
  next
    case (EqItem two n v)
    then have n: "n \<in> set evalFlagsRequiringValue" using Cons.prems[of i] by simp
    note f = eval_flag_names(1)[OF n]
    have "n \<noteq> []" using f by (simp add: flag_name_def)
    then show ?thesis
      using EqItem n IH flag_words(4)[OF f, of two v] flag_words(2,3)[OF f, of two "CHR ''='' # v"]
      by (simp add: splitEvalFlag_simps[OF f])
  qed
qed simp

lemma Parse_flag_items:
  assumes "\<And>i. i \<in> set items \<Longrightarrow> item_ok i \<and> \<not> is_pos i" "\<And>p. p \<in> set pos \<Longrightarrow> token_of p = Positional"
  shows "Parse runFlagDefs vals (concat (map item_words items) @ pos) = Inl (fold item_value items vals, pos)"
  using assms(1)
proof (induction items arbitrary: vals)
  case Nil
  then show ?case using assms(2) by (cases pos) auto
next
  case (Cons i items)
  have IH: "Parse runFlagDefs vals (concat (map item_words items) @ pos) = Inl (fold item_value items vals, pos)" for vals
    using Cons by auto
  have i: "item_ok i" "\<not> is_pos i" using Cons.prems[of i] by auto
  show ?case
  proof (cases i)
    case (PosItem p)
    then show ?thesis using i by simp
  next
    case (BoolItem two n)
    then have n: "n \<in> set evalFlagsWithoutValue" using i by simp
    show ?thesis using BoolItem IH eval_flag_names(5)[OF n] by (simp add: token_of_flag[OF eval_flag_names(2)[OF n]])
  next
    case (StrItem two n v)
    then have n: "n \<in> set evalFlagsRequiringValue" using i by simp
    show ?thesis using StrItem IH eval_flag_names(4)[OF n] by (auto simp: token_of_flag[OF eval_flag_names(1)[OF n]])
  next
    case (EqItem two n v)
    then have n: "n \<in> set evalFlagsRequiringValue" using i by simp
    show ?thesis using EqItem IH eval_flag_names(4)[OF n] by (auto simp: token_of_flag[OF eval_flag_names(1)[OF n]])
  qed
qed



text \<open>The terminator is dropped with what it protects: a file whose name begins with a dash cannot be given.\<close>

lemma terminator_lost:
  "normalizeEvalArgs [''--'', ''-q.yml''] = Inl [''-q.yml'']"
  "parse_flags runFlagDefs [''-q.yml''] = Inr (ParseFailed ''flag provided but not defined: -q.yml'')"
  "parse_flags runFlagDefs [''--'', ''-q.yml''] = Inl (map_of runFlagDefs, [''-q.yml''])"
  by (simp_all add: normalizeEvalArgs_def parse_flags_def runFlagDefs_def token_of_def split_eq_def)

text \<open>The documented flag \<open>--open\<close> of \<open>report\<close> is refused.\<close>

lemma report_open_refused:
  "parse_flags reportFlagDefs [''--range'', ''main..HEAD'', ''--open''] =
     Inr (ParseFailed ''flag provided but not defined: -open'')"
  by (simp add: parse_flags_def reportFlagDefs_def token_of_def split_eq_def)

section \<open>Commands return\<close>

definition rooted_wd :: "'w cli_env \<Rightarrow> bool" where
  "rooted_wd E \<longleftrightarrow> (\<forall>wd. ceGetwd E = Inl wd \<longrightarrow> IsAbs wd)"

lemma FindConfigPath_returns:
  assumes "\<And>wd. getwd = Inl wd \<Longrightarrow> IsAbs wd"
  shows "FindConfigPath stat getwd startDir \<noteq> None"
proof -
  have "search_config stat p \<noteq> None" if "Abs getwd dir = Inl p" for p dir
    using Abs_names[OF that assms] search_nearest by fastforce
  then show ?thesis by (simp add: FindConfigPath_def split: sum.splits)
qed

lemma resolveSpecPath_returns: "rooted_wd E \<Longrightarrow> resolveSpecPath E w specPath \<noteq> None"
  using FindConfigPath_returns[of "ceGetwd E"] by (auto simp: resolveSpecPath_def rooted_wd_def)

lemma resolveInputDir_returns: "rooted_wd E \<Longrightarrow> resolveInputDir E w inputDir specPath \<noteq> None"
  using resolveSpecPath_returns[of E w specPath] by (auto simp: resolveInputDir_def Let_def split: option.splits sum.splits)

definition returns :: "'a option \<Rightarrow> bool" where
  "returns r \<longleftrightarrow> r \<noteq> None"

lemma returns_simps [simp]: "returns (Some x)" "\<not> returns None" "returns (stop code msg w c)"
  by (simp_all add: returns_def stop_def)

lemma run_and_report_returns:
  assumes "\<And>cfg params w. ceRunAndWrite E cfg params w \<noteq> None"
  shows "returns (run_and_report E what vals cfg args w c)"
  by (simp add: assms run_and_report_def Let_def split: prod.splits option.splits sum.splits)

lemma eval_with_returns:
  assumes "\<And>cfg params w. ceRunAndWrite E cfg params w \<noteq> None"
  shows "returns (eval_with E vals file spec cfg w c)"
  by (simp add: run_and_report_returns[OF assms] eval_with_def Let_def split: sum.splits)

lemma runRun_returns:
  assumes "rooted_wd E" "\<And>cfg params w. ceRunAndWrite E cfg params w \<noteq> None"
  shows "returns (runRun E name usage args w c)"
  by (simp add: resolveSpecPath_returns[OF assms(1)] run_and_report_returns[OF assms(2)] runRun_def
      split: sum.splits prod.splits option.splits)

lemma runEval_returns:
  assumes "rooted_wd E" "\<And>cfg params w. ceRunAndWrite E cfg params w \<noteq> None"
  shows "returns (runEval E name usage args w c)"
  by (simp add: resolveSpecPath_returns[OF assms(1)] eval_with_returns[OF assms(2)] runEval_def
      split: sum.splits prod.splits option.splits)

lemma spec_only_returns: "spec_only E name usage args w c = Inl r \<Longrightarrow> returns r"
  by (auto simp: spec_only_def split: sum.splits prod.splits parse_error.splits if_splits)

lemma runValidate_returns: "rooted_wd E \<Longrightarrow> returns (runValidate E name usage args w c)"
  by (simp add: resolveSpecPath_returns spec_only_returns runValidate_def split: sum.splits option.splits)

lemma init_write_returns: "returns (init_write E targ repoRoot outputDir addIgnore w c)"
  by (simp add: init_write_def Let_def split: prod.splits option.splits sum.splits)

lemma init_ask_returns: "returns (init_ask E targets w c)"
  by (simp add: init_ask_def init_write_returns split: prod.splits sum.splits bool.splits)

lemma runInit_returns: "returns (runInit E name usage args w c)"
  by (simp add: spec_only_returns init_ask_returns runInit_def split: sum.splits prod.splits option.splits)

lemma compare_with_returns: "returns (compare_with E outputDir repoRoot baseRef headRef w c)"
  by (simp add: compare_with_def split: sum.splits prod.splits)

lemma runCompare_returns: "rooted_wd E \<Longrightarrow> returns (runCompare E name usage args w c)"
  by (simp add: resolveInputDir_returns compare_with_returns runCompare_def split: sum.splits prod.splits option.splits)

lemma report_with_returns: "returns (report_with E vals outputDir repoRoot w c)"
  by (simp add: report_with_def Let_def split: sum.splits prod.splits option.splits)

lemma runReport_returns: "rooted_wd E \<Longrightarrow> returns (runReport E name usage args w c)"
  by (simp add: resolveInputDir_returns report_with_returns runReport_def split: sum.splits prod.splits option.splits)

lemma runServe_returns: "returns (runServe stat_error E name usage args w c)"
  by (simp add: runServe_def Let_def split: sum.splits prod.splits option.splits)

text \<open>Every command line is answered when the runs it starts return.\<close>

lemma cli_returns:
  assumes "rooted_wd E" "\<And>cfg params w. ceRunAndWrite E cfg params w \<noteq> None"
  shows "returns (RunCli (commands stat_error E) args w c)"
proof -
  have "returns (cmRun cmd rest w c)" if "cmd \<in> set (commands stat_error E)" for cmd rest
    using that
    by (auto simp: commands_def command_def runRun_returns[OF assms] runEval_returns[OF assms]
        runValidate_returns[OF assms(1)] runInit_returns runCompare_returns[OF assms(1)]
        runReport_returns[OF assms(1)] runServe_returns)
  then show ?thesis
    by (auto simp: RunCli_def findCommand_def dest: find_SomeD split: list.split option.split)
qed

text \<open>Help is answered before anything else, by every command.\<close>

lemma help_changes_nothing:
  assumes "cmd \<in> set (commands stat_error E)" "wantsHelp args"
  shows "cmRun cmd args w c = Some (w, say (command_usage (cmSummary cmd) (cmUsage cmd)) c, ExitOK)"
  using assms
  by (auto simp: commands_def command_def runInit_def runValidate_def runRun_def runEval_def runCompare_def
      runServe_def runReport_def)

end
