(* ===== verification/Cli_Findings.thy ===== *)
theory Cli_Findings
  imports Cli_Lemmas
begin

text \<open>
  The \<open>.gitignore\<close> entry of \<open>init\<close>, and what the commands lose: \<open>eval\<close> the configured rate limiter,
  \<open>compare\<close> and \<open>report\<close> the runs of a configuration below the root of the repository, \<open>init\<close> a
  configuration that \<open>validate\<close> accepts.
\<close>

section \<open>.gitignore\<close>

lemma split_byte_snoc: "split_byte c (s @ [c]) = split_byte c s @ [[]]"
  using split_byte_append[of c s "[]"] by simp

text \<open>Adding the entry keeps the lines of the file, and once it is there nothing is added again.\<close>

lemma gitignore_added_once:
  assumes "gitignore_text existing entry = Some t" "CHR 0x0A \<notin> set entry" "TrimSpace entry = entry"
  shows "prefix existing t" "gitignore_text t entry = None"
    "set (split_byte (CHR 0x0A) existing) \<subseteq> set (split_byte (CHR 0x0A) t)"
proof -
  let ?base = "if existing \<noteq> [] \<and> last existing \<noteq> CHR 0x0A then existing @ nl else existing"
  have t: "t = ?base @ entry @ nl" using assms(1) by (auto simp: gitignore_text_def split: if_splits)
  show "prefix existing t" by (simp add: t)
  have e: "split_byte (CHR 0x0A) (entry @ nl) = [entry, []]"
    using split_byte_snoc[of "CHR 0x0A" entry] split_byte_none[OF assms(2)] by simp
  have "entry \<in> set (split_byte (CHR 0x0A) t) \<and> set (split_byte (CHR 0x0A) existing) \<subseteq> set (split_byte (CHR 0x0A) t)"
  proof (cases "existing = []")
    case True
    then show ?thesis using e by (simp add: t)
  next
    case False
    show ?thesis
    proof (cases "last existing = CHR 0x0A")
      case True
      then obtain s where "existing = s @ nl" using False by (metis append_butlast_last_id)
      then show ?thesis using e by (auto simp: t split_byte_append[of _ s "entry @ nl", simplified] split_byte_snoc)
    next
      case False
      then have "t = existing @ CHR 0x0A # entry @ nl" using \<open>existing \<noteq> []\<close> by (simp add: t)
      then show ?thesis using e by (auto simp: split_byte_append)
    qed
  qed
  then show "gitignore_text t entry = None" "set (split_byte (CHR 0x0A) existing) \<subseteq> set (split_byte (CHR 0x0A) t)"
    using assms(3) by (auto simp: gitignore_text_def)
qed

lemma gitignore_entry_inside:
  assumes "normalizeGitignorePath repoRoot outputDir = Inl entry"
  shows "entry \<noteq> [] \<and> entry \<noteq> ''.'' \<and> \<not> prefix ''..'' entry"
  using assms by (auto simp: normalizeGitignorePath_def Let_def split: if_splits sum.splits)

text \<open>A folder in the root whose name begins with two dots is taken for one outside.\<close>

lemma dotted_folder_refused: "normalizeGitignorePath ''/repo'' ''..results'' = Inr (''output dir '' @ quote ''..results'' @ '' is outside the repo root'')"
  by code_simp

section \<open>eval without a rate limiter\<close>

lemma trim_disabled: "TrimSpace ''disabled'' = ''disabled''"
  by code_simp

lemma eval_ignores_rate_limiter:
  assumes "lower ''disabled'' = ''disabled''"
  shows "BuildLimiter lower fresh statErr from_file (evalConfig cfg agent questions) repoRoot = Inl UseNoop"
    "ResolveTaskWorkers (evalConfig cfg agent questions) (eval_task agent questions) = 1"
  using assms by (simp_all add: evalConfig_def Normalize_def normalizeRateLimiter_def no_limiter_def BuildLimiter_def Let_def
      ResolveTaskWorkers_def eval_task_def trim_disabled)

section \<open>compare and report on a configuration below the root\<close>

text \<open>
  A run resolves a relative output folder against the root of the git repository, a lookup against
  the directory of the configuration: below the root these differ, and the runs are not found.
\<close>

lemma output_dirs_differ:
  assumes "names xs" "is_name sub" "is_name out" "cfOutputDir cfg = out"
    and "resolveSpecPath E w specPath = Some (Inl (ConfigPath (path_of (xs @ [sub]))))"
    and "load_config E w (ConfigPath (path_of (xs @ [sub]))) = Inl cfg"
  shows "resolveOutputDir (path_of xs) (cfOutputDir cfg) = path_of (xs @ [out])"
    "resolveInputDir E w [] specPath = Some (Inl (path_of (xs @ [sub, out]), path_of (xs @ [sub])))"
proof -
  have out: "out \<noteq> []" "\<not> IsAbs out" using assms(3) by (cases out; auto simp: is_name_def IsAbs_def)+
  then show "resolveOutputDir (path_of xs) (cfOutputDir cfg) = path_of (xs @ [out])"
    using assms Join_name[of xs out] by (simp add: resolveOutputDir_def)
  show "resolveInputDir E w [] specPath = Some (Inl (path_of (xs @ [sub, out]), path_of (xs @ [sub])))"
    using assms out root_of_config_path[of "xs @ [sub]"] Join_name[of "xs @ [sub]" out]
    by (simp add: resolveInputDir_def Let_def)
qed

section \<open>The scaffolded configuration\<close>

text \<open>What the template of \<open>init\<close> says, decoded.  Its questions file is not created, so \<open>validate\<close> refuses it.\<close>

definition scaffold_config :: "string \<Rightarrow> cogni_config" where
  "scaffold_config dir =
     \<lparr>cfVersion = 1, cfOutputDir = dir, cfSetupCommands = [''go mod download''],
      cfAgents = [\<lparr>agID = ''default'', agType = ''builtin'', agProvider = ''openrouter'', agModel = ''gpt-4.1-mini'',
                   agMaxSteps = 25, agTemperature = ''0.0''\<rparr>],
      cfDefaultAgent = ''default'', cfRateLimiter = no_limiter,
      cfTasks = [(eval_task ''default'' ''spec/questions/core.yml'')
                   \<lparr>tkID := ''question_eval_core'', tkBudget := \<lparr>tbMaxTokens = 12000, tbMaxSeconds = 120, tbMaxSteps = 0\<rparr>\<rparr>]\<rparr>"

lemma scaffold_refused:
  "Validate (\<lambda>s. s) (\<lambda>_. None) (Normalize (scaffold_config DefaultOutputDir)) ''/repo'' =
     [(''tasks[0].questions_file'', ''file not found at '' @ quote ''spec/questions/core.yml'')]"
  by code_simp

end
