(* ===== verification/Duckdb.thy ===== *)
theory Duckdb
  imports Runner_Plan Config_Paths
begin

text \<open>
  The measurement store (\<open>internal/duckdb\<close>: \<open>ingestion.go\<close>, \<open>upsert.go\<close>, \<open>upsert_helpers.go\<close>):
  canonical JSON, fingerprints and dimensions, and the upserts by fingerprint.

  A Go map is the list of its entries in the order it is iterated.  Of \<open>json.Marshal\<close> the order of
  keys and the brackets are modelled; the text of strings is the parameter \<open>str\<close> and a number is
  the text it is printed as.  Decoding, SHA-256, the random ids and the database are parameters.
\<close>

section \<open>Values\<close>

text \<open>What decoding gives, and what a caller may pass: also raw bytes, and maps and lists of strings.\<close>

datatype json =
    JNull
  | JBool bool
  | JNum string
  | JStr string
  | JArr "json list"
  | JObj "(string \<times> json) list"

datatype go_value =
    Plain json
  | RawMessage string
  | Bytes string
  | StringMap "(string \<times> string) list"
  | StringSlice "string list"
  | ValueMap "(string \<times> go_value) list"
  | ValueSlice "go_value list"

text \<open>Rebuilding a decoded value: the maps and lists are copied, the rest is kept.\<close>

primrec rebuild :: "json \<Rightarrow> json" where
  "rebuild JNull = JNull"
| "rebuild (JBool b) = JBool b"
| "rebuild (JNum n) = JNum n"
| "rebuild (JStr s) = JStr s"
| "rebuild (JArr vs) = JArr (map rebuild vs)"
| "rebuild (JObj kvs) = JObj (map (map_prod id rebuild) kvs)"

primrec all_ok :: "('a + string) list \<Rightarrow> 'a list + string" where
  "all_ok [] = Inl []"
| "all_ok (r # rs) =
     (case r of Inr err \<Rightarrow> Inr err
      | Inl x \<Rightarrow> (case all_ok rs of Inr err \<Rightarrow> Inr err | Inl xs \<Rightarrow> Inl (x # xs)))"

primrec normalizeJSON :: "(string \<Rightarrow> json + string) \<Rightarrow> go_value \<Rightarrow> json + string" where
  "normalizeJSON decode (Plain j) = Inl (rebuild j)"
| "normalizeJSON decode (RawMessage s) =
     (case decode s of Inr err \<Rightarrow> Inr (''normalize json raw: '' @ err) | Inl j \<Rightarrow> Inl (rebuild j))"
| "normalizeJSON decode (Bytes s) =
     (case decode s of Inr err \<Rightarrow> Inr (''normalize json bytes: '' @ err) | Inl j \<Rightarrow> Inl (rebuild j))"
| "normalizeJSON decode (StringMap kvs) = Inl (JObj (map (\<lambda>(k, v). (k, JStr v)) kvs))"
| "normalizeJSON decode (StringSlice vs) = Inl (JArr (map JStr vs))"
| "normalizeJSON decode (ValueMap kvs) =
     (case all_ok (map snd (map (map_prod id (normalizeJSON decode)) kvs)) of
        Inr err \<Rightarrow> Inr err
      | Inl vs \<Rightarrow> Inl (JObj (zip (map fst kvs) vs)))"
| "normalizeJSON decode (ValueSlice vs) =
     (case all_ok (map (normalizeJSON decode) vs) of Inr err \<Rightarrow> Inr err | Inl xs \<Rightarrow> Inl (JArr xs))"

section \<open>Canonical JSON\<close>

text \<open>\<open>json.Marshal\<close>: the keys of an object in order.\<close>

primrec Marshal :: "(string \<Rightarrow> string) \<Rightarrow> json \<Rightarrow> string" where
  "Marshal str JNull = ''null''"
| "Marshal str (JBool b) = (if b then ''true'' else ''false'')"
| "Marshal str (JNum n) = n"
| "Marshal str (JStr s) = str s"
| "Marshal str (JArr vs) = ''['' @ join '','' (map (Marshal str) vs) @ '']''"
| "Marshal str (JObj kvs) =
     ''{'' @ join '','' (map (\<lambda>(k, t). str k @ '':'' @ t)
       (sort_key fst (map (map_prod id (Marshal str)) kvs))) @ ''}''"

definition CanonicalJSON :: "(string \<Rightarrow> json + string) \<Rightarrow> (string \<Rightarrow> string) \<Rightarrow> go_value \<Rightarrow> string + string" where
  "CanonicalJSON decode str v =
     (case normalizeJSON decode v of Inr err \<Rightarrow> Inr err | Inl j \<Rightarrow> Inl (Marshal str j))"

definition fingerprintBytes :: "(string \<Rightarrow> string) \<Rightarrow> string \<Rightarrow> string" where
  "fingerprintBytes sha256 bytes = EncodeToString (sha256 bytes)"

definition FingerprintJSON ::
    "(string \<Rightarrow> json + string) \<Rightarrow> (string \<Rightarrow> string) \<Rightarrow> (string \<Rightarrow> string) \<Rightarrow> go_value \<Rightarrow> string + string" where
  "FingerprintJSON decode str sha256 v =
     (case CanonicalJSON decode str v of Inr err \<Rightarrow> Inr err | Inl t \<Rightarrow> Inl (fingerprintBytes sha256 t))"

section \<open>Dimensions\<close>

type_synonym dims = "(string \<times> string) list option"

definition CanonicalDims :: "dims \<Rightarrow> string list" where
  "CanonicalDims d =
     (case d of None \<Rightarrow> []
      | Some kvs \<Rightarrow> map (\<lambda>(k, v). k @ ''='' @ v) (sort_key fst kvs))"

definition quote_char :: char where "quote_char = CHR 0x27"

definition quoteLiteral :: "string \<Rightarrow> string" where
  "quoteLiteral s = [quote_char] @ replace_byte quote_char [quote_char, quote_char] s @ [quote_char]"

definition mapExpression :: "dims \<Rightarrow> string" where
  "mapExpression d =
     (case d of
        None \<Rightarrow> ''NULL''
      | Some kvs \<Rightarrow>
          if kvs = [] then ''map([], [])''
          else let es = sort_key fst kvs in
            ''map(['' @ join '', '' (map (quoteLiteral \<circ> fst) es) @ ''], ['' @ join '', '' (map (quoteLiteral \<circ> snd) es) @ ''])'')"

definition nullableString :: "string option \<Rightarrow> string option" where
  "nullableString v = (case v of None \<Rightarrow> None | Some s \<Rightarrow> if s = [] then None else Some s)"

section \<open>Keys\<close>

record json_env =
  jeDecode :: "string \<Rightarrow> json + string"
  jeStr :: "string \<Rightarrow> string"
  jeSha256 :: "string \<Rightarrow> string"

record context_input =
  cxRepoID :: string
  cxRevID :: string
  cxAgentID :: "string option"
  cxQuestionID :: "string option"
  cxAgentKey :: string
  cxQuestionKey :: string
  cxDims :: dims
  cxScope :: "go_value option"

definition context_payload :: "context_input \<Rightarrow> go_value" where
  "context_payload input =
     ValueMap [(''repo_id'', Plain (JStr (cxRepoID input))), (''rev_id'', Plain (JStr (cxRevID input))),
       (''agent_key'', Plain (JStr (cxAgentKey input))), (''question_key'', Plain (JStr (cxQuestionKey input))),
       (''dims'', StringSlice (CanonicalDims (cxDims input))),
       (''scope'', case cxScope input of None \<Rightarrow> Plain JNull | Some v \<Rightarrow> v)]"

definition ContextKey :: "json_env \<Rightarrow> context_input \<Rightarrow> string + string" where
  "ContextKey J input = FingerprintJSON (jeDecode J) (jeStr J) (jeSha256 J) (context_payload input)"

section \<open>Upserts\<close>

text \<open>\<open>duExec\<close> and \<open>duQuery\<close> run a statement with its arguments, where \<open>None\<close> is the SQL null;
  a query answers the text of its one column.\<close>

record 'w duck =
  duExec :: "'w \<Rightarrow> string \<Rightarrow> string option list \<Rightarrow> 'w \<times> go_error"
  duQuery :: "'w \<Rightarrow> string \<Rightarrow> string \<Rightarrow> string + string"
  duNewID :: "'w \<Rightarrow> 'w \<times> string"

definition lookupID :: "'w duck \<Rightarrow> 'w \<Rightarrow> string \<Rightarrow> string \<Rightarrow> string \<Rightarrow> string \<Rightarrow> string + string" where
  "lookupID D w table idColumn keyColumn key =
     duQuery D w (''SELECT CAST('' @ idColumn @ '' AS VARCHAR) FROM '' @ table @ '' WHERE '' @ keyColumn @ '' = ?'') key"

text \<open>The last step of every upsert: the statement, then the id of the row with the key.\<close>

definition insert_and_lookup ::
    "'w duck \<Rightarrow> string \<Rightarrow> string \<Rightarrow> string \<Rightarrow> string \<Rightarrow> (string \<Rightarrow> string option list) \<Rightarrow> string \<Rightarrow> 'w \<Rightarrow>
     'w \<times> (string \<times> string + string)" where
  "insert_and_lookup D what table idColumn statement args key w =
     (case duNewID D w of (w1, i) \<Rightarrow>
      (case duExec D w1 statement (args i) of
         (w2, Some err) \<Rightarrow> (w2, Inr (''upsert '' @ what @ '': '' @ err))
       | (w2, None) \<Rightarrow>
          (case lookupID D w2 table idColumn (what @ ''_key'') key of
             Inr err \<Rightarrow> (w2, Inr (''lookup '' @ what @ '' id: '' @ err))
           | Inl out \<Rightarrow> (w2, Inl (out, key)))))"

definition tab :: string where "tab = [CHR 0x09]"
definition eol :: string where "eol = [CHR 0x0A]"

definition agents_statement :: string where
  "agents_statement = ''INSERT INTO agents (agent_id, agent_key, spec, display_name, created_at)'' @ eol @ tab @ tab @
     '' VALUES (?, ?, ?, ?, now())'' @ eol @ tab @ tab @ '' ON CONFLICT (agent_key) DO NOTHING''"

definition questions_statement :: string where
  "questions_statement = ''INSERT INTO questions (question_id, question_key, spec, title, created_at)'' @ eol @ tab @ tab @
     '' VALUES (?, ?, ?, ?, now())'' @ eol @ tab @ tab @ '' ON CONFLICT (question_key) DO NOTHING''"

definition contexts_statement :: "string \<Rightarrow> string" where
  "contexts_statement mapExpr =
     ''INSERT INTO contexts ('' @ eol @ tab @ tab @
     ''  context_id, context_key, repo_id, rev_id, agent_id, question_id, dims, scope, created_at'' @ eol @ tab @ tab @
     '') VALUES (?, ?, ?, ?, ?, ?, '' @ mapExpr @ '', ?, now())'' @ eol @ tab @ tab @
     ''ON CONFLICT (context_key) DO NOTHING''"

definition UpsertAgent :: "json_env \<Rightarrow> 'w duck \<Rightarrow> go_value option \<Rightarrow> string \<Rightarrow> 'w \<Rightarrow> 'w \<times> (string \<times> string + string)" where
  "UpsertAgent J D spec displayName w =
     (case spec of
        None \<Rightarrow> (w, Inr ''duckdb: agent spec is nil'')
      | Some v \<Rightarrow>
         (case CanonicalJSON (jeDecode J) (jeStr J) v of
            Inr err \<Rightarrow> (w, Inr err)
          | Inl canonical \<Rightarrow>
              let key = fingerprintBytes (jeSha256 J) canonical in
              insert_and_lookup D ''agent'' ''agents'' ''agent_id'' agents_statement
                (\<lambda>i. [Some i, Some key, Some canonical, Some displayName]) key w))"

definition UpsertQuestion :: "json_env \<Rightarrow> 'w duck \<Rightarrow> go_value option \<Rightarrow> string \<Rightarrow> 'w \<Rightarrow> 'w \<times> (string \<times> string + string)" where
  "UpsertQuestion J D spec title w =
     (case spec of
        None \<Rightarrow> (w, Inr ''duckdb: question spec is nil'')
      | Some v \<Rightarrow>
         (case CanonicalJSON (jeDecode J) (jeStr J) v of
            Inr err \<Rightarrow> (w, Inr err)
          | Inl canonical \<Rightarrow>
              let key = fingerprintBytes (jeSha256 J) canonical in
              insert_and_lookup D ''question'' ''questions'' ''question_id'' questions_statement
                (\<lambda>i. [Some i, Some key, Some canonical, Some title]) key w))"

definition UpsertContext :: "json_env \<Rightarrow> 'w duck \<Rightarrow> context_input \<Rightarrow> 'w \<Rightarrow> 'w \<times> (string \<times> string + string)" where
  "UpsertContext J D input w =
     (if cxRepoID input = [] \<or> cxRevID input = [] then (w, Inr ''duckdb: repo_id and rev_id are required'')
      else case ContextKey J input of
        Inr err \<Rightarrow> (w, Inr err)
      | Inl key \<Rightarrow>
         (case (case cxScope input of None \<Rightarrow> Inl None
                | Some v \<Rightarrow> (case CanonicalJSON (jeDecode J) (jeStr J) v of Inr err \<Rightarrow> Inr err | Inl t \<Rightarrow> Inl (Some t))) of
            Inr err \<Rightarrow> (w, Inr err)
          | Inl scopeValue \<Rightarrow>
              insert_and_lookup D ''context'' ''contexts'' ''context_id'' (contexts_statement (mapExpression (cxDims input)))
                (\<lambda>i. [Some i, Some key, Some (cxRepoID input), Some (cxRevID input), nullableString (cxAgentID input),
                      nullableString (cxQuestionID input), scopeValue]) key w))"

text \<open>
  Facts on the measurement store: canonical JSON does not depend on the order of maps, dimensions
  written as SQL literals are read back whatever they contain, a repeated upsert answers the first
  row, and which contexts share a key.
\<close>

section \<open>Canonical JSON\<close>

text \<open>The same value with the entries of its maps in another order.\<close>

inductive same_json :: "json \<Rightarrow> json \<Rightarrow> bool" where
  same_refl: "same_json j j"
| same_arr: "list_all2 same_json vs vs' \<Longrightarrow> same_json (JArr vs) (JArr vs')"
| same_obj: "map fst kvs = map fst kvs' \<Longrightarrow> list_all2 same_json (map snd kvs) (map snd kvs') \<Longrightarrow>
    same_json (JObj kvs) (JObj kvs')"
| same_perm: "distinct (map fst kvs) \<Longrightarrow> mset kvs = mset kvs' \<Longrightarrow> same_json (JObj kvs) (JObj kvs')"
| same_trans: "same_json a b \<Longrightarrow> same_json b c \<Longrightarrow> same_json a c"

lemma sort_entries:
  assumes "distinct (map fst kvs)" "mset kvs = mset kvs'"
  shows "sort_key fst kvs = sort_key fst (kvs' :: (string \<times> 'a) list)"
proof -
  have "inj_on fst (set kvs)" using assms(1) by (simp add: distinct_map)
  then show ?thesis using assms(2) by (intro sort_key_inj_key_eq) simp_all
qed

lemma same_json_text: "same_json j j' \<Longrightarrow> Marshal str j = Marshal str j'"
proof (induction rule: same_json.induct)
  case (same_arr vs vs')
  then have "map (Marshal str) vs = map (Marshal str) vs'"
    by (auto simp: list_all2_conv_all_nth intro!: nth_equalityI)
  then show ?case by simp
next
  case (same_obj kvs kvs')
  then have "map (Marshal str) (map snd kvs) = map (Marshal str) (map snd kvs')"
    by (auto simp: list_all2_conv_all_nth intro!: nth_equalityI)
  moreover have "map (map_prod id (Marshal str)) l = zip (map fst l) (map (Marshal str) (map snd l))" for l
    by (induction l) auto
  ultimately have "map (map_prod id (Marshal str)) kvs = map (map_prod id (Marshal str)) kvs'"
    using same_obj.hyps by metis
  then show ?case by (simp only: Marshal.simps)
next
  case (same_perm kvs kvs')
  then have "distinct (map fst (map (map_prod id (Marshal str)) kvs))" by (simp add: comp_def)
  then show ?case using same_perm(2) sort_entries[of "map (map_prod id (Marshal str)) kvs" "map (map_prod id (Marshal str)) kvs'"]
    by simp
qed simp_all

lemma rebuild_id: "rebuild j = j"
  by (induction j) (auto simp: map_idI intro!: map_idI)

section \<open>Dimensions\<close>

text \<open>How SQL reads the rest of a literal: a doubled quote is one, a single one ends it.\<close>

fun read_literal :: "string \<Rightarrow> (string \<times> string) option" where
  "read_literal [] = None"
| "read_literal (c # cs) =
     (if c \<noteq> quote_char then map_option (map_prod ((#) c) id) (read_literal cs)
      else case cs of
        [] \<Rightarrow> Some ([], [])
      | d # ds \<Rightarrow> if d = quote_char then map_option (map_prod ((#) d) id) (read_literal ds) else Some ([], cs))"

lemma read_literal_quoted:
  assumes "rest = [] \<or> hd rest \<noteq> quote_char"
  shows "read_literal (replace_byte quote_char [quote_char, quote_char] s @ quote_char # rest) = Some (s, rest)"
  using assms by (induction s) (auto split: list.splits)

text \<open>No text gets out of its literal: two literals are equal only for equal texts.\<close>

lemma quoteLiteral_inject:
  assumes "quoteLiteral s @ rest = quoteLiteral s' @ rest'"
    "rest = [] \<or> hd rest \<noteq> quote_char" "rest' = [] \<or> hd rest' \<noteq> quote_char"
  shows "s = s' \<and> rest = rest'"
proof -
  have "read_literal (tl (quoteLiteral s @ rest)) = Some (s, rest)"
    using read_literal_quoted[OF assms(2), of s] by (simp add: quoteLiteral_def)
  moreover have "read_literal (tl (quoteLiteral s' @ rest')) = Some (s', rest')"
    using read_literal_quoted[OF assms(3), of s'] by (simp add: quoteLiteral_def)
  ultimately have "Some (s, rest) = Some (s', rest')" unfolding assms(1) by (rule trans[OF sym])
  then show ?thesis by simp
qed

definition literals_tail :: "string list \<Rightarrow> string \<Rightarrow> string" where
  "literals_tail zs r = (if zs = [] then [] else '', '' @ join '', '' (map quoteLiteral zs)) @ ''],'' @ r"

lemma literals_step: "join '', '' (map quoteLiteral (z # zs)) @ ''],'' @ r = quoteLiteral z @ literals_tail zs r"
  by (cases zs) (auto simp: literals_tail_def)

lemma literals_tail_hd: "hd (literals_tail zs r) = (if zs = [] then CHR '']'' else CHR '','')" "literals_tail zs r \<noteq> []"
  by (simp_all add: literals_tail_def)

lemma quote_not_close: "CHR '']'' \<noteq> quote_char" "CHR '','' \<noteq> quote_char"
  by (simp_all add: quote_char_def)

lemma quoteLiteral_hd: "hd (quoteLiteral z @ t) = quote_char"
  by (simp add: quoteLiteral_def)

lemma literals_inject:
  assumes "join '', '' (map quoteLiteral xs) @ ''],'' @ rest = join '', '' (map quoteLiteral ys) @ ''],'' @ rest'"
  shows "xs = ys \<and> rest = rest'"
  using assms
proof (induction xs arbitrary: ys)
  case Nil
  then have "hd (join '', '' (map quoteLiteral ys) @ ''],'' @ rest') = CHR '']''" by (metis join.simps(1) append_Nil list.simps(8) append_Cons list.sel(1))
  then have "ys = []" using quoteLiteral_hd quote_not_close(1) literals_step by (metis list.exhaust)
  then show ?case using Nil by simp
next
  case (Cons x xs)
  have "hd (join '', '' (map quoteLiteral ys) @ ''],'' @ rest') = quote_char"
    using Cons.prems literals_step[of x xs rest] quoteLiteral_hd by metis
  then obtain y ys' where ys: "ys = y # ys'"
    using quote_not_close(1) by (cases ys) auto
  have "quoteLiteral x @ literals_tail xs rest = quoteLiteral y @ literals_tail ys' rest'"
    using Cons.prems literals_step ys by metis
  moreover have "hd (literals_tail zs r) \<noteq> quote_char" for zs r by (simp add: literals_tail_hd quote_not_close)
  ultimately have xy: "x = y" "literals_tail xs rest = literals_tail ys' rest'"
    using quoteLiteral_inject[of x "literals_tail xs rest" y "literals_tail ys' rest'"] by blast+
  then have "xs = [] \<longleftrightarrow> ys' = []" using literals_tail_hd(1)[of xs rest] literals_tail_hd(1)[of ys' rest'] by (auto split: if_splits)
  then have "join '', '' (map quoteLiteral xs) @ ''],'' @ rest = join '', '' (map quoteLiteral ys') @ ''],'' @ rest'"
    using xy(2) by (auto simp: literals_tail_def split: if_splits)
  then show ?case using Cons.IH[of ys'] xy(1) ys by simp
qed

text \<open>Different dimensions are different expressions, whatever bytes they contain.\<close>

lemma mapExpression_inject:
  assumes "mapExpression (Some kvs) = mapExpression (Some kvs')" "kvs \<noteq> []" "kvs' \<noteq> []"
  shows "mset kvs = mset kvs'"
proof -
  let ?a = "sort_key fst kvs" and ?b = "sort_key fst kvs'"
  have close: "join '', '' (map quoteLiteral xs) @ '']'' @ '')'' = join '', '' (map quoteLiteral ys) @ '']'' @ '')'' \<Longrightarrow> xs = ys" for xs ys
  proof -
    assume "join '', '' (map quoteLiteral xs) @ '']'' @ '')'' = join '', '' (map quoteLiteral ys) @ '']'' @ '')''"
    then have "join '', '' (map quoteLiteral xs) = join '', '' (map quoteLiteral ys)" by simp
    then have "join '', '' (map quoteLiteral xs) @ ''],'' @ [] = join '', '' (map quoteLiteral ys) @ ''],'' @ []" by simp
    from literals_inject[OF this] show "xs = ys" by blast
  qed
  have "join '', '' (map quoteLiteral (map fst ?a)) @ ''],'' @ '' ['' @ join '', '' (map quoteLiteral (map snd ?a)) @ ''])'' =
      join '', '' (map quoteLiteral (map fst ?b)) @ ''],'' @ '' ['' @ join '', '' (map quoteLiteral (map snd ?b)) @ ''])''"
    using assms by (simp add: mapExpression_def Let_def comp_def)
  from literals_inject[OF this] have f: "map fst ?a = map fst ?b"
    and "join '', '' (map quoteLiteral (map snd ?a)) @ '']'' @ '')'' = join '', '' (map quoteLiteral (map snd ?b)) @ '']'' @ '')''"
    by auto
  then have "map snd ?a = map snd ?b" using close by blast
  with f have "?a = ?b" by (metis zip_map_fst_snd)
  then show ?thesis by (metis mset_sort)
qed

lemma mapExpression_empty: "kvs \<noteq> [] \<Longrightarrow> mapExpression (Some kvs) \<noteq> mapExpression (Some [])"
proof
  assume ne: "kvs \<noteq> []" and eq: "mapExpression (Some kvs) = mapExpression (Some [])"
  let ?es = "sort_key fst kvs"
  let ?r = "'' ['' @ join '', '' (map quoteLiteral (map snd ?es)) @ ''])''"
  have "?es \<noteq> []" using ne by (metis mset_sort mset_zero_iff)
  then obtain z zs where z: "map fst ?es = z # zs" by (cases ?es) auto
  have "mapExpression (Some kvs) = ''map(['' @ join '', '' (map quoteLiteral (map fst ?es)) @ ''],'' @ ?r"
    using ne by (simp add: mapExpression_def Let_def comp_def)
  also have "\<dots> = ''map(['' @ quoteLiteral z @ literals_tail zs ?r" by (simp only: z literals_step)
  finally have lit: "mapExpression (Some kvs) = ''map(['' @ quoteLiteral z @ literals_tail zs ?r" .
  have "mapExpression (Some []) = ''map(['' @ ''], [])''" by (simp add: mapExpression_def)
  then have "quoteLiteral z @ literals_tail zs ?r = ''], [])''" using eq unfolding lit by (simp only: same_append_eq)
  then show False using quoteLiteral_hd[of z "literals_tail zs ?r"] quote_not_close(1) by simp
qed

text \<open>C30. The SQL text of the dimensions of a context is safe to put into a statement and faithful:
  whatever bytes the keys and values contain, quotes and brackets included, two maps of dimensions
  (each key once, in any order) give the same text exactly when they are the same map.\<close>

theorem mapExpression_faithful:
  assumes "distinct (map fst kvs)" "distinct (map fst kvs')"
  shows "mapExpression (Some kvs) = mapExpression (Some kvs') \<longleftrightarrow> map_of kvs = map_of kvs'"
proof
  assume eq: "mapExpression (Some kvs) = mapExpression (Some kvs')"
  show "map_of kvs = map_of kvs'"
  proof (cases "kvs = [] \<or> kvs' = []")
    case True
    then have "kvs = kvs'" using eq mapExpression_empty by metis
    then show ?thesis by simp
  next
    case False
    then have "set kvs = set kvs'" using mapExpression_inject[OF eq] by (metis set_mset_mset)
    then show ?thesis using map_of_inject_set[OF assms] by simp
  qed
next
  assume "map_of kvs = map_of kvs'"
  then have "set kvs = set kvs'" using map_of_inject_set[OF assms] by simp
  then have m: "mset kvs = mset kvs'" using assms by (simp add: distinct_map set_eq_iff_mset_eq_distinct)
  have "inj_on fst (set kvs)" using assms(1) by (simp add: distinct_map)
  then have "sort_key fst kvs = sort_key fst kvs'" using m by (intro sort_key_inj_key_eq) simp_all
  moreover have "kvs = [] \<longleftrightarrow> kvs' = []" using m by auto
  ultimately show "mapExpression (Some kvs) = mapExpression (Some kvs')" by (simp add: mapExpression_def)
qed

theorem mapExpression_faithful_witness:
  "mapExpression (Some [([CHR 0x27, CHR ''x''], ''1''), (''a'', [CHR 0x27])]) =
   mapExpression (Some [(''a'', [CHR 0x27]), ([CHR 0x27, CHR ''x''], ''1'')])"
proof -
  let ?a = "[([CHR 0x27, CHR ''x''], ''1''), (''a'', [CHR 0x27])]" and ?b = "[(''a'', [CHR 0x27]), ([CHR 0x27, CHR ''x''], ''1'')]"
  have "map_of ?a = map_of ?b" by (auto simp: fun_eq_iff)
  then show ?thesis using mapExpression_faithful[of ?a ?b] by simp
qed

section \<open>Upserts\<close>

text \<open>The documented behaviour of a table with a unique key under \<open>ON CONFLICT DO NOTHING\<close>.\<close>

definition keyed_table :: "'w duck \<Rightarrow> string \<Rightarrow> ('w \<Rightarrow> string \<rightharpoonup> string) \<Rightarrow> bool" where
  "keyed_table D statement rows \<longleftrightarrow>
     (\<forall>w w' i k rest. duExec D w statement (Some i # Some k # rest) = (w', None) \<longrightarrow>
        rows w' = (if rows w k = None then (rows w)(k \<mapsto> i) else rows w)) \<and>
     (\<forall>w sql k. duQuery D w sql k = (case rows w k of Some i \<Rightarrow> Inl i | None \<Rightarrow> Inr ''no rows'')) \<and>
     (\<forall>w. rows (fst (duNewID D w)) = rows w)"

lemma upsert_row:
  assumes "keyed_table D agents_statement rows" "UpsertAgent J D spec name w = (w', Inl (i, key))"
  shows "rows w' key = Some i \<and> (\<forall>j. rows w key = Some j \<longrightarrow> i = j \<and> rows w' = rows w)"
proof -
  obtain v canonical n w1 where v: "spec = Some v" "CanonicalJSON (jeDecode J) (jeStr J) v = Inl canonical"
      "duNewID D w = (w1, n)"
    using assms(2) by (auto simp: UpsertAgent_def split: option.splits sum.splits) (metis surj_pair)
  let ?args = "[Some n, Some (fingerprintBytes (jeSha256 J) canonical), Some canonical, Some name]"
  obtain w2 where w2: "duExec D w1 agents_statement ?args = (w2, None)" "w' = w2"
      "key = fingerprintBytes (jeSha256 J) canonical" "lookupID D w2 ''agents'' ''agent_id'' ''agent_key'' key = Inl i"
    using assms(2) v by (auto simp: UpsertAgent_def insert_and_lookup_def Let_def split: option.splits sum.splits prod.splits)
  have "rows w1 = rows w" using assms(1) v(3) by (metis fst_conv keyed_table_def)
  moreover have "rows w2 = (if rows w1 key = None then (rows w1)(key \<mapsto> n) else rows w1)"
  proof -
    have "duExec D u agents_statement (Some m # Some k # r) = (u', None) \<Longrightarrow>
        rows u' = (if rows u k = None then (rows u)(k \<mapsto> m) else rows u)" for u u' m k r
      using assms(1) unfolding keyed_table_def by blast
    from this[OF w2(1)] show ?thesis by (simp add: w2(3))
  qed
  moreover have "rows w2 key = Some i"
    using assms(1) w2(4) by (auto simp: keyed_table_def lookupID_def split: option.splits)
  ultimately show ?thesis using w2(2) by (auto split: if_splits)
qed

text \<open>A second upsert of a spec with the same canonical text answers the row of the first and changes nothing.\<close>

lemma upsert_again:
  assumes "keyed_table D agents_statement rows"
    and "UpsertAgent J D (Some v) name w = (w1, Inl (i, key))" "UpsertAgent J D (Some v') name' w1 = (w2, Inl (i', key'))"
    and "CanonicalJSON (jeDecode J) (jeStr J) v = CanonicalJSON (jeDecode J) (jeStr J) v'"
  shows "i' = i \<and> key' = key \<and> rows w2 = rows w1"
proof -
  have "key' = key"
    using assms(2-4) by (auto simp: UpsertAgent_def insert_and_lookup_def Let_def split: sum.splits prod.splits option.splits)
  then show ?thesis using upsert_row[OF assms(1,2)] upsert_row[OF assms(1,3)] by auto
qed

section \<open>Shared keys\<close>

text \<open>An equals sign in a key or value makes different dimensions one key, so the second context is not stored.\<close>

lemma dims_collide:
  "CanonicalDims (Some [(''a'', ''b=c'')]) = CanonicalDims (Some [(''a=b'', ''c'')])"
  "mapExpression (Some [(''a'', ''b=c'')]) \<noteq> mapExpression (Some [(''a=b'', ''c'')])"
  by (code_simp, code_simp)

lemma contexts_collide:
  "CanonicalDims d = CanonicalDims d' \<Longrightarrow> ContextKey J (c\<lparr>cxDims := d\<rparr>) = ContextKey J (c\<lparr>cxDims := d'\<rparr>)"
  by (simp add: ContextKey_def context_payload_def)

lemma no_dims_collide: "CanonicalDims None = CanonicalDims (Some [])" "mapExpression None \<noteq> mapExpression (Some [])"
  by (simp_all add: CanonicalDims_def mapExpression_def)

text \<open>The key does not cover the ids of agent and question: without their keys, contexts of two agents are one.\<close>

lemma ids_not_in_key: "ContextKey J (c\<lparr>cxAgentID := a, cxQuestionID := q\<rparr>) = ContextKey J c"
  by (simp add: ContextKey_def context_payload_def)

end
