(* ===== verification/Ratelimiterd.thy ===== *)
theory Ratelimiterd
  imports Api_Theorems TB_Ops Go_Text
begin

text \<open>
  The daemon \<open>cmd/ratelimiterd\<close>: its configuration (\<open>config.go\<close>) and how \<open>main.go\<close> puts registry,
  backend and API together.  Reading and decoding files, the connections to TigerBeetle and how
  serving ends are parameters.
\<close>

section \<open>Configuration\<close>

record daemon_config =
  dcListenAddr :: string
  dcBackend :: string
  dcRegistryPath :: string
  dcClusterID :: string
  dcAddresses :: "string list"
  dcSessions :: go_int
  dcMaxBatchEvents :: go_int
  dcFlushIntervalMicros :: go_int

definition daemon_defaults :: "daemon_config \<Rightarrow> daemon_config + string" where
  "daemon_defaults cfg0 =
     (let cfg = cfg0\<lparr>dcListenAddr := (if dcListenAddr cfg0 = [] then '':8080'' else dcListenAddr cfg0),
                     dcBackend := (if dcBackend cfg0 = [] then ''memory'' else dcBackend cfg0)\<rparr> in
      if dcRegistryPath cfg = [] then Inr ''registry.path is required''
      else if dcBackend cfg = ''tigerbeetle'' then
        (if dcAddresses cfg = [] then Inr ''tigerbeetle.addresses is required''
         else Inl (cfg\<lparr>dcClusterID := (if dcClusterID cfg = [] then ''0'' else dcClusterID cfg)\<rparr>))
      else Inl cfg)"

definition loadConfig :: "(string \<Rightarrow> string + string) \<Rightarrow> (string \<Rightarrow> daemon_config + string) \<Rightarrow> string \<Rightarrow> daemon_config + string" where
  "loadConfig readFile unmarshal path =
     (case readFile path of
        Inr err \<Rightarrow> Inr err
      | Inl data \<Rightarrow> (case unmarshal data of Inr err \<Rightarrow> Inr err | Inl cfg \<Rightarrow> daemon_defaults cfg))"

text \<open>\<open>strconv.ParseUint\<close> in base 10 for 32 bits, digit by digit; the errors are a syntax and a range error.\<close>

definition digit_value :: "char \<Rightarrow> nat option" where
  "digit_value c = (let n = (of_char c :: nat) in if 48 \<le> n \<and> n \<le> 57 then Some (n - 48) else None)"

fun parse_digits :: "nat \<Rightarrow> string \<Rightarrow> nat + string" where
  "parse_digits n [] = Inl n"
| "parse_digits n (c # cs) =
     (case digit_value c of
        None \<Rightarrow> Inr ''invalid syntax''
      | Some d \<Rightarrow> if n * 10 + d \<ge> 2 ^ 32 then Inr ''value out of range'' else parse_digits (n * 10 + d) cs)"

definition parseClusterID :: "string \<Rightarrow> 32 word + string" where
  "parseClusterID s =
     (case (if s = [] then Inr ''invalid syntax'' else parse_digits 0 s) of
        Inr err \<Rightarrow> Inr (''invalid cluster_id: strconv.ParseUint: parsing '' @ quote s @ '': '' @ err)
      | Inl n \<Rightarrow> Inl (of_nat n))"

definition Microsecond :: duration where "Microsecond = 10 ^ 3"

definition flushInterval :: "daemon_config \<Rightarrow> duration" where
  "flushInterval cfg = (if dcFlushIntervalMicros cfg \<le> 0 then 0 else dur (dcFlushIntervalMicros cfg) Microsecond)"

section \<open>Start\<close>

record ('s, 'f) boot_env =
  beDecode :: "string \<Rightarrow> limit_state list + string"
  beReadErr :: go_error
  beDisk :: disk
  beOrder :: "registry \<Rightarrow> limit_key list"
  beDeps :: "('s, 'f) tb_deps"
  beConnect :: "32 word \<Rightarrow> string list \<Rightarrow> nat \<Rightarrow> go_error"
  beDefaultPolicy :: "'f retry_policy"
  beZeroPolicy :: "'f retry_policy"
  beService :: 's

datatype ('s, 'f) booted =
    MemoryDaemon "memory_backend api_handler"
  | TigerDaemon "('s, 'f) tb_deps" client_pool "'s tb_backend api_handler"

definition boot_tigerbeetle :: "('s, 'f) boot_env \<Rightarrow> daemon_config \<Rightarrow> registry \<Rightarrow> (('s, 'f) booted + string) option" where
  "boot_tigerbeetle B cfg reg =
     (case parseClusterID (dcClusterID cfg) of
        Inr err \<Rightarrow> Some (Inr (''cluster id error: '' @ err))
      | Inl clusterID \<Rightarrow>
         (case tb_New (beDeps B) (beConnect B clusterID (dcAddresses cfg)) (beDefaultPolicy B)
                 \<lparr>tcSessions = dcSessions cfg, tcMaxBatchEvents = dcMaxBatchEvents cfg,
                  tcFlushInterval = flushInterval cfg, tcHasRegistry = True, tcRetryPolicy = beZeroPolicy B\<rparr>
                 (beService B) (registry_List (beOrder B reg) reg) of
            None \<Rightarrow> None
          | Some (Inr err) \<Rightarrow> Some (Inr (''tb backend error: '' @ err))
          | Some (Inl (D, pool, b)) \<Rightarrow>
              Some (Inl (TigerDaemon D pool (NewHandler (Some reg) (Some b) (dcRegistryPath cfg))))))"

text \<open>Everything before the server: the booted daemon, or the line on standard error.\<close>

definition boot :: "('s, 'f) boot_env \<Rightarrow> daemon_config + string \<Rightarrow> (('s, 'f) booted + string) option" where
  "boot B loaded =
     (case loaded of
        Inr err \<Rightarrow> Some (Inr (''config error: '' @ err))
      | Inl cfg \<Rightarrow>
         (case registry_Load (beDecode B) (beReadErr B) registry_New (dcRegistryPath cfg) (beDisk B) of
            (reg, Some err) \<Rightarrow> Some (Inr (''registry load error: '' @ err))
          | (reg, None) \<Rightarrow>
              if dcBackend cfg = ''tigerbeetle'' then boot_tigerbeetle B cfg reg
              else Some (Inl (MemoryDaemon (daemon_start reg (beOrder B reg) (dcRegistryPath cfg))))))"

section \<open>Serving\<close>

datatype server_end = Interrupted | ServerFailed string

text \<open>The exit code and the last line of standard error of \<open>run\<close>.\<close>

definition daemon_exit :: "('s, 'f) booted + string \<Rightarrow> server_end \<Rightarrow> go_int \<times> string" where
  "daemon_exit b e =
     (case b of
        Inr err \<Rightarrow> (1, err)
      | Inl _ \<Rightarrow> (0, case e of Interrupted \<Rightarrow> [] | ServerFailed err \<Rightarrow> ''server error: '' @ err))"

datatype daemon_call = Healthz | ApiCall api_call

definition daemon_serve ::
    "'b backend_ops \<Rightarrow> 'b api_handler \<Rightarrow> daemon_call \<Rightarrow> ('b api_handler \<times> (http_response + string)) option" where
  "daemon_serve ops h call =
     (case call of
        Healthz \<Rightarrow> Some (h, Inr ''ok'')
      | ApiCall c \<Rightarrow> map_option (\<lambda>(h', r). (h', Inl r)) (api_serve ops h c))"

section \<open>Facts\<close>

lemma digit_value_digit: "d < 10 \<Longrightarrow> digit_value (digit d) = Some d"
  by (simp add: digit_value_def of_char_digit Let_def)

lemma parse_digits_snoc:
  assumes "d < 10"
  shows "parse_digits n (xs @ [digit d]) =
    (case parse_digits n xs of Inr err \<Rightarrow> Inr err
     | Inl m \<Rightarrow> if m * 10 + d \<ge> 2 ^ 32 then Inr ''value out of range'' else Inl (m * 10 + d))"
  by (induction n xs rule: parse_digits.induct) (auto simp: digit_value_digit[OF assms] split: option.splits)

lemma parse_digits_decimal:
  "parse_digits 0 (decimal n) = (if n < 2 ^ 32 then Inl n else Inr ''value out of range'')"
proof (induction n rule: decimal.induct)
  case (1 n)
  show ?case
  proof (cases "n < 10")
    case True
    then have "decimal n = [digit n]" by (simp add: decimal.simps[of n])
    then show ?thesis using True by (simp add: digit_value_digit)
  next
    case False
    then have d: "decimal n = decimal (n div 10) @ [digit (n mod 10)]" by (simp add: decimal.simps[of n])
    have "n div 10 * 10 + n mod 10 = n" "n < 2 ^ 32 \<Longrightarrow> n div 10 < 2 ^ 32" by simp_all
    then show ?thesis using 1 False unfolding d by (auto simp: parse_digits_snoc)
  qed
qed

text \<open>The written form of a cluster id is read back, and one beyond 32 bits is refused.\<close>

lemma parseClusterID_decimal:
  "parseClusterID (decimal n) =
     (if n < 2 ^ 32 then Inl (of_nat n)
      else Inr (''invalid cluster_id: strconv.ParseUint: parsing '' @ quote (decimal n) @ '': value out of range''))"
  by (simp add: parseClusterID_def parse_digits_decimal)

lemma registry_of_list_wf: "wf_registry (registry_of_list states)"
proof -
  have "wf_registry r \<Longrightarrow> wf_registry (fold (\<lambda>s r. registry_Put r s) states r)" for r
    by (induction states arbitrary: r) (auto intro: wf_registry_Put)
  then show ?thesis using wf_registry_New by (simp add: registry_of_list_def registry_New_def)
qed

text \<open>A loaded configuration is complete.\<close>

lemma loadConfig_complete:
  assumes "loadConfig readFile unmarshal path = Inl cfg"
  shows "dcListenAddr cfg \<noteq> [] \<and> dcBackend cfg \<noteq> [] \<and> dcRegistryPath cfg \<noteq> [] \<and>
    (dcBackend cfg = ''tigerbeetle'' \<longrightarrow> dcAddresses cfg \<noteq> [] \<and> dcClusterID cfg \<noteq> [])"
  using assms by (auto simp: loadConfig_def daemon_defaults_def Let_def split: sum.splits if_splits)

text \<open>Whatever is on disk, the memory daemon starts on the states it decodes, and health checks change nothing.\<close>

lemma boot_memory:
  assumes "dcBackend cfg \<noteq> ''tigerbeetle''" "boot B (Inl cfg) = Some (Inl d)"
  shows "\<exists>reg. wf_registry reg \<and> d = MemoryDaemon (daemon_start reg (beOrder B reg) (dcRegistryPath cfg))"
proof -
  obtain reg where reg: "registry_Load (beDecode B) (beReadErr B) registry_New (dcRegistryPath cfg) (beDisk B) = (reg, None)"
      "d = MemoryDaemon (daemon_start reg (beOrder B reg) (dcRegistryPath cfg))"
    using assms by (auto simp: boot_def split: prod.splits option.splits if_splits)
  have "wf_registry reg"
    using reg(1) registry_of_list_wf wf_registry_New
    by (auto simp: registry_Load_def split: if_splits option.splits sum.splits)
  with reg(2) show ?thesis by blast
qed

lemma healthz_changes_nothing: "daemon_serve ops h Healthz = Some (h, Inr ''ok'')"
  by (simp add: daemon_serve_def)

text \<open>A misspelt backend runs in memory, and a server that cannot listen ends with exit code 0.\<close>

lemma misspelt_backend_runs_memory:
  assumes "registry_Load (beDecode B) (beReadErr B) registry_New (dcRegistryPath cfg) (beDisk B) = (reg, None)"
  shows "boot B (Inl (cfg\<lparr>dcBackend := ''TigerBeetle''\<rparr>)) =
    Some (Inl (MemoryDaemon (daemon_start reg (beOrder B reg) (dcRegistryPath cfg))))"
  using assms by (simp add: boot_def)

lemma failed_server_exits_0: "daemon_exit (Inl d) (ServerFailed err) = (0, ''server error: '' @ err)"
  by (simp add: daemon_exit_def)

end
