(* ===== verification/Report_Server.thy ===== *)
theory Report_Server
  imports Cli_Commands
begin

text \<open>
  The report server (\<open>internal/reportserver\<close>: \<open>assets.go\<close>, \<open>handler.go\<close>, \<open>server.go\<close>): which assets
  the page links and which requests are answered by what.  The embedded files, the decoded manifest
  and how listening ends are parameters; routing is the longest matching pattern of \<open>http.ServeMux\<close>
  on a clean path.
\<close>

section \<open>Assets\<close>

record manifest_entry =
  meFile :: string
  meCSS :: "string list"

type_synonym asset_manifest = "string \<rightharpoonup> manifest_entry"

record report_assets =
  raScript :: string
  raStyles :: "string list"

definition reportEntryKey :: string where "reportEntryKey = ''index.html''"

definition newAssetResolver :: "string \<Rightarrow> string" where
  "newAssetResolver baseURL = TrimRight baseURL slash"

definition asset_URL :: "string \<Rightarrow> string \<Rightarrow> string" where
  "asset_URL resolver assetPath =
     (let trimmed = dropWhile (\<lambda>c. c = slash) assetPath in
      if resolver = [] then ''/assets/'' @ trimmed else resolver @ ''/'' @ trimmed)"

text \<open>\<open>openFile\<close> opens and reads the embedded manifest.\<close>

definition loadEmbeddedManifest ::
    "string + string \<Rightarrow> (string \<Rightarrow> (asset_manifest \<times> nat) + string) \<Rightarrow> asset_manifest + string" where
  "loadEmbeddedManifest openFile unmarshal =
     (case openFile of
        Inr err \<Rightarrow> Inr (''reportserver: read manifest: '' @ err)
      | Inl bytes \<Rightarrow>
         (case unmarshal bytes of
            Inr err \<Rightarrow> Inr (''reportserver: parse manifest: '' @ err)
          | Inl (manifest, entries) \<Rightarrow> if entries = 0 then Inr ''reportserver: manifest is empty'' else Inl manifest))"

definition resolveReportAssets :: "asset_manifest \<Rightarrow> report_assets + string" where
  "resolveReportAssets manifest =
     (case manifest reportEntryKey of
        None \<Rightarrow> Inr (''reportserver: manifest missing '' @ reportEntryKey @ '' entry'')
      | Some e \<Rightarrow>
          if meFile e = [] then Inr ''reportserver: manifest entry missing script file''
          else Inl \<lparr>raScript = meFile e, raStyles = meCSS e\<rparr>)"

section \<open>The page\<close>

definition dq :: string where "dq = [CHR 0x22]"

definition buildCSSLinks :: "string \<Rightarrow> string list \<Rightarrow> string" where
  "buildCSSLinks resolver styles =
     concat (map (\<lambda>s. ''<link rel='' @ dq @ ''stylesheet'' @ dq @ '' href='' @ dq @ asset_URL resolver s @ dq @ '' />'' @ nl) styles)"

definition index_html :: "string \<Rightarrow> string \<Rightarrow> string" where
  \<open>index_html cssLinks jsURL =
     concat (map (\<lambda>line. line @ nl)
       [''<!doctype html>'', ''<html lang="en">'', ''  <head>'', ''    <meta charset="utf-8" />'',
        ''    <meta name="viewport" content="width=device-width, initial-scale=1" />'',
        ''    <title>Cogni Report</title>'', ''    '' @ cssLinks, ''  </head>'', ''  <body>'', ''    <div id="app">'',
        ''      <h1>Cogni Report</h1>'', ''      <p>Report assets and interactive charts will load here.</p>'',
        ''    </div>'', ''    <script type="module" src="'' @ jsURL @ ''"></script>'', ''  </body>'']) @ ''</html>''\<close>

definition serveIndex :: "string \<Rightarrow> report_assets \<Rightarrow> string" where
  "serveIndex resolver assets = index_html (buildCSSLinks resolver (raStyles assets)) (asset_URL resolver (raScript assets))"

section \<open>Requests\<close>

datatype report_reply =
    HtmlPage string
  | DatabaseFile string
  | MethodNotAllowed string
  | AssetFile string

definition serveDatabase :: "string \<Rightarrow> string \<Rightarrow> report_reply" where
  "serveDatabase dbPath verb = (if verb \<noteq> ''GET'' then MethodNotAllowed ''GET'' else DatabaseFile dbPath)"

text \<open>The handler: a request is its method and path.\<close>

definition report_handler ::
    "asset_manifest + string \<Rightarrow> go_error \<Rightarrow> serve_config \<Rightarrow> (string \<Rightarrow> string \<Rightarrow> report_reply) + string" where
  "report_handler manifest subErr cfg =
     (if svDBPath cfg = [] then Inr ''reportserver: db path is required''
      else case manifest of
        Inr err \<Rightarrow> Inr err
      | Inl m \<Rightarrow>
         (case resolveReportAssets m of
            Inr err \<Rightarrow> Inr err
          | Inl assets \<Rightarrow>
              let resolver = newAssetResolver (svAssetsBaseURL cfg) in
              if svAssetsBaseURL cfg = [] \<and> subErr \<noteq> None
              then Inr (''reportserver: open embedded assets: '' @ the subErr)
              else Inl (\<lambda>verb path.
                if path = ''/data/db.duckdb'' then serveDatabase (svDBPath cfg) verb
                else if svAssetsBaseURL cfg = [] \<and> prefix ''/assets/'' path then AssetFile (drop 8 path)
                else HtmlPage (serveIndex resolver assets))))"

datatype listen_end = ServerClosed | ListenError string | ContextDone "string option"

text \<open>\<open>Serve\<close>: what it returns once listening has ended; after a shutdown the error of the listener counts.\<close>

definition Serve :: "asset_manifest + string \<Rightarrow> go_error \<Rightarrow> serve_config \<Rightarrow> listen_end \<Rightarrow> go_error" where
  "Serve manifest subErr cfg e =
     (if svAddr cfg = [] then Some ''reportserver: addr is required''
      else case report_handler manifest subErr cfg of
        Inr err \<Rightarrow> Some err
      | Inl h \<Rightarrow> (case e of ServerClosed \<Rightarrow> None | ListenError err \<Rightarrow> Some err | ContextDone err \<Rightarrow> err))"

section \<open>Facts\<close>

text \<open>With embedded assets every asset the page links is answered with its file.\<close>

lemma linked_assets_served:
  assumes "report_handler manifest subErr cfg = Inl h" "svAssetsBaseURL cfg = []"
  shows "h verb (asset_URL (newAssetResolver (svAssetsBaseURL cfg)) p) = AssetFile (dropWhile (\<lambda>c. c = slash) p)"
  using assms
  by (auto simp: report_handler_def Let_def asset_URL_def newAssetResolver_def TrimRight_def split: if_splits sum.splits)

lemma database_served_to_GET:
  assumes "report_handler manifest subErr cfg = Inl h"
  shows "h verb ''/data/db.duckdb'' = (if verb = ''GET'' then DatabaseFile (svDBPath cfg) else MethodNotAllowed ''GET'')"
  using assms by (auto simp: report_handler_def Let_def serveDatabase_def split: if_splits sum.splits)

text \<open>
  A base URL of slashes only is trimmed to nothing, so the page links the embedded assets, which are
  not routed: their requests get the page itself.
\<close>

lemma slash_base_url_unserved:
  assumes "report_handler (Inl m) subErr \<lparr>svAddr = a, svDBPath = d, svAssetsBaseURL = ''/''\<rparr> = Inl h"
    "resolveReportAssets m = Inl assets"
  shows "asset_URL (newAssetResolver ''/'') p = ''/assets/'' @ dropWhile (\<lambda>c. c = slash) p"
    "h verb (asset_URL (newAssetResolver ''/'') p) = HtmlPage (serveIndex [] assets)"
proof -
  have r: "newAssetResolver ''/'' = []" by (simp add: newAssetResolver_def TrimRight_def slash_def)
  then show "asset_URL (newAssetResolver ''/'') p = ''/assets/'' @ dropWhile (\<lambda>c. c = slash) p"
    by (simp add: asset_URL_def Let_def)
  then show "h verb (asset_URL (newAssetResolver ''/'') p) = HtmlPage (serveIndex [] assets)"
    using assms r by (auto simp: report_handler_def Let_def split: if_splits)
qed

end
