(* ===== verification/Lease_Ids.thy ===== *)
theory Lease_Ids
  imports Go_Prelude
begin

text \<open>
  The lease and job ids of pkg/ratelimiter/ulid.go: six bytes of the clock's milliseconds and ten
  random bytes, written in base 32 without padding.  When the system's randomness fails, a
  process-wide counter and the low bytes of the clock take its place.  The counter is state; the
  clock and the random bytes are arguments.
\<close>

section \<open>Base 32 without padding\<close>

type_synonym ulid_byte = "8 word"

definition ulidAlphabet :: string where
  "ulidAlphabet = ''0123456789ABCDEFGHJKMNPQRSTVWXYZ''"

definition byte_bits :: "ulid_byte \<Rightarrow> bool list" where
  "byte_bits b = map (bit b) (rev [0..<8])"

text \<open>Five bits a character, the last one filled up with zero bits.\<close>

fun quintets :: "bool list \<Rightarrow> bool list list" where
  "quintets [] = []"
| "quintets (b # bs) = take 5 (b # bs @ replicate 4 False) # quintets (drop 4 bs)"

primrec bits_value :: "bool list \<Rightarrow> nat" where
  "bits_value [] = 0"
| "bits_value (b # bs) = of_bool b * 2 ^ length bs + bits_value bs"

definition ulid_char :: "bool list \<Rightarrow> char" where
  "ulid_char q = ulidAlphabet ! bits_value q"

definition ulid_encode :: "ulid_byte list \<Rightarrow> string" where
  "ulid_encode data = map ulid_char (quintets (concat (map byte_bits data)))"

section \<open>Ids\<close>

definition ulid_time :: "uint64 \<Rightarrow> ulid_byte list" where
  "ulid_time ms = map (\<lambda>k. ucast (drop_bit k ms)) [40, 32, 24, 16, 8, 0]"

definition fillULIDFallback :: "uint64 \<Rightarrow> uint64 \<Rightarrow> uint64 \<times> ulid_byte list" where
  "fillULIDFallback ulidCounter ms =
     (let counter = ulidCounter + 1 in
      (counter, map (\<lambda>k. ucast (drop_bit k counter)) [56, 48, 40, 32, 24, 16, 8, 0] @
         [ucast (drop_bit 8 ms), ucast ms]))"

definition NewULID :: "uint64 \<Rightarrow> ulid_byte list option \<Rightarrow> uint64 \<Rightarrow> uint64 \<times> string" where
  "NewULID ms randomness ulidCounter =
     (case randomness of
        Some r \<Rightarrow> (ulidCounter, ulid_encode (ulid_time ms @ r))
      | None \<Rightarrow> (case fillULIDFallback ulidCounter ms of
                  (counter, r) \<Rightarrow> (counter, ulid_encode (ulid_time ms @ r))))"

section \<open>Order and injectivity of the encoding\<close>

lemma length_byte_bits [simp]: "length (byte_bits b) = 8"
  by (simp add: byte_bits_def)

lemma length_concat_byte_bits [simp]: "length (concat (map byte_bits bs)) = 8 * length bs"
  by (induction bs) simp_all

lemma length_quintets: "length (quintets bs) = (length bs + 4) div 5"
proof (induction bs rule: quintets.induct)
  case (2 b bs)
  show ?case using "2.IH" by simp presburger
qed simp

lemma quintets_width: "q \<in> set (quintets bs) \<Longrightarrow> length q = 5"
  by (induction bs rule: quintets.induct) (auto simp: min_def)

lemma bits_value_less: "bits_value bs < 2 ^ length bs"
  by (induction bs) (auto simp: of_bool_def)

text \<open>Lists of one length compare as the numbers they are the digits of.\<close>

lemma bits_value_order: "length xs = length ys \<Longrightarrow> xs < ys \<longleftrightarrow> bits_value xs < bits_value ys"
proof (induction xs ys rule: list_induct2)
  case (Cons x xs y ys)
  have "bits_value xs < 2 ^ length ys" "bits_value ys < 2 ^ length ys"
    using bits_value_less[of xs] bits_value_less[of ys] Cons.hyps by simp_all
  then show ?case using Cons by (cases x; cases y) auto
qed simp

lemma less_append: "length (xs :: 'a :: linorder list) = length ys \<Longrightarrow>
    xs @ us < ys @ vs \<longleftrightarrow> xs < ys \<or> xs = ys \<and> us < vs"
  by (induction xs ys rule: list_induct2) auto

lemma map_less: "length xs = length ys \<Longrightarrow> xs < ys \<Longrightarrow>
    (\<And>x y. x \<in> set xs \<Longrightarrow> y \<in> set ys \<Longrightarrow> x < y \<Longrightarrow> f x < (f y :: 'b :: linorder)) \<Longrightarrow>
    map f xs < map f (ys :: 'a :: linorder list)"
  by (induction xs ys rule: list_induct2) auto

lemma ulidAlphabet_length [simp]: "length ulidAlphabet = 32"
  by (simp add: ulidAlphabet_def)

lemma ulidAlphabet_sorted: "i < j \<Longrightarrow> j < 32 \<Longrightarrow> ulidAlphabet ! i < ulidAlphabet ! j"
proof -
  have s: "sorted_wrt (<) ulidAlphabet" by code_simp
  show "i < j \<Longrightarrow> j < 32 \<Longrightarrow> ulidAlphabet ! i < ulidAlphabet ! j"
    using sorted_wrt_nth_less[OF s, of i j] by simp
qed

lemma ulid_char_less: "length p = 5 \<Longrightarrow> length q = 5 \<Longrightarrow> p < q \<Longrightarrow> ulid_char p < ulid_char q"
  using bits_value_less[of q] by (simp add: ulid_char_def ulidAlphabet_sorted bits_value_order)

lemma quintets_less: "length bs = length cs \<Longrightarrow> bs < cs \<Longrightarrow> quintets bs < quintets cs"
proof (induction bs arbitrary: cs rule: quintets.induct)
  case (2 b bs)
  then obtain c cs' where cs: "cs = c # cs'" "length bs = length cs'" by (cases cs) auto
  let ?l = "take 4 (bs @ replicate 4 False)" and ?r = "take 4 (cs' @ replicate 4 False)"
  have len: "length (take 4 bs) = length (take 4 cs')" "length (drop 4 bs) = length (drop 4 cs')"
    using cs by simp_all
  have pad: "take 4 (zs @ replicate 4 False) = take 4 zs @ replicate (4 - length zs) False" for zs
    by simp
  have "b < c \<or> b = c \<and> take 4 bs @ drop 4 bs < take 4 cs' @ drop 4 cs'" using 2 cs by simp
  then have "b < c \<or> b = c \<and> (take 4 bs < take 4 cs' \<or>
      take 4 bs = take 4 cs' \<and> drop 4 bs < drop 4 cs')"
    by (simp only: less_append[OF len(1)])
  moreover have "take 4 bs < take 4 cs' \<Longrightarrow> ?l < ?r"
    using less_append[OF len(1)] cs(2) by (simp add: pad)
  moreover have "take 4 bs = take 4 cs' \<Longrightarrow> ?l = ?r" using cs(2) by (simp add: pad)
  ultimately have "b < c \<or> b = c \<and> (?l < ?r \<or> ?l = ?r \<and> quintets (drop 4 bs) < quintets (drop 4 cs'))"
    using "2.IH"[OF len(2)] by blast
  then show ?case by (auto simp: cs)
qed simp

lemma ulid_encode_less:
  assumes "length xs = length ys" "concat (map byte_bits xs) < concat (map byte_bits ys)"
  shows "ulid_encode xs < ulid_encode ys"
  unfolding ulid_encode_def
  by (rule map_less)
    (use assms quintets_width in \<open>auto simp: length_quintets intro!: quintets_less ulid_char_less\<close>)

lemma bits_value_bits: "bits_value (map (bit a) (rev [0..<n])) = take_bit n (a :: nat)"
  by (induction n) (auto simp: take_bit_Suc_from_most ac_simps)

lemma byte_bits_inject [simp]: "byte_bits a = byte_bits b \<longleftrightarrow> a = b"
  by (auto simp: byte_bits_def intro!: bit_word_eqI)

lemma concat_byte_bits_inject:
  "length xs = length ys \<Longrightarrow> concat (map byte_bits xs) = concat (map byte_bits ys) \<longleftrightarrow> xs = ys"
  by (induction xs ys rule: list_induct2) auto

lemma ulid_encode_inject:
  assumes "length xs = length ys"
  shows "ulid_encode xs = ulid_encode ys \<longleftrightarrow> xs = ys"
  using ulid_encode_less[of xs ys] ulid_encode_less[of ys xs] assms
    concat_byte_bits_inject[OF assms] by (metis less_irrefl linorder_less_linear)

section \<open>Properties of the ids\<close>

lemma byte_bits_slice: "byte_bits (ucast (drop_bit k (ms :: uint64))) = map (bit ms) (map ((+) k) (rev [0..<8]))"
  by (auto simp: byte_bits_def bit_simps comp_def)

lemma ulid_time_bits: "concat (map byte_bits (ulid_time ms)) = map (bit ms) (rev [0..<48])"
proof -
  have "rev [0..<48] = concat (map (\<lambda>k. map ((+) k) (rev [0..<8])) [40, 32, 24, 16, 8, 0])" by code_simp
  then have "map (bit ms) (rev [0..<48]) =
      concat (map (\<lambda>k. byte_bits (ucast (drop_bit k ms))) [40, 32, 24, 16, 8, 0])"
    by (simp only: byte_bits_slice map_concat map_map comp_def)
  then show ?thesis by (simp only: ulid_time_def map_map comp_def)
qed

lemma ulid_time_length [simp]: "length (ulid_time ms) = 6"
  by (simp add: ulid_time_def)

lemma bits_of_ms: "bits_value (concat (map byte_bits (ulid_time ms))) = take_bit 48 (unat ms)"
proof -
  have "map (bit ms) (rev [0..<48]) = map (bit (unat ms)) (rev [0..<48])"
    by (simp add: bit_unsigned_iff)
  then show ?thesis by (simp only: ulid_time_bits bits_value_bits)
qed

text \<open>An id has 26 characters of the alphabet.\<close>

lemma ulid_shape:
  assumes "length r = 10"
  shows "length (snd (NewULID ms (Some r) c)) = 26" "set (snd (NewULID ms (Some r) c)) \<subseteq> set ulidAlphabet"
proof -
  show "length (snd (NewULID ms (Some r) c)) = 26"
    using assms by (simp add: NewULID_def ulid_encode_def length_quintets ulid_time_def)
  have "ulid_char q \<in> set ulidAlphabet" if "length q = 5" for q
    using that bits_value_less[of q] by (simp add: ulid_char_def)
  then show "set (snd (NewULID ms (Some r) c)) \<subseteq> set ulidAlphabet"
    using quintets_width by (auto simp: NewULID_def ulid_encode_def)
qed

text \<open>Without randomness the ids of one process still differ, as long as the counter does.\<close>

lemma be64_inject:
  assumes "map (\<lambda>k. ucast (drop_bit k c) :: ulid_byte) [56, 48, 40, 32, 24, 16, 8, 0] =
           map (\<lambda>k. ucast (drop_bit k d)) [56, 48, 40, 32, 24, 16, 8, 0]"
  shows "c = (d :: uint64)"
proof (rule bit_word_eqI)
  fix n :: nat
  assume n: "n < LENGTH(64)"
  have eq: "(ucast (drop_bit (8 * (n div 8)) c) :: ulid_byte) = ucast (drop_bit (8 * (n div 8)) d)"
  proof -
    have "n div 8 \<in> {0, 1, 2, 3, 4, 5, 6, 7}" using n by auto
    then show ?thesis using assms by auto
  qed
  have "bit (ucast (drop_bit (8 * (n div 8)) x) :: ulid_byte) (n mod 8) = bit x n" for x :: uint64
    using n by (simp add: bit_simps)
  then show "bit c n = bit d n" using eq by metis
qed

theorem ulid_fallback_distinct:
  "snd (NewULID ms1 None c1) = snd (NewULID ms2 None c2) \<longleftrightarrow>
     c1 = c2 \<and> take_bit 48 ms1 = take_bit 48 ms2"
proof -
  let ?f = "\<lambda>c. map (\<lambda>k. ucast (drop_bit k c) :: ulid_byte) [56, 48, 40, 32, 24, 16, 8, 0]"
  let ?d = "\<lambda>ms c. ulid_time ms @ snd (fillULIDFallback c ms)"
  have id: "snd (NewULID ms None c) = ulid_encode (?d ms c)" for ms c
    by (simp add: NewULID_def fillULIDFallback_def Let_def)
  have time: "ulid_time ms1 = ulid_time ms2 \<longleftrightarrow> take_bit 48 ms1 = take_bit 48 ms2"
  proof -
    have "ulid_time ms1 = ulid_time ms2 \<longleftrightarrow> map (bit ms1) (rev [0..<48]) = map (bit ms2) (rev [0..<48])"
      by (subst concat_byte_bits_inject[symmetric]) (simp_all only: ulid_time_bits ulid_time_length)
    also have "\<dots> \<longleftrightarrow> (\<forall>i < 48. bit ms1 i = bit ms2 i)" by auto
    also have "\<dots> \<longleftrightarrow> take_bit 48 ms1 = take_bit 48 ms2"
    proof -
      have w: "i < 48 \<Longrightarrow> i < 64" for i :: nat by simp
      have "(\<forall>i < 48. bit ms1 i = bit ms2 i) \<longleftrightarrow> (\<forall>i < 64. i < 48 \<longrightarrow> bit ms1 i = bit ms2 i)"
        using w by blast
      then show ?thesis by (auto simp: bit_eq_iff bit_simps)
    qed
    finally show ?thesis .
  qed
  have low: "ulid_time ms1 = ulid_time ms2 \<Longrightarrow> (ucast (drop_bit 8 ms1) :: ulid_byte) = ucast (drop_bit 8 ms2) \<and>
      (ucast ms1 :: ulid_byte) = ucast ms2"
    by (simp add: ulid_time_def)
  have cnt: "?f (c1 + 1) = ?f (c2 + 1) \<longleftrightarrow> c1 = c2" using be64_inject[of "c1 + 1" "c2 + 1"] by auto
  have "length (?d ms1 c1) = length (?d ms2 c2)" by (simp add: ulid_time_def fillULIDFallback_def Let_def)
  then have "snd (NewULID ms1 None c1) = snd (NewULID ms2 None c2) \<longleftrightarrow> ?d ms1 c1 = ?d ms2 c2"
    by (simp only: id ulid_encode_inject)
  also have "\<dots> \<longleftrightarrow> ulid_time ms1 = ulid_time ms2 \<and> ?f (c1 + 1) = ?f (c2 + 1)"
    using low by (auto simp: ulid_time_def fillULIDFallback_def Let_def)
  finally show ?thesis using time cnt by blast
qed

text \<open>
  A reader of ULIDs takes the first ten characters as the digits of the time.  There the two bits
  that 26 characters have too many are in front, here they are zero bits at the end: the time that
  is read is four times the clock.
\<close>

definition ulid_digits :: "string \<Rightarrow> nat list" where
  "ulid_digits s = map (\<lambda>c. length (takeWhile ((\<noteq>) c) ulidAlphabet)) s"

definition ulid_read_time :: "string \<Rightarrow> nat" where
  "ulid_read_time s = foldl (\<lambda>n d. 32 * n + d) 0 (ulid_digits (take 10 s))"

lemma ulid_time_misread:
  "ulid_read_time (snd (NewULID 1700000000000 (Some (replicate 10 0)) 0)) = 4 * 1700000000000"
proof -
  have "ulid_digits (take 10 (snd (NewULID 1700000000000 (Some (replicate 10 0)) 0))) = [0, 6, 5, 28, 31, 25, 11, 8, 0, 0]"
    by code_simp
  then show ?thesis by (simp add: ulid_read_time_def)
qed

text \<open>C21. Ids with ten random bytes have 26 characters of the alphabet; an id made in a later
  millisecond is the greater string, whatever the randomness; and two ids are equal only when made in
  one millisecond with the same randomness.  This holds until the clock needs more than 48 bits.\<close>

theorem ulid_ordered:
  fixes ms1 ms2 c1 c2 :: uint64
  assumes "ms1 \<le> ms2" "ms2 < 2 ^ 48" "length r1 = 10" "length r2 = 10"
  defines "id1 \<equiv> snd (NewULID ms1 (Some r1) c1)" and "id2 \<equiv> snd (NewULID ms2 (Some r2) c2)"
  shows "length id1 = 26 \<and> set id1 \<subseteq> set ulidAlphabet \<and> (ms1 < ms2 \<longrightarrow> id1 < id2) \<and>
    (id1 = id2 \<longleftrightarrow> ms1 = ms2 \<and> r1 = r2)"
proof -
  have lt: "unat ms2 < 2 ^ 48" using assms(2) by (simp add: word_less_nat_alt)
  have id: "id1 = ulid_encode (ulid_time ms1 @ r1)" "id2 = ulid_encode (ulid_time ms2 @ r2)"
    by (simp_all add: id1_def id2_def NewULID_def)
  have later: "id1 < id2" if "ms1 < ms2"
  proof -
    have "unat ms1 < unat ms2" using that by (simp add: word_less_nat_alt)
    then have "concat (map byte_bits (ulid_time ms1)) < concat (map byte_bits (ulid_time ms2))"
      using lt by (subst bits_value_order) (simp_all only: bits_of_ms length_concat_byte_bits ulid_time_length,
        simp add: take_bit_nat_eq_self)
    then show ?thesis unfolding id using assms(3,4) by (intro ulid_encode_less) (auto simp: less_append)
  qed
  moreover have "id1 = id2 \<longleftrightarrow> ms1 = ms2 \<and> r1 = r2"
  proof (cases "ms1 < ms2")
    case True
    then show ?thesis using later by auto
  next
    case False
    then have "ms1 = ms2" using assms(1) by simp
    then show ?thesis using assms(3,4) ulid_encode_inject[of "ulid_time ms1 @ r1" "ulid_time ms2 @ r2"] by (simp add: id)
  qed
  ultimately show ?thesis using ulid_shape[OF assms(3), of ms1 c1] by (simp add: id1_def)
qed

theorem ulid_ordered_witness:
  "snd (NewULID 1700000000000 (Some (replicate 10 (- 1))) 0) < snd (NewULID 1700000000001 (Some (replicate 10 0)) 0)"
  using ulid_ordered[of 1700000000000 1700000000001 "replicate 10 (- 1)" "replicate 10 0" 0 0] by simp

end
