(* ===== verification/Loadtest.thy ===== *)
theory Loadtest
  imports Complex_Main Limiter Go_Text Mem_Spec
begin

text \<open>
  The load test \<open>cmd/ratelimiter-loadtest/main.go\<close>: its configuration, the seeding of the daemon's
  limits, the wrapper that records batch sizes, the loop of a worker and the summary figures.  The
  flag package, the clock, the random source, HTTP and files are parameters; the workers are
  interleaved call by call.
\<close>

section \<open>Configuration\<close>

record load_settings =
  lcMode :: string
  lcBackend :: string
  lcDuration :: duration
  lcConcurrency :: go_int
  lcProviders :: "string list"
  lcBaseURL :: string
  lcLimitsPath :: string
  lcMaxTokens :: go_int
  lcBatchSize :: go_int
  lcFlushInterval :: duration
  lcRequestTimeout :: duration

definition splitProviders :: "string \<Rightarrow> string list" where
  "splitProviders input = filter (\<lambda>v. v \<noteq> []) (map TrimSpace (split_byte (CHR '','') input))"

text \<open>The defaults of the flags; the providers are one string.  \<open>parse\<close> is \<open>flag.Parse\<close>.\<close>

definition load_flags :: "load_settings \<times> string" where
  "load_flags =
     (\<lparr>lcMode = ''http'', lcBackend = ''memory'', lcDuration = 30 * Second, lcConcurrency = 200,
       lcProviders = [], lcBaseURL = ''http://localhost:8080'', lcLimitsPath = [], lcMaxTokens = 200,
       lcBatchSize = 25, lcFlushInterval = 2 * Millisecond, lcRequestTimeout = 2 * Second\<rparr>,
      ''openai,anthropic'')"

definition parseConfig :: "(load_settings \<times> string \<Rightarrow> load_settings \<times> string) \<Rightarrow> load_settings" where
  "parseConfig parse = (case parse load_flags of (cfg, providers) \<Rightarrow> cfg\<lparr>lcProviders := splitProviders providers\<rparr>)"

definition load_validate :: "load_settings \<Rightarrow> go_error" where
  "load_validate c =
     (if lcMode c \<noteq> ''http'' \<and> lcMode c \<noteq> ''local'' then Some (''unsupported mode: '' @ lcMode c)
      else if lcBackend c \<noteq> ''memory'' \<and> lcBackend c \<noteq> ''tigerbeetle'' then Some (''unsupported backend: '' @ lcBackend c)
      else if lcMode c = ''local'' \<and> lcBackend c \<noteq> ''memory'' then Some ''local mode only supports memory backend''
      else if lcDuration c \<le> 0 then Some ''duration must be positive''
      else if lcConcurrency c \<le> 0 then Some ''concurrency must be positive''
      else if lcMaxTokens c \<le> 0 then Some ''max-tokens must be positive''
      else if lcBatchSize c \<le> 0 then Some ''batch-size must be positive''
      else if lcRequestTimeout c \<le> 0 then Some ''request-timeout must be positive''
      else if lcProviders c = [] then Some ''at least one provider is required''
      else if lcMode c = ''local'' \<and> lcLimitsPath c = [] then Some ''limits file is required for local mode''
      else None)"

section \<open>Building the limiter\<close>

record 'w load_env =
  leRead :: "'w \<Rightarrow> string \<Rightarrow> limit_state list + string"
  lePut :: "'w \<Rightarrow> string \<Rightarrow> limit_definition \<Rightarrow> duration \<Rightarrow> 'w \<times> (int \<times> string + string)"
  leHttp :: "string \<Rightarrow> 'w limiter"
  leLocal :: "'w \<Rightarrow> string \<Rightarrow> 'w \<times> ('w limiter + string)"

definition putLimit :: "'w load_env \<Rightarrow> string \<Rightarrow> limit_definition \<Rightarrow> duration \<Rightarrow> 'w \<Rightarrow> 'w \<times> go_error" where
  "putLimit E baseURL def timeout w =
     (case lePut E w (TrimRight baseURL (CHR ''/'') @ ''/v1/admin/limits'') def timeout of
        (w', Inr err) \<Rightarrow> (w', Some err)
      | (w', Inl (status, body)) \<Rightarrow>
          (w', if status < 200 \<or> status \<ge> 300 then Some (''admin put failed: '' @ body) else None))"

fun seed_states :: "'w load_env \<Rightarrow> string \<Rightarrow> duration \<Rightarrow> limit_state list \<Rightarrow> 'w \<Rightarrow> 'w \<times> go_error" where
  "seed_states E baseURL timeout [] w = (w, None)"
| "seed_states E baseURL timeout (state # states) w =
     (case putLimit E baseURL (Definition state) timeout w of
        (w', Some err) \<Rightarrow> (w', Some err)
      | (w', None) \<Rightarrow> seed_states E baseURL timeout states w')"

definition seedLimits :: "'w load_env \<Rightarrow> string \<Rightarrow> string \<Rightarrow> duration \<Rightarrow> 'w \<Rightarrow> 'w \<times> go_error" where
  "seedLimits E baseURL path timeout w =
     (case leRead E w path of Inr err \<Rightarrow> (w, Some err) | Inl states \<Rightarrow> seed_states E baseURL timeout states w)"

record batch_stats =
  reserveBatches :: "nat list"
  completeBatches :: "nat list"

definition recordReserve :: "batch_stats \<Rightarrow> nat \<Rightarrow> batch_stats" where
  "recordReserve b n = b\<lparr>reserveBatches := reserveBatches b @ [n]\<rparr>"

definition recordComplete :: "batch_stats \<Rightarrow> nat \<Rightarrow> batch_stats" where
  "recordComplete b n = b\<lparr>completeBatches := completeBatches b @ [n]\<rparr>"

definition with_stats :: "batch_stats \<Rightarrow> ('w \<times> 'r) option \<Rightarrow> (('w \<times> batch_stats) \<times> 'r) option" where
  "with_stats b r = map_option (\<lambda>(w, x). ((w, b), x)) r"

definition statsLimiter :: "'w limiter \<Rightarrow> ('w \<times> batch_stats) limiter" where
  "statsLimiter L =
     \<lparr>lmReserve = \<lambda>(w, b) req. with_stats b (lmReserve L w req),
      lmComplete = \<lambda>(w, b) req. with_stats b (lmComplete L w req),
      lmBatchReserve = \<lambda>(w, b) deadline reqs. with_stats (recordReserve b (length reqs)) (lmBatchReserve L w deadline reqs),
      lmBatchComplete = \<lambda>(w, b) deadline reqs. with_stats (recordComplete b (length reqs)) (lmBatchComplete L w deadline reqs)\<rparr>"

text \<open>The limiter below the batcher, with the batch size and flush interval the batcher is made with.
  The mode has been validated: it is \<open>http\<close> or \<open>local\<close>.\<close>

definition buildLimiter ::
    "'w load_env \<Rightarrow> load_settings \<Rightarrow> 'w \<Rightarrow> 'w \<times> (('w \<times> batch_stats) limiter \<times> go_int \<times> duration + string)" where
  "buildLimiter E cfg w =
     (let wrap = (\<lambda>base. Inl (statsLimiter base, lcBatchSize cfg, lcFlushInterval cfg)) in
      if lcMode cfg = ''http'' then
        (case (if lcLimitsPath cfg \<noteq> [] then seedLimits E (lcBaseURL cfg) (lcLimitsPath cfg) (lcRequestTimeout cfg) w
               else (w, None)) of
           (w', Some err) \<Rightarrow> (w', Inr err)
         | (w', None) \<Rightarrow> (w', wrap (leHttp E (lcBaseURL cfg))))
      else (case leLocal E w (lcLimitsPath cfg) of
              (w', Inr err) \<Rightarrow> (w', Inr err)
            | (w', Inl client) \<Rightarrow> (w', wrap client)))"

section \<open>The workers\<close>

definition rpmKey :: "string \<Rightarrow> string \<Rightarrow> limit_key" where
  "rpmKey provider model = ''global:llm:'' @ provider @ '':'' @ model @ '':rpm''"

definition tpmKey :: "string \<Rightarrow> string \<Rightarrow> limit_key" where
  "tpmKey provider model = ''global:llm:'' @ provider @ '':'' @ model @ '':tpm''"

definition concurrencyKey :: "string \<Rightarrow> string \<Rightarrow> limit_key" where
  "concurrencyKey provider model = ''global:llm:'' @ provider @ '':'' @ model @ '':concurrency''"

record load_stats =
  reserveCount :: uint64
  completeCount :: uint64
  allowedCount :: uint64
  deniedCount :: uint64
  errorCount :: uint64
  reserveLatencies :: "int list"
  completeLatency :: "int list"

definition load_stats0 :: load_stats where
  "load_stats0 = \<lparr>reserveCount = 0, completeCount = 0, allowedCount = 0, deniedCount = 0, errorCount = 0,
     reserveLatencies = [], completeLatency = []\<rparr>"

definition recordReserveLatency :: "load_stats \<Rightarrow> duration \<Rightarrow> load_stats" where
  "recordReserveLatency s d = s\<lparr>reserveLatencies := reserveLatencies s @ [d]\<rparr>"

definition recordCompleteLatency :: "load_stats \<Rightarrow> duration \<Rightarrow> load_stats" where
  "recordCompleteLatency s d = s\<lparr>completeLatency := completeLatency s @ [d]\<rparr>"

text \<open>A worker is at the head of its loop, between its two calls with the lease, the provider and
  the upper bound it drew, or has returned.\<close>

datatype worker = Idle | Holding string string uint64 | Returned

definition load_request :: "string \<Rightarrow> string \<Rightarrow> uint64 \<Rightarrow> reserve_request" where
  "load_request leaseID provider upper =
     \<lparr>LeaseID = leaseID, JobID = [],
      Requirements = [\<lparr>RKey = rpmKey provider ''default'', Amount = 1\<rparr>,
        \<lparr>RKey = tpmKey provider ''default'', Amount = upper\<rparr>,
        \<lparr>RKey = concurrencyKey provider ''default'', Amount = 1\<rparr>]\<rparr>"

definition load_completion :: "string \<Rightarrow> string \<Rightarrow> uint64 \<Rightarrow> complete_request" where
  "load_completion leaseID provider actual =
     \<lparr>CLeaseID = leaseID, CJobID = [], Actuals = [\<lparr>AKey = tpmKey provider ''default'', ActualAmount = actual\<rparr>]\<rparr>"

text \<open>The two halves of an iteration: up to the answer of \<open>Reserve\<close>, and from the sleep on.\<close>

definition after_reserve ::
    "string \<Rightarrow> string \<Rightarrow> uint64 \<Rightarrow> duration \<Rightarrow> (reserve_response + string) \<Rightarrow> load_stats \<Rightarrow> load_stats \<times> worker" where
  "after_reserve leaseID provider upper elapsed answer s =
     (let s1 = recordReserveLatency s elapsed in
      case answer of
        Inr _ \<Rightarrow> (s1\<lparr>errorCount := errorCount s1 + 1\<rparr>, Idle)
      | Inl res \<Rightarrow>
          let s2 = s1\<lparr>reserveCount := reserveCount s1 + 1\<rparr> in
          if \<not> Allowed res then (s2\<lparr>deniedCount := deniedCount s2 + 1\<rparr>, Idle)
          else (s2\<lparr>allowedCount := allowedCount s2 + 1\<rparr>, Holding leaseID provider upper))"

definition after_complete :: "duration \<Rightarrow> (complete_response + string) \<Rightarrow> load_stats \<Rightarrow> load_stats" where
  "after_complete elapsed answer s =
     (let s1 = recordCompleteLatency s elapsed in
      case answer of
        Inr _ \<Rightarrow> s1\<lparr>errorCount := errorCount s1 + 1\<rparr>
      | Inl _ \<Rightarrow> s1\<lparr>completeCount := completeCount s1 + 1\<rparr>)"

record 'l load_sys =
  lsLimiter :: 'l
  lsStats :: load_stats
  lsWorkers :: "worker list"

definition load_start :: "load_settings \<Rightarrow> 'l \<Rightarrow> 'l load_sys" where
  "load_start cfg l = \<lparr>lsLimiter = l, lsStats = load_stats0, lsWorkers = replicate (nat (lcConcurrency cfg)) Idle\<rparr>"

text \<open>
  \<open>Ls\<close> are the behaviours of the limiter a call may meet (readings of its clock, failures of its
  transport).  \<open>rng.Intn n\<close> is any number below \<open>n\<close>; the id of \<open>NewULID\<close> is any string that no worker
  holds.
\<close>

inductive load_step :: "load_settings \<Rightarrow> 'l limiter set \<Rightarrow> 'l load_sys \<Rightarrow> 'l load_sys \<Rightarrow> bool"
  for cfg :: load_settings and Ls :: "'l limiter set" where
  load_reserve: "\<lbrakk>i < length (lsWorkers s); lsWorkers s ! i = Idle; L \<in> Ls; p < length (lcProviders cfg);
      int u < lcMaxTokens cfg; upper = of_nat (u + 1);
      \<forall>q v. Holding leaseID q v \<notin> set (lsWorkers s);
      lmReserve L (lsLimiter s) (load_request leaseID (lcProviders cfg ! p) upper) = Some (l', answer);
      after_reserve leaseID (lcProviders cfg ! p) upper elapsed answer (lsStats s) = (st', w')\<rbrakk>
    \<Longrightarrow> load_step cfg Ls s \<lparr>lsLimiter = l', lsStats = st', lsWorkers = (lsWorkers s)[i := w']\<rparr>"
| load_complete: "\<lbrakk>i < length (lsWorkers s); lsWorkers s ! i = Holding leaseID provider upper; L \<in> Ls;
      a < unat upper;
      lmComplete L (lsLimiter s) (load_completion leaseID provider (of_nat (a + 1))) = Some (l', answer)\<rbrakk>
    \<Longrightarrow> load_step cfg Ls s \<lparr>lsLimiter = l', lsStats = after_complete elapsed answer (lsStats s),
          lsWorkers = (lsWorkers s)[i := Idle]\<rparr>"
| load_return: "\<lbrakk>i < length (lsWorkers s); lsWorkers s ! i = Idle\<rbrakk>
    \<Longrightarrow> load_step cfg Ls s (s\<lparr>lsWorkers := (lsWorkers s)[i := Returned]\<rparr>)"

inductive load_reachable :: "load_settings \<Rightarrow> 'l limiter set \<Rightarrow> 'l \<Rightarrow> 'l load_sys \<Rightarrow> bool"
  for cfg :: load_settings and Ls :: "'l limiter set" and l0 :: 'l where
  load_init: "load_reachable cfg Ls l0 (load_start cfg l0)"
| load_next: "load_reachable cfg Ls l0 s \<Longrightarrow> load_step cfg Ls s s' \<Longrightarrow> load_reachable cfg Ls l0 s'"

text \<open>\<open>runLoad\<close> is over when every worker has returned.\<close>

definition load_finished :: "'l load_sys \<Rightarrow> bool" where
  "load_finished s \<longleftrightarrow> (\<forall>w \<in> set (lsWorkers s). w = Returned)"

section \<open>The summary\<close>

text \<open>\<open>avg2\<close> is the average with two decimals.\<close>

definition batch_format :: "(nat \<Rightarrow> nat \<Rightarrow> string) \<Rightarrow> nat list \<Rightarrow> string" where
  "batch_format avg2 samples =
     (case samples of
        [] \<Rightarrow> ''n/a''
      | x # _ \<Rightarrow>
          (case foldl (\<lambda>(s, m) v. (s + v, if v > m then v else m)) (0, x) samples of
             (acc, largest) \<Rightarrow>
               ''avg='' @ avg2 acc (length samples) @ '' max='' @ show_int (int largest) @
               '' count='' @ show_int (int (length samples))))"

definition batch_summary :: "(nat \<Rightarrow> nat \<Rightarrow> string) \<Rightarrow> batch_stats \<Rightarrow> string \<times> string" where
  "batch_summary avg2 b = (batch_format avg2 (reserveBatches b), batch_format avg2 (completeBatches b))"

text \<open>\<open>scale n p\<close> is \<open>int(float64(n) * p)\<close>, for a \<open>p\<close> strictly between 0 and 1.\<close>

definition percentileDuration :: "(nat \<Rightarrow> rat \<Rightarrow> nat) \<Rightarrow> int list \<Rightarrow> rat \<Rightarrow> duration" where
  "percentileDuration scale samples p =
     (if samples = [] then 0
      else let copySamples = sort samples in
        if p \<le> 0 then copySamples ! 0
        else if p \<ge> 1 then copySamples ! (length copySamples - 1)
        else copySamples ! scale (length copySamples - 1) p)"

text \<open>The texts of floating-point rates and of durations are parameters.\<close>

definition printSummary ::
    "(uint64 \<Rightarrow> duration \<Rightarrow> string) \<Rightarrow> (duration \<Rightarrow> string) \<Rightarrow> (nat \<Rightarrow> rat \<Rightarrow> nat) \<Rightarrow> (nat \<Rightarrow> nat \<Rightarrow> string) \<Rightarrow>
     load_settings \<Rightarrow> load_stats \<Rightarrow> batch_stats \<Rightarrow> string list" where
  "printSummary rate dur_text scale avg2 cfg s b =
     (let num = (\<lambda>x :: uint64. show_int (uint x));
          pcts = (\<lambda>xs. '' p50='' @ dur_text (percentileDuration scale xs (1 / 2)) @
             '' p95='' @ dur_text (percentileDuration scale xs (95 / 100)) @
             '' p99='' @ dur_text (percentileDuration scale xs (99 / 100)));
          batches = batch_summary avg2 b
      in [''ratelimiter load test summary'',
          ''mode: '' @ lcMode cfg @ '' backend: '' @ lcBackend cfg @ '' duration: '' @ dur_text (lcDuration cfg) @
            '' concurrency: '' @ show_int (lcConcurrency cfg),
          ''reserves/sec: '' @ rate (reserveCount s) (lcDuration cfg) @
            '' completes/sec: '' @ rate (completeCount s) (lcDuration cfg),
          ''allowed: '' @ num (allowedCount s) @ '' denied: '' @ num (deniedCount s) @ '' errors: '' @ num (errorCount s),
          ''reserve latency'' @ pcts (reserveLatencies s),
          ''complete latency'' @ pcts (completeLatency s),
          ''batch reserve sizes: '' @ fst batches,
          ''batch complete sizes: '' @ snd batches])"

text \<open>\<open>main\<close>: \<open>run\<close> is the load itself over the built limiter.  The result is the exit code with the
  lines on standard output and on standard error.\<close>

definition load_main where
  "load_main E cfg run w =
     (case load_validate cfg of
        Some err \<Rightarrow> (w, 1 :: int, [], [err])
      | None \<Rightarrow>
         (case buildLimiter E cfg w of
            (w', Inr err) \<Rightarrow> (w', 1, [], [err])
          | (w', Inl target) \<Rightarrow> (case run target w' of (w'', lines) \<Rightarrow> (w'', 0, lines, []))))"

text \<open>
  What the load test measures and leaves behind: its counters balance under every interleaving of
  the workers and every behaviour of the limiter; over the in-process limiter no call fails, no
  lease is left when the workers have returned and no debt is recorded; percentiles are samples.
\<close>

section \<open>Configuration\<close>

lemma splitProviders_clean: "p \<in> set (splitProviders input) \<Longrightarrow> p \<noteq> [] \<and> TrimSpace p = p"
  by (auto simp: splitProviders_def)

lemma load_defaults_valid: "load_validate (parseConfig (\<lambda>d. d)) = None"
proof -
  have "splitProviders ''openai,anthropic'' = [''openai'', ''anthropic'']" by code_simp
  then show ?thesis by (simp add: parseConfig_def load_flags_def load_validate_def Second_def)
qed

lemma load_validateD:
  assumes "load_validate c = None"
  shows "0 < lcConcurrency c" "0 < lcMaxTokens c" "lcProviders c \<noteq> []"
    "lcMode c = ''local'' \<Longrightarrow> lcBackend c = ''memory'' \<and> lcLimitsPath c \<noteq> []"
  using assms by (auto simp: load_validate_def split: if_splits)

text \<open>The load goes to the limits an LLM call of the model \<open>default\<close> goes to.\<close>

lemma load_keys_agree:
  "rpmKey p m = buildRPMKey p m" "tpmKey p m = buildTPMKey p m" "concurrencyKey p m = buildConcurrencyKey p m"
  by (simp_all add: rpmKey_def buildRPMKey_def tpmKey_def buildTPMKey_def concurrencyKey_def buildConcurrencyKey_def)

lemma load_request_distinct: "distinct (map RKey (Requirements (load_request l p u)))"
  by (simp add: load_request_def load_keys_agree llm_keys_distinct)

section \<open>Seeding\<close>

text \<open>Seeding stops at the first definition that is refused, and reports it; only the definitions of
  the file are sent, not their pending decreases.\<close>

lemma seed_states_append:
  "seed_states E url t (xs @ ys) w =
     (case seed_states E url t xs w of (w', Some err) \<Rightarrow> (w', Some err) | (w', None) \<Rightarrow> seed_states E url t ys w')"
  by (induction xs arbitrary: w) (auto split: prod.splits option.splits)

lemma seed_states_definitions:
  "map Definition xs = map Definition ys \<Longrightarrow> seed_states E url t xs w = seed_states E url t ys w"
proof (induction xs arbitrary: ys w)
  case (Cons x xs)
  then obtain y ys' where "ys = y # ys'" "Definition x = Definition y" "map Definition xs = map Definition ys'"
    by (cases ys) auto
  then show ?case using Cons.IH by (auto split: prod.splits option.splits)
qed simp

section \<open>The wrapper that counts batches\<close>

lemma statsLimiter_transparent:
  "map_option (map_prod fst id) (lmReserve (statsLimiter L) (w, b) req) = lmReserve L w req"
  "map_option (map_prod fst id) (lmComplete (statsLimiter L) (w, b) creq) = lmComplete L w creq"
  "map_option (map_prod fst id) (lmBatchReserve (statsLimiter L) (w, b) dl reqs) = lmBatchReserve L w dl reqs"
  "map_option (map_prod fst id) (lmBatchComplete (statsLimiter L) (w, b) dl creqs) = lmBatchComplete L w dl creqs"
  by (simp_all add: statsLimiter_def with_stats_def option.map_comp comp_def case_prod_unfold option.map_ident)

lemma statsLimiter_records:
  "lmBatchReserve (statsLimiter L) (w, b) dl reqs = Some ((w', b'), x) \<Longrightarrow>
     reserveBatches b' = reserveBatches b @ [length reqs] \<and> completeBatches b' = completeBatches b"
  "lmBatchComplete (statsLimiter L) (w, b) dl creqs = Some ((w', b'), y) \<Longrightarrow>
     completeBatches b' = completeBatches b @ [length creqs] \<and> reserveBatches b' = reserveBatches b"
  by (auto simp: statsLimiter_def with_stats_def recordReserve_def recordComplete_def)

lemma batch_format_foldl:
  "foldl (\<lambda>(s, m) v. (s + v, if v > m then v else m)) (s0, m0) xs = (s0 + sum_list xs, Max (set (m0 # xs)))"
    for xs :: "nat list"
proof (induction xs arbitrary: s0 m0)
  case (Cons x xs)
  have "Max (set (max m0 x # xs)) = Max (set (m0 # x # xs))"
    by (cases "xs = []") (simp_all add: max.assoc)
  moreover have "(if x > m0 then x else m0) = max m0 x" by simp
  ultimately show ?case by (simp add: Cons.IH del: Max_insert)
qed simp

lemma batch_format_summary:
  assumes "samples \<noteq> []"
  shows "batch_format avg2 samples =
     ''avg='' @ avg2 (sum_list samples) (length samples) @ '' max='' @ show_int (int (Max (set samples))) @
     '' count='' @ show_int (int (length samples))"
  using assms by (cases samples) (simp_all add: batch_format_def batch_format_foldl)

section \<open>Percentiles\<close>

lemma percentile_is_sample:
  assumes "samples \<noteq> []" "\<And>n. 0 < p \<Longrightarrow> p < 1 \<Longrightarrow> scale n p \<le> n"
  shows "percentileDuration scale samples p \<in> set samples"
proof -
  have "xs ! i \<in> set samples" if "xs = sort samples" "i \<le> length samples - 1" for xs i
  proof -
    have "i < length (sort samples)" using that(2) assms(1) by (cases samples) auto
    from nth_mem[OF this] that(1) show ?thesis by simp
  qed
  then show ?thesis using assms by (simp add: percentileDuration_def Let_def)
qed

lemma percentile_mono:
  assumes "p \<le> q" "\<And>n p. 0 < p \<Longrightarrow> p < 1 \<Longrightarrow> scale n p \<le> n"
    "\<And>n p q. 0 < p \<Longrightarrow> p \<le> q \<Longrightarrow> q < 1 \<Longrightarrow> scale n p \<le> scale n q"
  shows "percentileDuration scale samples p \<le> percentileDuration scale samples q"
proof (cases "samples = []")
  case False
  have *: "sort samples ! i \<le> sort samples ! j" if "i \<le> j" "j \<le> length samples - 1" for i j
    using that False sorted_nth_mono[OF sorted_sort, of i j samples] by (cases samples) auto
  show ?thesis using assms False
    by (auto simp: percentileDuration_def Let_def intro!: * dest: order_trans)
qed (simp add: percentileDuration_def)

section \<open>The counters\<close>

definition holding :: "worker list \<Rightarrow> nat" where
  "holding ws = length (filter (\<lambda>w. case w of Holding _ _ _ \<Rightarrow> True | _ \<Rightarrow> False) ws)"

definition balanced :: "load_stats \<Rightarrow> nat \<Rightarrow> bool" where
  "balanced s n \<longleftrightarrow>
     reserveCount s = allowedCount s + deniedCount s \<and>
     reserveCount s + completeCount s + errorCount s =
       of_nat (length (reserveLatencies s) + length (completeLatency s)) \<and>
     allowedCount s = of_nat (length (completeLatency s) + n)"

lemma holding_Cons: "holding (w # ws) = holding [w] + holding ws"
  by (simp add: holding_def)

lemma holding_append: "holding (us @ ws) = holding us + holding ws"
  by (simp add: holding_def)

lemma holding_update:
  assumes "i < length ws"
  shows "holding (ws[i := w]) + holding [ws ! i] = holding ws + holding [w]"
proof -
  let ?h = "holding (take i ws) + holding (drop (Suc i) ws)"
  have "holding (x # drop (Suc i) ws) = holding [x] + holding (drop (Suc i) ws)" for x by (rule holding_Cons)
  then have "holding (take i ws @ x # drop (Suc i) ws) = ?h + holding [x]" for x by (simp add: holding_append)
  then have "holding (ws[i := w]) = ?h + holding [w]" "holding ws = ?h + holding [ws ! i]"
    using assms upd_conv_take_nth_drop[OF assms, of w] id_take_nth_drop[OF assms] by metis+
  then show ?thesis by simp
qed

lemma balancedI:
  assumes "reserveCount s = allowedCount s + deniedCount s"
    and "reserveCount s + completeCount s + errorCount s =
      of_nat (length (reserveLatencies s)) + of_nat (length (completeLatency s))"
    and "allowedCount s = of_nat (length (completeLatency s)) + of_nat n"
  shows "balanced s n"
  using assms by (simp add: balanced_def)

lemma balanced_complete:
  assumes "balanced s (Suc n)"
  shows "balanced (after_complete elapsed answer s) n"
proof (rule balancedI)
  let ?s = "after_complete elapsed answer s"
  have s: "reserveCount ?s = reserveCount s" "allowedCount ?s = allowedCount s" "deniedCount ?s = deniedCount s"
    "completeCount ?s + errorCount ?s = completeCount s + errorCount s + 1"
    "length (completeLatency ?s) = Suc (length (completeLatency s))" "reserveLatencies ?s = reserveLatencies s"
    by (cases answer; simp add: after_complete_def Let_def recordCompleteLatency_def)+
  have b: "reserveCount s = allowedCount s + deniedCount s"
    "reserveCount s + (completeCount s + errorCount s) =
       of_nat (length (reserveLatencies s)) + of_nat (length (completeLatency s))"
    "allowedCount s = of_nat (length (completeLatency s)) + of_nat (Suc n)"
    using assms unfolding balanced_def of_nat_add add.assoc by blast+
  show "reserveCount ?s = allowedCount ?s + deniedCount ?s" by (simp only: s b(1))
  have "reserveCount ?s + completeCount ?s + errorCount ?s = reserveCount s + (completeCount s + errorCount s) + 1"
    by (simp only: add.assoc s)
  then show "reserveCount ?s + completeCount ?s + errorCount ?s =
      of_nat (length (reserveLatencies ?s)) + of_nat (length (completeLatency ?s))"
    unfolding b(2) s of_nat_Suc by (simp only: ac_simps)
  show "allowedCount ?s = of_nat (length (completeLatency ?s)) + of_nat n"
    by (simp only: b(3) s of_nat_Suc add.assoc add.commute add.left_commute)
qed

lemma balanced_reserve:
  assumes "balanced s n" "after_reserve leaseID provider upper elapsed answer s = (s', w)"
  shows "balanced s' (n + holding [w])"
proof (rule balancedI)
  have s: "reserveCount s' + errorCount s' = reserveCount s + errorCount s + 1"
    "completeCount s' = completeCount s" "completeLatency s' = completeLatency s"
    "length (reserveLatencies s') = Suc (length (reserveLatencies s))"
    "allowedCount s' = allowedCount s + of_nat (holding [w])"
    "reserveCount s' - (allowedCount s' + deniedCount s') = reserveCount s - (allowedCount s + deniedCount s)"
    using assms(2)
    by (auto simp: after_reserve_def Let_def recordReserveLatency_def holding_def split: sum.splits if_splits)
  have b: "reserveCount s = allowedCount s + deniedCount s"
    "reserveCount s + (completeCount s + errorCount s) =
       of_nat (length (reserveLatencies s)) + of_nat (length (completeLatency s))"
    "allowedCount s = of_nat (length (completeLatency s)) + of_nat n"
    using assms(1) unfolding balanced_def of_nat_add add.assoc by blast+
  show "reserveCount s' = allowedCount s' + deniedCount s'" using s(6) b(1) by simp
  have "reserveCount s' + completeCount s' + errorCount s' = completeCount s' + (reserveCount s' + errorCount s')"
    by (simp only: ac_simps)
  also have "\<dots> = completeCount s + (reserveCount s + errorCount s) + 1" by (simp only: s add.assoc)
  also have "\<dots> = reserveCount s + (completeCount s + errorCount s) + 1" by (simp only: ac_simps)
  finally show "reserveCount s' + completeCount s' + errorCount s' =
      of_nat (length (reserveLatencies s')) + of_nat (length (completeLatency s'))"
    unfolding b(2) s of_nat_Suc by (simp only: ac_simps)
  show "allowedCount s' = of_nat (length (completeLatency s')) + of_nat (n + holding [w])"
    by (simp only: b(3) s of_nat_add add.assoc)
qed

lemma balanced_step:
  assumes "load_step cfg Ls s s'" "balanced (lsStats s) (holding (lsWorkers s))"
  shows "balanced (lsStats s') (holding (lsWorkers s'))"
  using assms
proof (cases rule: load_step.cases)
  case (load_reserve i L p u upper leaseID l' answer elapsed st' w')
  have "holding (lsWorkers s') = holding (lsWorkers s) + holding [w']"
    using holding_update[of i "lsWorkers s" w'] load_reserve by (simp add: holding_def)
  then show ?thesis using balanced_reserve[OF assms(2) load_reserve(10)] load_reserve(1) by simp
next
  case (load_complete i leaseID provider upper L a l' answer elapsed)
  have h: "holding (lsWorkers s) = Suc (holding (lsWorkers s'))"
    using holding_update[of i "lsWorkers s" Idle] load_complete by (simp add: holding_def)
  show ?thesis using balanced_complete[of "lsStats s" "holding (lsWorkers s')"] assms(2) h load_complete(1) by simp
next
  case (load_return i)
  then show ?thesis using holding_update[of i "lsWorkers s" Returned] assms(2) by (simp add: holding_def)
qed

text \<open>Every call is counted once, as an answer or an error, and when the workers have returned every
  reservation that was allowed has been followed by one completion call.\<close>

theorem load_counts_balance:
  assumes "load_reachable cfg Ls l0 s"
  shows "balanced (lsStats s) (holding (lsWorkers s))"
  using assms
proof induction
  case load_init
  show ?case by (simp add: load_start_def balanced_def load_stats0_def holding_def)
qed (rule balanced_step)

section \<open>Over the in-process limiter\<close>

text \<open>A lease of the backend belongs to a worker that is between its calls, and has reserved the
  tokens the worker drew.\<close>

definition clean_stats :: "load_stats \<Rightarrow> bool" where
  "clean_stats s \<longleftrightarrow> errorCount s = 0 \<and> completeCount s = of_nat (length (completeLatency s))"

lemma clean_reserve:
  "clean_stats s \<Longrightarrow> after_reserve l p u d (Inl resp) s = (s', w) \<Longrightarrow> clean_stats s'"
  by (auto simp: clean_stats_def after_reserve_def Let_def recordReserveLatency_def split: if_splits)

lemma clean_complete: "clean_stats s \<Longrightarrow> clean_stats (after_complete d (Inl resp) s)"
  by (simp add: clean_stats_def after_complete_def Let_def recordCompleteLatency_def)

definition held_amounts :: "memory_backend \<Rightarrow> worker list \<Rightarrow> bool" where
  "held_amounts m ws \<longleftrightarrow>
     (\<forall>l p u st. Holding l p u \<in> set ws \<longrightarrow> mbLeases m l = Some st \<longrightarrow>
        reserved_amount st (tpmKey p ''default'') = u)"

definition local_ok :: "memory_backend \<Rightarrow> memory_backend load_sys \<Rightarrow> bool" where
  "local_ok m0 s \<longleftrightarrow>
     wf_backend (lsLimiter s) \<and> mbDebt (lsLimiter s) = mbDebt m0 \<and> clean_stats (lsStats s) \<and>
     (\<forall>l st. mbLeases (lsLimiter s) l = Some st \<longrightarrow>
        (\<exists>p u. Holding l p u \<in> set (lsWorkers s))) \<and>
     (\<forall>l st. mbLeases (lsLimiter s) l = Some st \<longrightarrow>
        lsReservedAmounts st = indexByKey (lsRequirements st)) \<and>
     held_amounts (lsLimiter s) (lsWorkers s)"

lemma load_request_amount:
  "reserved_amount st (tpmKey p ''default'') = u"
  if "lsReservedAmounts st = indexByKey (Requirements (load_request l p u))"
  using that llm_keys_distinct(1-3)[of p "''default''"]
  by (simp add: reserved_amount_def indexByKey_def load_request_def load_keys_agree)

text \<open>What one reservation does to leases and debt.\<close>

lemma local_reserve_effect:
  assumes "wf_backend m" "mem_Reserve clk m req t0 = Some (m', resp)"
  shows "wf_backend m' \<and> mbDebt m' = mbDebt m \<and>
    (mbLeases m' = mbLeases m \<and> (Allowed resp \<longrightarrow>
       (\<exists>st. mbLeases m (LeaseID req) = Some st \<and> requirementsEqual (lsRequirements st) (Requirements req))) \<or>
     Allowed resp \<and> mbLeases m (LeaseID req) = None \<and>
       (\<exists>st. mbLeases m' = (mbLeases m)(LeaseID req \<mapsto> st) \<and> lsRequirements st = Requirements req \<and>
          lsReservedAmounts st = indexByKey (Requirements req)))"
proof (cases "LeaseID req \<noteq> [] \<and> Requirements req \<noteq> [] \<and> mbLeases m (LeaseID req) = None \<and>
     (\<forall>r \<in> set (Requirements req). \<not> is_decreasing m (RKey r) \<and> mbDefs m (RKey r) \<noteq> None)")
  case True
  then have t: "LeaseID req \<noteq> []" "Requirements req \<noteq> []" "mbLeases m (LeaseID req) = None"
    "\<forall>r \<in> set (Requirements req). \<not> is_decreasing m (RKey r) \<and> mbDefs m (RKey r) \<noteq> None" by blast+
  show ?thesis
    by (rule mem_Reserve_run[OF assms(1) t, of clk t0])
      (use assms(2) reserve_tables[OF assms] t(3) in
        \<open>auto simp: same_tables_def reserve_response0_def split: if_splits\<close>)
next
  case False
  have "\<exists>r \<in> set (Requirements req). is_decreasing m (RKey r)"
    if "find (\<lambda>r. is_decreasing m (RKey r)) (Requirements req) \<noteq> None"
    using that by (auto simp: find_None_iff)
  then have "m' = m \<and> (Allowed resp \<longrightarrow>
       (\<exists>st. mbLeases m (LeaseID req) = Some st \<and> requirementsEqual (lsRequirements st) (Requirements req)))"
    using assms(2) False
    by (auto simp: mem_Reserve_def reserve_response0_def find_None_iff split: if_splits option.splits)
  then show ?thesis using assms(1) by blast
qed

lemma local_complete_effect:
  assumes "wf_backend m" "mem_Complete m (load_completion l p a) = Some (m', resp)"
    "\<And>st. mbLeases m l = Some st \<Longrightarrow> a \<le> reserved_amount st (tpmKey p ''default'')"
  shows "wf_backend m' \<and> mbDebt m' = mbDebt m \<and> mbLeases m' = (mbLeases m)(l := None)"
proof (cases "mbLeases m l")
  case None
  then show ?thesis using assms by (auto simp: mem_Complete_def load_completion_def)
next
  case (Some st)
  let ?req = "load_completion l p a"
  have Some': "mbLeases m (CLeaseID ?req) = Some st" using Some by (simp add: load_completion_def)
  let ?m1 = "release_all m (CLeaseID ?req) (lsRequirements st)"
  have m1: "mbDebt ?m1 = mbDebt m" using release_all_props[OF assms(1)] by (simp add: same_tables_def)
  obtain m2 where m2: "reconcile_all ?m1 (CLeaseID ?req) st (Actuals ?req) = Some m2"
    "mem_Complete m ?req = Some (m2\<lparr>mbLeases := (mbLeases m)(CLeaseID ?req := None)\<rparr>, complete_response0\<lparr>Ok := True\<rparr>)"
    by (rule mem_Complete_run[OF assms(1) Some']) blast
  have "\<not> a > reserved_amount st (tpmKey p ''default'')" using assms(3)[OF Some] by simp
  then have "mbDebt m2 = mbDebt ?m1"
    using m2(1) by (auto simp: load_completion_def Let_def split: option.splits if_splits)
  then show ?thesis using m2(2) m1 assms(2) complete_tables[OF assms(1,2)] by (auto simp: load_completion_def)
qed

lemma held_amountsD:
  "held_amounts m ws \<Longrightarrow> Holding l p u \<in> set ws \<Longrightarrow> mbLeases m l = Some st \<Longrightarrow>
     reserved_amount st (tpmKey p ''default'') = u"
  by (simp add: held_amounts_def)

lemma set_list_update_other: "x \<in> set xs \<Longrightarrow> x \<noteq> xs ! i \<Longrightarrow> x \<in> set (xs[i := y])"
  by (metis in_set_conv_nth length_list_update nth_list_update_neq)

lemma set_list_update_same: "i < length xs \<Longrightarrow> y \<in> set (xs[i := y])"
  by (rule set_update_memI)

lemma local_ok_stay:
  assumes "local_ok m0 s" "i < length (lsWorkers s)" "lsWorkers s ! i = Idle" "\<And>l p u. w \<noteq> Holding l p u"
    and "lsWorkers s' = (lsWorkers s)[i := w]" "wf_backend (lsLimiter s')" "mbDebt (lsLimiter s') = mbDebt (lsLimiter s)"
    and "mbLeases (lsLimiter s') = mbLeases (lsLimiter s)" "clean_stats (lsStats s')"
  shows "local_ok m0 s'"
proof -
  have old: "Holding l p u \<in> set (lsWorkers s') \<Longrightarrow> Holding l p u \<in> set (lsWorkers s)" for l p u
    using set_update_subset_insert[of "lsWorkers s" i w] assms(4,5) by auto
  have new: "Holding l p u \<in> set (lsWorkers s) \<Longrightarrow> Holding l p u \<in> set (lsWorkers s')" for l p u
    using set_list_update_other[of "Holding l p u" "lsWorkers s" i w] assms(3,5) by simp
  have "\<exists>p u. Holding l p u \<in> set (lsWorkers s')" if "mbLeases (lsLimiter s) l = Some st" for l st
    using assms(1) that new unfolding local_ok_def by blast
  moreover have "held_amounts (lsLimiter s') (lsWorkers s')"
    using assms(1) old unfolding local_ok_def held_amounts_def assms(8) by blast
  ultimately show ?thesis using assms unfolding local_ok_def by simp
qed

lemma local_ok_step:
  assumes "load_step cfg (range local_limiter) s s'" "local_ok m0 s"
  shows "local_ok m0 s'"
  using assms(1)
proof (cases rule: load_step.cases)
  case (load_reserve i L p u upper leaseID l' answer elapsed st' w')
  let ?m = "lsLimiter s" and ?p = "lcProviders cfg ! p"
  let ?req = "load_request leaseID ?p upper"
  obtain clk resp where R: "mem_Reserve clk ?m ?req clk = Some (l', resp)" "answer = Inl resp"
    using load_reserve(4,9) by (auto simp: local_limiter_def local_Reserve_def)
  have wf: "wf_backend ?m" and err: "clean_stats (lsStats s)"
    and dom: "\<And>l st. mbLeases ?m l = Some st \<Longrightarrow> \<exists>p u. Holding l p u \<in> set (lsWorkers s)"
    using assms(2) by (simp_all add: local_ok_def)
  note eff = local_reserve_effect[OF wf R(1)]
  have lid: "LeaseID ?req = leaseID" by (simp add: load_request_def)
  have free: "mbLeases ?m leaseID = None" using dom[of leaseID] load_reserve(8) by (cases "mbLeases ?m leaseID") auto
  have err': "clean_stats st'" using clean_reserve[OF err] load_reserve(10) R(2) by simp
  show ?thesis
  proof (cases "Allowed resp")
    case False
    have "w' = Idle" using load_reserve(10) R(2) False by (simp add: after_reserve_def Let_def)
    then show ?thesis
      by (intro local_ok_stay[OF assms(2) load_reserve(2,3), of w']) (use load_reserve(1) eff False err' in simp_all)
  next
    case True
    have w: "w' = Holding leaseID ?p upper" using load_reserve(10) R(2) True by (simp add: after_reserve_def Let_def)
    from eff True free lid obtain st where st: "wf_backend l'" "mbDebt l' = mbDebt ?m"
      "mbLeases l' = (mbLeases ?m)(leaseID \<mapsto> st)" "lsRequirements st = Requirements ?req"
      "lsReservedAmounts st = indexByKey (Requirements ?req)" by auto
    have ws: "lsWorkers s' = (lsWorkers s)[i := w']" "lsLimiter s' = l'" "lsStats s' = st'" using load_reserve(1) by simp_all
    have old: "Holding l q v \<in> set (lsWorkers s') \<Longrightarrow> Holding l q v \<in> set (lsWorkers s) \<or> Holding l q v = w'" for l q v
      using set_update_subset_insert[of "lsWorkers s" i w'] ws by auto
    have new: "Holding l q v \<in> set (lsWorkers s) \<Longrightarrow> Holding l q v \<in> set (lsWorkers s')" for l q v
      using set_list_update_other[of "Holding l q v" "lsWorkers s" i w'] load_reserve(3) ws by simp
    have mine: "w' \<in> set (lsWorkers s')" using set_list_update_same[OF load_reserve(2)] ws by simp
    have "\<exists>q v. Holding l q v \<in> set (lsWorkers s')" if "mbLeases l' l = Some x" for l x
    proof (cases "l = leaseID")
      case True
      then show ?thesis using mine w by blast
    next
      case False
      then have "mbLeases ?m l = Some x" using that st(3) by simp
      then show ?thesis using dom new by blast
    qed
    moreover have "lsReservedAmounts x = indexByKey (lsRequirements x)" if "mbLeases l' l = Some x" for l x
      using that st assms(2) unfolding local_ok_def by (auto simp: fun_upd_def split: if_splits)
    moreover have "held_amounts l' (lsWorkers s')"
      unfolding held_amounts_def
    proof (intro allI impI)
      fix l q v x
      assume h: "Holding l q v \<in> set (lsWorkers s')" "mbLeases l' l = Some x"
      show "reserved_amount x (tpmKey q ''default'') = v"
      proof (cases "l = leaseID")
        case True
        then have "Holding l q v = w'" using old[OF h(1)] load_reserve(8) by blast
        then show ?thesis using h(2) st True w load_request_amount[of x leaseID ?p upper] by auto
      next
        case False
        then have "Holding l q v \<in> set (lsWorkers s)" "mbLeases ?m l = Some x"
          using old[OF h(1)] h(2) w st(3) by (auto simp: fun_upd_def)
        then show ?thesis using assms(2) held_amountsD unfolding local_ok_def by blast
      qed
    qed
    ultimately show ?thesis using assms(2) st err' ws unfolding local_ok_def by simp
  qed
next
  case (load_complete i leaseID p upper L a l' answer elapsed)
  let ?m = "lsLimiter s"
  obtain resp where R: "mem_Complete ?m (load_completion leaseID p (of_nat (a + 1))) = Some (l', resp)" "answer = Inl resp"
    using load_complete(4,6) by (auto simp: local_limiter_def local_Complete_def)
  have wf: "wf_backend ?m" and err: "clean_stats (lsStats s)" and held: "held_amounts ?m (lsWorkers s)"
    and dom: "\<And>l st. mbLeases ?m l = Some st \<Longrightarrow> \<exists>p u. Holding l p u \<in> set (lsWorkers s)"
    using assms(2) by (simp_all add: local_ok_def)
  have at: "Holding leaseID p upper \<in> set (lsWorkers s)" using load_complete(2,3) by (metis nth_mem)
  have "unat upper < 2 ^ 64" using unsigned_less[of upper] by simp
  then have "a + 1 < 2 ^ 64" using load_complete(5) by linarith
  then have "unat (of_nat (a + 1) :: uint64) \<le> unat upper"
    using load_complete(5) unfolding unsigned_of_nat by (simp add: take_bit_nat_eq_self)
  then have le: "(of_nat (a + 1) :: uint64) \<le> upper" by (simp add: word_le_nat_alt)
  have eff: "wf_backend l'" "mbDebt l' = mbDebt ?m" "mbLeases l' = (mbLeases ?m)(leaseID := None)"
    using local_complete_effect[OF wf R(1)] held_amountsD[OF held at] le by auto
  have ws: "lsWorkers s' = (lsWorkers s)[i := Idle]" "lsLimiter s' = l'" "clean_stats (lsStats s')"
    using load_complete(1) clean_complete[OF err] R(2) by simp_all
  have old: "Holding l q v \<in> set (lsWorkers s') \<Longrightarrow> Holding l q v \<in> set (lsWorkers s)" for l q v
    using set_update_subset_insert[of "lsWorkers s" i Idle] ws by auto
  have new: "Holding l q v \<in> set (lsWorkers s) \<Longrightarrow> l \<noteq> leaseID \<Longrightarrow> Holding l q v \<in> set (lsWorkers s')" for l q v
    using set_list_update_other[of "Holding l q v" "lsWorkers s" i Idle] load_complete(3) ws by simp
  have "\<exists>q v. Holding l q v \<in> set (lsWorkers s')" if "mbLeases l' l = Some x" for l x
  proof -
    have l: "l \<noteq> leaseID" "mbLeases ?m l = Some x" using that eff(3) by (simp_all split: if_splits)
    from dom[OF l(2)] new[OF _ l(1)] show ?thesis by blast
  qed
  moreover have "lsReservedAmounts x = indexByKey (lsRequirements x)" if "mbLeases l' l = Some x" for l x
    using that eff(3) assms(2) unfolding local_ok_def by (auto simp: fun_upd_def split: if_splits)
  moreover have "held_amounts l' (lsWorkers s')"
    unfolding held_amounts_def
  proof (intro allI impI)
    fix l q v x
    assume h: "Holding l q v \<in> set (lsWorkers s')" "mbLeases l' l = Some x"
    have "mbLeases ?m l = Some x" using h(2) eff(3) by (simp split: if_splits)
    with held_amountsD[OF held old[OF h(1)]] show "reserved_amount x (tpmKey q ''default'') = v" .
  qed
  ultimately show ?thesis using assms(2) eff ws unfolding local_ok_def by simp
next
  case (load_return i)
  show ?thesis
    by (rule local_ok_stay[OF assms(2) load_return(2,3), of Returned])
      (use load_return(1) assms(2) in \<open>simp_all add: local_ok_def\<close>)
qed

lemma local_ok_reachable:
  assumes "load_reachable cfg (range local_limiter) m0 s" "wf_backend m0" "mbLeases m0 = Map.empty"
  shows "local_ok m0 s"
  using assms(1)
proof induction
  case load_init
  show ?case using assms(2,3)
    by (simp add: local_ok_def load_start_def load_stats0_def held_amounts_def clean_stats_def)
qed (rule local_ok_step)

lemma finished_holds_nothing:
  "load_finished s \<Longrightarrow> Holding l p u \<notin> set (lsWorkers s)" "load_finished s \<Longrightarrow> holding (lsWorkers s) = 0"
  by (auto simp: load_finished_def holding_def filter_empty_conv)


text \<open>One worker that reserves, completes and returns.\<close>

definition load_example :: load_settings where
  "load_example = (fst load_flags)\<lparr>lcMode := ''local'', lcConcurrency := 1, lcProviders := [''p''], lcMaxTokens := 1\<rparr>"

definition load_limit :: "limit_key \<Rightarrow> limit_kind \<Rightarrow> go_int \<Rightarrow> go_int \<Rightarrow> limit_state" where
  "load_limit k kind window timeout =
     \<lparr>Definition = \<lparr>Key = k, Kind = kind, Capacity = 5, WindowSeconds = window, TimeoutSeconds = timeout,
        Unit = [], Description = [], Overage = OverageDebt\<rparr>, Status = LimitStatusActive, PendingDecreaseTo = 0\<rparr>"

definition load_backend :: memory_backend where
  "load_backend = applyStates (mem_AttachRegistry mem_New False [])
     [load_limit (rpmKey ''p'' ''default'') KindRolling 60 0, load_limit (tpmKey ''p'' ''default'') KindRolling 60 0,
      load_limit (concurrencyKey ''p'' ''default'') KindConcurrency 0 60]"


text \<open>Every call is answered: a worker is never stuck in front of the in-process limiter.\<close>

lemma local_calls_answered:
  assumes "wf_backend m"
  shows "lmReserve (local_limiter clk) m req \<noteq> None" "lmComplete (local_limiter clk) m creq \<noteq> None"
  using mem_Reserve_total[OF assms, of clk req clk] mem_Complete_total[OF assms, of creq]
  by (auto simp: local_limiter_def local_Reserve_def local_Complete_def)

text \<open>A key the limiter does not know counts as a denial, and a completion the limiter answers with
  \<open>ok: false\<close> as a completion.\<close>

lemma unknown_key_counts_as_denied:
  "deniedCount (fst (after_reserve l p u d (Inl (reserve_response0\<lparr>Error := e\<rparr>)) s)) = deniedCount s + 1"
  "errorCount (fst (after_reserve l p u d (Inl (reserve_response0\<lparr>Error := e\<rparr>)) s)) = errorCount s"
  by (simp_all add: after_reserve_def Let_def reserve_response0_def recordReserveLatency_def)

lemma refused_completion_counts:
  "completeCount (after_complete d (Inl complete_response0) s) = completeCount s + 1"
  by (simp add: after_complete_def Let_def recordCompleteLatency_def)

end
