(* ===== verification/Html_Reports.thy ===== *)
theory Html_Reports
  imports Runner_Plan Config_Paths
begin

text \<open>
  The pages and files made from templates: the report of one run (\<open>internal/runner/report_stub_templ.go\<close>),
  the report of several (\<open>internal/report/report_templ.go\<close>) and the first configuration
  (\<open>internal/config/scaffold_templ.go\<close>).  A page is a list of pieces, the template's own text and
  the data, which the buffer gets through \<open>templ.EscapeString\<close>; that function and the texts of
  percentages are parameters.  Writing to a \<open>strings.Builder\<close> does not fail.
\<close>

datatype piece = Own string | Data string

primrec render_piece :: "(string \<Rightarrow> string) \<Rightarrow> piece \<Rightarrow> string" where
  "render_piece esc (Own s) = s"
| "render_piece esc (Data s) = esc s"

definition render_pieces :: "(string \<Rightarrow> string) \<Rightarrow> piece list \<Rightarrow> string" where
  "render_pieces esc ps = concat (map (render_piece esc) ps)"

text \<open>Attribute values are in double quotes.\<close>

definition attr :: "string \<Rightarrow> string \<Rightarrow> string" where
  "attr name val = '' '' @ name @ ''='' @ [CHR 0x22] @ val @ [CHR 0x22]"

definition page_start :: string where
  "page_start = ''<!doctype html><html><head><meta'' @ attr ''charset'' ''utf-8'' @
     ''><title>Cogni Report</title></head><body><h1>Cogni Report</h1>''"

definition table_start :: "string list \<Rightarrow> string" where
  "table_start headings =
     ''<table'' @ attr ''border'' ''1'' @ attr ''cellspacing'' ''0'' @ attr ''cellpadding'' ''6'' @ ''><thead><tr>'' @
     concat (map (\<lambda>h. ''<th>'' @ h @ ''</th>'') headings) @ ''</tr></thead> <tbody>''"

section \<open>The report of one run\<close>

definition bool_text :: "bool \<Rightarrow> string" where
  "bool_text b = (if b then ''true'' else ''false'')"

definition stub_row :: "question_result \<Rightarrow> piece list" where
  "stub_row item =
     [Own ''<tr><td>'', Data (qrID item), Own ''</td><td>'', Data (qrQuestion item), Own ''</td><td>'',
      Data (qrAgentAnswer item), Own ''</td><td>'', Data (bool_text (qrCorrect item)), Own ''</td></tr>'']"

definition stub_task :: "(rat \<Rightarrow> string) \<Rightarrow> task_result \<Rightarrow> piece list" where
  "stub_task pct1 task =
     (case taQuestionEval task of
        None \<Rightarrow> []
      | Some e \<Rightarrow>
          [Own ''<h2>Question Eval: '', Data (taTaskID task), Own ''</h2><p>Accuracy '',
           Data (pct1 (qsAccuracy (qeSummary e))), Own ''% ('',
           Data (show_int (qsQuestionsCorrect (qeSummary e))), Own ''/'',
           Data (show_int (qsQuestionsTotal (qeSummary e))),
           Own ('')</p>'' @ table_start [''ID'', ''Question'', ''Answer'', ''Correct''])] @
          concat (map stub_row (qeQuestions e)) @ [Own ''</tbody></table>''])"

definition RunReportStub :: "(rat \<Rightarrow> string) \<Rightarrow> run_results \<Rightarrow> piece list" where
  "RunReportStub pct1 results =
     [Own (page_start @ ''<p>Run ''), Data (rrRunID results), Own '' on commit '',
      Data (rmCommit (rrRepo results)), Own ''</p>''] @
     concat (map (stub_task pct1) (rrTasks results)) @ [Own ''</body></html>'']"

definition renderRunReportHTML :: "(string \<Rightarrow> string) \<Rightarrow> (rat \<Rightarrow> string) \<Rightarrow> run_results \<Rightarrow> string" where
  "renderRunReportHTML esc pct1 results = render_pieces esc (RunReportStub pct1 results)"

section \<open>The report of several runs\<close>

text \<open>\<open>pct2\<close> is \<open>formatPassRate\<close>: the rate as a percentage with two decimals.\<close>

definition page_row :: "(rat \<Rightarrow> string) \<Rightarrow> run_results \<Rightarrow> piece list" where
  "page_row pct2 run =
     [Own ''<tr><td>'', Data (rmCommit (rrRepo run)), Own ''</td><td>'', Data (rrRunID run), Own ''</td><td>'',
      Data (pct2 (rsPassRate (rrSummary run))), Own ''%</td><td>''] @
     (if rsQuestionsTotal (rrSummary run) > 0
      then [Data (pct2 (rsQuestionAccuracy (rrSummary run))), Own ''%''] else [Own ''-'']) @
     [Own ''</td><td>'', Data (show_int (rsTokensTotal (rrSummary run))), Own ''</td></tr>'']"

definition ReportPage :: "(rat \<Rightarrow> string) \<Rightarrow> run_results list \<Rightarrow> piece list" where
  "ReportPage pct2 runs =
     [Own (page_start @ table_start [''Commit'', ''Run ID'', ''Pass Rate'', ''Question Accuracy'', ''Tokens Total''])] @
     concat (map (page_row pct2) runs) @ [Own ''</tbody></table></body></html>'']"

definition renderReportHTML :: "(string \<Rightarrow> string) \<Rightarrow> (rat \<Rightarrow> string) \<Rightarrow> run_results list \<Rightarrow> string" where
  "renderReportHTML esc pct2 runs = render_pieces esc (ReportPage pct2 runs)"

section \<open>The first configuration\<close>

definition quoted :: "string \<Rightarrow> string" where
  "quoted s = [CHR 0x22] @ s @ [CHR 0x22]"

text \<open>The template writes the output directory as it is.\<close>

definition ScaffoldConfig :: "string \<Rightarrow> string" where
  "ScaffoldConfig outputDir =
     concat (map (\<lambda>l. l @ [CHR 0x0A])
       [''version: 1'', ''repo:'', ''  output_dir: '' @ quoted outputDir, ''  setup_commands:'',
        ''    - '' @ quoted ''go mod download'', [], ''agents:'', ''  - id: default'', ''    type: builtin'',
        ''    provider: '' @ quoted ''openrouter'', ''    model: '' @ quoted ''gpt-4.1-mini'', ''    max_steps: 25'',
        ''    temperature: 0.0'', [], ''default_agent: '' @ quoted ''default'', [], ''tasks:'',
        ''  - id: question_eval_core'', ''    type: question_eval'', ''    agent: '' @ quoted ''default'',
        ''    questions_file: '' @ quoted ''spec/questions/core.yml'', ''    budget:'', ''      max_tokens: 12000'',
        ''      max_seconds: 120''])"

section \<open>The data of a page cannot change its structure\<close>

definition markup :: "string \<Rightarrow> string" where
  "markup s = filter (\<lambda>c. c \<in> {CHR ''<'', CHR ''>'', CHR 0x22, CHR 0x27}) s"

definition inert :: "(string \<Rightarrow> string) \<Rightarrow> bool" where
  "inert esc \<longleftrightarrow> (\<forall>s. markup (esc s) = [])"

primrec own_markup :: "piece \<Rightarrow> string" where
  "own_markup (Own s) = markup s"
| "own_markup (Data s) = []"

lemma markup_append [simp]: "markup (s @ t) = markup s @ markup t"
  by (simp add: markup_def)

lemma markup_render: "inert esc \<Longrightarrow> markup (render_pieces esc ps) = concat (map own_markup ps)"
proof (induction ps)
  case (Cons p ps)
  then show ?case by (cases p) (simp_all add: render_pieces_def inert_def)
qed (simp add: render_pieces_def markup_def)

lemma own_markup_concat: "concat (map own_markup (concat pss)) = concat (map (\<lambda>ps. concat (map own_markup ps)) pss)"
  by (induction pss) simp_all

definition row_markup :: string where
  "row_markup = concat (map markup [''<tr><td>'', ''</td><td>'', ''</td><td>'', ''</td><td>'', ''</td></tr>''])"

lemma stub_row_markup: "concat (map own_markup (stub_row item)) = row_markup"
  by (simp add: stub_row_def row_markup_def)

definition task_markup :: "nat \<Rightarrow> string" where
  "task_markup n =
     markup (''<h2></h2><p></p>'' @ table_start [''ID'', ''Question'', ''Answer'', ''Correct'']) @
     concat (replicate n row_markup) @ markup ''</tbody></table>''"

lemma stub_task_markup:
  "concat (map own_markup (stub_task pct1 task)) =
     (case taQuestionEval task of None \<Rightarrow> [] | Some e \<Rightarrow> task_markup (length (qeQuestions e)))"
proof (cases "taQuestionEval task")
  case (Some e)
  have "concat (map (\<lambda>i. concat (map own_markup (stub_row i))) qs) = concat (replicate (length qs) row_markup)" for qs
    by (induction qs) (simp_all add: stub_row_markup)
  moreover have "markup (''%'' @ '' ('') = []" "markup ''% ('' = []" "markup ''/'' = []" "markup ('')'' @ x) = markup x"
    "markup (''<h2>Question Eval: '') @ markup ''</h2><p>Accuracy '' @ markup ('')</p>'' @ t) = markup (''<h2></h2><p></p>'' @ t)"
    for x t by (simp_all add: markup_def)
  ultimately show ?thesis
    by (simp add: stub_task_def Some task_markup_def own_markup_concat comp_def)
qed (simp add: stub_task_def)

text \<open>Angle brackets and quotes of a run's page are the template's: they depend on how many questions
  each evaluated task has, not on the text of a question, an answer or an id.\<close>

theorem run_page_structure:
  assumes "inert esc"
  shows "markup (renderRunReportHTML esc pct1 results) =
     markup (page_start @ ''<p></p>'') @
     concat (map (\<lambda>t. case taQuestionEval t of None \<Rightarrow> [] | Some e \<Rightarrow> task_markup (length (qeQuestions e)))
       (rrTasks results)) @ markup ''</body></html>''"
proof -
  have "markup ''<p>Run '' @ markup '' on commit '' @ markup ''</p>'' = markup ''<p></p>''" by (simp add: markup_def)
  then show ?thesis
    by (simp add: renderRunReportHTML_def markup_render[OF assms] RunReportStub_def own_markup_concat comp_def
      stub_task_markup)
qed

text \<open>An escape function as documented: the five characters become entities.\<close>

definition html_escape :: "string \<Rightarrow> string" where
  "html_escape s = concat (map (\<lambda>c.
     if c = CHR ''<'' then ''&lt;'' else if c = CHR ''>'' then ''&gt;'' else if c = CHR ''&'' then ''&amp;''
     else if c = CHR 0x22 then ''&#34;'' else if c = CHR 0x27 then ''&#39;'' else [c]) s)"

lemma html_escape_inert: "inert html_escape"
proof -
  have "markup (html_escape s) = []" for s
    by (induction s) (simp_all add: html_escape_def markup_def)
  then show ?thesis by (simp add: inert_def)
qed

text \<open>The configuration is not escaped: a double quote in the directory ends the YAML string.\<close>

lemma scaffold_quotes: "count_byte (CHR 0x22) (ScaffoldConfig d) = 14 + count_byte (CHR 0x22) d"
  by (simp add: ScaffoldConfig_def quoted_def count_byte_def)

end
