(* ===== verification/Fixture.thy ===== *)
theory Fixture
  imports Duckdb Go_Path
begin

text \<open>
  The generator of database fixtures (\<open>scripts/duckdb\<close>) and the summary of test events
  (\<open>cmd/docs-test-results\<close>).  The database, the file system, JSON and the UUIDs of names are
  parameters; a statement of the generator is a value, so that its order can be read off.
\<close>

section \<open>The statements of the generator\<close>

record fixture_config =
  fxName :: string
  fxRevisions :: go_int
  fxMetrics :: go_int
  fxRuns :: go_int

text \<open>A measurement row is run, context, metric, the sample index 0, the status ok and its value; its
  other columns are null.\<close>

datatype fx_statement =
    Begin
  | InsertRepo string string
  | InsertRun string string
  | InsertMetric string string
  | InsertRevision string string int
  | InsertParent string string string
  | InsertContext string string string string
  | AppendMeasurement string string string int
  | CloseAppender
  | Commit
  | Rollback

text \<open>An action is a statement or the parsing of a UUID.\<close>

datatype fx_action = Exec fx_statement | ParseUUID string

definition deterministicID :: "(string \<Rightarrow> string) \<Rightarrow> string \<Rightarrow> nat \<Rightarrow> string" where
  "deterministicID sha1 pre index = sha1 (pre @ ''-'' @ show_int (int index))"

text \<open>\<open>%06d\<close> of an index.\<close>

definition pad6 :: "nat \<Rightarrow> string" where
  "pad6 n = (let s = show_int (int n) in replicate (6 - length s) (CHR ''0'') @ s)"

definition rev_id :: "nat \<Rightarrow> string" where
  "rev_id i = ''rev-'' @ pad6 i"

definition metric_name :: "nat \<Rightarrow> string" where
  "metric_name i = (if i = 0 then ''tokens'' else ''metric_'' @ show_int (int i))"

definition run_actions :: "(string \<Rightarrow> string) \<Rightarrow> string \<Rightarrow> nat \<Rightarrow> fx_action list" where
  "run_actions sha1 repoID i =
     [ParseUUID (deterministicID sha1 ''run'' i), Exec (InsertRun (deterministicID sha1 ''run'' i) repoID)]"

definition metric_actions :: "(string \<Rightarrow> string) \<Rightarrow> nat \<Rightarrow> fx_action list" where
  "metric_actions sha1 i =
     [ParseUUID (deterministicID sha1 ''metric'' i),
      Exec (InsertMetric (deterministicID sha1 ''metric'' i) (metric_name i))]"

definition measurements :: "string list \<Rightarrow> string list \<Rightarrow> string \<Rightarrow> nat \<Rightarrow> fx_action list" where
  "measurements runs metrics contextID i =
     concat (map (\<lambda>run. map (\<lambda>(k, metric). Exec (AppendMeasurement run contextID metric (int (i + k))))
       (enumerate 0 metrics)) runs)"

definition revision_actions ::
    "(string \<Rightarrow> string) \<Rightarrow> string \<Rightarrow> string list \<Rightarrow> string list \<Rightarrow> int \<Rightarrow> nat \<Rightarrow> fx_action list" where
  "revision_actions sha1 repoID runs metrics start i =
     (let contextID = deterministicID sha1 ''context'' i in
      [Exec (InsertRevision repoID (rev_id i) (start + int i * 60))] @
      (if i > 0 then [Exec (InsertParent repoID (rev_id i) (rev_id (i - 1)))] else []) @
      [Exec (InsertContext contextID (deterministicID sha1 ''context-key'' i) repoID (rev_id i)), ParseUUID contextID] @
      measurements runs metrics contextID i)"

definition indices :: "go_int \<Rightarrow> nat list" where
  "indices n = [0..<nat n]"

text \<open>The actions before the appender is opened and those after; \<open>start\<close> is the first time in
  seconds.\<close>

definition setup_actions :: "(string \<Rightarrow> string) \<Rightarrow> fixture_config \<Rightarrow> fx_action list" where
  "setup_actions sha1 cfg =
     (let repoID = deterministicID sha1 ''repo'' 0 in
      [Exec (InsertRepo repoID (''fixture-'' @ fxName cfg))] @
      concat (map (run_actions sha1 repoID) (indices (fxRuns cfg))) @
      concat (map (metric_actions sha1) (indices (fxMetrics cfg))))"

definition fill_actions :: "(string \<Rightarrow> string) \<Rightarrow> int \<Rightarrow> fixture_config \<Rightarrow> fx_action list" where
  "fill_actions sha1 start cfg =
     (let repoID = deterministicID sha1 ''repo'' 0;
          runs = map (deterministicID sha1 ''run'') (indices (fxRuns cfg));
          metrics = map (deterministicID sha1 ''metric'') (indices (fxMetrics cfg))
      in concat (map (revision_actions sha1 repoID runs metrics start) (indices (fxRevisions cfg))))"

section \<open>Running them\<close>

record 'w fx_env =
  fxRemoveIfExists :: "'w \<Rightarrow> string \<Rightarrow> 'w \<times> go_error"
  fxOpen :: "'w \<Rightarrow> string \<Rightarrow> 'w \<times> go_error"
  fxExec :: "'w \<Rightarrow> fx_statement \<Rightarrow> 'w \<times> go_error"
  fxOpenAppender :: "'w \<Rightarrow> 'w \<times> go_error"
  fxParseUUID :: "string \<Rightarrow> go_error"

fun run_actions_until :: "'w fx_env \<Rightarrow> fx_action list \<Rightarrow> 'w \<Rightarrow> 'w \<times> go_error" where
  "run_actions_until E [] w = (w, None)"
| "run_actions_until E (Exec s # acts) w =
     (case fxExec E w s of (w', Some err) \<Rightarrow> (w', Some err) | (w', None) \<Rightarrow> run_actions_until E acts w')"
| "run_actions_until E (ParseUUID t # acts) w =
     (case fxParseUUID E t of Some err \<Rightarrow> (w, Some err) | None \<Rightarrow> run_actions_until E acts w)"

text \<open>The deferred functions: the appender is closed if it is open, then the transaction rolled back;
  their errors are dropped.\<close>

definition give_up :: "'w fx_env \<Rightarrow> bool \<Rightarrow> string \<Rightarrow> 'w \<Rightarrow> 'w \<times> go_error" where
  "give_up E opened err w =
     (let w1 = (if opened then fst (fxExec E w CloseAppender) else w) in (fst (fxExec E w1 Rollback), Some err))"

definition finish :: "'w fx_env \<Rightarrow> 'w \<Rightarrow> 'w \<times> go_error" where
  "finish E w =
     (case fxExec E w CloseAppender of
        (w1, Some err) \<Rightarrow> give_up E True err w1
      | (w1, None) \<Rightarrow>
         (case fxExec E w1 Commit of (w2, Some err) \<Rightarrow> give_up E False err w2 | (w2, None) \<Rightarrow> (w2, None)))"

text \<open>Removing the old file, and opening the database with its schema and a connection (\<open>fxOpen\<close>), are
  steps before the transaction; \<open>fxOpenAppender\<close> prepares the three statements and opens the
  appender.\<close>

definition generateFixture ::
    "'w fx_env \<Rightarrow> (string \<Rightarrow> string) \<Rightarrow> int \<Rightarrow> string \<Rightarrow> fixture_config \<Rightarrow> 'w \<Rightarrow> 'w \<times> go_error" where
  "generateFixture E sha1 start path cfg w =
     (case fxRemoveIfExists E w path of
        (w1, Some err) \<Rightarrow> (w1, Some err)
      | (w1, None) \<Rightarrow>
         (case fxOpen E w1 path of
            (w2, Some err) \<Rightarrow> (w2, Some err)
          | (w2, None) \<Rightarrow>
             (case fxExec E w2 Begin of
                (w3, Some err) \<Rightarrow> (w3, Some err)
              | (w3, None) \<Rightarrow>
                 (case run_actions_until E (setup_actions sha1 cfg) w3 of
                    (w4, Some err) \<Rightarrow> give_up E False err w4
                  | (w4, None) \<Rightarrow>
                     (case fxOpenAppender E w4 of
                        (w5, Some err) \<Rightarrow> give_up E False err w5
                      | (w5, None) \<Rightarrow>
                         (case run_actions_until E (fill_actions sha1 start cfg) w5 of
                            (w6, Some err) \<Rightarrow> give_up E True err w6
                          | (w6, None) \<Rightarrow> finish E w6))))))"

text \<open>\<open>dirOf\<close>: the parent directory, except that a path that ends in a separator is its own.\<close>

definition dirOf :: "string \<Rightarrow> string" where
  "dirOf path = (if path = [] then ''.'' else if last path = slash then path else Dir path)"

datatype stat_result = StatOK | StatMissing | StatFailed string

definition removeIfExists :: "('w \<Rightarrow> string \<Rightarrow> stat_result) \<Rightarrow> ('w \<Rightarrow> string \<Rightarrow> 'w \<times> go_error) \<Rightarrow> 'w \<Rightarrow> string \<Rightarrow> 'w \<times> go_error" where
  "removeIfExists stat remove w path =
     (case stat w path of
        StatOK \<Rightarrow> (case remove w path of
                    (w', Some err) \<Rightarrow> (w', Some (''remove existing fixture: '' @ err)) | (w', None) \<Rightarrow> (w', None))
      | StatMissing \<Rightarrow> (w, None)
      | StatFailed err \<Rightarrow> (w, Some (''stat fixture: '' @ err)))"

text \<open>\<open>main\<close>: the exit code and the line on standard error.\<close>

definition fixture_main ::
    "'w fx_env \<Rightarrow> (string \<Rightarrow> string) \<Rightarrow> int \<Rightarrow> ('w \<Rightarrow> string \<Rightarrow> fixture_config + string) \<Rightarrow>
     ('w \<Rightarrow> string \<Rightarrow> 'w \<times> go_error) \<Rightarrow> string \<Rightarrow> string \<Rightarrow> 'w \<Rightarrow> 'w \<times> int \<times> string" where
  "fixture_main E sha1 start loadCfg mkdirAll configPath outPath w =
     (if configPath = [] \<or> outPath = [] then (w, 2, ''usage: generate_fixture --config <path> --out <duckdb file>'')
      else case loadCfg w configPath of
        Inr err \<Rightarrow> (w, 1, ''load config: '' @ err)
      | Inl cfg \<Rightarrow>
         (case mkdirAll w (dirOf outPath) of
            (w1, Some err) \<Rightarrow> (w1, 1, ''mkdir output dir: '' @ err)
          | (w1, None) \<Rightarrow>
             (case generateFixture E sha1 start outPath cfg w1 of
                (w2, Some err) \<Rightarrow> (w2, 1, ''generate fixture: '' @ err)
              | (w2, None) \<Rightarrow> (w2, 0, []))))"

section \<open>Summaries of test events\<close>

record test_event =
  teAction :: string
  tePackage :: string
  teTest :: string
  teElapsed :: string

record test_result =
  trPackage :: string
  trName :: string
  trStatus :: string
  trDuration :: string

text \<open>One line of the loop; a line that does not decode is skipped.\<close>

definition add_event :: "(string \<Rightarrow> test_event option) \<Rightarrow> (string \<rightharpoonup> test_result) \<Rightarrow> string \<Rightarrow> (string \<rightharpoonup> test_result)" where
  "add_event decode results scanned =
     (let line = TrimSpace scanned in
      if line = [] then results
      else case decode line of
        None \<Rightarrow> results
      | Some event \<Rightarrow>
          if teTest event = [] then results
          else if teAction event \<in> {''pass'', ''fail'', ''skip''} then
            results(tePackage event @ ''::'' @ teTest event \<mapsto>
              \<lparr>trPackage = tePackage event, trName = teTest event, trStatus = teAction event,
               trDuration = teElapsed event\<rparr>)
          else results)"

definition test_summary :: "(string \<Rightarrow> test_event option) \<Rightarrow> string list \<Rightarrow> (string \<rightharpoonup> test_result)" where
  "test_summary decode lines = foldl (add_event decode) Map.empty lines"

text \<open>The program fails when the scanner does, and then writes nothing.\<close>

definition docs_main :: "(string \<Rightarrow> test_event option) \<Rightarrow> string list \<Rightarrow> go_error \<Rightarrow> (string \<rightharpoonup> test_result) option \<times> int \<times> string" where
  "docs_main decode lines scanErr =
     (case scanErr of
        Some err \<Rightarrow> (None, 1, ''read test events: '' @ err)
      | None \<Rightarrow> (Some (test_summary decode lines), 0, []))"

text \<open>
  The generator commits everything or nothing, creates every revision before it is named as a
  parent and one measurement per revision, run and metric; a test's last outcome is the one that is
  reported.
\<close>

section \<open>Order and number of rows\<close>

definition is_measurement :: "fx_action \<Rightarrow> bool" where
  "is_measurement a = (case a of Exec (AppendMeasurement _ _ _ _) \<Rightarrow> True | _ \<Rightarrow> False)"

lemma length_measurements:
  "length (filter is_measurement (measurements runs metrics c i)) = length runs * length metrics"
proof -
  have "\<forall>a \<in> set (measurements runs metrics c i). is_measurement a"
    by (auto simp: measurements_def is_measurement_def)
  then have "filter is_measurement (measurements runs metrics c i) = measurements runs metrics c i"
    by (simp add: filter_id_conv)
  moreover have "length (measurements runs metrics c i) = length runs * length metrics"
    by (induction runs) (simp_all add: measurements_def)
  ultimately show ?thesis by simp
qed

lemma revision_measurements:
  "length (filter is_measurement (revision_actions sha1 r runs metrics t i)) = length runs * length metrics"
  by (simp add: revision_actions_def Let_def length_measurements is_measurement_def[of "ParseUUID _"]
    is_measurement_def[of "Exec (InsertRevision _ _ _)"] is_measurement_def[of "Exec (InsertParent _ _ _)"]
    is_measurement_def[of "Exec (InsertContext _ _ _ _)"])

theorem measurement_count:
  "length (filter is_measurement (fill_actions sha1 t cfg)) =
     nat (fxRevisions cfg) * nat (fxRuns cfg) * nat (fxMetrics cfg)"
proof -
  have "length (filter is_measurement (concat (map (revision_actions sha1 r runs metrics t) is))) =
      length is * (length runs * length metrics)" for r runs metrics "is"
    by (induction "is") (simp_all add: revision_measurements)
  then show ?thesis by (simp add: fill_actions_def Let_def indices_def)
qed

lemma revision_actions_revision:
  "Exec (InsertRevision repo r ts) \<in> set (revision_actions sha1 repo runs metrics t i) \<longleftrightarrow>
     r = rev_id i \<and> ts = t + int i * 60"
  by (auto simp: revision_actions_def Let_def measurements_def)

text \<open>A parent link comes after the rows of both its revisions.\<close>

theorem parents_exist:
  assumes "fill_actions sha1 t cfg = before @ Exec (InsertParent repo child parent) # after"
  shows "\<exists>i. child = rev_id (Suc i) \<and> parent = rev_id i \<and>
     (\<exists>ts. Exec (InsertRevision repo child ts) \<in> set before) \<and>
     (\<exists>ts. Exec (InsertRevision repo parent ts) \<in> set before)"
proof -
  define repo0 where "repo0 = deterministicID sha1 ''repo'' 0"
  define runs where "runs = map (deterministicID sha1 ''run'') (indices (fxRuns cfg))"
  define metrics where "metrics = map (deterministicID sha1 ''metric'') (indices (fxMetrics cfg))"
  let ?act = "revision_actions sha1 repo0 runs metrics t"
  have main: "concat (map ?act [0..<n]) = before @ Exec (InsertParent repo child parent) # after \<Longrightarrow>
      repo = repo0 \<and> (\<exists>i. child = rev_id (Suc i) \<and> parent = rev_id i \<and>
        (\<exists>ts. Exec (InsertRevision repo child ts) \<in> set before) \<and>
        (\<exists>ts. Exec (InsertRevision repo parent ts) \<in> set before))" for n after
  proof (induction n arbitrary: after)
    case (Suc n)
    let ?p = "Exec (InsertParent repo child parent)"
    have eq: "concat (map ?act [0..<n]) @ ?act n = before @ ?p # after" using Suc.prems by simp
    then consider us where "concat (map ?act [0..<n]) = before @ ?p # us"
      | us where "before = concat (map ?act [0..<n]) @ us" "?act n = us @ ?p # after"
      by (auto simp: append_eq_append_conv2 append_eq_Cons_conv)
    then show ?case
    proof cases
      case 1
      then show ?thesis by (rule Suc.IH)
    next
      case (2 us)
      have "?p \<in> set (?act n)" using 2(2) by simp
      then have n: "n > 0" "repo = repo0" "child = rev_id n" "parent = rev_id (n - 1)"
        by (auto simp: revision_actions_def Let_def measurements_def split: if_splits)
      obtain rest where rest: "?act n = Exec (InsertRevision repo0 (rev_id n) (t + int n * 60)) # rest"
        by (simp add: revision_actions_def Let_def)
      then obtain us' where "us = Exec (InsertRevision repo0 (rev_id n) (t + int n * 60)) # us'"
        using 2(2) by (cases us) auto
      then have c: "Exec (InsertRevision repo child (t + int n * 60)) \<in> set before" using 2(1) n by simp
      have "Exec (InsertRevision repo0 (rev_id (n - 1)) (t + int (n - 1) * 60)) \<in> set (?act (n - 1))"
        by (simp add: revision_actions_revision)
      then have "Exec (InsertRevision repo parent (t + int (n - 1) * 60)) \<in> set (concat (map ?act [0..<n]))"
        using n by force
      then have "Exec (InsertRevision repo parent (t + int (n - 1) * 60)) \<in> set before" using 2(1) by simp
      moreover have "child = rev_id (Suc (n - 1))" using n by simp
      ultimately show ?thesis using c n by blast
    qed
  qed simp
  show ?thesis using main[of "nat (fxRevisions cfg)" after] assms
    by (simp add: fill_actions_def Let_def indices_def repo0_def runs_def metrics_def) blast
qed

section \<open>All or nothing\<close>

text \<open>A world that logs what it is asked: \<open>bad\<close> are the statements that fail.\<close>

definition logs :: "'w fx_env \<Rightarrow> ('w \<Rightarrow> fx_statement list) \<Rightarrow> bool" where
  "logs E trace \<longleftrightarrow> (\<forall>w s. trace (fst (fxExec E w s)) = trace w @ [s]) \<and>
     (\<forall>w p. trace (fst (fxRemoveIfExists E w p)) = trace w) \<and> (\<forall>w p. trace (fst (fxOpen E w p)) = trace w) \<and>
     (\<forall>w. trace (fst (fxOpenAppender E w)) = trace w)"

lemma run_actions_log:
  "logs E trace \<Longrightarrow> run_actions_until E acts w = (w', err) \<Longrightarrow>
     \<exists>pre. prefix pre acts \<and> trace w' = trace w @ concat (map (\<lambda>a. case a of Exec s \<Rightarrow> [s] | _ \<Rightarrow> []) pre) \<and>
       (err = None \<longrightarrow> pre = acts)"
proof (induction E acts w rule: run_actions_until.induct)
  case (2 E s acts w)
  obtain w1 e where x: "fxExec E w s = (w1, e)" by (cases "fxExec E w s")
  have l: "trace w1 = trace w @ [s]" using 2(2) x unfolding logs_def by (metis fst_conv)
  show ?case
  proof (cases e)
    case None
    then have "run_actions_until E acts w1 = (w', err)" using 2(3) x by simp
    from "2.IH"[OF x[symmetric] None "2.prems"(1) this] obtain pre where
      "prefix pre acts" "trace w' = trace w1 @ concat (map (\<lambda>a. case a of Exec s \<Rightarrow> [s] | _ \<Rightarrow> []) pre)"
      "err = None \<longrightarrow> pre = acts" by blast
    then show ?thesis using l by (intro exI[of _ "Exec s # pre"]) simp
  next
    case (Some x')
    then show ?thesis using 2(3) x l by (intro exI[of _ "[Exec s]"]) auto
  qed
next
  case (3 E t acts w)
  show ?case
  proof (cases "fxParseUUID E t")
    case None
    then have "run_actions_until E acts w = (w', err)" using 3(3) by simp
    from "3.IH"[OF None "3.prems"(1) this] obtain pre where
      "prefix pre acts" "trace w' = trace w @ concat (map (\<lambda>a. case a of Exec s \<Rightarrow> [s] | _ \<Rightarrow> []) pre)"
      "err = None \<longrightarrow> pre = acts" by blast
    then show ?thesis by (intro exI[of _ "ParseUUID t # pre"]) simp
  next
    case (Some x)
    have "w' = w" "err = Some x" using 3(3) by (simp_all add: Some)
    then show ?thesis by (intro exI[of _ "[]"]) simp
  qed
qed simp

text \<open>A failed run that got as far as the transaction ends with a rollback and a successful one with a
  commit, which is its only one.\<close>

theorem fixture_all_or_nothing:
  assumes "logs E trace" "generateFixture E sha1 t path cfg w = (w', err)" "trace w = []"
  shows "err = None \<Longrightarrow> trace w' = Begin #
      concat (map (\<lambda>a. case a of Exec s \<Rightarrow> [s] | _ \<Rightarrow> []) (setup_actions sha1 cfg @ fill_actions sha1 t cfg)) @
      [CloseAppender, Commit]"
    and "err \<noteq> None \<Longrightarrow> trace w' \<in> {[], [Begin]} \<or> last (trace w') = Rollback"
proof -
  have L: "fxExec E v s = (v', e) \<Longrightarrow> trace v' = trace v @ [s]" "fxRemoveIfExists E v p = (v', e) \<Longrightarrow> trace v' = trace v"
    "fxOpen E v p = (v', e) \<Longrightarrow> trace v' = trace v" "fxOpenAppender E v = (v', e) \<Longrightarrow> trace v' = trace v" for v v' s e p
    using assms(1) unfolding logs_def by (metis fst_conv)+
  have G: "give_up E b e v = (v', x) \<Longrightarrow> x \<noteq> None \<and> last (trace v') = Rollback" for b e v v' x
    using assms(1) unfolding logs_def by (auto simp: give_up_def Let_def split: if_splits)
  note R = run_actions_log[OF assms(1)]
  show "err = None \<Longrightarrow> trace w' = Begin #
      concat (map (\<lambda>a. case a of Exec s \<Rightarrow> [s] | _ \<Rightarrow> []) (setup_actions sha1 cfg @ fill_actions sha1 t cfg)) @
      [CloseAppender, Commit]"
    using assms(2,3)
    by (auto simp: generateFixture_def finish_def split: prod.splits option.splits dest!: L G R)
  show "err \<noteq> None \<Longrightarrow> trace w' \<in> {[], [Begin]} \<or> last (trace w') = Rollback"
    using assms(2,3)
    by (auto simp: generateFixture_def finish_def split: prod.splits option.splits dest!: L G)
qed

section \<open>Test events\<close>

definition outcome :: "(string \<Rightarrow> test_event option) \<Rightarrow> string \<Rightarrow> (string \<times> test_result) option" where
  "outcome decode scanned =
     (case decode (TrimSpace scanned) of
        None \<Rightarrow> None
      | Some e \<Rightarrow>
          if TrimSpace scanned \<noteq> [] \<and> teTest e \<noteq> [] \<and> teAction e \<in> {''pass'', ''fail'', ''skip''}
          then Some (tePackage e @ ''::'' @ teTest e,
            \<lparr>trPackage = tePackage e, trName = teTest e, trStatus = teAction e, trDuration = teElapsed e\<rparr>)
          else None)"

lemma add_event_outcome:
  "add_event decode m l = (case outcome decode l of None \<Rightarrow> m | Some (k, r) \<Rightarrow> m(k \<mapsto> r))"
  by (simp add: add_event_def outcome_def Let_def split: option.splits)

text \<open>The summary maps each test to its last outcome.\<close>

theorem test_summary_last:
  "test_summary decode lines = map_of (rev (List.map_filter (outcome decode) lines))"
proof -
  have "foldl (add_event decode) m lines = m ++ map_of (rev (List.map_filter (outcome decode) lines))" for m
  proof (induction lines rule: rev_induct)
    case (snoc l lines)
    then show ?case
      by (auto simp: add_event_outcome List.map_filter_def split: option.splits)
  qed (simp add: List.map_filter_def)
  then show ?thesis by (simp add: test_summary_def)
qed

text \<open>\<open>dirOf\<close> keeps the last name of a path that ends in a separator, where \<open>filepath.Dir\<close> would name
  the same directory without it.\<close>

lemma dirOf_slash: "dirOf ''a/b/'' = ''a/b/''" "dirOf ''a/b'' = ''a''" "dirOf [] = ''.''"
  by code_simp+

end
