(* ===== verification/Calls.thy ===== *)
theory Calls
  imports Tools_Runner Scheduler TB_Submitter
begin

text \<open>
  Calls that leave the process, and the constructor of the scheduler: ripgrep
  (\<open>internal/tools/runner_exec.go\<close>), the TigerBeetle client under a context
  (\<open>internal/tbutil/context.go\<close>), \<open>newScheduler\<close> (\<open>pkg/ratelimiter\<close>) and the optional feature of a
  provider (\<open>internal/agent/compaction_capabilities.go\<close>).  How a process ended and which of two
  ready channels a \<open>select\<close> takes are parameters.
\<close>

section \<open>ripgrep\<close>

text \<open>What \<open>cmd.Run\<close> may report: success, an exit code, or another error (the process did not start, or
  the context killed it), with the two outputs and the text of the error.\<close>

datatype process_end = ExitOK | ExitCode int string | NotRun string

definition execRG_Run ::
    "bool \<Rightarrow> (string \<Rightarrow> string list \<Rightarrow> process_end \<times> string \<times> string) \<Rightarrow> string \<Rightarrow> string list \<Rightarrow> string + string" where
  "execRG_Run found run dir args =
     (if \<not> found then Inr ''rg not found''
      else case run dir args of (ended, stdout, stderr) \<Rightarrow>
        let failed = (\<lambda>err.
              let msg = TrimSpace stderr; msg = (if msg = [] then ''no stderr'' else msg)
              in Inr (''rg '' @ join '' '' args @ '': '' @ err @ '' ('' @ msg @ '')'')) in
        case ended of
          ExitOK \<Rightarrow> Inl stdout
        | ExitCode code err \<Rightarrow> if code = 1 then Inl stdout else failed err
        | NotRun err \<Rightarrow> failed err)"

text \<open>ripgrep exits with 1 when nothing matches: that is an answer.  Every other failure is an error that
  names the command.\<close>

lemma execRG_no_match: "run dir args = (ExitCode 1 e, stdout, stderr) \<Longrightarrow> execRG_Run True run dir args = Inl stdout"
  by (simp add: execRG_Run_def Let_def)

lemma execRG_error:
  assumes "execRG_Run found run dir args = Inr err"
  shows "err = ''rg not found'' \<and> \<not> found \<or> prefix (''rg '' @ join '' '' args @ '': '') err"
  using assms by (auto simp: execRG_Run_def Let_def prefix_def split: if_splits prod.splits process_end.splits)

section \<open>Calls under a context\<close>

text \<open>
  The call runs in a goroutine of its own and is not stopped: its effect on the service is that of
  an undisturbed call.  The caller gets its result or, if the context is done, the context's error;
  when both are ready it may get either.
\<close>

definition callWithContext :: "('s \<Rightarrow> 's \<times> ('a + string)) \<Rightarrow> go_error \<Rightarrow> bool \<Rightarrow> 's \<Rightarrow> 's \<times> ('a + string)" where
  "callWithContext fn ctxErr contextFirst s =
     (case fn s of (s', result) \<Rightarrow>
        (case ctxErr of
           Some err \<Rightarrow> if contextFirst then (s', Inr err) else (s', result)
         | None \<Rightarrow> (s', result)))"

record ('s, 'a) tb_client =
  tcCreateAccounts :: "'a list \<Rightarrow> 's \<Rightarrow> 's \<times> ((nat \<times> string) list + string)"
  tcLookupAccounts :: "byte list list \<Rightarrow> 's \<Rightarrow> 's \<times> ('a list + string)"
  tcCreateTransfers :: "tb_transfer list \<Rightarrow> 's \<Rightarrow> 's \<times> ((nat \<times> transfer_result) list + string)"

definition ctx_CreateAccounts where
  "ctx_CreateAccounts C ctxErr contextFirst accounts = callWithContext (tcCreateAccounts C accounts) ctxErr contextFirst"

definition ctx_LookupAccounts where
  "ctx_LookupAccounts C ctxErr contextFirst ids = callWithContext (tcLookupAccounts C ids) ctxErr contextFirst"

definition ctx_CreateTransfers where
  "ctx_CreateTransfers C ctxErr contextFirst transfers = callWithContext (tcCreateTransfers C transfers) ctxErr contextFirst"

text \<open>A call whose context ended has changed the service all the same: the caller's error does not say
  that nothing was transferred.\<close>

lemma context_error_unknown:
  "fst (ctx_CreateTransfers C ctxErr b transfers s) = fst (tcCreateTransfers C transfers s)"
  "ctxErr = None \<or> \<not> b \<Longrightarrow> ctx_CreateTransfers C ctxErr b transfers s = tcCreateTransfers C transfers s"
  "ctx_CreateTransfers C (Some err) True transfers s = (fst (tcCreateTransfers C transfers s), Inr err)"
  by (auto simp: ctx_CreateTransfers_def callWithContext_def split: prod.splits option.splits)

section \<open>The constructor of the scheduler\<close>

text \<open>Fields that are functions: \<open>None\<close> is nil.\<close>

record scheduler_config =
  scNow :: "(unit \<Rightarrow> go_time) option"
  scNewLeaseID :: "(unit \<Rightarrow> string) option"
  scJitter :: "(duration \<Rightarrow> duration) option"
  scErrorRetryDelay :: duration
  scIdleInterval :: duration

definition defaultSchedulerConfig :: "(unit \<Rightarrow> go_time) \<Rightarrow> (unit \<Rightarrow> string) \<Rightarrow> (int \<Rightarrow> int) \<Rightarrow> scheduler_config" where
  "defaultSchedulerConfig now newULID int63n =
     \<lparr>scNow = Some now, scNewLeaseID = Some newULID, scJitter = Some (Jitter int63n),
      scErrorRetryDelay = defaultErrorRetryDelay, scIdleInterval = defaultIdleInterval\<rparr>"

record scheduler_setup =
  suWorkers :: nat
  suSubmitCap :: nat
  suRequeueCap :: nat
  suWorkCap :: nat
  suNow :: "unit \<Rightarrow> go_time"
  suNewLeaseID :: "unit \<Rightarrow> string"
  suJitter :: "duration \<Rightarrow> duration"
  suErrorRetryDelay :: duration
  suIdleInterval :: duration

definition newScheduler ::
    "(unit \<Rightarrow> go_time) \<Rightarrow> (unit \<Rightarrow> string) \<Rightarrow> go_int \<Rightarrow> scheduler_config \<Rightarrow> scheduler_setup" where
  "newScheduler wall newULID workers0 cfg =
     (let workers = (if workers0 \<le> 0 then 1 else workers0) in
      \<lparr>suWorkers = nat workers, suSubmitCap = nat (workers * 4), suRequeueCap = nat (workers * 4),
       suWorkCap = nat workers,
       suNow = (case scNow cfg of None \<Rightarrow> wall | Some f \<Rightarrow> f),
       suNewLeaseID = (case scNewLeaseID cfg of None \<Rightarrow> newULID | Some f \<Rightarrow> f),
       suJitter = (case scJitter cfg of None \<Rightarrow> (\<lambda>_. 0) | Some f \<Rightarrow> f),
       suErrorRetryDelay = (if scErrorRetryDelay cfg \<le> 0 then defaultErrorRetryDelay else scErrorRetryDelay cfg),
       suIdleInterval = (if scIdleInterval cfg \<le> 0 then defaultIdleInterval else scIdleInterval cfg)\<rparr>)"

definition NewScheduler where
  "NewScheduler wall newULID int63n workers =
     newScheduler wall newULID workers (defaultSchedulerConfig wall newULID int63n)"

text \<open>Every scheduler has a worker and waits a positive time after an error and when idle, so its loops
  do not spin.\<close>

lemma newScheduler_positive:
  "suWorkers (newScheduler wall newULID n cfg) > 0"
  "suErrorRetryDelay (newScheduler wall newULID n cfg) > 0"
  "suIdleInterval (newScheduler wall newULID n cfg) > 0"
  "suSubmitCap (newScheduler wall newULID n cfg) \<ge> suWorkers (newScheduler wall newULID n cfg)"
  by (auto simp: newScheduler_def Let_def defaultErrorRetryDelay_def defaultIdleInterval_def Millisecond_def)

lemma NewScheduler_jitter:
  assumes "\<And>m. 0 < m \<Longrightarrow> 0 \<le> int63n m \<and> int63n m < m"
  shows "0 \<le> suJitter (NewScheduler wall newULID int63n n) d"
    and "suJitter (NewScheduler wall newULID int63n n) d \<le> defaultJitterMax"
    and "0 < d \<Longrightarrow> suJitter (NewScheduler wall newULID int63n n) d \<le> d"
  using assms[of "d + 1"] assms[of "defaultJitterMax + 1"]
  by (auto simp: NewScheduler_def newScheduler_def defaultSchedulerConfig_def Let_def Jitter_def
    defaultJitterMax_def Millisecond_def)

section \<open>Remote compaction\<close>

text \<open>\<open>None\<close> is a provider that does not implement the optional interface.\<close>

definition SupportsRemoteCompaction :: "bool option \<Rightarrow> bool" where
  "SupportsRemoteCompaction capabilities = (case capabilities of None \<Rightarrow> False | Some remote \<Rightarrow> remote)"

lemma remote_only_if_offered: "SupportsRemoteCompaction c \<longleftrightarrow> c = Some True"
  by (auto simp: SupportsRemoteCompaction_def split: option.splits)

end
